(* ===== verification/Aseba_Prelude.thy ===== *)
theory Aseba_Prelude
  imports Main "HOL-Library.Word"
begin

text \<open>
  Shared vocabulary of the development: machine types, the outcome type of the C++ code (a value,
  a thrown error, an abort, or undefined behaviour), sequencing of fallible steps, and the generic
  facts on lists and words that the component theories use.
\<close>

unbundle bit_operations_syntax

section \<open>Machine types\<close>

type_synonym u8 = "8 word"
type_synonym u16 = "16 word"
type_synonym i16 = "16 word"
type_synonym u32 = "32 word"
type_synonym wchar = "32 word"
type_synonym wstring = "wchar list"

text \<open>A wide string literal: one \<open>wchar\<close> per character of an ASCII literal.\<close>

definition ws :: "string \<Rightarrow> wstring" where
  "ws s = map (\<lambda>c. word_of_nat (of_char c)) s"

section \<open>Collections used by the component proofs\<close>

named_theorems outcome_simps \<open>rewriting of sequenced fallible steps\<close>
named_theorems outcome_elims \<open>inversion of successful sequenced steps\<close>
named_theorems wire_simps \<open>decoding of what an encoder wrote\<close>
named_theorems opcode_simps \<open>fields of a bytecode word\<close>

section \<open>Fallible steps\<close>

text \<open>
  A step of the C++ code either returns (\<open>Inr\<close>) or ends in a failure (\<open>Inl\<close>): the type of failures
  is a parameter here, each component fixes its own.
\<close>

definition bindR :: "'e + 'a \<Rightarrow> ('a \<Rightarrow> 'e + 'b) \<Rightarrow> 'e + 'b" where
  "bindR m f = (case m of Inl e \<Rightarrow> Inl e | Inr x \<Rightarrow> f x)"

definition guardR :: "bool \<Rightarrow> 'e \<Rightarrow> 'e + unit" where
  "guardR b e = (if b then Inr () else Inl e)"

lemma bindR_Inl [simp, outcome_simps]: "bindR (Inl e) f = Inl e"
  by (simp add: bindR_def)

lemma bindR_Inr [simp, outcome_simps]: "bindR (Inr x) f = f x"
  by (simp add: bindR_def)

lemma bindR_eq_Inr: "bindR m f = Inr y \<longleftrightarrow> (\<exists>x. m = Inr x \<and> f x = Inr y)"
  by (cases m) auto

lemma bindR_InrE [outcome_elims, elim!]:
  assumes "bindR m f = Inr y"
  obtains x where "m = Inr x" "f x = Inr y"
  using assms by (auto simp: bindR_eq_Inr)

lemma bindR_eq_Inl: "bindR m f = Inl e \<longleftrightarrow> m = Inl e \<or> (\<exists>x. m = Inr x \<and> f x = Inl e)"
  by (cases m) auto

lemma bindR_cong [fundef_cong]:
  "m = m' \<Longrightarrow> (\<And>x. m' = Inr x \<Longrightarrow> f x = f' x) \<Longrightarrow> bindR m f = bindR m' f'"
  by (cases m') (auto simp: bindR_def)

lemma bindR_assoc: "bindR (bindR m f) g = bindR m (\<lambda>x. bindR (f x) g)"
  by (cases m) auto

lemma bindR_Inr_right [simp]: "bindR m Inr = m"
  by (cases m) auto

lemma guardR_eq_Inr [simp]: "guardR b e = Inr u \<longleftrightarrow> b"
  by (simp add: guardR_def)

lemma guardR_True [simp, outcome_simps]: "guardR True e = Inr ()"
  by (simp add: guardR_def)

lemma guardR_False [simp, outcome_simps]: "guardR False e = Inl e"
  by (simp add: guardR_def)

section \<open>Fallible loops over a list\<close>

primrec mapR :: "('a \<Rightarrow> 'e + 'b) \<Rightarrow> 'a list \<Rightarrow> 'e + 'b list" where
  "mapR f [] = Inr []"
| "mapR f (x # xs) = bindR (f x) (\<lambda>y. bindR (mapR f xs) (\<lambda>ys. Inr (y # ys)))"

lemma mapR_cong [fundef_cong]:
  "xs = ys \<Longrightarrow> (\<And>x. x \<in> set ys \<Longrightarrow> f x = g x) \<Longrightarrow> mapR f xs = mapR g ys"
proof -
  assume "xs = ys" and fg: "\<And>x. x \<in> set ys \<Longrightarrow> f x = g x"
  moreover from fg have "mapR f ys = mapR g ys" by (induction ys) auto
  ultimately show ?thesis by simp
qed

lemma mapR_length: "mapR f xs = Inr ys \<Longrightarrow> length ys = length xs"
  by (induction xs arbitrary: ys) auto

lemma mapR_eq_Inr_iff: "mapR f xs = Inr ys \<longleftrightarrow> list_all2 (\<lambda>x y. f x = Inr y) xs ys"
proof (induction xs arbitrary: ys)
  case Nil
  then show ?case by auto
next
  case (Cons x xs)
  then show ?case by (cases ys) (auto simp: bindR_eq_Inr)
qed

lemma mapR_set: "mapR f xs = Inr ys \<Longrightarrow> y \<in> set ys \<Longrightarrow> \<exists>x\<in>set xs. f x = Inr y"
proof (induction xs arbitrary: ys)
  case Nil
  then show ?case by simp
next
  case (Cons x xs)
  from Cons.prems(1) obtain z zs where "f x = Inr z" "mapR f xs = Inr zs" "ys = z # zs"
    by auto
  with Cons show ?case by auto
qed

lemma mapR_eq_Inl: "mapR f xs = Inl e \<Longrightarrow> \<exists>x\<in>set xs. f x = Inl e"
  by (induction xs) (auto simp: bindR_eq_Inl)

text \<open>A loop that threads a state.\<close>

primrec foldR :: "('a \<Rightarrow> 's \<Rightarrow> 'e + 's) \<Rightarrow> 'a list \<Rightarrow> 's \<Rightarrow> 'e + 's" where
  "foldR f [] s = Inr s"
| "foldR f (x # xs) s = bindR (f x s) (foldR f xs)"

lemma foldR_cong [fundef_cong]:
  "xs = ys \<Longrightarrow> s = t \<Longrightarrow> (\<And>x u. x \<in> set ys \<Longrightarrow> f x u = g x u) \<Longrightarrow> foldR f xs s = foldR g ys t"
proof -
  assume "xs = ys" "s = t" and fg: "\<And>x u. x \<in> set ys \<Longrightarrow> f x u = g x u"
  moreover from fg have "foldR f ys t = foldR g ys t" for t
  proof (induction ys arbitrary: t)
    case (Cons y ys)
    then show ?case by (cases "g y t") auto
  qed simp
  ultimately show ?thesis by simp
qed

definition optR :: "('a \<Rightarrow> 'e + 'b) \<Rightarrow> 'a option \<Rightarrow> 'e + 'b option" where
  "optR f x = (case x of None \<Rightarrow> Inr None | Some y \<Rightarrow> bindR (f y) (\<lambda>z. Inr (Some z)))"

lemma optR_simps [simp]:
  "optR f None = Inr None" "optR f (Some y) = bindR (f y) (\<lambda>z. Inr (Some z))"
  by (simp_all add: optR_def)

lemma optR_cong [fundef_cong]:
  "x = y \<Longrightarrow> (\<And>z. z \<in> set_option y \<Longrightarrow> f z = g z) \<Longrightarrow> optR f x = optR g y"
  by (cases y) auto

lemma optR_eq_Inr: "optR f x = Inr z \<longleftrightarrow>
    (x = None \<and> z = None) \<or> (\<exists>y w. x = Some y \<and> f y = Inr w \<and> z = Some w)"
  by (cases x) (auto simp: bindR_eq_Inr)

section \<open>Words\<close>

lemma xor_right_cancel [simp]:
  fixes a b c :: "'a::len word"
  shows "a XOR c = b XOR c \<longleftrightarrow> a = b"
proof
  assume "a XOR c = b XOR c"
  then have "(a XOR c) XOR c = (b XOR c) XOR c" by simp
  then show "a = b" by (simp add: xor.assoc)
qed simp

lemma xor_left_cancel [simp]:
  fixes a b c :: "'a::len word"
  shows "c XOR a = c XOR b \<longleftrightarrow> a = b"
  by (simp add: xor.commute [of c])

lemma word_less_bit:
  fixes w :: "'a::len word"
  assumes "w < 2 ^ n" and "bit w m"
  shows "m < n"
proof -
  from assms(1) have "w AND mask n = w" by (rule less_mask_eq)
  with assms(2) have "bit (w AND mask n) m" by simp
  then show ?thesis by (simp add: bit_simps)
qed

end
