(* ===== verification/Unicode_Codec.thy ===== *)
theory Unicode_Codec
  imports Aseba_Prelude
begin

text \<open>
  The UTF-8 conversions and the XModem checksum of \<^verbatim>\<open>common/utils/utils.cpp\<close>.
  A \<^verbatim>\<open>std::string\<close> is its list of bytes, a \<^verbatim>\<open>std::wstring\<close> its list of code units. A \<^verbatim>\<open>wchar_t\<close> is 32 bits wide
  and signed, as on Linux and macOS: its comparisons read the word as a signed number.
\<close>

section \<open>Failures of the message code\<close>

datatype run_failure =
    RuntimeError      \<comment> \<open>\<^verbatim>\<open>throw std::runtime_error\<close>\<close>
  | OutOfBoundsRead   \<comment> \<open>read past the end of the storage: undefined behaviour\<close>
  | AssertionFailed   \<comment> \<open>a failed \<^verbatim>\<open>assert\<close>\<close>

section \<open>Conversions\<close>

definition enc_wchar :: "wchar \<Rightarrow> u8 list" where
  "enc_wchar c =
     (if sint c < 0x80 then [ucast c]
      else if sint c < 0x800 then
        [ucast ((drop_bit 6 c AND 0x1F) OR 0xC0), ucast ((c AND 0x3F) OR 0x80)]
      else if sint c < 0xd800 then
        [ucast ((drop_bit 12 c AND 0x0F) OR 0xE0), ucast ((drop_bit 6 c AND 0x3F) OR 0x80),
         ucast ((c AND 0x3F) OR 0x80)]
      else [0x3F])"

definition WStringToUTF8 :: "wstring \<Rightarrow> u8 list" where
  "WStringToUTF8 s = concat (map enc_wchar s)"

text \<open>
  \<open>char_at a k\<close> is \<^verbatim>\<open>a[k]\<close> for the pointer to the first character of the suffix \<open>a\<close>: the position
  after the last character holds the terminating NUL, and nothing beyond it may be read.
\<close>

definition char_at :: "u8 list \<Rightarrow> nat \<Rightarrow> run_failure + u8" where
  "char_at a k = (if k < length a then Inr (a ! k)
                  else if k = length a then Inr 0 else Inl OutOfBoundsRead)"

fun utf8_loop :: "nat \<Rightarrow> u8 list \<Rightarrow> run_failure + wstring" where
  "utf8_loop left [] = Inr []"
| "utf8_loop left (b # rest) =
     (if b AND 128 = 0 then
        bindR (utf8_loop (left - 1) rest) (\<lambda>r. Inr (ucast b # r))
      else if b AND 192 = 128 then utf8_loop left rest
      else if b AND 224 = 192 then
        bindR (guardR (\<not> left < 2) RuntimeError) (\<lambda>_.
        bindR (char_at (b # rest) 1) (\<lambda>b1.
        bindR (utf8_loop (left - 1) rest) (\<lambda>r.
          Inr ((push_bit 6 (ucast b AND 31) OR (ucast b1 AND 63)) # r))))
      else if b AND 240 = 224 then
        bindR (guardR (\<not> left < 3) RuntimeError) (\<lambda>_.
        bindR (char_at (b # rest) 1) (\<lambda>b1.
        bindR (char_at (b # rest) 2) (\<lambda>b2.
        bindR (utf8_loop (left - 1) rest) (\<lambda>r.
          Inr ((push_bit 12 (ucast b AND 15) OR push_bit 6 (ucast b1 AND 63) OR (ucast b2 AND 63)) # r)))))
      else if b AND 248 = 240 then
        bindR (utf8_loop (left - 1) rest) (\<lambda>r. Inr (0x3F # r))
      else utf8_loop (left - 1) rest)"

definition UTF8ToWString :: "u8 list \<Rightarrow> run_failure + wstring" where
  "UTF8ToWString s = utf8_loop (length s) s"

section \<open>XModem checksum\<close>

definition crc_round :: "u16 \<Rightarrow> u16" where
  "crc_round crc = (if crc AND 0x8000 \<noteq> 0 then push_bit 1 crc XOR 0x1021 else push_bit 1 crc)"

fun crc_rounds :: "nat \<Rightarrow> u16 \<Rightarrow> u16" where
  "crc_rounds 0 crc = crc"
| "crc_rounds (Suc i) crc = crc_rounds i (crc_round crc)"

definition crc_xmodem_update :: "u16 \<Rightarrow> u8 \<Rightarrow> u16" where
  "crc_xmodem_update crc d = crc_rounds 8 (crc XOR push_bit 8 (ucast d))"

definition crc_xmodem_update_bytes :: "u16 \<Rightarrow> u8 list \<Rightarrow> u16" where
  "crc_xmodem_update_bytes crc ds = foldl crc_xmodem_update crc ds"

text \<open>
  The string overload also feeds the terminating NUL of \<^verbatim>\<open>c_str()\<close> when the length is odd; the
  integer overload feeds the two bytes of the little-endian host representation.
\<close>

definition crcXModem_wstring :: "u16 \<Rightarrow> wstring \<Rightarrow> u16" where
  "crcXModem_wstring oldCrc s =
     (let utf8s = WStringToUTF8 s
      in crc_xmodem_update_bytes oldCrc (if odd (length utf8s) then utf8s @ [0] else utf8s))"

definition crcXModem_u16 :: "u16 \<Rightarrow> u16 \<Rightarrow> u16" where
  "crcXModem_u16 oldCrc v = crc_xmodem_update_bytes oldCrc [ucast v, ucast (drop_bit 8 v)]"

section \<open>Decoding what was encoded\<close>

text \<open>A unit that is not negative is compared as an unsigned number. A negative one is below \<open>0x80\<close> and
  is written as its low byte, whatever that is.\<close>

lemma sint_nonneg: "c < 0x80000000 \<Longrightarrow> sint (c :: wchar) = uint c"
proof -
  assume "c < 0x80000000"
  then have "uint c < 2 ^ 31" by (simp add: word_less_def)
  moreover have "0 \<le> uint c" by simp
  ultimately have "signed_take_bit 31 (uint c) = uint c" by (intro signed_take_bit_int_eq_self) linarith+
  then show ?thesis by (simp add: sint_uint)
qed

lemma nonneg_less: "0 \<le> sint (c :: wchar) \<Longrightarrow> c < 0x80000000"
proof -
  assume "0 \<le> sint c"
  moreover have "sint c < 2 ^ 31" using sint_lt [of c] by simp
  ultimately have "uint c < 2 ^ 31" by (simp add: uint_sint take_bit_int_eq_self)
  then show ?thesis by (simp add: word_less_def)
qed

lemma enc_wchar_nonneg:
  "c < 0x80000000 \<Longrightarrow> enc_wchar c =
     (if c < 0x80 then [ucast c]
      else if c < 0x800 then
        [ucast ((drop_bit 6 c AND 0x1F) OR 0xC0), ucast ((c AND 0x3F) OR 0x80)]
      else if c < 0xd800 then
        [ucast ((drop_bit 12 c AND 0x0F) OR 0xE0), ucast ((drop_bit 6 c AND 0x3F) OR 0x80),
         ucast ((c AND 0x3F) OR 0x80)]
      else [0x3F])"
  unfolding enc_wchar_def by (simp add: sint_nonneg word_less_def)

lemma negative_unit_raw_byte: "UTF8ToWString (WStringToUTF8 [0x800000C3, 0x80000069]) = Inr [0xE9, 0x69]"
  by (simp add: WStringToUTF8_def enc_wchar_def UTF8ToWString_def char_at_def)

text \<open>The conversion keeps a code unit below \<open>0xd800\<close> and replaces any other by a question mark.\<close>

definition utf8_repr :: "wchar \<Rightarrow> wchar" where
  "utf8_repr c = (if c < 0xd800 then c else 0x3F)"

lemma ascii_bits:
  fixes c :: wchar
  assumes "c < 0x80"
  shows "(ucast c :: u8) AND 128 = 0" and "ucast (ucast c :: u8) = c"
proof -
  from assms have nb: "bit c n \<Longrightarrow> n < 7" for n
    using word_less_bit [of c 7 n] by simp
  show "(ucast c :: u8) AND 128 = 0"
    by (rule bit_word_eqI) (auto dest!: nb simp: bit_simps bit_numeral_rec less_Suc_eq numeral_eq_Suc)
  show "ucast (ucast c :: u8) = c"
    by (rule bit_word_eqI) (auto dest: nb simp: bit_simps)
qed

lemma tail_byte_bits:
  fixes x :: wchar
  defines "b \<equiv> ucast ((x AND 0x3F) OR 0x80) :: u8"
  shows "b AND 128 \<noteq> 0" and "b AND 192 = 128" and "ucast b AND 63 = x AND 0x3F"
proof -
  have "bit b 7" by (simp add: b_def bit_simps bit_numeral_rec)
  then have "bit (b AND 128) 7" by (simp add: bit_simps bit_numeral_rec)
  then show "b AND 128 \<noteq> 0" by auto
  show "b AND 192 = 128" "ucast b AND 63 = x AND 0x3F"
    by (rule bit_word_eqI; auto simp: b_def bit_simps bit_numeral_rec less_Suc_eq numeral_eq_Suc)+
qed

lemma lead2_bits:
  fixes x :: wchar
  defines "b \<equiv> ucast ((x AND 0x1F) OR 0xC0) :: u8"
  shows "b AND 128 \<noteq> 0" and "b AND 192 \<noteq> 128" and "b AND 224 = 192" and "ucast b AND 31 = x AND 0x1F"
proof -
  have "bit b 7" "bit b 6"
    by (simp_all add: b_def bit_simps bit_numeral_rec)
  then have "bit (b AND 128) 7" "bit (b AND 192) 6"
    by (simp_all add: bit_simps bit_numeral_rec)
  then show "b AND 128 \<noteq> 0" "b AND 192 \<noteq> 128"
    by (auto simp: bit_numeral_rec)
  show "b AND 224 = 192" "ucast b AND 31 = x AND 0x1F"
    by (rule bit_word_eqI; auto simp: b_def bit_simps bit_numeral_rec less_Suc_eq numeral_eq_Suc)+
qed

lemma lead3_bits:
  fixes x :: wchar
  defines "b \<equiv> ucast ((x AND 0x0F) OR 0xE0) :: u8"
  shows "b AND 128 \<noteq> 0" and "b AND 192 \<noteq> 128" and "b AND 224 \<noteq> 192" and "b AND 240 = 224"
    and "ucast b AND 15 = x AND 0x0F"
proof -
  have "bit b 7" "bit b 6" "bit b 5"
    by (simp_all add: b_def bit_simps bit_numeral_rec)
  then have "bit (b AND 128) 7" "bit (b AND 192) 6" "bit (b AND 224) 5"
    by (simp_all add: bit_simps bit_numeral_rec)
  then show "b AND 128 \<noteq> 0" "b AND 192 \<noteq> 128" "b AND 224 \<noteq> 192"
    by (auto simp: bit_numeral_rec)
  show "b AND 240 = 224" "ucast b AND 15 = x AND 0x0F"
    by (rule bit_word_eqI; auto simp: b_def bit_simps bit_numeral_rec less_Suc_eq numeral_eq_Suc)+
qed

lemma mask_literals: "(0x0F :: wchar) = mask 4" "(0x1F :: wchar) = mask 5" "(0x3F :: wchar) = mask 6"
  by (simp_all add: mask_eq_exp_minus_1)

lemma reassemble2:
  fixes c :: wchar
  assumes "c < 0x800"
  shows "push_bit 6 (drop_bit 6 c AND 0x1F) OR (c AND 0x3F) = c"
proof -
  from assms have nb: "bit c n \<Longrightarrow> n < 11" for n
    using word_less_bit [of c 11 n] by simp
  show ?thesis unfolding mask_literals
    by (rule bit_word_eqI) (auto dest: nb simp: bit_simps)
qed

lemma reassemble3:
  fixes c :: wchar
  assumes "c < 0xd800"
  shows "push_bit 12 (drop_bit 12 c AND 0x0F) OR push_bit 6 (drop_bit 6 c AND 0x3F) OR (c AND 0x3F) = c"
proof -
  from assms have "c < 2 ^ 16" by (simp add: word_less_nat_alt)
  then have nb: "bit c n \<Longrightarrow> n < 16" for n
    by (rule word_less_bit)
  show ?thesis unfolding mask_literals
  proof (rule bit_word_eqI)
    fix n
    assume "n < LENGTH(32)"
    then show "bit (push_bit 12 (drop_bit 12 c AND mask 4) OR push_bit 6 (drop_bit 6 c AND mask 6)
        OR c AND mask 6) n = bit c n"
      by (cases "n < 12") (auto dest: nb simp: bit_simps not_less)
  qed
qed

lemma utf8_loop_two:
  assumes "b0 AND 128 \<noteq> 0" "b0 AND 192 \<noteq> 128" "b0 AND 224 = 192"
    and "b1 AND 128 \<noteq> 0" "b1 AND 192 = 128" and "2 \<le> left"
    and "push_bit 6 (ucast b0 AND 31) OR (ucast b1 AND 63) = c"
  shows "utf8_loop left (b0 # b1 # rest) = bindR (utf8_loop (left - 1) rest) (\<lambda>r. Inr (c # r))"
  using assms by (simp add: char_at_def)

lemma utf8_loop_three:
  assumes "b0 AND 128 \<noteq> 0" "b0 AND 192 \<noteq> 128" "b0 AND 224 \<noteq> 192" "b0 AND 240 = 224"
    and "b1 AND 128 \<noteq> 0" "b1 AND 192 = 128" "b2 AND 128 \<noteq> 0" "b2 AND 192 = 128" and "3 \<le> left"
    and "push_bit 12 (ucast b0 AND 15) OR push_bit 6 (ucast b1 AND 63) OR (ucast b2 AND 63) = c"
  shows "utf8_loop left (b0 # b1 # b2 # rest) = bindR (utf8_loop (left - 1) rest) (\<lambda>r. Inr (c # r))"
  using assms by (simp add: char_at_def)

lemma utf8_loop_enc:
  assumes "length (enc_wchar c @ rest) \<le> left" and nonneg: "c < 0x80000000"
  shows "utf8_loop left (enc_wchar c @ rest) =
      bindR (utf8_loop (left - 1) rest) (\<lambda>r. Inr (utf8_repr c # r))"
proof -
  consider "c < 0x80" | "\<not> c < 0x80" "c < 0x800" | "\<not> c < 0x800" "c < 0xd800" | "\<not> c < 0xd800"
    by blast
  then show ?thesis
  proof cases
    case 1
    then have "utf8_repr c = c" by (simp add: utf8_repr_def word_less_nat_alt)
    with 1 assms show ?thesis
      by (simp add: enc_wchar_nonneg [OF nonneg] ascii_bits)
  next
    case 2
    then have e: "enc_wchar c =
        [ucast ((drop_bit 6 c AND 0x1F) OR 0xC0), ucast ((c AND 0x3F) OR 0x80)]"
      and "utf8_repr c = c"
      by (simp_all add: enc_wchar_nonneg [OF nonneg] utf8_repr_def word_less_nat_alt)
    moreover have "2 \<le> left" using assms e by simp
    ultimately show ?thesis
      using utf8_loop_two [OF lead2_bits(1-3) tail_byte_bits(1,2) _ refl] reassemble2 [OF 2(2)]
      by (simp only: lead2_bits(4) tail_byte_bits(3) append.simps)
  next
    case 3
    then have e: "enc_wchar c = [ucast ((drop_bit 12 c AND 0x0F) OR 0xE0),
        ucast ((drop_bit 6 c AND 0x3F) OR 0x80), ucast ((c AND 0x3F) OR 0x80)]"
      and "utf8_repr c = c"
      by (simp_all add: enc_wchar_nonneg [OF nonneg] utf8_repr_def word_less_nat_alt)
    moreover have "3 \<le> left" using assms e by simp
    ultimately show ?thesis
      using utf8_loop_three [OF lead3_bits(1-4) tail_byte_bits(1,2) tail_byte_bits(1,2) _ refl]
        reassemble3 [OF 3(2)]
      by (simp only: lead3_bits(5) tail_byte_bits(3) append.simps)
  next
    case 4
    then have "\<not> c < 0x80" "\<not> c < 0x800" by (simp_all add: word_less_nat_alt)
    with 4 assms show ?thesis
      by (simp add: enc_wchar_nonneg [OF nonneg] utf8_repr_def)
  qed
qed

lemma enc_wchar_nonempty: "0 < length (enc_wchar c)"
  by (simp add: enc_wchar_def)

lemma utf8_loop_concat:
  "length (concat (map enc_wchar s)) \<le> left \<Longrightarrow> \<forall>c\<in>set s. c < 0x80000000 \<Longrightarrow>
   utf8_loop left (concat (map enc_wchar s)) = Inr (map utf8_repr s)"
proof (induction s arbitrary: left)
  case Nil
  then show ?case by simp
next
  case (Cons c s)
  have "length (concat (map enc_wchar s)) \<le> left - 1"
    using Cons.prems enc_wchar_nonempty [of c] unfolding list.map concat.simps length_append
    by linarith
  then have "utf8_loop (left - 1) (concat (map enc_wchar s)) = Inr (map utf8_repr s)"
    using Cons.prems by (intro Cons.IH) auto
  moreover have "length (enc_wchar c @ concat (map enc_wchar s)) \<le> left"
    using Cons.prems by simp
  ultimately show ?case using Cons.prems by (simp add: utf8_loop_enc)
qed

text \<open>C15: Converting a wide string whose units are not negative (every Unicode character is one) to UTF-8
  and back never fails and never reads out of bounds; it returns the string itself, with every code unit
  from \<open>0xd800\<close> on replaced by a question mark.\<close>

theorem utf8_roundtrip:
  assumes "\<forall>c\<in>set s. 0 \<le> sint c"
  shows "UTF8ToWString (WStringToUTF8 s) = Inr (map (\<lambda>c. if c < 0xd800 then c else 0x3F) s)"
  using assms by (simp add: UTF8ToWString_def WStringToUTF8_def utf8_loop_concat nonneg_less utf8_repr_def [abs_def])

theorem utf8_roundtrip_witness:
  "UTF8ToWString (WStringToUTF8 [0x54, 0xE9, 0x20AC, 0x1F600]) = Inr [0x54, 0xE9, 0x20AC, 0x3F]"
  using utf8_roundtrip [of "[0x54, 0xE9, 0x20AC, 0x1F600]"] by simp

corollary utf8_roundtrip_bmp [wire_simps]:
  "list_all (\<lambda>c. c < 0xd800) s \<Longrightarrow> UTF8ToWString (WStringToUTF8 s) = Inr s"
proof -
  assume *: "list_all (\<lambda>c. c < 0xd800) s"
  then have "\<forall>c\<in>set s. c < 0x80000000"
    by (auto simp: list_all_iff intro: less_trans)
  with * show ?thesis
    by (simp add: UTF8ToWString_def WStringToUTF8_def utf8_loop_concat list_all_iff utf8_repr_def map_idI)
qed

text \<open>The guard against truncated input is not enough: \<^verbatim>\<open>left\<close> is not decremented on continuation
  bytes, so a three-byte lead at the very end, after two complete two-byte characters, passes the
  test and \<^verbatim>\<open>a[2]\<close> is read past the terminating NUL.\<close>

theorem utf8_truncated_overread:
  "UTF8ToWString [0xC3, 0xA9, 0xC3, 0xA9, 0xE2] = Inl OutOfBoundsRead"
  by (simp add: UTF8ToWString_def char_at_def)

section \<open>The checksum detects a change in one byte\<close>

lemma crc_round_inj: "crc_round x = crc_round y \<Longrightarrow> x = y"
proof -
  assume eq: "crc_round x = crc_round y"
  have top: "z AND 0x8000 \<noteq> 0 \<longleftrightarrow> bit z 15" for z :: u16
    using and_exp_eq_0_iff_not_bit [of z 15] by simp
  have "bit (crc_round z) 0 = bit z 15" for z
    unfolding crc_round_def top by (simp add: bit_0 even_xor_iff)
  with eq have same: "bit x 15 = bit y 15" by metis
  have "push_bit 1 x = push_bit 1 y"
    using eq same unfolding crc_round_def top by (auto split: if_splits)
  then have sh: "bit (push_bit 1 x) (Suc n) = bit (push_bit 1 y) (Suc n)" for n by simp
  show "x = y"
  proof (rule bit_word_eqI)
    fix n
    assume n: "n < LENGTH(16)"
    show "bit x n = bit y n"
    proof (cases "n = 15")
      case True
      with same show ?thesis by simp
    next
      case False
      with n sh [of n] show ?thesis unfolding bit_push_bit_iff by simp
    qed
  qed
qed

lemma crc_rounds_inj: "crc_rounds i x = crc_rounds i y \<Longrightarrow> x = y"
  by (induction i arbitrary: x y) (auto dest: crc_round_inj)

lemma crc_update_inj_crc: "crc_xmodem_update c d = crc_xmodem_update c' d \<Longrightarrow> c = c'"
  unfolding crc_xmodem_update_def by (drule crc_rounds_inj) simp

lemma crc_update_inj_data: "crc_xmodem_update c d = crc_xmodem_update c d' \<Longrightarrow> d = d'"
proof -
  assume "crc_xmodem_update c d = crc_xmodem_update c d'"
  then have eq: "push_bit 8 (ucast d :: u16) = push_bit 8 (ucast d')"
    unfolding crc_xmodem_update_def by (drule_tac crc_rounds_inj) (simp only: xor_left_cancel)
  show "d = d'"
  proof (rule bit_word_eqI)
    fix n
    assume "n < LENGTH(8)"
    then show "bit d n = bit d' n"
      using arg_cong [OF eq, of "\<lambda>w. bit w (n + 8)"] by (simp add: bit_simps)
  qed
qed

lemma crc_bytes_inj_crc:
  "crc_xmodem_update_bytes c ds = crc_xmodem_update_bytes c' ds \<Longrightarrow> c = c'"
  by (induction ds arbitrary: c c')
    (auto simp: crc_xmodem_update_bytes_def dest: crc_update_inj_crc)

text \<open>Two byte streams that differ in exactly one byte have different XModem checksums.\<close>

theorem crc_detects_byte_change:
  "crc_xmodem_update_bytes c (xs @ a # ys) = crc_xmodem_update_bytes c (xs @ b # ys) \<longleftrightarrow> a = b"
proof
  assume "crc_xmodem_update_bytes c (xs @ a # ys) = crc_xmodem_update_bytes c (xs @ b # ys)"
  then have "crc_xmodem_update_bytes (crc_xmodem_update (crc_xmodem_update_bytes c xs) a) ys =
      crc_xmodem_update_bytes (crc_xmodem_update (crc_xmodem_update_bytes c xs) b) ys"
    by (simp add: crc_xmodem_update_bytes_def)
  then show "a = b" by (blast dest: crc_bytes_inj_crc crc_update_inj_data)
qed simp

end
