(* ===== verification/Wire_Buffer.thy ===== *)
theory Wire_Buffer
  imports Unicode_Codec
begin

text \<open>
  \<^verbatim>\<open>Message::SerializationBuffer\<close> of \<^verbatim>\<open>common/msg\<close>: bytes appended by \<open>add\<close>, read back from
  \<open>readPos\<close> by \<open>get\<close>, with the overread check. The interface \<open>wire_codec\<close> states what an
  add/get pair promises; the messages rest on its instances for bytes, words and strings.
\<close>

record buffer =
  rawData :: "u8 list"
  readPos :: nat

definition empty_buffer :: buffer where
  "empty_buffer = \<lparr>rawData = [], readPos = 0\<rparr>"

definition append_bytes :: "u8 list \<Rightarrow> buffer \<Rightarrow> buffer" where
  "append_bytes bs b = b\<lparr>rawData := rawData b @ bs\<rparr>"

definition add_u8 :: "u8 \<Rightarrow> buffer \<Rightarrow> run_failure + buffer" where
  "add_u8 v b = Inr (append_bytes [v] b)"

definition add_u16 :: "u16 \<Rightarrow> buffer \<Rightarrow> run_failure + buffer" where
  "add_u16 v b = Inr (append_bytes [ucast v, ucast (drop_bit 8 v)] b)"

primrec add_list :: "('a \<Rightarrow> buffer \<Rightarrow> run_failure + buffer) \<Rightarrow> 'a list \<Rightarrow> buffer \<Rightarrow> run_failure + buffer" where
  "add_list add [] b = Inr b"
| "add_list add (x # xs) b = bindR (add x b) (add_list add xs)"

definition add_string :: "u8 list \<Rightarrow> buffer \<Rightarrow> run_failure + buffer" where
  "add_string s b =
     (if length s > 255 then Inl RuntimeError
      else bindR (add_u8 (word_of_nat (length s)) b) (add_list add_u8 s))"

text \<open>One byte of the storage; a position past its end is an out-of-bounds read. The readers check the
  size before they copy the bytes, and it is for that check that the copy is in bounds.\<close>

definition byte_at :: "buffer \<Rightarrow> nat \<Rightarrow> run_failure + u8" where
  "byte_at b k = (if k < length (rawData b) then Inr (rawData b ! k) else Inl OutOfBoundsRead)"

definition get_u8 :: "buffer \<Rightarrow> run_failure + u8 \<times> buffer" where
  "get_u8 b = (if readPos b + 1 > length (rawData b) then Inl RuntimeError
               else bindR (byte_at b (readPos b)) (\<lambda>v. Inr (v, b\<lparr>readPos := readPos b + 1\<rparr>)))"

definition get_u16 :: "buffer \<Rightarrow> run_failure + u16 \<times> buffer" where
  "get_u16 b = (if readPos b + 2 > length (rawData b) then Inl RuntimeError
                else bindR (byte_at b (readPos b)) (\<lambda>lo. bindR (byte_at b (readPos b + 1)) (\<lambda>hi.
                     Inr (ucast lo OR push_bit 8 (ucast hi), b\<lparr>readPos := readPos b + 2\<rparr>))))"

lemma get_u8_in_bounds:
  "get_u8 b = (if readPos b + 1 > length (rawData b) then Inl RuntimeError
               else Inr (rawData b ! readPos b, b\<lparr>readPos := readPos b + 1\<rparr>))"
  by (simp add: get_u8_def byte_at_def)

lemma get_u16_in_bounds:
  "get_u16 b = (if readPos b + 2 > length (rawData b) then Inl RuntimeError
                else Inr (ucast (rawData b ! readPos b) OR push_bit 8 (ucast (rawData b ! (readPos b + 1))),
                          b\<lparr>readPos := readPos b + 2\<rparr>))"
  by (simp add: get_u16_def byte_at_def)

primrec get_times :: "(buffer \<Rightarrow> run_failure + 'a \<times> buffer) \<Rightarrow> nat \<Rightarrow> buffer \<Rightarrow> run_failure + 'a list \<times> buffer" where
  "get_times get 0 b = Inr ([], b)"
| "get_times get (Suc n) b =
     bindR (get b) (\<lambda>(x, b). bindR (get_times get n b) (\<lambda>(xs, b). Inr (x # xs, b)))"

definition get_string :: "buffer \<Rightarrow> run_failure + u8 list \<times> buffer" where
  "get_string b = bindR (get_u8 b) (\<lambda>(len, b). get_times get_u8 (unat len) b)"

text \<open>Run a sequence of \<open>add\<close> calls on one buffer.\<close>

primrec add_all :: "(buffer \<Rightarrow> run_failure + buffer) list \<Rightarrow> buffer \<Rightarrow> run_failure + buffer" where
  "add_all [] b = Inr b"
| "add_all (f # fs) b = bindR (f b) (add_all fs)"

text \<open>Read position \<open>pre\<close> bytes into a buffer that has \<open>rest\<close> left to read.\<close>

definition input_at :: "u8 list \<Rightarrow> u8 list \<Rightarrow> buffer" where
  "input_at pre rest = \<lparr>rawData = pre @ rest, readPos = length pre\<rparr>"

section \<open>The interface of an add/get pair\<close>

locale wire_codec =
  fixes add :: "'a \<Rightarrow> buffer \<Rightarrow> run_failure + buffer"
    and get :: "buffer \<Rightarrow> run_failure + 'a \<times> buffer"
    and enc :: "'a \<Rightarrow> u8 list"
    and ok :: "'a \<Rightarrow> bool"
  assumes add_ok: "ok x \<Longrightarrow> add x b = Inr (append_bytes (enc x) b)"
    and get_enc: "ok x \<Longrightarrow> get (input_at pre (enc x @ rest)) = Inr (x, input_at (pre @ enc x) rest)"
    and get_overread: "get (input_at pre []) = Inl RuntimeError"
begin

lemma add_list_ok:
  "list_all ok xs \<Longrightarrow> add_list add xs b = Inr (append_bytes (concat (map enc xs)) b)"
  by (induction xs arbitrary: b) (simp_all add: add_ok append_bytes_def)

lemma get_times_enc:
  "list_all ok xs \<Longrightarrow> get_times get (length xs) (input_at pre (concat (map enc xs) @ rest)) =
    Inr (xs, input_at (pre @ concat (map enc xs)) rest)"
  by (induction xs arbitrary: pre) (simp_all add: get_enc)

lemma get_enc_nil: "ok x \<Longrightarrow> get (input_at pre (enc x)) = Inr (x, input_at (pre @ enc x) [])"
  using get_enc [of x pre "[]"] by simp

lemma get_times_enc_nil:
  "list_all ok xs \<Longrightarrow> get_times get (length xs) (input_at pre (concat (map enc xs))) =
    Inr (xs, input_at (pre @ concat (map enc xs)) [])"
  using get_times_enc [of xs pre "[]"] by simp

lemma get_roundtrip:
  assumes "ok x"
  shows "bindR (add x empty_buffer) get = Inr (x, input_at (enc x) [])"
proof -
  have "append_bytes (enc x) empty_buffer = input_at [] (enc x @ [])"
    by (simp add: append_bytes_def empty_buffer_def input_at_def)
  with get_enc [OF assms, of "[]" "[]"] show ?thesis
    by (simp add: add_ok [OF assms])
qed

end

definition enc_u8 :: "u8 \<Rightarrow> u8 list" where
  "enc_u8 v = [v]"

definition enc_u16 :: "u16 \<Rightarrow> u8 list" where
  "enc_u16 v = [ucast v, ucast (drop_bit 8 v)]"

definition enc_string :: "u8 list \<Rightarrow> u8 list" where
  "enc_string s = word_of_nat (length s) # s"

abbreviation any :: "'a \<Rightarrow> bool" where
  "any x \<equiv> True"

lemma u16_bytes: "ucast (ucast v :: u8) OR push_bit 8 (ucast (ucast (drop_bit 8 v) :: u8)) = (v :: u16)"
  by (rule bit_word_eqI) (auto simp: bit_simps not_less)

interpretation byte: wire_codec add_u8 get_u8 enc_u8 any
  by unfold_locales (simp_all add: add_u8_def get_u8_in_bounds enc_u8_def append_bytes_def input_at_def)

interpretation word: wire_codec add_u16 get_u16 enc_u16 any
  by unfold_locales
    (simp_all add: add_u16_def get_u16_in_bounds enc_u16_def append_bytes_def input_at_def nth_append u16_bytes)

abbreviation short :: "'a list \<Rightarrow> bool" where
  "short s \<equiv> length s < 256"

lemma concat_enc_u8 [simp]: "concat (map enc_u8 s) = s"
  by (induction s) (simp_all add: enc_u8_def)

lemma list_all_any [simp]: "list_all any xs"
  by (simp add: list_all_iff)

lemma get_string_enc:
  assumes "short s"
  shows "get_string (input_at pre (enc_string s @ rest)) = Inr (s, input_at (pre @ enc_string s) rest)"
proof -
  let ?n = "word_of_nat (length s) :: u8"
  have n: "unat ?n = length s" using assms by (simp add: unat_of_nat)
  have "get_u8 (input_at pre (?n # s @ rest)) = Inr (?n, input_at (pre @ [?n]) (s @ rest))"
    using byte.get_enc [where x = ?n and pre = pre and rest = "s @ rest"] by (simp add: enc_u8_def)
  moreover have "get_times get_u8 (length s) (input_at (pre @ [?n]) (s @ rest)) =
      Inr (s, input_at (pre @ [?n] @ s) rest)"
    using byte.get_times_enc [where xs = s and pre = "pre @ [?n]" and rest = rest] by simp
  ultimately show ?thesis by (simp add: get_string_def enc_string_def n)
qed

lemma add_string_enc: "short s \<Longrightarrow> add_string s b = Inr (append_bytes (enc_string s) b)"
proof -
  assume "short s"
  then have "add_string s b = add_list add_u8 s (append_bytes [word_of_nat (length s)] b)"
    by (simp add: add_string_def add_u8_def)
  also have "\<dots> = Inr (append_bytes (concat (map enc_u8 s)) (append_bytes [word_of_nat (length s)] b))"
    by (rule byte.add_list_ok) simp
  finally show ?thesis by (simp add: append_bytes_def enc_string_def)
qed

interpretation str: wire_codec add_string get_string enc_string short
  by unfold_locales (simp_all add: add_string_enc get_string_enc,
      simp add: get_string_def get_u8_in_bounds input_at_def)

lemmas wire_get =
  byte.get_enc [OF TrueI] word.get_enc [OF TrueI] str.get_enc
  byte.get_enc_nil [OF TrueI] word.get_enc_nil [OF TrueI] str.get_enc_nil

lemmas wire_add = byte.add_ok [OF TrueI] word.add_ok [OF TrueI] str.add_ok

end
