(* ===== verification/Ordered_Map.thy ===== *)
theory Ordered_Map
  imports Aseba_Prelude "HOL-Library.List_Lexorder"
begin

text \<open>
  \<^verbatim>\<open>std::map\<close>, used by the compiler for its identifier tables and for the bytecode of events and
  subroutines: an association list kept in key order, so that iteration is list traversal. The
  contract of the operations is the locale \<open>keyed_store\<close>; the ordered list is its interpretation
  \<open>omap\<close>. Wide strings are compared as lists of code units (no unit of a decoded string has its top
  bit set, so the sign of \<^verbatim>\<open>wchar_t\<close> does not matter).
\<close>

type_synonym ('k, 'v) std_map = "('k \<times> 'v) list"

fun map_set :: "'k::linorder \<Rightarrow> 'v \<Rightarrow> ('k, 'v) std_map \<Rightarrow> ('k, 'v) std_map" where
  "map_set k v [] = [(k, v)]"
| "map_set k v ((k', v') # m) =
     (if k < k' then (k, v) # (k', v') # m
      else if k = k' then (k, v) # m
      else (k', v') # map_set k v m)"

definition map_find :: "('k, 'v) std_map \<Rightarrow> 'k \<Rightarrow> 'v option" where
  "map_find m k = map_of m k"

definition map_erase :: "'k \<Rightarrow> ('k, 'v) std_map \<Rightarrow> ('k, 'v) std_map" where
  "map_erase k m = filter (\<lambda>e. fst e \<noteq> k) m"

definition ordered :: "('k::linorder, 'v) std_map \<Rightarrow> bool" where
  "ordered m = sorted_wrt (<) (map fst m)"

text \<open>Entries inserted one after the other with \<^verbatim>\<open>operator[]\<close>.\<close>

definition map_fill :: "('k::linorder \<times> 'v) list \<Rightarrow> ('k, 'v) std_map \<Rightarrow> ('k, 'v) std_map" where
  "map_fill es m = foldl (\<lambda>m (k, v). map_set k v m) m es"

section \<open>The contract of a keyed store\<close>

locale keyed_store =
  fixes inv :: "'m \<Rightarrow> bool"
    and find :: "'m \<Rightarrow> 'k \<Rightarrow> 'v option"
    and put :: "'k \<Rightarrow> 'v \<Rightarrow> 'm \<Rightarrow> 'm"
    and del :: "'k \<Rightarrow> 'm \<Rightarrow> 'm"
  assumes find_put: "find (put k v m) k' = (if k' = k then Some v else find m k')"
    and find_del: "find (del k m) k' = (if k' = k then None else find m k')"
    and inv_put: "inv m \<Longrightarrow> inv (put k v m)"
    and inv_del: "inv m \<Longrightarrow> inv (del k m)"
begin

lemma find_fill:
  "find (foldl (\<lambda>m (k, v). put k v m) m es) k =
    (case map_of (rev es) k of Some v \<Rightarrow> Some v | None \<Rightarrow> find m k)"
proof (induction es rule: rev_induct)
  case (snoc e es)
  then show ?case by (cases e) (simp add: find_put)
qed simp

lemma inv_fill: "inv m \<Longrightarrow> inv (foldl (\<lambda>m (k, v). put k v m) m es)"
  by (induction es arbitrary: m) (auto simp: inv_put)

lemma put_overwrites: "find (put k v (put k v' m)) = find (put k v m)"
  by (rule ext) (simp add: find_put)

lemma put_commutes: "k \<noteq> k' \<Longrightarrow> find (put k v (put k' v' m)) = find (put k' v' (put k v m))"
  by (rule ext) (simp add: find_put)

end

section \<open>The ordered list provides it\<close>

lemma map_of_map_set: "map_of (map_set k v m) = (map_of m)(k \<mapsto> v)"
  by (induction k v m rule: map_set.induct) (auto simp: fun_eq_iff)

lemma keys_map_set: "fst ` set (map_set k v m) = insert k (fst ` set m)"
  by (induction k v m rule: map_set.induct) auto

lemma ordered_map_set: "ordered m \<Longrightarrow> ordered (map_set k v m)"
proof (induction k v m rule: map_set.induct)
  case (2 k v k' v' m)
  then show ?case
    using keys_map_set [of k v m] by (auto simp: ordered_def)
qed (simp add: ordered_def)

lemma ordered_map_erase: "ordered m \<Longrightarrow> ordered (map_erase k m)"
  by (simp add: ordered_def map_erase_def sorted_wrt_map sorted_wrt_filter)

lemma map_find_map_erase: "map_find (map_erase k m) k' = (if k' = k then None else map_find m k')"
  by (induction m) (auto simp: map_find_def map_erase_def)

lemma map_find_map_set: "map_find (map_set k v m) k' = (if k' = k then Some v else map_find m k')"
  by (simp add: map_find_def map_of_map_set)

interpretation omap: keyed_store ordered map_find map_set map_erase
  by unfold_locales
    (simp_all add: map_find_map_erase map_find_map_set ordered_map_set ordered_map_erase)

lemma ordered_distinct: "ordered m \<Longrightarrow> distinct (map fst m)"
  by (simp add: ordered_def strict_sorted_iff)

lemma map_find_map_fill:
  "map_find (map_fill es m) k = (case map_of (rev es) k of Some v \<Rightarrow> Some v | None \<Rightarrow> map_find m k)"
  by (simp add: map_fill_def omap.find_fill)

lemma ordered_map_fill: "ordered m \<Longrightarrow> ordered (map_fill es m)"
  by (simp add: map_fill_def omap.inv_fill)

lemma map_find_Nil [simp]: "map_find [] k = None"
  by (simp add: map_find_def)

lemma map_find_in_keys: "map_find m k \<noteq> None \<longleftrightarrow> k \<in> fst ` set m"
  by (simp add: map_find_def map_of_eq_None_iff)

lemma map_find_SomeD: "map_find m k = Some v \<Longrightarrow> (k, v) \<in> set m"
  by (simp add: map_find_def map_of_SomeD)

lemma map_find_entry: "ordered m \<Longrightarrow> (k, v) \<in> set m \<Longrightarrow> map_find m k = Some v"
  by (simp add: map_find_def ordered_distinct)

end
