(* ===== verification/Target_Description.thy ===== *)
theory Target_Description
  imports Unicode_Codec Ordered_Map
begin

text \<open>
  The description of a target virtual machine: \<^verbatim>\<open>common/msg/TargetDescription.h\<close> and
  \<^verbatim>\<open>TargetDescription.cpp\<close>. The tables are \<^verbatim>\<open>std::map\<close>s from names.
\<close>

record named_variable =
  nv_name :: wstring
  nv_size :: u32

record local_event =
  le_name :: wstring
  le_description :: wstring

record native_function_parameter =
  np_name :: wstring
  np_size :: int

record native_function =
  nf_name :: wstring
  nf_description :: wstring
  nf_parameters :: "native_function_parameter list"

record target_description =
  td_name :: wstring
  protocolVersion :: u32
  bytecodeSize :: u32
  variablesSize :: u32
  stackSize :: u32
  namedVariables :: "named_variable list"
  localEvents :: "local_event list"
  nativeFunctions :: "native_function list"

text \<open>Default-constructed elements, as \<^verbatim>\<open>resize\<close> creates them.\<close>

definition blank_variable :: named_variable where
  "blank_variable = \<lparr>nv_name = [], nv_size = 0\<rparr>"

definition blank_event :: local_event where
  "blank_event = \<lparr>le_name = [], le_description = []\<rparr>"

definition blank_parameter :: native_function_parameter where
  "blank_parameter = \<lparr>np_name = [], np_size = 0\<rparr>"

definition blank_function :: native_function where
  "blank_function = \<lparr>nf_name = [], nf_description = [], nf_parameters = []\<rparr>"

definition blank_target :: target_description where
  "blank_target = \<lparr>td_name = [], protocolVersion = 0, bytecodeSize = 0, variablesSize = 0,
     stackSize = 0, namedVariables = [], localEvents = [], nativeFunctions = []\<rparr>"

definition crc_parameter :: "u16 \<Rightarrow> native_function_parameter \<Rightarrow> u16" where
  "crc_parameter crc p = crcXModem_wstring (crcXModem_u16 crc (word_of_int (np_size p))) (np_name p)"

definition crc_function :: "u16 \<Rightarrow> native_function \<Rightarrow> u16" where
  "crc_function crc f = foldl crc_parameter (crcXModem_wstring crc (nf_name f)) (nf_parameters f)"

definition crc :: "target_description \<Rightarrow> u16" where
  "crc d =
     (let c = crcXModem_u16 0 (ucast (bytecodeSize d));
          c = crcXModem_u16 c (ucast (variablesSize d));
          c = crcXModem_u16 c (ucast (stackSize d));
          c = foldl (\<lambda>c v. crcXModem_wstring (crcXModem_u16 c (ucast (nv_size v))) (nv_name v))
                c (namedVariables d);
          c = foldl (\<lambda>c e. crcXModem_wstring c (le_name e)) c (localEvents d)
      in foldl crc_function c (nativeFunctions d))"

type_synonym variables_map = "(wstring, u32 \<times> u32) std_map"
type_synonym functions_map = "(wstring, u32) std_map"

fun variables_map_loop ::
  "named_variable list \<Rightarrow> variables_map \<Rightarrow> u32 \<Rightarrow> variables_map \<times> u32" where
  "variables_map_loop [] m free = (m, free)"
| "variables_map_loop (v # vs) m free =
     variables_map_loop vs (map_set (nv_name v) (free, nv_size v) m) (free + nv_size v)"

definition getVariablesMap :: "target_description \<Rightarrow> variables_map \<times> u32" where
  "getVariablesMap d = variables_map_loop (namedVariables d) [] 0"

fun functions_map_loop :: "native_function list \<Rightarrow> u32 \<Rightarrow> functions_map \<Rightarrow> functions_map" where
  "functions_map_loop [] i m = m"
| "functions_map_loop (f # fs) i m = functions_map_loop fs (i + 1) (map_set (nf_name f) i m)"

definition getFunctionsMap :: "target_description \<Rightarrow> functions_map" where
  "getFunctionsMap d = functions_map_loop (nativeFunctions d) 0 []"

section \<open>Layout of the named variables\<close>

abbreviation total_size :: "named_variable list \<Rightarrow> nat" where
  "total_size vs \<equiv> sum_list (map (\<lambda>v. unat (nv_size v)) vs)"

lemma total_size_eq: "snd (variables_map_loop vs m free) = free + sum_list (map nv_size vs)"
  by (induction vs arbitrary: m free) (auto simp: add.assoc)

lemma unat_sum_sizes:
  "total_size vs < 2 ^ 32 \<Longrightarrow> unat (sum_list (map nv_size vs)) = total_size vs"
proof (induction vs)
  case (Cons v vs)
  then have "unat (sum_list (map nv_size vs)) = total_size vs" by simp
  with Cons.prems show ?case by (simp add: unat_word_ariths)
qed simp

lemma variables_map_loop_other:
  "x \<notin> nv_name ` set vs \<Longrightarrow> map_find (fst (variables_map_loop vs m free)) x = map_find m x"
  by (induction vs arbitrary: m free) (auto simp: map_find_map_set)

lemma variables_map_loop_at:
  assumes "distinct (map nv_name (us @ v # vs))"
  shows "map_find (fst (variables_map_loop (us @ v # vs) m free)) (nv_name v) =
    Some (free + sum_list (map nv_size us), nv_size v)"
  using assms
proof (induction us arbitrary: m free)
  case Nil
  then show ?case by (simp add: variables_map_loop_other map_find_map_set)
next
  case (Cons u us)
  then show ?case by (simp add: add.assoc)
qed

lemma getVariablesMap_nth:
  assumes "distinct (map nv_name (namedVariables d))" and "i < length (namedVariables d)"
  shows "map_find (fst (getVariablesMap d)) (nv_name (namedVariables d ! i)) =
    Some (sum_list (map nv_size (take i (namedVariables d))), nv_size (namedVariables d ! i))"
proof -
  from assms(2) have split: "namedVariables d =
      take i (namedVariables d) @ namedVariables d ! i # drop (Suc i) (namedVariables d)"
    by (rule id_take_nth_drop)
  with assms(1) have "distinct (map nv_name
      (take i (namedVariables d) @ namedVariables d ! i # drop (Suc i) (namedVariables d)))"
    by simp
  from variables_map_loop_at [OF this, of "[]" 0] split show ?thesis
    by (simp add: getVariablesMap_def)
qed

lemma total_size_take_mono: "i \<le> j \<Longrightarrow> total_size (take i vs) \<le> total_size (take j vs)"
proof -
  assume "i \<le> j"
  then have "take j vs = take i vs @ take (j - i) (drop i vs)"
    by (metis le_add_diff_inverse take_add)
  then show ?thesis by simp
qed

lemma total_size_take_le: "total_size (take i vs) \<le> total_size vs"
  by (metis append_take_drop_id le_add1 map_append sum_list_append)

lemma total_size_take_Suc:
  "i < length vs \<Longrightarrow> total_size (take (Suc i) vs) = total_size (take i vs) + unat (nv_size (vs ! i))"
  by (simp add: take_Suc_conv_app_nth)

text \<open>The variables map lays the named variables of a target out one after the other: when their
  names are distinct and their total size fits 32 bits, a variable ends before any later one starts,
  and every variable ends at or before the first free index.\<close>

theorem variables_map_layout:
  assumes "distinct (map nv_name (namedVariables d))"
    and "total_size (namedVariables d) < 2 ^ 32"
    and "i < j" and "j < length (namedVariables d)"
    and "map_find (fst (getVariablesMap d)) (nv_name (namedVariables d ! i)) = Some (a, s)"
    and "map_find (fst (getVariablesMap d)) (nv_name (namedVariables d ! j)) = Some (a', s')"
  shows "unat a + unat s \<le> unat a' \<and> unat a' + unat s' \<le> unat (snd (getVariablesMap d))"
proof -
  let ?vs = "namedVariables d"
  have small: "total_size (take k ?vs) < 2 ^ 32" for k
    using total_size_take_le [of k ?vs] assms(2) by linarith
  from assms(1,3-6) have a: "a = sum_list (map nv_size (take i ?vs))" "s = nv_size (?vs ! i)"
    and a': "a' = sum_list (map nv_size (take j ?vs))" "s' = nv_size (?vs ! j)"
    by (simp_all add: getVariablesMap_nth)
  have "unat a + unat s = total_size (take (Suc i) ?vs)"
    using a small assms(3,4) by (simp add: unat_sum_sizes total_size_take_Suc)
  moreover have "unat a' = total_size (take j ?vs)"
    using a' small by (simp add: unat_sum_sizes)
  moreover have "unat a' + unat s' = total_size (take (Suc j) ?vs)"
    using a' small assms(4) by (simp add: unat_sum_sizes total_size_take_Suc)
  moreover have "unat (snd (getVariablesMap d)) = total_size ?vs"
    using assms(2) by (simp add: getVariablesMap_def total_size_eq unat_sum_sizes)
  ultimately show ?thesis
    using total_size_take_mono [of "Suc i" j ?vs] total_size_take_le [of "Suc j" ?vs] assms(3)
    by simp
qed

definition sample_target :: target_description where
  "sample_target = \<lparr>td_name = ws ''thymio-II'', protocolVersion = 5, bytecodeSize = 1534,
     variablesSize = 620, stackSize = 32,
     namedVariables = [\<lparr>nv_name = ws ''_id'', nv_size = 1\<rparr>, \<lparr>nv_name = ws ''event.args'', nv_size = 32\<rparr>],
     localEvents = [], nativeFunctions = []\<rparr>"

end
