(* ===== verification/Messages.thy ===== *)
theory Messages
  imports Wire_Buffer Target_Description
begin

text \<open>
  The messages exchanged with the nodes: \<^verbatim>\<open>common/msg/msg.h\<close>, \<^verbatim>\<open>msg.cpp\<close> and the identifiers of
  \<^verbatim>\<open>common/consts.h\<close>. The class hierarchy is the datatype \<open>body\<close>, one constructor per class with the
  class's data members (the destination of a command first); the header members of the base class
  are in the record \<open>message\<close>. \<open>serializeSpecific\<close> and \<open>deserializeSpecific\<close> dispatch on
  the class; the latter takes the object it fills, because a member that is not transmitted keeps
  the value it had. \<open>enc_body\<close> is the wire format as a specification.
\<close>

section \<open>Identifiers\<close>

datatype (plugins only: size code) AsebaSystemMessagesTypes =
    ASEBA_MESSAGE_BOOTLOADER_RESET | ASEBA_MESSAGE_BOOTLOADER_READ_PAGE
  | ASEBA_MESSAGE_BOOTLOADER_WRITE_PAGE | ASEBA_MESSAGE_BOOTLOADER_PAGE_DATA_WRITE
  | ASEBA_MESSAGE_BOOTLOADER_DESCRIPTION | ASEBA_MESSAGE_BOOTLOADER_PAGE_DATA_READ
  | ASEBA_MESSAGE_BOOTLOADER_ACK
  | ASEBA_MESSAGE_DESCRIPTION | ASEBA_MESSAGE_NAMED_VARIABLE_DESCRIPTION
  | ASEBA_MESSAGE_LOCAL_EVENT_DESCRIPTION | ASEBA_MESSAGE_NATIVE_FUNCTION_DESCRIPTION
  | ASEBA_MESSAGE_DISCONNECTED | ASEBA_MESSAGE_VARIABLES | ASEBA_MESSAGE_ARRAY_ACCESS_OUT_OF_BOUNDS
  | ASEBA_MESSAGE_DIVISION_BY_ZERO | ASEBA_MESSAGE_EVENT_EXECUTION_KILLED
  | ASEBA_MESSAGE_NODE_SPECIFIC_ERROR | ASEBA_MESSAGE_EXECUTION_STATE_CHANGED
  | ASEBA_MESSAGE_BREAKPOINT_SET_RESULT | ASEBA_MESSAGE_NODE_PRESENT | ASEBA_MESSAGE_DEVICE_INFO
  | ASEBA_MESSAGE_CHANGED_VARIABLES
  | ASEBA_MESSAGE_GET_DESCRIPTION | ASEBA_MESSAGE_SET_BYTECODE | ASEBA_MESSAGE_RESET
  | ASEBA_MESSAGE_RUN | ASEBA_MESSAGE_PAUSE | ASEBA_MESSAGE_STEP | ASEBA_MESSAGE_STOP
  | ASEBA_MESSAGE_GET_EXECUTION_STATE | ASEBA_MESSAGE_BREAKPOINT_SET | ASEBA_MESSAGE_BREAKPOINT_CLEAR
  | ASEBA_MESSAGE_BREAKPOINT_CLEAR_ALL | ASEBA_MESSAGE_GET_VARIABLES | ASEBA_MESSAGE_SET_VARIABLES
  | ASEBA_MESSAGE_WRITE_BYTECODE | ASEBA_MESSAGE_REBOOT | ASEBA_MESSAGE_SUSPEND_TO_RAM
  | ASEBA_MESSAGE_GET_NODE_DESCRIPTION | ASEBA_MESSAGE_LIST_NODES | ASEBA_MESSAGE_GET_DEVICE_INFO
  | ASEBA_MESSAGE_SET_DEVICE_INFO | ASEBA_MESSAGE_GET_CHANGED_VARIABLES
  | ASEBA_MESSAGE_GET_NODE_DESCRIPTION_FRAGMENT | ASEBA_MESSAGE_INVALID

primrec message_code :: "AsebaSystemMessagesTypes \<Rightarrow> u16" where
  "message_code ASEBA_MESSAGE_BOOTLOADER_RESET = 0x8000"
| "message_code ASEBA_MESSAGE_BOOTLOADER_READ_PAGE = 0x8001"
| "message_code ASEBA_MESSAGE_BOOTLOADER_WRITE_PAGE = 0x8002"
| "message_code ASEBA_MESSAGE_BOOTLOADER_PAGE_DATA_WRITE = 0x8003"
| "message_code ASEBA_MESSAGE_BOOTLOADER_DESCRIPTION = 0x8004"
| "message_code ASEBA_MESSAGE_BOOTLOADER_PAGE_DATA_READ = 0x8005"
| "message_code ASEBA_MESSAGE_BOOTLOADER_ACK = 0x8006"
| "message_code ASEBA_MESSAGE_DESCRIPTION = 0x9000"
| "message_code ASEBA_MESSAGE_NAMED_VARIABLE_DESCRIPTION = 0x9001"
| "message_code ASEBA_MESSAGE_LOCAL_EVENT_DESCRIPTION = 0x9002"
| "message_code ASEBA_MESSAGE_NATIVE_FUNCTION_DESCRIPTION = 0x9003"
| "message_code ASEBA_MESSAGE_DISCONNECTED = 0x9004"
| "message_code ASEBA_MESSAGE_VARIABLES = 0x9005"
| "message_code ASEBA_MESSAGE_ARRAY_ACCESS_OUT_OF_BOUNDS = 0x9006"
| "message_code ASEBA_MESSAGE_DIVISION_BY_ZERO = 0x9007"
| "message_code ASEBA_MESSAGE_EVENT_EXECUTION_KILLED = 0x9008"
| "message_code ASEBA_MESSAGE_NODE_SPECIFIC_ERROR = 0x9009"
| "message_code ASEBA_MESSAGE_EXECUTION_STATE_CHANGED = 0x900A"
| "message_code ASEBA_MESSAGE_BREAKPOINT_SET_RESULT = 0x900B"
| "message_code ASEBA_MESSAGE_NODE_PRESENT = 0x900C"
| "message_code ASEBA_MESSAGE_DEVICE_INFO = 0x900D"
| "message_code ASEBA_MESSAGE_CHANGED_VARIABLES = 0x900E"
| "message_code ASEBA_MESSAGE_GET_DESCRIPTION = 0xA000"
| "message_code ASEBA_MESSAGE_SET_BYTECODE = 0xA001"
| "message_code ASEBA_MESSAGE_RESET = 0xA002"
| "message_code ASEBA_MESSAGE_RUN = 0xA003"
| "message_code ASEBA_MESSAGE_PAUSE = 0xA004"
| "message_code ASEBA_MESSAGE_STEP = 0xA005"
| "message_code ASEBA_MESSAGE_STOP = 0xA006"
| "message_code ASEBA_MESSAGE_GET_EXECUTION_STATE = 0xA007"
| "message_code ASEBA_MESSAGE_BREAKPOINT_SET = 0xA008"
| "message_code ASEBA_MESSAGE_BREAKPOINT_CLEAR = 0xA009"
| "message_code ASEBA_MESSAGE_BREAKPOINT_CLEAR_ALL = 0xA00A"
| "message_code ASEBA_MESSAGE_GET_VARIABLES = 0xA00B"
| "message_code ASEBA_MESSAGE_SET_VARIABLES = 0xA00C"
| "message_code ASEBA_MESSAGE_WRITE_BYTECODE = 0xA00D"
| "message_code ASEBA_MESSAGE_REBOOT = 0xA00E"
| "message_code ASEBA_MESSAGE_SUSPEND_TO_RAM = 0xA00F"
| "message_code ASEBA_MESSAGE_GET_NODE_DESCRIPTION = 0xA010"
| "message_code ASEBA_MESSAGE_LIST_NODES = 0xA011"
| "message_code ASEBA_MESSAGE_GET_DEVICE_INFO = 0xA012"
| "message_code ASEBA_MESSAGE_SET_DEVICE_INFO = 0xA013"
| "message_code ASEBA_MESSAGE_GET_CHANGED_VARIABLES = 0xA014"
| "message_code ASEBA_MESSAGE_GET_NODE_DESCRIPTION_FRAGMENT = 0xA015"
| "message_code ASEBA_MESSAGE_INVALID = 0xFFFF"

definition ASEBA_PROTOCOL_VERSION :: u16 where "ASEBA_PROTOCOL_VERSION = 9"
definition ASEBA_DEST_INVALID :: u16 where "ASEBA_DEST_INVALID = 0xFFFF"
definition ASEBA_MAX_EVENT_ARG_COUNT :: nat where "ASEBA_MAX_EVENT_ARG_COUNT = 258"
definition PROGRAMMING_FAILED :: u16 where "PROGRAMMING_FAILED = 2"

section \<open>Message classes\<close>

datatype (plugins only: size code) body =
    UserMessage "i16 list"
  | BootloaderDescription u16 u16 u16
  | BootloaderDataRead "u8 list"
  | BootloaderAck u16 u16
  | ListNodes u16
  | NodePresent u16
  | GetDescription u16
  | GetNodeDescription u16 u16
  | GetNodeDescriptionFragment u16 u16 i16
  | Description target_description
  | NamedVariableDescription named_variable
  | LocalEventDescription local_event
  | NativeFunctionDescription native_function
  | Disconnected
  | Variables u16 "i16 list"
  | ChangedVariables "(u16 \<times> i16 list) list"
  | ArrayAccessOutOfBounds u16 u16 u16
  | DivisionByZero u16
  | EventExecutionKilled u16
  | NodeSpecificError u16 wstring
  | ExecutionStateChanged u16 u16
  | BreakpointSetResult u16 u16
  | BootloaderReset u16
  | BootloaderReadPage u16 u16
  | BootloaderWritePage u16 u16
  | BootloaderPageDataWrite u16 "u8 list"
  | SetBytecode u16 u16 "u16 list"
  | SetDeviceInfo u16 u32 "u8 list"
  | GetDeviceInfo u16 u32
  | DeviceInfo u32 "u8 list"
  | Reset u16
  | Run u16
  | Pause u16
  | Step u16
  | Stop u16
  | GetExecutionState u16
  | BreakpointSet u16 u16
  | BreakpointClear u16 u16
  | BreakpointClearAll u16
  | GetVariables u16 u16 u16
  | GetChangedVariables u16
  | SetVariables u16 u16 "i16 list"
  | WriteBytecode u16
  | Reboot u16
  | Sleep u16

record message =
  source :: u16
  mtype :: u16
  mbody :: body

text \<open>The type a constructor of the class passes to the base class.\<close>

primrec class_type :: "body \<Rightarrow> AsebaSystemMessagesTypes" where
  "class_type (UserMessage _) = ASEBA_MESSAGE_INVALID"
| "class_type (BootloaderDescription _ _ _) = ASEBA_MESSAGE_BOOTLOADER_DESCRIPTION"
| "class_type (BootloaderDataRead _) = ASEBA_MESSAGE_BOOTLOADER_PAGE_DATA_READ"
| "class_type (BootloaderAck _ _) = ASEBA_MESSAGE_BOOTLOADER_ACK"
| "class_type (ListNodes _) = ASEBA_MESSAGE_LIST_NODES"
| "class_type (NodePresent _) = ASEBA_MESSAGE_NODE_PRESENT"
| "class_type (GetDescription _) = ASEBA_MESSAGE_GET_DESCRIPTION"
| "class_type (GetNodeDescription _ _) = ASEBA_MESSAGE_GET_NODE_DESCRIPTION"
| "class_type (GetNodeDescriptionFragment _ _ _) = ASEBA_MESSAGE_GET_NODE_DESCRIPTION_FRAGMENT"
| "class_type (Description _) = ASEBA_MESSAGE_DESCRIPTION"
| "class_type (NamedVariableDescription _) = ASEBA_MESSAGE_NAMED_VARIABLE_DESCRIPTION"
| "class_type (LocalEventDescription _) = ASEBA_MESSAGE_LOCAL_EVENT_DESCRIPTION"
| "class_type (NativeFunctionDescription _) = ASEBA_MESSAGE_NATIVE_FUNCTION_DESCRIPTION"
| "class_type Disconnected = ASEBA_MESSAGE_DISCONNECTED"
| "class_type (Variables _ _) = ASEBA_MESSAGE_VARIABLES"
| "class_type (ChangedVariables _) = ASEBA_MESSAGE_CHANGED_VARIABLES"
| "class_type (ArrayAccessOutOfBounds _ _ _) = ASEBA_MESSAGE_ARRAY_ACCESS_OUT_OF_BOUNDS"
| "class_type (DivisionByZero _) = ASEBA_MESSAGE_DIVISION_BY_ZERO"
| "class_type (EventExecutionKilled _) = ASEBA_MESSAGE_EVENT_EXECUTION_KILLED"
| "class_type (NodeSpecificError _ _) = ASEBA_MESSAGE_NODE_SPECIFIC_ERROR"
| "class_type (ExecutionStateChanged _ _) = ASEBA_MESSAGE_EXECUTION_STATE_CHANGED"
| "class_type (BreakpointSetResult _ _) = ASEBA_MESSAGE_BREAKPOINT_SET_RESULT"
| "class_type (BootloaderReset _) = ASEBA_MESSAGE_BOOTLOADER_RESET"
| "class_type (BootloaderReadPage _ _) = ASEBA_MESSAGE_BOOTLOADER_READ_PAGE"
| "class_type (BootloaderWritePage _ _) = ASEBA_MESSAGE_BOOTLOADER_WRITE_PAGE"
| "class_type (BootloaderPageDataWrite _ _) = ASEBA_MESSAGE_BOOTLOADER_PAGE_DATA_WRITE"
| "class_type (SetBytecode _ _ _) = ASEBA_MESSAGE_SET_BYTECODE"
| "class_type (SetDeviceInfo _ _ _) = ASEBA_MESSAGE_SET_DEVICE_INFO"
| "class_type (GetDeviceInfo _ _) = ASEBA_MESSAGE_GET_DEVICE_INFO"
| "class_type (DeviceInfo _ _) = ASEBA_MESSAGE_DEVICE_INFO"
| "class_type (Reset _) = ASEBA_MESSAGE_RESET"
| "class_type (Run _) = ASEBA_MESSAGE_RUN"
| "class_type (Pause _) = ASEBA_MESSAGE_PAUSE"
| "class_type (Step _) = ASEBA_MESSAGE_STEP"
| "class_type (Stop _) = ASEBA_MESSAGE_STOP"
| "class_type (GetExecutionState _) = ASEBA_MESSAGE_GET_EXECUTION_STATE"
| "class_type (BreakpointSet _ _) = ASEBA_MESSAGE_BREAKPOINT_SET"
| "class_type (BreakpointClear _ _) = ASEBA_MESSAGE_BREAKPOINT_CLEAR"
| "class_type (BreakpointClearAll _) = ASEBA_MESSAGE_BREAKPOINT_CLEAR_ALL"
| "class_type (GetVariables _ _ _) = ASEBA_MESSAGE_GET_VARIABLES"
| "class_type (GetChangedVariables _) = ASEBA_MESSAGE_GET_CHANGED_VARIABLES"
| "class_type (SetVariables _ _ _) = ASEBA_MESSAGE_SET_VARIABLES"
| "class_type (WriteBytecode _) = ASEBA_MESSAGE_WRITE_BYTECODE"
| "class_type (Reboot _) = ASEBA_MESSAGE_REBOOT"
| "class_type (Sleep _) = ASEBA_MESSAGE_SUSPEND_TO_RAM"

end
