(* ===== verification/Message_Codec.thy ===== *)
theory Message_Codec
  imports Messages
begin

text \<open>
  Serialization and deserialization of every message class of \<^verbatim>\<open>common/msg/msg.cpp\<close>, the table of
  known types with \<open>createMessage\<close>, \<open>Message::create\<close> and \<open>Message::clone\<close>, and the splitting
  of a program into upload messages (\<open>sendBytecode\<close>).
\<close>

section \<open>Serialization\<close>

definition ser_UserMessage :: "i16 list \<Rightarrow> buffer \<Rightarrow> run_failure + buffer" where
  "ser_UserMessage d = add_list add_u16 d"

definition ser_CmdMessage :: "u16 \<Rightarrow> buffer \<Rightarrow> run_failure + buffer" where
  "ser_CmdMessage dest = add_u16 dest"

definition ser_BootloaderDescription :: "u16 \<Rightarrow> u16 \<Rightarrow> u16 \<Rightarrow> buffer \<Rightarrow> run_failure + buffer" where
  "ser_BootloaderDescription pageSize pagesStart pagesCount =
     add_all [add_u16 pageSize, add_u16 pagesStart, add_u16 pagesCount]"

definition ser_BootloaderDataRead :: "u8 list \<Rightarrow> buffer \<Rightarrow> run_failure + buffer" where
  "ser_BootloaderDataRead d = add_list add_u8 d"

definition ser_BootloaderAck :: "u16 \<Rightarrow> u16 \<Rightarrow> buffer \<Rightarrow> run_failure + buffer" where
  "ser_BootloaderAck errorCode errorAddress =
     add_all (add_u16 errorCode # (if errorCode = PROGRAMMING_FAILED then [add_u16 errorAddress] else []))"

definition ser_ListNodes :: "u16 \<Rightarrow> buffer \<Rightarrow> run_failure + buffer" where
  "ser_ListNodes version = add_u16 version"

definition ser_NodePresent :: "u16 \<Rightarrow> buffer \<Rightarrow> run_failure + buffer" where
  "ser_NodePresent version = add_u16 version"

definition ser_GetDescription :: "u16 \<Rightarrow> buffer \<Rightarrow> run_failure + buffer" where
  "ser_GetDescription version = add_u16 version"

definition ser_GetNodeDescription :: "u16 \<Rightarrow> u16 \<Rightarrow> buffer \<Rightarrow> run_failure + buffer" where
  "ser_GetNodeDescription dest version = add_all [ser_CmdMessage dest, add_u16 version]"

definition ser_GetNodeDescriptionFragment ::
  "u16 \<Rightarrow> u16 \<Rightarrow> i16 \<Rightarrow> buffer \<Rightarrow> run_failure + buffer" where
  "ser_GetNodeDescriptionFragment dest version fragment =
     add_all [ser_CmdMessage dest, add_u16 version, add_u16 fragment]"

definition ser_Description :: "target_description \<Rightarrow> buffer \<Rightarrow> run_failure + buffer" where
  "ser_Description d =
     add_all [add_string (WStringToUTF8 (td_name d)), add_u16 (ucast (protocolVersion d)),
       add_u16 (ucast (bytecodeSize d)), add_u16 (ucast (stackSize d)), add_u16 (ucast (variablesSize d)),
       add_u16 (word_of_nat (length (namedVariables d))),
       add_u16 (word_of_nat (length (localEvents d))),
       add_u16 (word_of_nat (length (nativeFunctions d)))]"

definition ser_NamedVariableDescription :: "named_variable \<Rightarrow> buffer \<Rightarrow> run_failure + buffer" where
  "ser_NamedVariableDescription v =
     add_all [add_u16 (ucast (nv_size v)), add_string (WStringToUTF8 (nv_name v))]"

definition ser_LocalEventDescription :: "local_event \<Rightarrow> buffer \<Rightarrow> run_failure + buffer" where
  "ser_LocalEventDescription e =
     add_all [add_string (WStringToUTF8 (le_name e)), add_string (WStringToUTF8 (le_description e))]"

definition add_parameter :: "native_function_parameter \<Rightarrow> buffer \<Rightarrow> run_failure + buffer" where
  "add_parameter p = add_all [add_u16 (word_of_int (np_size p)), add_string (WStringToUTF8 (np_name p))]"

definition ser_NativeFunctionDescription :: "native_function \<Rightarrow> buffer \<Rightarrow> run_failure + buffer" where
  "ser_NativeFunctionDescription f =
     add_all [add_string (WStringToUTF8 (nf_name f)), add_string (WStringToUTF8 (nf_description f)),
       add_u16 (word_of_nat (length (nf_parameters f))), add_list add_parameter (nf_parameters f)]"

definition ser_Variables :: "u16 \<Rightarrow> i16 list \<Rightarrow> buffer \<Rightarrow> run_failure + buffer" where
  "ser_Variables start vs = add_all [add_u16 start, add_list add_u16 vs]"

definition ser_ChangedVariables :: "buffer \<Rightarrow> run_failure + buffer" where
  "ser_ChangedVariables b = Inl AssertionFailed"

definition ser_ArrayAccessOutOfBounds :: "u16 \<Rightarrow> u16 \<Rightarrow> u16 \<Rightarrow> buffer \<Rightarrow> run_failure + buffer" where
  "ser_ArrayAccessOutOfBounds pc sz index = add_all [add_u16 pc, add_u16 sz, add_u16 index]"

definition ser_DivisionByZero :: "u16 \<Rightarrow> buffer \<Rightarrow> run_failure + buffer" where
  "ser_DivisionByZero pc = add_u16 pc"

definition ser_EventExecutionKilled :: "u16 \<Rightarrow> buffer \<Rightarrow> run_failure + buffer" where
  "ser_EventExecutionKilled pc = add_u16 pc"

definition ser_NodeSpecificError :: "u16 \<Rightarrow> wstring \<Rightarrow> buffer \<Rightarrow> run_failure + buffer" where
  "ser_NodeSpecificError pc msg = add_all [add_u16 pc, add_string (WStringToUTF8 msg)]"

definition ser_ExecutionStateChanged :: "u16 \<Rightarrow> u16 \<Rightarrow> buffer \<Rightarrow> run_failure + buffer" where
  "ser_ExecutionStateChanged pc flags = add_all [add_u16 pc, add_u16 flags]"

definition ser_BreakpointSetResult :: "u16 \<Rightarrow> u16 \<Rightarrow> buffer \<Rightarrow> run_failure + buffer" where
  "ser_BreakpointSetResult pc success = add_all [add_u16 pc, add_u16 success]"

definition ser_BootloaderReadPage :: "u16 \<Rightarrow> u16 \<Rightarrow> buffer \<Rightarrow> run_failure + buffer" where
  "ser_BootloaderReadPage dest pageNumber = add_all [ser_CmdMessage dest, add_u16 pageNumber]"

definition ser_BootloaderWritePage :: "u16 \<Rightarrow> u16 \<Rightarrow> buffer \<Rightarrow> run_failure + buffer" where
  "ser_BootloaderWritePage dest pageNumber = add_all [ser_CmdMessage dest, add_u16 pageNumber]"

definition ser_BootloaderPageDataWrite :: "u16 \<Rightarrow> u8 list \<Rightarrow> buffer \<Rightarrow> run_failure + buffer" where
  "ser_BootloaderPageDataWrite dest d = add_all [ser_CmdMessage dest, add_list add_u8 d]"

definition ser_SetBytecode :: "u16 \<Rightarrow> u16 \<Rightarrow> u16 list \<Rightarrow> buffer \<Rightarrow> run_failure + buffer" where
  "ser_SetBytecode dest start bytecode =
     add_all [ser_CmdMessage dest, add_u16 start, add_list add_u16 bytecode]"

definition ser_SetDeviceInfo :: "u16 \<Rightarrow> u32 \<Rightarrow> u8 list \<Rightarrow> buffer \<Rightarrow> run_failure + buffer" where
  "ser_SetDeviceInfo dest info d =
     add_all [ser_CmdMessage dest, add_u16 (ucast info), add_u16 (word_of_nat (length d)), add_list add_u8 d]"

definition ser_GetDeviceInfo :: "u16 \<Rightarrow> u32 \<Rightarrow> buffer \<Rightarrow> run_failure + buffer" where
  "ser_GetDeviceInfo dest info = add_all [ser_CmdMessage dest, add_u16 (ucast info)]"

definition ser_DeviceInfo :: "u32 \<Rightarrow> u8 list \<Rightarrow> buffer \<Rightarrow> run_failure + buffer" where
  "ser_DeviceInfo info d =
     add_all [add_u8 (ucast info), add_u8 (word_of_nat (length d)), add_list add_u8 d]"

definition ser_BreakpointSet :: "u16 \<Rightarrow> u16 \<Rightarrow> buffer \<Rightarrow> run_failure + buffer" where
  "ser_BreakpointSet dest pc = add_all [ser_CmdMessage dest, add_u16 pc]"

definition ser_BreakpointClear :: "u16 \<Rightarrow> u16 \<Rightarrow> buffer \<Rightarrow> run_failure + buffer" where
  "ser_BreakpointClear dest pc = add_all [ser_CmdMessage dest, add_u16 pc]"

definition ser_GetVariables :: "u16 \<Rightarrow> u16 \<Rightarrow> u16 \<Rightarrow> buffer \<Rightarrow> run_failure + buffer" where
  "ser_GetVariables dest start len = add_all [ser_CmdMessage dest, add_u16 start, add_u16 len]"

definition ser_SetVariables :: "u16 \<Rightarrow> u16 \<Rightarrow> i16 list \<Rightarrow> buffer \<Rightarrow> run_failure + buffer" where
  "ser_SetVariables dest start vs = add_all [ser_CmdMessage dest, add_u16 start, add_list add_u16 vs]"

primrec serializeSpecific :: "body \<Rightarrow> buffer \<Rightarrow> run_failure + buffer" where
  "serializeSpecific (UserMessage d) = ser_UserMessage d"
| "serializeSpecific (BootloaderDescription a s c) = ser_BootloaderDescription a s c"
| "serializeSpecific (BootloaderDataRead d) = ser_BootloaderDataRead d"
| "serializeSpecific (BootloaderAck e a) = ser_BootloaderAck e a"
| "serializeSpecific (ListNodes v) = ser_ListNodes v"
| "serializeSpecific (NodePresent v) = ser_NodePresent v"
| "serializeSpecific (GetDescription v) = ser_GetDescription v"
| "serializeSpecific (GetNodeDescription dest v) = ser_GetNodeDescription dest v"
| "serializeSpecific (GetNodeDescriptionFragment dest v f) = ser_GetNodeDescriptionFragment dest v f"
| "serializeSpecific (Description d) = ser_Description d"
| "serializeSpecific (NamedVariableDescription v) = ser_NamedVariableDescription v"
| "serializeSpecific (LocalEventDescription e) = ser_LocalEventDescription e"
| "serializeSpecific (NativeFunctionDescription f) = ser_NativeFunctionDescription f"
| "serializeSpecific Disconnected = Inr"
| "serializeSpecific (Variables st vs) = ser_Variables st vs"
| "serializeSpecific (ChangedVariables vs) = ser_ChangedVariables"
| "serializeSpecific (ArrayAccessOutOfBounds pc s i) = ser_ArrayAccessOutOfBounds pc s i"
| "serializeSpecific (DivisionByZero pc) = ser_DivisionByZero pc"
| "serializeSpecific (EventExecutionKilled pc) = ser_EventExecutionKilled pc"
| "serializeSpecific (NodeSpecificError pc m) = ser_NodeSpecificError pc m"
| "serializeSpecific (ExecutionStateChanged pc f) = ser_ExecutionStateChanged pc f"
| "serializeSpecific (BreakpointSetResult pc s) = ser_BreakpointSetResult pc s"
| "serializeSpecific (BootloaderReset dest) = ser_CmdMessage dest"
| "serializeSpecific (BootloaderReadPage dest n) = ser_BootloaderReadPage dest n"
| "serializeSpecific (BootloaderWritePage dest n) = ser_BootloaderWritePage dest n"
| "serializeSpecific (BootloaderPageDataWrite dest d) = ser_BootloaderPageDataWrite dest d"
| "serializeSpecific (SetBytecode dest st bc) = ser_SetBytecode dest st bc"
| "serializeSpecific (SetDeviceInfo dest i d) = ser_SetDeviceInfo dest i d"
| "serializeSpecific (GetDeviceInfo dest i) = ser_GetDeviceInfo dest i"
| "serializeSpecific (DeviceInfo i d) = ser_DeviceInfo i d"
| "serializeSpecific (Reset dest) = ser_CmdMessage dest"
| "serializeSpecific (Run dest) = ser_CmdMessage dest"
| "serializeSpecific (Pause dest) = ser_CmdMessage dest"
| "serializeSpecific (Step dest) = ser_CmdMessage dest"
| "serializeSpecific (Stop dest) = ser_CmdMessage dest"
| "serializeSpecific (GetExecutionState dest) = ser_CmdMessage dest"
| "serializeSpecific (BreakpointSet dest pc) = ser_BreakpointSet dest pc"
| "serializeSpecific (BreakpointClear dest pc) = ser_BreakpointClear dest pc"
| "serializeSpecific (BreakpointClearAll dest) = ser_CmdMessage dest"
| "serializeSpecific (GetVariables dest st n) = ser_GetVariables dest st n"
| "serializeSpecific (GetChangedVariables dest) = ser_CmdMessage dest"
| "serializeSpecific (SetVariables dest st vs) = ser_SetVariables dest st vs"
| "serializeSpecific (WriteBytecode dest) = ser_CmdMessage dest"
| "serializeSpecific (Reboot dest) = ser_CmdMessage dest"
| "serializeSpecific (Sleep dest) = ser_CmdMessage dest"

section \<open>Deserialization\<close>

definition deser_UserMessage :: "buffer \<Rightarrow> run_failure + body \<times> buffer" where
  "deser_UserMessage b =
     (if length (rawData b) mod 2 \<noteq> 0 then Inl RuntimeError
      else bindR (get_times get_u16 (length (rawData b) div 2) b) (\<lambda>(d, b). Inr (UserMessage d, b)))"

definition deser_BootloaderDescription :: "buffer \<Rightarrow> run_failure + body \<times> buffer" where
  "deser_BootloaderDescription b =
     bindR (get_u16 b) (\<lambda>(pageSize, b). bindR (get_u16 b) (\<lambda>(pagesStart, b).
     bindR (get_u16 b) (\<lambda>(pagesCount, b). Inr (BootloaderDescription pageSize pagesStart pagesCount, b))))"

definition deser_BootloaderDataRead :: "buffer \<Rightarrow> run_failure + body \<times> buffer" where
  "deser_BootloaderDataRead b = bindR (get_times get_u8 4 b) (\<lambda>(d, b). Inr (BootloaderDataRead d, b))"

definition deser_BootloaderAck :: "u16 \<Rightarrow> buffer \<Rightarrow> run_failure + body \<times> buffer" where
  "deser_BootloaderAck oldAddress b =
     bindR (get_u16 b) (\<lambda>(errorCode, b).
       if errorCode = PROGRAMMING_FAILED
       then bindR (get_u16 b) (\<lambda>(errorAddress, b). Inr (BootloaderAck errorCode errorAddress, b))
       else Inr (BootloaderAck errorCode oldAddress, b))"

text \<open>Members that are one to three 16-bit words, and command messages with such members.\<close>

definition deser_word :: "(u16 \<Rightarrow> body) \<Rightarrow> buffer \<Rightarrow> run_failure + body \<times> buffer" where
  "deser_word mk b = bindR (get_u16 b) (\<lambda>(v, b). Inr (mk v, b))"

definition deser_word2 :: "(u16 \<Rightarrow> u16 \<Rightarrow> body) \<Rightarrow> buffer \<Rightarrow> run_failure + body \<times> buffer" where
  "deser_word2 mk b = bindR (get_u16 b) (\<lambda>(v, b). deser_word (mk v) b)"

definition deser_word3 :: "(u16 \<Rightarrow> u16 \<Rightarrow> u16 \<Rightarrow> body) \<Rightarrow> buffer \<Rightarrow> run_failure + body \<times> buffer" where
  "deser_word3 mk b = bindR (get_u16 b) (\<lambda>(u, b). deser_word2 (mk u) b)"

definition deser_CmdMessage :: "(u16 \<Rightarrow> buffer \<Rightarrow> run_failure + body \<times> buffer) \<Rightarrow> buffer \<Rightarrow> run_failure + body \<times> buffer" where
  "deser_CmdMessage rest b = bindR (get_u16 b) (\<lambda>(dest, b). rest dest b)"

definition deser_cmd :: "(u16 \<Rightarrow> body) \<Rightarrow> buffer \<Rightarrow> run_failure + body \<times> buffer" where
  "deser_cmd mk = deser_CmdMessage (\<lambda>dest b. Inr (mk dest, b))"

definition deser_ListNodes :: "buffer \<Rightarrow> run_failure + body \<times> buffer" where
  "deser_ListNodes = deser_word ListNodes"

definition deser_NodePresent :: "buffer \<Rightarrow> run_failure + body \<times> buffer" where
  "deser_NodePresent = deser_word NodePresent"

definition deser_GetDescription :: "buffer \<Rightarrow> run_failure + body \<times> buffer" where
  "deser_GetDescription = deser_word GetDescription"

definition deser_GetNodeDescription :: "buffer \<Rightarrow> run_failure + body \<times> buffer" where
  "deser_GetNodeDescription = deser_CmdMessage (\<lambda>dest. deser_word (GetNodeDescription dest))"

definition deser_GetNodeDescriptionFragment :: "buffer \<Rightarrow> run_failure + body \<times> buffer" where
  "deser_GetNodeDescriptionFragment = deser_CmdMessage (\<lambda>dest. deser_word2 (GetNodeDescriptionFragment dest))"

definition deser_ArrayAccessOutOfBounds :: "buffer \<Rightarrow> run_failure + body \<times> buffer" where
  "deser_ArrayAccessOutOfBounds = deser_word3 ArrayAccessOutOfBounds"

definition deser_DivisionByZero :: "buffer \<Rightarrow> run_failure + body \<times> buffer" where
  "deser_DivisionByZero = deser_word DivisionByZero"

definition deser_EventExecutionKilled :: "buffer \<Rightarrow> run_failure + body \<times> buffer" where
  "deser_EventExecutionKilled = deser_word EventExecutionKilled"

definition deser_ExecutionStateChanged :: "buffer \<Rightarrow> run_failure + body \<times> buffer" where
  "deser_ExecutionStateChanged = deser_word2 ExecutionStateChanged"

definition deser_BreakpointSetResult :: "buffer \<Rightarrow> run_failure + body \<times> buffer" where
  "deser_BreakpointSetResult = deser_word2 BreakpointSetResult"

definition deser_BootloaderReadPage :: "buffer \<Rightarrow> run_failure + body \<times> buffer" where
  "deser_BootloaderReadPage = deser_CmdMessage (\<lambda>dest. deser_word (BootloaderReadPage dest))"

definition deser_BootloaderWritePage :: "buffer \<Rightarrow> run_failure + body \<times> buffer" where
  "deser_BootloaderWritePage = deser_CmdMessage (\<lambda>dest. deser_word (BootloaderWritePage dest))"

definition deser_BreakpointSet :: "buffer \<Rightarrow> run_failure + body \<times> buffer" where
  "deser_BreakpointSet = deser_CmdMessage (\<lambda>dest. deser_word (BreakpointSet dest))"

definition deser_BreakpointClear :: "buffer \<Rightarrow> run_failure + body \<times> buffer" where
  "deser_BreakpointClear = deser_CmdMessage (\<lambda>dest. deser_word (BreakpointClear dest))"

definition deser_GetVariables :: "buffer \<Rightarrow> run_failure + body \<times> buffer" where
  "deser_GetVariables = deser_CmdMessage (\<lambda>dest. deser_word2 (GetVariables dest))"

definition get_wstring :: "buffer \<Rightarrow> run_failure + wstring \<times> buffer" where
  "get_wstring b = bindR (get_string b) (\<lambda>(s, b). bindR (UTF8ToWString s) (\<lambda>w. Inr (w, b)))"

definition deser_Description :: "target_description \<Rightarrow> buffer \<Rightarrow> run_failure + body \<times> buffer" where
  "deser_Description d b =
     bindR (get_wstring b) (\<lambda>(name, b). bindR (get_u16 b) (\<lambda>(version, b).
     bindR (get_u16 b) (\<lambda>(bcSize, b). bindR (get_u16 b) (\<lambda>(stSize, b). bindR (get_u16 b) (\<lambda>(varSize, b).
     bindR (get_u16 b) (\<lambda>(nv, b). bindR (get_u16 b) (\<lambda>(le, b). bindR (get_u16 b) (\<lambda>(nf, b).
       Inr (Description \<lparr>td_name = name, protocolVersion = ucast version, bytecodeSize = ucast bcSize,
         variablesSize = ucast varSize, stackSize = ucast stSize,
         namedVariables = take (unat nv) (namedVariables d @ replicate (unat nv) blank_variable),
         localEvents = take (unat le) (localEvents d @ replicate (unat le) blank_event),
         nativeFunctions = take (unat nf) (nativeFunctions d @ replicate (unat nf) blank_function)\<rparr>, b)))))))))"

definition deser_NamedVariableDescription :: "buffer \<Rightarrow> run_failure + body \<times> buffer" where
  "deser_NamedVariableDescription b =
     bindR (get_u16 b) (\<lambda>(size, b). bindR (get_wstring b) (\<lambda>(name, b).
       Inr (NamedVariableDescription \<lparr>nv_name = name, nv_size = ucast size\<rparr>, b)))"

definition deser_LocalEventDescription :: "buffer \<Rightarrow> run_failure + body \<times> buffer" where
  "deser_LocalEventDescription b =
     bindR (get_wstring b) (\<lambda>(name, b). bindR (get_wstring b) (\<lambda>(descr, b).
       Inr (LocalEventDescription \<lparr>le_name = name, le_description = descr\<rparr>, b)))"

definition get_parameter :: "buffer \<Rightarrow> run_failure + native_function_parameter \<times> buffer" where
  "get_parameter b = bindR (get_u16 b) (\<lambda>(size, b). bindR (get_wstring b) (\<lambda>(name, b).
     Inr (\<lparr>np_name = name, np_size = sint size\<rparr>, b)))"

definition deser_NativeFunctionDescription :: "buffer \<Rightarrow> run_failure + body \<times> buffer" where
  "deser_NativeFunctionDescription b =
     bindR (get_wstring b) (\<lambda>(name, b). bindR (get_wstring b) (\<lambda>(descr, b).
     bindR (get_u16 b) (\<lambda>(n, b). bindR (get_times get_parameter (unat n) b) (\<lambda>(ps, b).
       Inr (NativeFunctionDescription \<lparr>nf_name = name, nf_description = descr, nf_parameters = ps\<rparr>, b)))))"

text \<open>The words that are left in the buffer, as \<^verbatim>\<open>resize((rawData.size() - readPos) / 2)\<close> takes them.\<close>

definition get_words_left :: "buffer \<Rightarrow> run_failure + u16 list \<times> buffer" where
  "get_words_left b = get_times get_u16 ((length (rawData b) - readPos b) div 2) b"

definition deser_Variables :: "buffer \<Rightarrow> run_failure + body \<times> buffer" where
  "deser_Variables b = bindR (get_u16 b) (\<lambda>(start, b). bindR (get_words_left b) (\<lambda>(vs, b).
     Inr (Variables start vs, b)))"

function deser_areas :: "(u16 \<times> i16 list) list \<Rightarrow> buffer \<Rightarrow> run_failure + (u16 \<times> i16 list) list \<times> buffer" where
  "deser_areas acc b =
     (if readPos b + 4 \<le> length (rawData b) then
        bindR (get_u16 b) (\<lambda>(start, b1). bindR (get_u16 b1) (\<lambda>(size, b2).
          if size = 0 then deser_areas acc b2
          else if length (rawData b2) - readPos b2 < unat size * 2 then Inr (acc, b2)
          else bindR (get_times get_u16 (unat size) b2) (\<lambda>(v, b3). deser_areas (acc @ [(start, v)]) b3)))
      else Inr (acc, b))"
  by pat_completeness auto

lemma get_u16_advances:
  "get_u16 b = Inr (v, b') \<Longrightarrow> rawData b' = rawData b \<and> readPos b' = readPos b + 2"
  by (auto simp: get_u16_in_bounds split: if_splits)

lemma get_times_u16_advances:
  "get_times get_u16 n b = Inr (vs, b') \<Longrightarrow> rawData b' = rawData b \<and> readPos b' = readPos b + 2 * n"
  by (induction n arbitrary: b vs) (fastforce dest: get_u16_advances)+

termination deser_areas
  by (relation "measure (\<lambda>(acc, b). length (rawData b) - readPos b)")
    (auto dest!: get_u16_advances get_times_u16_advances)

declare deser_areas.simps [simp del]

definition deser_ChangedVariables :: "(u16 \<times> i16 list) list \<Rightarrow> buffer \<Rightarrow> run_failure + body \<times> buffer" where
  "deser_ChangedVariables old b = bindR (deser_areas old b) (\<lambda>(vs, b). Inr (ChangedVariables vs, b))"

definition deser_NodeSpecificError :: "buffer \<Rightarrow> run_failure + body \<times> buffer" where
  "deser_NodeSpecificError b = bindR (get_u16 b) (\<lambda>(pc, b). bindR (get_wstring b) (\<lambda>(m, b).
     Inr (NodeSpecificError pc m, b)))"

definition deser_BootloaderPageDataWrite :: "buffer \<Rightarrow> run_failure + body \<times> buffer" where
  "deser_BootloaderPageDataWrite = deser_CmdMessage (\<lambda>dest b. bindR (get_times get_u8 4 b) (\<lambda>(d, b).
     Inr (BootloaderPageDataWrite dest d, b)))"

definition deser_SetBytecode :: "buffer \<Rightarrow> run_failure + body \<times> buffer" where
  "deser_SetBytecode = deser_CmdMessage (\<lambda>dest b. bindR (get_u16 b) (\<lambda>(start, b).
     bindR (get_words_left b) (\<lambda>(bc, b). Inr (SetBytecode dest start bc, b))))"

definition deser_SetDeviceInfo :: "buffer \<Rightarrow> run_failure + body \<times> buffer" where
  "deser_SetDeviceInfo = deser_CmdMessage (\<lambda>dest b. bindR (get_u8 b) (\<lambda>(info, b).
     bindR (get_u8 b) (\<lambda>(size, b). bindR (get_times get_u8 (unat size) b) (\<lambda>(d, b).
       Inr (SetDeviceInfo dest (ucast info) d, b)))))"

definition deser_DeviceInfo :: "buffer \<Rightarrow> run_failure + body \<times> buffer" where
  "deser_DeviceInfo b = bindR (get_u8 b) (\<lambda>(info, b). bindR (get_u8 b) (\<lambda>(size, b).
     bindR (get_times get_u8 (unat size) b) (\<lambda>(d, b). Inr (DeviceInfo (ucast info) d, b))))"

definition deser_SetVariables :: "buffer \<Rightarrow> run_failure + body \<times> buffer" where
  "deser_SetVariables = deser_CmdMessage (\<lambda>dest b. bindR (get_u16 b) (\<lambda>(start, b).
     bindR (get_words_left b) (\<lambda>(vs, b). Inr (SetVariables dest start vs, b))))"

primrec deserializeSpecific :: "body \<Rightarrow> buffer \<Rightarrow> run_failure + body \<times> buffer" where
  "deserializeSpecific (UserMessage _) = deser_UserMessage"
| "deserializeSpecific (BootloaderDescription _ _ _) = deser_BootloaderDescription"
| "deserializeSpecific (BootloaderDataRead _) = deser_BootloaderDataRead"
| "deserializeSpecific (BootloaderAck _ old) = deser_BootloaderAck old"
| "deserializeSpecific (ListNodes _) = deser_ListNodes"
| "deserializeSpecific (NodePresent _) = deser_NodePresent"
| "deserializeSpecific (GetDescription _) = deser_GetDescription"
| "deserializeSpecific (GetNodeDescription _ _) = deser_GetNodeDescription"
| "deserializeSpecific (GetNodeDescriptionFragment _ _ _) = deser_GetNodeDescriptionFragment"
| "deserializeSpecific (Description old) = deser_Description old"
| "deserializeSpecific (NamedVariableDescription _) = deser_NamedVariableDescription"
| "deserializeSpecific (LocalEventDescription _) = deser_LocalEventDescription"
| "deserializeSpecific (NativeFunctionDescription _) = deser_NativeFunctionDescription"
| "deserializeSpecific Disconnected = (\<lambda>b. Inr (Disconnected, b))"
| "deserializeSpecific (Variables _ _) = deser_Variables"
| "deserializeSpecific (ChangedVariables old) = deser_ChangedVariables old"
| "deserializeSpecific (ArrayAccessOutOfBounds _ _ _) = deser_ArrayAccessOutOfBounds"
| "deserializeSpecific (DivisionByZero _) = deser_DivisionByZero"
| "deserializeSpecific (EventExecutionKilled _) = deser_EventExecutionKilled"
| "deserializeSpecific (NodeSpecificError _ _) = deser_NodeSpecificError"
| "deserializeSpecific (ExecutionStateChanged _ _) = deser_ExecutionStateChanged"
| "deserializeSpecific (BreakpointSetResult _ _) = deser_BreakpointSetResult"
| "deserializeSpecific (BootloaderReset _) = deser_cmd BootloaderReset"
| "deserializeSpecific (BootloaderReadPage _ _) = deser_BootloaderReadPage"
| "deserializeSpecific (BootloaderWritePage _ _) = deser_BootloaderWritePage"
| "deserializeSpecific (BootloaderPageDataWrite _ _) = deser_BootloaderPageDataWrite"
| "deserializeSpecific (SetBytecode _ _ _) = deser_SetBytecode"
| "deserializeSpecific (SetDeviceInfo _ _ _) = deser_SetDeviceInfo"
| "deserializeSpecific (GetDeviceInfo dest i) = (\<lambda>b. Inr (GetDeviceInfo dest i, b))"
| "deserializeSpecific (DeviceInfo _ _) = deser_DeviceInfo"
| "deserializeSpecific (Reset _) = deser_cmd Reset"
| "deserializeSpecific (Run _) = deser_cmd Run"
| "deserializeSpecific (Pause _) = deser_cmd Pause"
| "deserializeSpecific (Step _) = deser_cmd Step"
| "deserializeSpecific (Stop _) = deser_cmd Stop"
| "deserializeSpecific (GetExecutionState _) = deser_cmd GetExecutionState"
| "deserializeSpecific (BreakpointSet _ _) = deser_BreakpointSet"
| "deserializeSpecific (BreakpointClear _ _) = deser_BreakpointClear"
| "deserializeSpecific (BreakpointClearAll _) = deser_cmd BreakpointClearAll"
| "deserializeSpecific (GetVariables _ _ _) = deser_GetVariables"
| "deserializeSpecific (GetChangedVariables _) = deser_cmd GetChangedVariables"
| "deserializeSpecific (SetVariables _ _ _) = deser_SetVariables"
| "deserializeSpecific (WriteBytecode _) = deser_cmd WriteBytecode"
| "deserializeSpecific (Reboot _) = deser_cmd Reboot"
| "deserializeSpecific (Sleep _) = deser_cmd Sleep"

section \<open>Creation\<close>

text \<open>
  A default-constructed object of each registered class. Members without initializer are
  indeterminate: \<open>junk\<close> stands for the value a 16-bit member happens to hold.
\<close>

definition messagesTypes :: "u16 \<Rightarrow> (u16 \<times> body) list" where
  "messagesTypes junk =
    [(message_code ASEBA_MESSAGE_BOOTLOADER_DESCRIPTION, BootloaderDescription junk junk junk),
     (message_code ASEBA_MESSAGE_BOOTLOADER_PAGE_DATA_READ, BootloaderDataRead (replicate 4 (ucast junk))),
     (message_code ASEBA_MESSAGE_BOOTLOADER_ACK, BootloaderAck junk junk),
     (message_code ASEBA_MESSAGE_LIST_NODES, ListNodes ASEBA_PROTOCOL_VERSION),
     (message_code ASEBA_MESSAGE_NODE_PRESENT, NodePresent ASEBA_PROTOCOL_VERSION),
     (message_code ASEBA_MESSAGE_GET_DESCRIPTION, GetDescription ASEBA_PROTOCOL_VERSION),
     (message_code ASEBA_MESSAGE_GET_NODE_DESCRIPTION, GetNodeDescription ASEBA_DEST_INVALID ASEBA_PROTOCOL_VERSION),
     (message_code ASEBA_MESSAGE_DESCRIPTION, Description blank_target),
     (message_code ASEBA_MESSAGE_DEVICE_INFO, DeviceInfo (ucast junk) []),
     (message_code ASEBA_MESSAGE_NAMED_VARIABLE_DESCRIPTION, NamedVariableDescription blank_variable),
     (message_code ASEBA_MESSAGE_LOCAL_EVENT_DESCRIPTION, LocalEventDescription blank_event),
     (message_code ASEBA_MESSAGE_NATIVE_FUNCTION_DESCRIPTION, NativeFunctionDescription blank_function),
     (message_code ASEBA_MESSAGE_DISCONNECTED, Disconnected),
     (message_code ASEBA_MESSAGE_VARIABLES, Variables junk []),
     (message_code ASEBA_MESSAGE_CHANGED_VARIABLES, ChangedVariables []),
     (message_code ASEBA_MESSAGE_ARRAY_ACCESS_OUT_OF_BOUNDS, ArrayAccessOutOfBounds junk junk junk),
     (message_code ASEBA_MESSAGE_DIVISION_BY_ZERO, DivisionByZero junk),
     (message_code ASEBA_MESSAGE_EVENT_EXECUTION_KILLED, EventExecutionKilled junk),
     (message_code ASEBA_MESSAGE_NODE_SPECIFIC_ERROR, NodeSpecificError junk []),
     (message_code ASEBA_MESSAGE_EXECUTION_STATE_CHANGED, ExecutionStateChanged junk junk),
     (message_code ASEBA_MESSAGE_BREAKPOINT_SET_RESULT, BreakpointSetResult junk junk),
     (message_code ASEBA_MESSAGE_BOOTLOADER_RESET, BootloaderReset ASEBA_DEST_INVALID),
     (message_code ASEBA_MESSAGE_BOOTLOADER_READ_PAGE, BootloaderReadPage ASEBA_DEST_INVALID junk),
     (message_code ASEBA_MESSAGE_BOOTLOADER_WRITE_PAGE, BootloaderWritePage ASEBA_DEST_INVALID junk),
     (message_code ASEBA_MESSAGE_BOOTLOADER_PAGE_DATA_WRITE,
        BootloaderPageDataWrite ASEBA_DEST_INVALID (replicate 4 (ucast junk))),
     (message_code ASEBA_MESSAGE_SET_BYTECODE, SetBytecode ASEBA_DEST_INVALID 0 []),
     (message_code ASEBA_MESSAGE_RESET, Reset ASEBA_DEST_INVALID),
     (message_code ASEBA_MESSAGE_RUN, Run ASEBA_DEST_INVALID),
     (message_code ASEBA_MESSAGE_PAUSE, Pause ASEBA_DEST_INVALID),
     (message_code ASEBA_MESSAGE_STEP, Step ASEBA_DEST_INVALID),
     (message_code ASEBA_MESSAGE_STOP, Stop ASEBA_DEST_INVALID),
     (message_code ASEBA_MESSAGE_GET_EXECUTION_STATE, GetExecutionState ASEBA_DEST_INVALID),
     (message_code ASEBA_MESSAGE_BREAKPOINT_SET, BreakpointSet ASEBA_DEST_INVALID junk),
     (message_code ASEBA_MESSAGE_BREAKPOINT_CLEAR, BreakpointClear ASEBA_DEST_INVALID junk),
     (message_code ASEBA_MESSAGE_BREAKPOINT_CLEAR_ALL, BreakpointClearAll ASEBA_DEST_INVALID),
     (message_code ASEBA_MESSAGE_GET_VARIABLES, GetVariables ASEBA_DEST_INVALID junk junk),
     (message_code ASEBA_MESSAGE_SET_VARIABLES, SetVariables ASEBA_DEST_INVALID junk []),
     (message_code ASEBA_MESSAGE_GET_CHANGED_VARIABLES, GetChangedVariables ASEBA_DEST_INVALID),
     (message_code ASEBA_MESSAGE_WRITE_BYTECODE, WriteBytecode ASEBA_DEST_INVALID),
     (message_code ASEBA_MESSAGE_REBOOT, Reboot ASEBA_DEST_INVALID),
     (message_code ASEBA_MESSAGE_SUSPEND_TO_RAM, Sleep ASEBA_DEST_INVALID)]"

definition createMessage :: "u16 \<Rightarrow> u16 \<Rightarrow> body" where
  "createMessage junk ty =
     (case map_of (messagesTypes junk) ty of None \<Rightarrow> UserMessage [] | Some m \<Rightarrow> m)"

text \<open>
  \<open>Message::create\<close>: \<open>Inr None\<close> is the null pointer returned on a runtime error and on bytes left
  over; an out-of-bounds read is not caught.
\<close>

definition create :: "u16 \<Rightarrow> u16 \<Rightarrow> u16 \<Rightarrow> buffer \<Rightarrow> run_failure + message option" where
  "create junk src ty b =
     (case deserializeSpecific (createMessage junk ty) b of
        Inl RuntimeError \<Rightarrow> Inr None
      | Inl e \<Rightarrow> Inl e
      | Inr (m, b') \<Rightarrow>
          if readPos b' \<noteq> length (rawData b') then Inr None
          else Inr (Some \<lparr>source = src, mtype = ty, mbody = m\<rparr>))"

definition clone :: "u16 \<Rightarrow> message \<Rightarrow> run_failure + message" where
  "clone junk m =
     bindR (serializeSpecific (mbody m) empty_buffer) (\<lambda>content.
     bindR (deserializeSpecific (createMessage junk (mtype m)) content) (\<lambda>(m', _).
       Inr \<lparr>source = source m, mtype = mtype m, mbody = m'\<rparr>))"

section \<open>Uploading a program\<close>

definition bytecodePayloadSize :: nat where
  "bytecodePayloadSize = ASEBA_MAX_EVENT_ARG_COUNT - 2"

function sendBytecode_loop :: "u16 \<Rightarrow> nat \<Rightarrow> u16 list \<Rightarrow> body list" where
  "sendBytecode_loop dest bytecodeStart left =
     (if length left > bytecodePayloadSize then
        SetBytecode dest (word_of_nat bytecodeStart) (take bytecodePayloadSize left) #
        sendBytecode_loop dest (bytecodeStart + bytecodePayloadSize) (drop bytecodePayloadSize left)
      else [SetBytecode dest (word_of_nat bytecodeStart) left])"
  by pat_completeness auto

termination sendBytecode_loop
  by (relation "measure (\<lambda>(dest, st, l). length l)")
    (auto simp: bytecodePayloadSize_def ASEBA_MAX_EVENT_ARG_COUNT_def)

declare sendBytecode_loop.simps [simp del]

definition sendBytecode :: "u16 \<Rightarrow> u16 list \<Rightarrow> body list" where
  "sendBytecode dest bytecode = sendBytecode_loop dest 0 bytecode"

end
