(* ===== verification/Message_Roundtrip.thy ===== *)
theory Message_Roundtrip
  imports Message_Codec
begin

text \<open>
  The wire format of the messages as a specification (\<open>enc_body\<close>), and the proofs that the
  serializers write it, that the deserializers read it back, and that the upload of a program covers
  the program exactly.
\<close>

section \<open>Wire format and the messages it can carry\<close>

abbreviation enc_wstring :: "wstring \<Rightarrow> u8 list" where
  "enc_wstring w \<equiv> enc_string (WStringToUTF8 w)"

definition text_ok :: "wstring \<Rightarrow> bool" where
  "text_ok w \<longleftrightarrow> list_all (\<lambda>c. c < 0xd800) w \<and> length (WStringToUTF8 w) < 256"

definition parameter_ok :: "native_function_parameter \<Rightarrow> bool" where
  "parameter_ok p \<longleftrightarrow> - 32768 \<le> np_size p \<and> np_size p < 32768 \<and> text_ok (np_name p)"

definition enc_parameter :: "native_function_parameter \<Rightarrow> u8 list" where
  "enc_parameter p = enc_u16 (word_of_int (np_size p)) @ enc_wstring (np_name p)"

abbreviation enc_words :: "u16 list \<Rightarrow> u8 list" where
  "enc_words vs \<equiv> concat (map enc_u16 vs)"

fun enc_body :: "body \<Rightarrow> u8 list" where
  "enc_body (UserMessage d) = enc_words d"
| "enc_body (BootloaderDescription a b c) = enc_u16 a @ enc_u16 b @ enc_u16 c"
| "enc_body (BootloaderDataRead d) = d"
| "enc_body (BootloaderAck e a) = enc_u16 e @ (if e = PROGRAMMING_FAILED then enc_u16 a else [])"
| "enc_body (ListNodes v) = enc_u16 v"
| "enc_body (NodePresent v) = enc_u16 v"
| "enc_body (GetDescription v) = enc_u16 v"
| "enc_body (GetNodeDescription dest v) = enc_u16 dest @ enc_u16 v"
| "enc_body (GetNodeDescriptionFragment dest v f) = enc_u16 dest @ enc_u16 v @ enc_u16 f"
| "enc_body (Description d) = enc_wstring (td_name d) @ enc_u16 (ucast (protocolVersion d)) @
     enc_u16 (ucast (bytecodeSize d)) @ enc_u16 (ucast (stackSize d)) @ enc_u16 (ucast (variablesSize d)) @
     enc_u16 (word_of_nat (length (namedVariables d))) @ enc_u16 (word_of_nat (length (localEvents d))) @
     enc_u16 (word_of_nat (length (nativeFunctions d)))"
| "enc_body (NamedVariableDescription v) = enc_u16 (ucast (nv_size v)) @ enc_wstring (nv_name v)"
| "enc_body (LocalEventDescription e) = enc_wstring (le_name e) @ enc_wstring (le_description e)"
| "enc_body (NativeFunctionDescription f) = enc_wstring (nf_name f) @ enc_wstring (nf_description f) @
     enc_u16 (word_of_nat (length (nf_parameters f))) @ concat (map enc_parameter (nf_parameters f))"
| "enc_body Disconnected = []"
| "enc_body (Variables st vs) = enc_u16 st @ enc_words vs"
| "enc_body (ChangedVariables as) =
     concat (map (\<lambda>(st, vs). enc_u16 st @ enc_u16 (word_of_nat (length vs)) @ enc_words vs) as)"
| "enc_body (ArrayAccessOutOfBounds a b c) = enc_u16 a @ enc_u16 b @ enc_u16 c"
| "enc_body (DivisionByZero pc) = enc_u16 pc"
| "enc_body (EventExecutionKilled pc) = enc_u16 pc"
| "enc_body (NodeSpecificError pc m) = enc_u16 pc @ enc_wstring m"
| "enc_body (ExecutionStateChanged a b) = enc_u16 a @ enc_u16 b"
| "enc_body (BreakpointSetResult a b) = enc_u16 a @ enc_u16 b"
| "enc_body (BootloaderReadPage a b) = enc_u16 a @ enc_u16 b"
| "enc_body (BootloaderWritePage a b) = enc_u16 a @ enc_u16 b"
| "enc_body (BootloaderPageDataWrite dest d) = enc_u16 dest @ d"
| "enc_body (SetBytecode dest st bc) = enc_u16 dest @ enc_u16 st @ enc_words bc"
| "enc_body (SetDeviceInfo dest i d) =
     enc_u16 dest @ enc_u16 (ucast i) @ enc_u16 (word_of_nat (length d)) @ d"
| "enc_body (GetDeviceInfo dest i) = enc_u16 dest @ enc_u16 (ucast i)"
| "enc_body (DeviceInfo i d) = enc_u8 (ucast i) @ enc_u8 (word_of_nat (length d)) @ d"
| "enc_body (BreakpointSet dest pc) = enc_u16 dest @ enc_u16 pc"
| "enc_body (BreakpointClear dest pc) = enc_u16 dest @ enc_u16 pc"
| "enc_body (GetVariables a b c) = enc_u16 a @ enc_u16 b @ enc_u16 c"
| "enc_body (SetVariables dest st vs) = enc_u16 dest @ enc_u16 st @ enc_words vs"
| "enc_body (BootloaderReset dest) = enc_u16 dest"
| "enc_body (Reset dest) = enc_u16 dest"
| "enc_body (Run dest) = enc_u16 dest"
| "enc_body (Pause dest) = enc_u16 dest"
| "enc_body (Step dest) = enc_u16 dest"
| "enc_body (Stop dest) = enc_u16 dest"
| "enc_body (GetExecutionState dest) = enc_u16 dest"
| "enc_body (BreakpointClearAll dest) = enc_u16 dest"
| "enc_body (GetChangedVariables dest) = enc_u16 dest"
| "enc_body (WriteBytecode dest) = enc_u16 dest"
| "enc_body (Reboot dest) = enc_u16 dest"
| "enc_body (Sleep dest) = enc_u16 dest"

definition target_ok :: "target_description \<Rightarrow> bool" where
  "target_ok d \<longleftrightarrow> text_ok (td_name d) \<and> protocolVersion d < 0x10000 \<and> bytecodeSize d < 0x10000 \<and>
     stackSize d < 0x10000 \<and> variablesSize d < 0x10000 \<and>
     length (namedVariables d) < 65536 \<and> length (localEvents d) < 65536 \<and> length (nativeFunctions d) < 65536 \<and>
     namedVariables d = replicate (length (namedVariables d)) blank_variable \<and>
     localEvents d = replicate (length (localEvents d)) blank_event \<and>
     nativeFunctions d = replicate (length (nativeFunctions d)) blank_function"

text \<open>
  The messages the protocol can carry without loss, for a receiver whose uninitialized members
  hold \<open>junk\<close>: the texts fit their length byte and the supported code range, the sizes fit 16 bits,
  the described elements travel in messages of their own, and the class is one of the table.
  \<^verbatim>\<open>ChangedVariables\<close> has no serializer; \<^verbatim>\<open>SetDeviceInfo\<close>, \<^verbatim>\<open>GetDeviceInfo\<close> and \<^verbatim>\<open>GetNodeDescriptionFragment\<close> are only
  sent and have no entry in the table.
\<close>

primrec carried :: "u16 \<Rightarrow> body \<Rightarrow> bool" where
  "carried junk (UserMessage d) = True"
| "carried junk (BootloaderDescription a b c) = True"
| "carried junk (BootloaderDataRead d) = (length d = 4)"
| "carried junk (BootloaderAck e a) = (e = PROGRAMMING_FAILED \<or> a = junk)"
| "carried junk (ListNodes v) = True"
| "carried junk (NodePresent v) = True"
| "carried junk (GetDescription v) = True"
| "carried junk (GetNodeDescription dest v) = True"
| "carried junk (GetNodeDescriptionFragment dest v f) = False"
| "carried junk (Description d) = target_ok d"
| "carried junk (NamedVariableDescription v) = (nv_size v < 0x10000 \<and> text_ok (nv_name v))"
| "carried junk (LocalEventDescription e) = (text_ok (le_name e) \<and> text_ok (le_description e))"
| "carried junk (NativeFunctionDescription f) = (text_ok (nf_name f) \<and> text_ok (nf_description f) \<and>
     length (nf_parameters f) < 65536 \<and> list_all parameter_ok (nf_parameters f))"
| "carried junk Disconnected = True"
| "carried junk (Variables st vs) = True"
| "carried junk (ChangedVariables as) = False"
| "carried junk (ArrayAccessOutOfBounds a b c) = True"
| "carried junk (DivisionByZero pc) = True"
| "carried junk (EventExecutionKilled pc) = True"
| "carried junk (NodeSpecificError pc m) = text_ok m"
| "carried junk (ExecutionStateChanged a b) = True"
| "carried junk (BreakpointSetResult a b) = True"
| "carried junk (BootloaderReset dest) = True"
| "carried junk (BootloaderReadPage a b) = True"
| "carried junk (BootloaderWritePage a b) = True"
| "carried junk (BootloaderPageDataWrite dest d) = (length d = 4)"
| "carried junk (SetBytecode dest st bc) = True"
| "carried junk (SetDeviceInfo dest i d) = False"
| "carried junk (GetDeviceInfo dest i) = False"
| "carried junk (DeviceInfo i d) = (i < 256 \<and> length d < 256)"
| "carried junk (Reset dest) = True"
| "carried junk (Run dest) = True"
| "carried junk (Pause dest) = True"
| "carried junk (Step dest) = True"
| "carried junk (Stop dest) = True"
| "carried junk (GetExecutionState dest) = True"
| "carried junk (BreakpointSet dest pc) = True"
| "carried junk (BreakpointClear dest pc) = True"
| "carried junk (BreakpointClearAll dest) = True"
| "carried junk (GetVariables a b c) = True"
| "carried junk (GetChangedVariables dest) = True"
| "carried junk (SetVariables dest st vs) = True"
| "carried junk (WriteBytecode dest) = True"
| "carried junk (Reboot dest) = True"
| "carried junk (Sleep dest) = True"

text \<open>A user message has any type outside the table; every other class has its own.\<close>

definition has_type :: "message \<Rightarrow> bool" where
  "has_type m \<longleftrightarrow>
     (case mbody m of UserMessage _ \<Rightarrow> mtype m \<notin> fst ` set (messagesTypes 0)
      | _ \<Rightarrow> mtype m = message_code (class_type (mbody m)))"

section \<open>Codecs of texts and parameters\<close>

lemma get_wstring_enc:
  "text_ok w \<Longrightarrow> get_wstring (input_at pre (enc_wstring w @ rest)) =
    Inr (w, input_at (pre @ enc_wstring w) rest)"
  by (simp add: get_wstring_def text_ok_def str.get_enc utf8_roundtrip_bmp)

interpretation wstr: wire_codec "\<lambda>w. add_string (WStringToUTF8 w)" get_wstring enc_wstring text_ok
proof unfold_locales
  fix w b
  assume "text_ok w"
  then show "add_string (WStringToUTF8 w) b = Inr (append_bytes (enc_wstring w) b)"
    by (simp add: text_ok_def str.add_ok)
qed (simp_all add: get_wstring_enc, simp add: get_wstring_def str.get_overread)

lemma append_bytes_append [simp]: "append_bytes bs (append_bytes as b) = append_bytes (as @ bs) b"
  by (simp add: append_bytes_def)

lemma append_bytes_Nil [simp]: "append_bytes [] b = b"
  by (simp add: append_bytes_def)

interpretation param: wire_codec add_parameter get_parameter enc_parameter parameter_ok
proof unfold_locales
  fix p b
  assume "parameter_ok p"
  then show "add_parameter p b = Inr (append_bytes (enc_parameter p) b)"
    by (simp add: add_parameter_def enc_parameter_def parameter_ok_def wstr.add_ok wire_add)
next
  fix p pre rest
  assume ok: "parameter_ok p"
  then have "sint (word_of_int (np_size p) :: u16) = np_size p"
    by (simp add: parameter_ok_def signed_of_int signed_take_bit_int_eq_self)
  with ok show "get_parameter (input_at pre (enc_parameter p @ rest)) =
      Inr (p, input_at (pre @ enc_parameter p) rest)"
    by (simp add: get_parameter_def enc_parameter_def parameter_ok_def wstr.get_enc wire_get)
qed (simp add: get_parameter_def word.get_overread)

lemma get_words_left_enc:
  "get_words_left (input_at pre (enc_words vs)) = Inr (vs, input_at (pre @ enc_words vs) [])"
proof -
  have "length (enc_words vs) = 2 * length vs"
    by (induction vs) (simp_all add: enc_u16_def)
  then show ?thesis
    using word.get_times_enc_nil [of vs pre] by (simp add: get_words_left_def input_at_def)
qed

lemma get_bytes_enc:
  "length d = n \<Longrightarrow> get_times get_u8 n (input_at pre d) = Inr (d, input_at (pre @ d) [])"
  using byte.get_times_enc_nil [of d pre] by simp

section \<open>Serializers write the wire format\<close>

lemmas ser_defs =
  ser_UserMessage_def ser_CmdMessage_def ser_BootloaderDescription_def ser_BootloaderDataRead_def
  ser_BootloaderAck_def ser_ListNodes_def ser_NodePresent_def ser_GetDescription_def ser_GetNodeDescription_def ser_GetNodeDescriptionFragment_def
  ser_Description_def ser_NamedVariableDescription_def ser_LocalEventDescription_def
  ser_NativeFunctionDescription_def ser_Variables_def ser_ArrayAccessOutOfBounds_def ser_DivisionByZero_def ser_EventExecutionKilled_def
  ser_NodeSpecificError_def ser_ExecutionStateChanged_def ser_BreakpointSetResult_def
  ser_BootloaderReadPage_def ser_BootloaderWritePage_def ser_BootloaderPageDataWrite_def ser_SetBytecode_def ser_SetDeviceInfo_def
  ser_GetDeviceInfo_def ser_DeviceInfo_def ser_BreakpointSet_def ser_BreakpointClear_def ser_GetVariables_def ser_SetVariables_def

lemmas deser_defs =
  deser_UserMessage_def deser_BootloaderDescription_def deser_BootloaderDataRead_def
  deser_BootloaderAck_def deser_word_def deser_word2_def deser_word3_def deser_CmdMessage_def
  deser_cmd_def deser_Description_def
  deser_ListNodes_def deser_NodePresent_def deser_GetDescription_def
  deser_GetNodeDescription_def deser_GetNodeDescriptionFragment_def deser_ArrayAccessOutOfBounds_def
  deser_DivisionByZero_def deser_EventExecutionKilled_def deser_ExecutionStateChanged_def
  deser_BreakpointSetResult_def deser_BootloaderReadPage_def deser_BootloaderWritePage_def
  deser_BreakpointSet_def deser_BreakpointClear_def deser_GetVariables_def
  deser_NamedVariableDescription_def deser_LocalEventDescription_def
  deser_NativeFunctionDescription_def deser_Variables_def deser_NodeSpecificError_def
  deser_BootloaderPageDataWrite_def deser_SetBytecode_def deser_DeviceInfo_def deser_SetVariables_def

lemmas list_add = byte.add_list_ok word.add_list_ok param.add_list_ok

lemma serializeSpecific_enc:
  assumes "carried junk m"
  shows "serializeSpecific m b = Inr (append_bytes (enc_body m) b)"
  using assms
  by (cases m) (simp_all add: ser_defs wire_add wstr.add_ok list_add target_ok_def)

section \<open>Deserializers read it back\<close>

lemma ucast_down_up:
  fixes v :: u32
  assumes "v < 0x10000"
  shows "ucast (ucast v :: u16) = v"
proof -
  from assms have nb: "bit v n \<Longrightarrow> n < 16" for n
    using word_less_bit [of v 16 n] by simp
  show ?thesis
    by (rule bit_word_eqI) (auto dest: nb simp: bit_simps)
qed

lemma ucast_byte_up:
  fixes v :: u32
  assumes "v < 256"
  shows "ucast (ucast v :: u8) = v"
proof -
  from assms have nb: "bit v n \<Longrightarrow> n < 8" for n
    using word_less_bit [of v 8 n] by simp
  show ?thesis
    by (rule bit_word_eqI) (auto dest: nb simp: bit_simps)
qed

lemma unat_word_length:
  "n < 65536 \<Longrightarrow> unat (word_of_nat n :: u16) = n" "n < 256 \<Longrightarrow> unat (word_of_nat n :: u8) = n"
  by (simp_all add: unat_of_nat)

lemma deser_UserMessage_enc:
  "deser_UserMessage (input_at [] (enc_words d)) = Inr (UserMessage d, input_at (enc_words d) [])"
proof -
  have "length (enc_words d) = 2 * length d"
    by (induction d) (simp_all add: enc_u16_def)
  moreover have "rawData (input_at [] (enc_words d)) = enc_words d"
    by (simp add: input_at_def)
  ultimately show ?thesis
    using word.get_times_enc_nil [of d "[]"] by (simp add: deser_UserMessage_def)
qed

lemma deser_Description_enc:
  assumes "target_ok d"
  shows "deser_Description blank_target (input_at [] (enc_body (Description d))) =
    Inr (Description d, input_at (enc_body (Description d)) [])"
proof -
  from assms have "replicate (length (namedVariables d)) blank_variable = namedVariables d"
    "replicate (length (localEvents d)) blank_event = localEvents d"
    "replicate (length (nativeFunctions d)) blank_function = nativeFunctions d"
    by (simp_all add: target_ok_def)
  with assms show ?thesis
    by (simp add: deser_Description_def target_ok_def wire_get wstr.get_enc ucast_down_up
        unat_word_length blank_target_def)
qed

lemma deser_NativeFunction_enc:
  assumes "carried junk (NativeFunctionDescription f)"
  shows "deser_NativeFunctionDescription (input_at [] (enc_body (NativeFunctionDescription f))) =
    Inr (NativeFunctionDescription f, input_at (enc_body (NativeFunctionDescription f)) [])"
  using assms param.get_times_enc_nil [of "nf_parameters f"]
  by (simp add: deser_NativeFunctionDescription_def wire_get wstr.get_enc unat_word_length)

lemma fst_messagesTypes: "fst ` set (messagesTypes junk) = fst ` set (messagesTypes 0)"
  by (simp add: messagesTypes_def)

lemma createMessage_user:
  "mtype m \<notin> fst ` set (messagesTypes 0) \<Longrightarrow> createMessage junk (mtype m) = UserMessage []"
  using fst_messagesTypes [of junk]
  by (simp add: createMessage_def map_of_eq_None_iff [THEN iffD2])

lemma deserializeSpecific_enc:
  assumes "carried junk (mbody m)" and "has_type m"
  shows "deserializeSpecific (createMessage junk (mtype m)) (input_at [] (enc_body (mbody m))) =
    Inr (mbody m, input_at (enc_body (mbody m)) [])"
proof (cases "mbody m")
  case (UserMessage d)
  with assms show ?thesis
    by (simp add: has_type_def createMessage_user deser_UserMessage_enc)
next
  case (Description d)
  with assms show ?thesis
    by (simp add: has_type_def createMessage_def messagesTypes_def deser_Description_enc
        del: enc_body.simps)
next
  case (NativeFunctionDescription f)
  with assms show ?thesis
    by (simp add: has_type_def createMessage_def messagesTypes_def deser_NativeFunction_enc
        del: enc_body.simps carried.simps)
next
  case (BootloaderAck e a)
  with assms show ?thesis
    by (auto simp: has_type_def createMessage_def messagesTypes_def deser_BootloaderAck_def wire_get)
qed (use assms in \<open>simp_all add: has_type_def createMessage_def messagesTypes_def deser_defs wire_get
    wstr.get_enc wstr.get_enc_nil get_words_left_enc get_bytes_enc ucast_down_up ucast_byte_up
    unat_word_length split: if_splits\<close>)

lemma written_buffer: "append_bytes bs empty_buffer = input_at [] bs"
  by (simp add: append_bytes_def empty_buffer_def input_at_def)

lemma input_at_end: "readPos (input_at bs []) = length (rawData (input_at bs []))"
  by (simp add: input_at_def)

definition sample_message :: message where
  "sample_message = \<lparr>source = 7, mtype = 0x9001,
     mbody = NamedVariableDescription \<lparr>nv_name = ws ''mic'', nv_size = 3\<rparr>\<rparr>"

lemma sample_message_carried: "carried 0 (mbody sample_message) \<and> has_type sample_message"
  by (simp add: sample_message_def has_type_def text_ok_def ws_def WStringToUTF8_def enc_wchar_def)

text \<open>C5: Creating a message from what its serializer wrote returns a message with the same source, type and
  content, with nothing left over in the buffer, for the messages that the protocol carries without loss:
  user messages of any type outside the table and every class of the table, except \<^verbatim>\<open>ChangedVariables\<close>, whose
  serializer fails an assertion. Members have to fit the wire: texts have units below \<open>0xd800\<close> and at most 255
  bytes of UTF-8, sizes and counts fit 16 bits (the kind and the length of a \<^verbatim>\<open>DeviceInfo\<close> 8 bits), page data are
  four bytes, a \<^verbatim>\<open>Description\<close> has blank tables (their elements travel in messages of their own), and the address
  of a \<^verbatim>\<open>BootloaderAck\<close> that reports no programming error is the uninitialized member of the created object,
  since it is not sent. \<^verbatim>\<open>SetDeviceInfo\<close>, \<^verbatim>\<open>GetDeviceInfo\<close> and \<^verbatim>\<open>GetNodeDescriptionFragment\<close> are not in the table of
  \<^verbatim>\<open>Message::create\<close> and not covered.\<close>

theorem message_roundtrip:
  assumes "carried junk (mbody m)" and "has_type m"
  shows "bindR (serializeSpecific (mbody m) empty_buffer) (create junk (source m) (mtype m)) = Inr (Some m)"
  using deserializeSpecific_enc [OF assms]
  by (simp add: serializeSpecific_enc [OF assms(1)] written_buffer create_def input_at_end)

theorem message_roundtrip_witness:
  "bindR (serializeSpecific (mbody sample_message) empty_buffer)
     (create 0 (source sample_message) (mtype sample_message)) = Inr (Some sample_message)"
  using message_roundtrip [of 0 sample_message] sample_message_carried by blast

text \<open>Cloning a message through the serialization buffer returns an equal message.\<close>

theorem clone_equal:
  assumes "carried junk (mbody m)" and "has_type m"
  shows "clone junk m = Inr m"
  using deserializeSpecific_enc [OF assms]
  by (simp add: clone_def serializeSpecific_enc [OF assms(1)] written_buffer)

section \<open>What is not carried\<close>

text \<open>A device-information command does not read back what it wrote: the serializer writes the kind
  and the size as 16-bit words and the deserializer reads them as bytes, so the size read is the high
  byte of the kind and the data are lost.\<close>

theorem set_device_info_data_lost:
  assumes "info < 256"
  shows "\<exists>b'. bindR (serializeSpecific (SetDeviceInfo dest info d) empty_buffer)
      (deserializeSpecific (SetDeviceInfo dest' info' d')) = Inr (SetDeviceInfo dest info [], b') \<and>
    length (rawData b') = readPos b' + 2 + length d"
proof -
  from assms have nb: "bit info n \<Longrightarrow> n < 8" for n
    using word_less_bit [of info 8 n] by simp
  have hi: "(ucast (drop_bit 8 (ucast info :: u16)) :: u8) = 0"
    by (rule bit_word_eqI) (auto dest: nb simp: bit_simps)
  have lo: "(ucast (ucast (ucast info :: u16) :: u8) :: u32) = info"
    by (rule bit_word_eqI) (auto dest: nb simp: bit_simps)
  have "serializeSpecific (SetDeviceInfo dest info d) empty_buffer =
      Inr (input_at [] (enc_u16 dest @ enc_u8 (ucast (ucast info :: u16)) @ enc_u8 0 @
        enc_u16 (word_of_nat (length d)) @ d))"
    by (simp add: ser_defs wire_add list_add)
      (simp add: enc_u16_def enc_u8_def hi written_buffer)
  then show ?thesis
    by (simp add: deser_SetDeviceInfo_def deser_CmdMessage_def wire_get lo) (simp add: input_at_def enc_u16_def enc_u8_def)
qed

section \<open>Robustness against received bytes\<close>

lemma get_u8_fails: "get_u8 b = Inl e \<Longrightarrow> e = RuntimeError"
  by (simp add: get_u8_in_bounds split: if_splits)

lemma get_u16_fails: "get_u16 b = Inl e \<Longrightarrow> e = RuntimeError"
  by (simp add: get_u16_in_bounds split: if_splits)

lemma get_times_fails:
  assumes "\<And>b e. get b = Inl e \<Longrightarrow> e = RuntimeError"
  shows "get_times get n b = Inl e \<Longrightarrow> e = RuntimeError"
  by (induction n arbitrary: b) (auto simp: bindR_eq_Inl dest: assms)

lemma get_times_u8_fails: "get_times get_u8 n b = Inl e \<Longrightarrow> e = RuntimeError"
  by (rule get_times_fails [of get_u8]) (rule get_u8_fails)

lemma get_times_u16_fails: "get_times get_u16 n b = Inl e \<Longrightarrow> e = RuntimeError"
  by (rule get_times_fails [of get_u16]) (rule get_u16_fails)

lemmas get_fails = get_u8_fails get_u16_fails get_times_u8_fails get_times_u16_fails

lemma deser_areas_fails: "deser_areas acc b = Inl e \<Longrightarrow> e = RuntimeError"
proof (induction acc b rule: deser_areas.induct)
  case (1 acc b)
  show ?case
  proof (cases "readPos b + 4 \<le> length (rawData b)")
    case True
    then obtain st b1 where g1: "get_u16 b = Inr (st, b1)"
      by (cases "get_u16 b") (auto simp: get_u16_in_bounds)
    show ?thesis
    proof (cases "get_u16 b1")
      case (Inl e')
      with True g1 "1.prems" get_u16_fails [OF Inl] show ?thesis
        by (simp add: deser_areas.simps [of acc b])
    next
      case (Inr p)
      then obtain sz b2 where g2: "get_u16 b1 = Inr (sz, b2)" by (cases p) auto
      note IH = "1.IH" [OF True g1 refl g2 refl]
      have step: "deser_areas acc b = (if sz = 0 then deser_areas acc b2
          else if length (rawData b2) - readPos b2 < unat sz * 2 then Inr (acc, b2)
          else bindR (get_times get_u16 (unat sz) b2) (\<lambda>(v, b3). deser_areas (acc @ [(st, v)]) b3))"
        using True g1 g2 by (simp add: deser_areas.simps [of acc b])
      show ?thesis
      proof (cases "get_times get_u16 (unat sz) b2")
        case (Inl e')
        with step "1.prems" IH(1) get_fails(4) [OF Inl] show ?thesis by (auto split: if_splits)
      next
        case (Inr q)
        then obtain v b3 where "get_times get_u16 (unat sz) b2 = Inr (v, b3)" by (cases q) auto
        with step "1.prems" IH show ?thesis by (auto split: if_splits)
      qed
    qed
  next
    case False
    with "1.prems" show ?thesis by (simp add: deser_areas.simps [of acc b])
  qed
qed

definition text_types :: "u16 set" where
  "text_types = {message_code ASEBA_MESSAGE_DESCRIPTION,
     message_code ASEBA_MESSAGE_NAMED_VARIABLE_DESCRIPTION, message_code ASEBA_MESSAGE_LOCAL_EVENT_DESCRIPTION,
     message_code ASEBA_MESSAGE_NATIVE_FUNCTION_DESCRIPTION, message_code ASEBA_MESSAGE_NODE_SPECIFIC_ERROR}"

text \<open>The classes without text only ever fail with the runtime error that \<open>create\<close> catches.\<close>

lemma deser_plain_fails:
  assumes "deserializeSpecific m b = Inl e"
    and "message_code (class_type m) \<notin> text_types"
  shows "e = RuntimeError"
  using assms
  by (cases m) (auto simp: text_types_def deser_defs deser_ChangedVariables_def deser_SetDeviceInfo_def
      get_words_left_def bindR_eq_Inl split: if_splits dest: get_fails deser_areas_fails)

lemma createMessage_class:
  assumes "ty \<notin> text_types"
  shows "message_code (class_type (createMessage junk ty)) \<notin> text_types"
proof (cases "map_of (messagesTypes junk) ty")
  case None
  then show ?thesis by (simp add: createMessage_def text_types_def)
next
  case (Some m)
  then have "(ty, m) \<in> set (messagesTypes junk)" by (rule map_of_SomeD)
  then have "message_code (class_type m) = ty"
    by (auto simp: messagesTypes_def)
  with Some assms show ?thesis by (simp add: createMessage_def)
qed

text \<open>C16: Whatever bytes arrive under a type that carries no text, creating the message is safe: it
  returns a message or the null pointer, and neither aborts nor reads out of bounds.\<close>

theorem create_safe:
  assumes "ty \<notin> text_types"
  shows "\<exists>r. create junk src ty b = Inr r"
proof (cases "deserializeSpecific (createMessage junk ty) b")
  case (Inl e)
  with createMessage_class [OF assms] have "e = RuntimeError" by (blast dest: deser_plain_fails)
  with Inl show ?thesis by (simp add: create_def)
next
  case (Inr p)
  then show ?thesis by (cases p) (simp add: create_def)
qed

theorem create_safe_witness: "\<exists>r. create 0 1 0xA00C \<lparr>rawData = [1, 2, 3], readPos = 0\<rparr> = Inr r"
  by (rule create_safe) (simp add: text_types_def)

text \<open>A node can make the manager read out of bounds: the text of an error message that ends in a
  truncated three-byte character after two complete ones passes the guards of the decoder.\<close>

lemma create_overread:
  "create 0 1 (message_code ASEBA_MESSAGE_NODE_SPECIFIC_ERROR)
     \<lparr>rawData = [0, 0, 5, 0xC3, 0xA9, 0xC3, 0xA9, 0xE2], readPos = 0\<rparr> = Inl OutOfBoundsRead"
proof -
  have "\<lparr>rawData = [0, 0, 5, 0xC3, 0xA9, 0xC3, 0xA9, 0xE2], readPos = 0\<rparr> =
      input_at [] (enc_u16 0 @ enc_string [0xC3, 0xA9, 0xC3, 0xA9, 0xE2])"
    by (simp add: input_at_def enc_u16_def enc_string_def)
  moreover have "UTF8ToWString [0xC3, 0xA9, 0xC3, 0xA9, 0xE2] = Inl OutOfBoundsRead"
    by (simp add: UTF8ToWString_def char_at_def)
  ultimately show ?thesis
    by (simp add: create_def createMessage_def messagesTypes_def deser_NodeSpecificError_def
        wire_get get_wstring_def)
qed

section \<open>Uploading a program\<close>

definition payload :: "body \<Rightarrow> u16 list" where
  "payload m = (case m of SetBytecode _ _ bc \<Rightarrow> bc | _ \<Rightarrow> [])"

lemma payload_size: "bytecodePayloadSize = 256"
  by (simp add: bytecodePayloadSize_def ASEBA_MAX_EVENT_ARG_COUNT_def)

lemma sendBytecode_loop_covers:
  "concat (map payload (sendBytecode_loop dest st bc)) = bc"
proof (induction dest st bc rule: sendBytecode_loop.induct)
  case (1 dest st bc)
  show ?case
  proof (cases "length bc > bytecodePayloadSize")
    case True
    with "1.IH" show ?thesis
      by (simp add: sendBytecode_loop.simps [of dest st bc] payload_def)
  next
    case False
    then show ?thesis by (simp add: sendBytecode_loop.simps [of dest st bc] payload_def)
  qed
qed

lemma sendBytecode_loop_nth:
  "i < length (sendBytecode_loop dest st bc) \<Longrightarrow>
   sendBytecode_loop dest st bc ! i =
     SetBytecode dest (word_of_nat (st + 256 * i)) (take 256 (drop (256 * i) bc))"
proof (induction dest st bc arbitrary: i rule: sendBytecode_loop.induct)
  case (1 dest st bc)
  show ?case
  proof (cases "length bc > bytecodePayloadSize")
    case True
    then have step: "sendBytecode_loop dest st bc = SetBytecode dest (word_of_nat st) (take 256 bc) #
        sendBytecode_loop dest (st + 256) (drop 256 bc)"
      by (simp add: sendBytecode_loop.simps [of dest st bc] payload_size)
    show ?thesis
    proof (cases i)
      case 0
      then show ?thesis by (simp add: step)
    next
      case (Suc k)
      with "1.prems" have "k < length (sendBytecode_loop dest (st + 256) (drop 256 bc))"
        by (simp add: step)
      with "1.IH" [OF True, of k] show ?thesis
        by (simp add: step Suc payload_size algebra_simps)
    qed
  next
    case False
    with "1.prems" show ?thesis
      by (simp add: sendBytecode_loop.simps [of dest st bc] payload_size)
  qed
qed

text \<open>An upload covers the program exactly: the payloads of the messages concatenate to the
  bytecode, the \<open>i\<close>-th message carries the 256 words that start at word \<open>256 * i\<close> (the last one what is
  left), and it announces that address as long as it fits the 16-bit field.\<close>

theorem sendBytecode_covers:
  "concat (map payload (sendBytecode dest bc)) = bc \<and>
   (\<forall>i. i < length (sendBytecode dest bc) \<longrightarrow>
      sendBytecode dest bc ! i =
        SetBytecode dest (word_of_nat (256 * i)) (take 256 (drop (256 * i) bc)))"
  using sendBytecode_loop_covers sendBytecode_loop_nth [of _ dest 0 bc]
  by (simp add: sendBytecode_def)

text \<open>Every upload message fits the packet limit of \<open>ASEBA_MAX_EVENT_ARG_COUNT\<close> words, and a full one
  uses it entirely: 516 bytes of payload.\<close>

theorem upload_packet_size:
  "(\<forall>m \<in> set (sendBytecode dest bc). length (enc_body m) \<le> 2 * ASEBA_MAX_EVENT_ARG_COUNT) \<and>
   (256 < length bc \<longrightarrow> length (enc_body (sendBytecode dest bc ! 0)) = 2 * ASEBA_MAX_EVENT_ARG_COUNT)"
proof -
  have len: "length (enc_words vs) = 2 * length vs" for vs
    by (induction vs) (simp_all add: enc_u16_def)
  let ?ms = "sendBytecode_loop dest 0 bc"
  have "length (enc_body m) \<le> 2 * ASEBA_MAX_EVENT_ARG_COUNT" if m: "m \<in> set ?ms" for m
  proof -
    from m obtain i where "i < length ?ms" "m = ?ms ! i" by (metis in_set_conv_nth)
    then show ?thesis
      by (simp add: sendBytecode_loop_nth len enc_u16_def ASEBA_MAX_EVENT_ARG_COUNT_def)
  qed
  moreover have "0 < length ?ms" by (simp add: sendBytecode_loop.simps [of dest 0 bc])
  ultimately show ?thesis
    by (auto simp: sendBytecode_def sendBytecode_loop_nth len enc_u16_def ASEBA_MAX_EVENT_ARG_COUNT_def)
qed

end
