(* ===== verification/Aesl_Syntax.thy ===== *)
theory Aesl_Syntax
  imports Aseba_Prelude
begin

text \<open>
  The vocabulary of the AESL compiler: the bytecode and operator identifiers of
  \<^verbatim>\<open>common/consts.h\<close>, source positions and failures of \<^verbatim>\<open>compiler/compiler.h\<close>, and the syntax tree
  of \<^verbatim>\<open>compiler/tree.h\<close>. A failure is a thrown \<^verbatim>\<open>TranslatableError\<close> (its position, its code and the
  arguments of its message), an \<open>Abort\<close> (a call of \<^verbatim>\<open>abort()\<close>, a failed
  assertion or a null pointer dereference), \<open>Undefined\<close> behaviour, or \<open>Diverges\<close>, when the fuel of a
  recursion that is not known to end is used up.
\<close>

section \<open>Identifiers\<close>

datatype AsebaBytecodeId =
    ASEBA_BYTECODE_STOP | ASEBA_BYTECODE_SMALL_IMMEDIATE | ASEBA_BYTECODE_LARGE_IMMEDIATE
  | ASEBA_BYTECODE_LOAD | ASEBA_BYTECODE_STORE | ASEBA_BYTECODE_LOAD_INDIRECT
  | ASEBA_BYTECODE_STORE_INDIRECT | ASEBA_BYTECODE_UNARY_ARITHMETIC | ASEBA_BYTECODE_BINARY_ARITHMETIC
  | ASEBA_BYTECODE_JUMP | ASEBA_BYTECODE_CONDITIONAL_BRANCH | ASEBA_BYTECODE_EMIT
  | ASEBA_BYTECODE_NATIVE_CALL | ASEBA_BYTECODE_SUB_CALL | ASEBA_BYTECODE_SUB_RET

primrec bytecode_id :: "AsebaBytecodeId \<Rightarrow> u16" where
  "bytecode_id ASEBA_BYTECODE_STOP = 0x0"
| "bytecode_id ASEBA_BYTECODE_SMALL_IMMEDIATE = 0x1"
| "bytecode_id ASEBA_BYTECODE_LARGE_IMMEDIATE = 0x2"
| "bytecode_id ASEBA_BYTECODE_LOAD = 0x3"
| "bytecode_id ASEBA_BYTECODE_STORE = 0x4"
| "bytecode_id ASEBA_BYTECODE_LOAD_INDIRECT = 0x5"
| "bytecode_id ASEBA_BYTECODE_STORE_INDIRECT = 0x6"
| "bytecode_id ASEBA_BYTECODE_UNARY_ARITHMETIC = 0x7"
| "bytecode_id ASEBA_BYTECODE_BINARY_ARITHMETIC = 0x8"
| "bytecode_id ASEBA_BYTECODE_JUMP = 0x9"
| "bytecode_id ASEBA_BYTECODE_CONDITIONAL_BRANCH = 0xA"
| "bytecode_id ASEBA_BYTECODE_EMIT = 0xB"
| "bytecode_id ASEBA_BYTECODE_NATIVE_CALL = 0xC"
| "bytecode_id ASEBA_BYTECODE_SUB_CALL = 0xD"
| "bytecode_id ASEBA_BYTECODE_SUB_RET = 0xE"

definition AsebaBytecodeFromId :: "AsebaBytecodeId \<Rightarrow> u16" where
  "AsebaBytecodeFromId i = push_bit 12 (bytecode_id i)"

datatype AsebaBinaryOperator =
    ASEBA_OP_SHIFT_LEFT | ASEBA_OP_SHIFT_RIGHT | ASEBA_OP_ADD | ASEBA_OP_SUB | ASEBA_OP_MULT
  | ASEBA_OP_DIV | ASEBA_OP_MOD | ASEBA_OP_BIT_OR | ASEBA_OP_BIT_XOR | ASEBA_OP_BIT_AND
  | ASEBA_OP_EQUAL | ASEBA_OP_NOT_EQUAL | ASEBA_OP_BIGGER_THAN | ASEBA_OP_BIGGER_EQUAL_THAN
  | ASEBA_OP_SMALLER_THAN | ASEBA_OP_SMALLER_EQUAL_THAN | ASEBA_OP_OR | ASEBA_OP_AND

primrec binary_code :: "AsebaBinaryOperator \<Rightarrow> u16" where
  "binary_code ASEBA_OP_SHIFT_LEFT = 0"
| "binary_code ASEBA_OP_SHIFT_RIGHT = 1"
| "binary_code ASEBA_OP_ADD = 2"
| "binary_code ASEBA_OP_SUB = 3"
| "binary_code ASEBA_OP_MULT = 4"
| "binary_code ASEBA_OP_DIV = 5"
| "binary_code ASEBA_OP_MOD = 6"
| "binary_code ASEBA_OP_BIT_OR = 7"
| "binary_code ASEBA_OP_BIT_XOR = 8"
| "binary_code ASEBA_OP_BIT_AND = 9"
| "binary_code ASEBA_OP_EQUAL = 10"
| "binary_code ASEBA_OP_NOT_EQUAL = 11"
| "binary_code ASEBA_OP_BIGGER_THAN = 12"
| "binary_code ASEBA_OP_BIGGER_EQUAL_THAN = 13"
| "binary_code ASEBA_OP_SMALLER_THAN = 14"
| "binary_code ASEBA_OP_SMALLER_EQUAL_THAN = 15"
| "binary_code ASEBA_OP_OR = 16"
| "binary_code ASEBA_OP_AND = 17"

datatype AsebaUnaryOperator =
    ASEBA_UNARY_OP_SUB | ASEBA_UNARY_OP_ABS | ASEBA_UNARY_OP_BIT_NOT | ASEBA_UNARY_OP_NOT

primrec unary_code :: "AsebaUnaryOperator \<Rightarrow> u16" where
  "unary_code ASEBA_UNARY_OP_SUB = 0"
| "unary_code ASEBA_UNARY_OP_ABS = 1"
| "unary_code ASEBA_UNARY_OP_BIT_NOT = 2"
| "unary_code ASEBA_UNARY_OP_NOT = 3"

definition ASEBA_IF_IS_WHEN_BIT :: nat where "ASEBA_IF_IS_WHEN_BIT = 8"
definition ASEBA_EVENT_INIT :: u32 where "ASEBA_EVENT_INIT = 0xFFFF"
definition ASEBA_EVENT_LOCAL_EVENTS_START :: u32 where "ASEBA_EVENT_LOCAL_EVENTS_START = 0xFFFE"

section \<open>Positions and failures\<close>

record source_pos =
  character :: u32
  row :: u32
  column :: u32
  valid :: bool

definition no_pos :: source_pos where
  "no_pos = \<lparr>character = 0, row = 0, column = 0, valid = False\<rparr>"

text \<open>The error codes, up to those that name the types of tokens.\<close>

datatype (plugins only: code) error_code =
    ERROR_BROKEN_TARGET | ASEBA_ERROR_STACK_OVERFLOW | ERROR_SCRIPT_TOO_BIG
  | ERROR_VARIABLE_NOT_DEFINED | ERROR_VARIABLE_NOT_DEFINED_GUESS | ERROR_FUNCTION_NOT_DEFINED
  | ERROR_FUNCTION_NOT_DEFINED_GUESS | ERROR_CONSTANT_NOT_DEFINED | ERROR_CONSTANT_NOT_DEFINED_GUESS
  | ERROR_EVENT_NOT_DEFINED | ERROR_EVENT_NOT_DEFINED_GUESS | ERROR_EMIT_LOCAL_EVENT
  | ERROR_SUBROUTINE_NOT_DEFINED | ERROR_SUBROUTINE_NOT_DEFINED_GUESS | ERROR_LINE | ERROR_COL
  | ERROR_UNBALANCED_COMMENT_BLOCK | ERROR_SYNTAX | ERROR_INVALID_IDENTIFIER
  | ERROR_INVALID_HEXA_NUMBER | ERROR_INVALID_BINARY_NUMBER | ERROR_NUMBER_INVALID_BASE
  | ERROR_IN_NUMBER | ERROR_INTERNAL | ERROR_EXPECTING | ERROR_UINT12_OUT_OF_RANGE
  | ERROR_UINT16_OUT_OF_RANGE | ERROR_PINT16_OUT_OF_RANGE | ERROR_INT16_OUT_OF_RANGE
  | ERROR_PCONSTANT_OUT_OF_RANGE | ERROR_CONSTANT_OUT_OF_RANGE | ERROR_EXPECTING_ONE_OF
  | ERROR_NOT_ENOUGH_TEMP_SPACE | ERROR_MISPLACED_VARDEF | ERROR_EXPECTING_IDENTIFIER
  | ERROR_CONST_ALREADY_DEFINED | ERROR_VAR_ALREADY_DEFINED | ERROR_VAR_CONST_COLLISION
  | ERROR_UNDEFINED_SIZE | ERROR_NOT_ENOUGH_SPACE | ERROR_EXPECTING_ASSIGNMENT
  | ERROR_FOR_NULL_STEPS | ERROR_FOR_START_HIGHER_THAN_END | ERROR_FOR_START_LOWER_THAN_END
  | ERROR_FOR_INVALID_INC_END_INDEX | ERROR_FOR_INVALID_DEC_END_INDEX | ERROR_EVENT_ALREADY_IMPL
  | ERROR_EVENT_ARG_TOO_BIG | ERROR_EVENT_WRONG_ARG_SIZE | ERROR_SUBROUTINE_ALREADY_DEF
  | ERROR_INDEX_EXPECTING_CONSTANT | ERROR_INDEX_WRONG_END | ERROR_SIZE_IS_NEGATIVE
  | ERROR_SIZE_IS_NULL | ERROR_NOT_CONST_EXPR | ERROR_FUNCTION_HAS_NO_ARG
  | ERROR_FUNCTION_NO_ENOUGH_ARG | ERROR_FUNCTION_WRONG_ARG_SIZE
  | ERROR_FUNCTION_WRONG_ARG_SIZE_TEMPLATE | ERROR_FUNCTION_TOO_MANY_ARG
  | ERROR_UNARY_ARITH_BUILD_UNEXPECTED | ERROR_INCORRECT_LEFT_VALUE | ERROR_ARRAY_OUT_OF_BOUND
  | ERROR_ARRAY_SIZE_MISMATCH | ERROR_IF_VECTOR_CONDITION | ERROR_WHILE_VECTOR_CONDITION
  | ERROR_ARRAY_ILLEGAL_ACCESS | ERROR_INFINITE_LOOP | ERROR_DIVISION_BY_ZERO
  | ERROR_ABS_NOT_POSSIBLE | ERROR_ARRAY_OUT_OF_BOUND_READ | ERROR_ARRAY_OUT_OF_BOUND_WRITE
  | ERROR_EXPECTING_TYPE | ERROR_EXPECTING_CONDITION

text \<open>The tokens of the lexer.\<close>

datatype (plugins only: code) token_type =
    TOKEN_END_OF_STREAM | TOKEN_STR_when | TOKEN_STR_emit | TOKEN_STR_hidden_emit | TOKEN_STR_for
  | TOKEN_STR_in | TOKEN_STR_step | TOKEN_STR_while | TOKEN_STR_do | TOKEN_STR_if | TOKEN_STR_then
  | TOKEN_STR_else | TOKEN_STR_elseif | TOKEN_STR_end | TOKEN_STR_var | TOKEN_STR_const | TOKEN_STR_call
  | TOKEN_STR_sub | TOKEN_STR_callsub | TOKEN_STR_onevent | TOKEN_STR_abs | TOKEN_STR_return
  | TOKEN_STRING_LITERAL | TOKEN_INT_LITERAL
  | TOKEN_PAR_OPEN | TOKEN_PAR_CLOSE | TOKEN_BRACKET_OPEN | TOKEN_BRACKET_CLOSE | TOKEN_COLON | TOKEN_COMMA
  | TOKEN_ASSIGN | TOKEN_OP_OR | TOKEN_OP_AND | TOKEN_OP_NOT
  | TOKEN_OP_EQUAL | TOKEN_OP_NOT_EQUAL | TOKEN_OP_BIGGER | TOKEN_OP_BIGGER_EQUAL | TOKEN_OP_SMALLER
  | TOKEN_OP_SMALLER_EQUAL | TOKEN_OP_ADD | TOKEN_OP_NEG | TOKEN_OP_MULT | TOKEN_OP_DIV | TOKEN_OP_MOD
  | TOKEN_OP_SHIFT_LEFT | TOKEN_OP_SHIFT_RIGHT | TOKEN_OP_BIT_OR | TOKEN_OP_BIT_XOR | TOKEN_OP_BIT_AND
  | TOKEN_OP_BIT_NOT | TOKEN_OP_ADD_EQUAL | TOKEN_OP_NEG_EQUAL | TOKEN_OP_MULT_EQUAL | TOKEN_OP_DIV_EQUAL
  | TOKEN_OP_MOD_EQUAL | TOKEN_OP_SHIFT_LEFT_EQUAL | TOKEN_OP_SHIFT_RIGHT_EQUAL | TOKEN_OP_BIT_OR_EQUAL
  | TOKEN_OP_BIT_XOR_EQUAL | TOKEN_OP_BIT_AND_EQUAL | TOKEN_OP_PLUS_PLUS | TOKEN_OP_MINUS_MINUS

record token =
  tk_type :: token_type
  sValue :: wstring
  iValue :: int
  tk_pos :: source_pos

text \<open>What \<^verbatim>\<open>TranslatableError::arg\<close> adds to an error: a number, a string, the name of a type of tokens, a list of such
  names, or a token as text.\<close>

datatype error_arg = Arg_int int | Arg_unsigned u32 | Arg_string wstring
  | Arg_type token_type | Arg_types "token_type list" | Arg_token token

datatype failure = TranslatableError source_pos error_code "error_arg list" | Abort | Undefined | Diverges

section \<open>Syntax tree\<close>

datatype (plugins only: size code) node =
    BlockNode source_pos "node list"
  | ProgramNode source_pos "node list"
  | AssignmentNode source_pos node node
  | IfWhenNode source_pos bool u32 node node "node option"
  | FoldedIfWhenNode source_pos AsebaBinaryOperator bool u32 node node node "node option"
  | WhileNode source_pos node node
  | FoldedWhileNode source_pos AsebaBinaryOperator node node node
  | EventDeclNode source_pos u32
  | EmitNode source_pos u32 u32 u32 "node list"
  | SubDeclNode source_pos u32
  | CallSubNode source_pos wstring u32
  | BinaryArithmeticNode source_pos AsebaBinaryOperator node node
  | UnaryArithmeticNode source_pos AsebaUnaryOperator node
  | ImmediateNode source_pos int
  | StoreNode source_pos u32
  | LoadNode source_pos u32
  | ArrayWriteNode source_pos u32 u32 wstring node
  | ArrayReadNode source_pos u32 u32 wstring node
  | LoadNativeArgNode source_pos u32 u32 u32 wstring node
  | CallNode source_pos u32 "u32 list" "node list"
  | ReturnNode source_pos
  | TupleVectorNode source_pos "node list"
  | MemoryVectorNode source_pos u32 u32 wstring bool "node option"
  | ArithmeticAssignmentNode source_pos AsebaBinaryOperator node node
  | UnaryArithmeticAssignmentNode source_pos AsebaBinaryOperator node

datatype ReturnType = RT_UNIT | RT_BOOL | RT_INT

text \<open>The children of a node, in the order of the \<^verbatim>\<open>children\<close> vector.\<close>

primrec children :: "node \<Rightarrow> node list" where
  "children (BlockNode p cs) = cs"
| "children (ProgramNode p cs) = cs"
| "children (AssignmentNode p l r) = [l, r]"
| "children (IfWhenNode p e n c t f) = c # t # (case f of None \<Rightarrow> [] | Some x \<Rightarrow> [x])"
| "children (FoldedIfWhenNode p op e n l r t f) = l # r # t # (case f of None \<Rightarrow> [] | Some x \<Rightarrow> [x])"
| "children (WhileNode p c b) = [c, b]"
| "children (FoldedWhileNode p op l r b) = [l, r, b]"
| "children (EventDeclNode p i) = []"
| "children (EmitNode p i a s cs) = cs"
| "children (SubDeclNode p i) = []"
| "children (CallSubNode p n i) = []"
| "children (BinaryArithmeticNode p op l r) = [l, r]"
| "children (UnaryArithmeticNode p op c) = [c]"
| "children (ImmediateNode p v) = []"
| "children (StoreNode p a) = []"
| "children (LoadNode p a) = []"
| "children (ArrayWriteNode p a s n i) = [i]"
| "children (ArrayReadNode p a s n i) = [i]"
| "children (LoadNativeArgNode p t a s n i) = [i]"
| "children (CallNode p f ts cs) = cs"
| "children (ReturnNode p) = []"
| "children (TupleVectorNode p cs) = cs"
| "children (MemoryVectorNode p a s n w i) = (case i of None \<Rightarrow> [] | Some x \<Rightarrow> [x])"
| "children (ArithmeticAssignmentNode p op l r) = [l, r]"
| "children (UnaryArithmeticAssignmentNode p op m) = [m]"

primrec sourcePos :: "node \<Rightarrow> source_pos" where
  "sourcePos (BlockNode p cs) = p"
| "sourcePos (ProgramNode p cs) = p"
| "sourcePos (AssignmentNode p l r) = p"
| "sourcePos (IfWhenNode p e n c t f) = p"
| "sourcePos (FoldedIfWhenNode p op e n l r t f) = p"
| "sourcePos (WhileNode p c b) = p"
| "sourcePos (FoldedWhileNode p op l r b) = p"
| "sourcePos (EventDeclNode p i) = p"
| "sourcePos (EmitNode p i a s cs) = p"
| "sourcePos (SubDeclNode p i) = p"
| "sourcePos (CallSubNode p n i) = p"
| "sourcePos (BinaryArithmeticNode p op l r) = p"
| "sourcePos (UnaryArithmeticNode p op c) = p"
| "sourcePos (ImmediateNode p v) = p"
| "sourcePos (StoreNode p a) = p"
| "sourcePos (LoadNode p a) = p"
| "sourcePos (ArrayWriteNode p a s n i) = p"
| "sourcePos (ArrayReadNode p a s n i) = p"
| "sourcePos (LoadNativeArgNode p t a s n i) = p"
| "sourcePos (CallNode p f ts cs) = p"
| "sourcePos (ReturnNode p) = p"
| "sourcePos (TupleVectorNode p cs) = p"
| "sourcePos (MemoryVectorNode p a s n w i) = p"
| "sourcePos (ArithmeticAssignmentNode p op l r) = p"
| "sourcePos (UnaryArithmeticAssignmentNode p op m) = p"

text \<open>The names of nodes and types in error messages.\<close>

primrec toNodeName :: "node \<Rightarrow> wstring" where
  "toNodeName (BlockNode p cs) = ws ''block''"
| "toNodeName (ProgramNode p cs) = ws ''program block''"
| "toNodeName (AssignmentNode p l r) = ws ''assignment''"
| "toNodeName (IfWhenNode p e n c t f) = ws ''if/when''"
| "toNodeName (FoldedIfWhenNode p op e n l r t f) = ws ''folded if/when''"
| "toNodeName (WhileNode p c b) = ws ''while''"
| "toNodeName (FoldedWhileNode p op l r b) = ws ''folded while''"
| "toNodeName (EventDeclNode p i) = ws ''event declaration''"
| "toNodeName (EmitNode p i a s cs) = ws ''emit''"
| "toNodeName (SubDeclNode p i) = ws ''subroutine declaration''"
| "toNodeName (CallSubNode p n i) = ws ''subroutine call''"
| "toNodeName (BinaryArithmeticNode p op l r) = ws ''binary function''"
| "toNodeName (UnaryArithmeticNode p op c) = ws ''unary function''"
| "toNodeName (ImmediateNode p v) = ws ''constant''"
| "toNodeName (StoreNode p a) = ws ''variable access (write)''"
| "toNodeName (LoadNode p a) = ws ''variable access (read)''"
| "toNodeName (ArrayWriteNode p a s n i) = ws ''array access (write)''"
| "toNodeName (ArrayReadNode p a s n i) = ws ''array access (read)''"
| "toNodeName (LoadNativeArgNode p t a s n i) = ws ''load native arg''"
| "toNodeName (CallNode p f ts cs) = ws ''native function call''"
| "toNodeName (ReturnNode p) = ws ''return''"
| "toNodeName (TupleVectorNode p cs) = ws ''array of constants''"
| "toNodeName (MemoryVectorNode p a s n w i) = ws ''vector access''"
| "toNodeName (ArithmeticAssignmentNode p op l r) = ws ''arithmetic assignment''"
| "toNodeName (UnaryArithmeticAssignmentNode p op m) = ws ''unary arithmetic assignment''"

primrec typeName :: "ReturnType \<Rightarrow> wstring" where
  "typeName RT_UNIT = ws ''unit''"
| "typeName RT_BOOL = ws ''bool''"
| "typeName RT_INT = ws ''integer''"

text \<open>The \<^verbatim>\<open>dynamic_cast\<close>s the passes use.\<close>

definition immediate :: "node \<Rightarrow> int option" where
  "immediate n = (case n of ImmediateNode _ v \<Rightarrow> Some v | _ \<Rightarrow> None)"

definition empty_block :: "node \<Rightarrow> bool" where
  "empty_block n = (case n of BlockNode _ cs \<Rightarrow> cs = [] | ProgramNode _ cs \<Rightarrow> cs = [] | _ \<Rightarrow> False)"

lemma immediate_simps [simp]: "immediate (ImmediateNode p v) = Some v"
  by (simp add: immediate_def)

lemma immediate_eq_Some: "immediate n = Some v \<longleftrightarrow> (\<exists>p. n = ImmediateNode p v)"
  by (auto simp: immediate_def split: node.splits)

lemma children_size: "c \<in> set (children n) \<Longrightarrow> size c < size n"
  by (cases n) (auto simp: less_Suc_eq_le split: option.splits intro: size_list_estimation' trans_le_add2)

end
