(* ===== verification/Identifier_Lookup.thy ===== *)
theory Identifier_Lookup
  imports Aesl_Syntax Target_Description
begin

text \<open>
  \<^verbatim>\<open>compiler/identifier-lookup.cpp\<close>: the edit distance that proposes a correction for an unknown name,
  the lookup of an identifier in one of the tables of the compiler, and the construction of those
  tables. Distances are natural numbers (the source holds them in an \<^verbatim>\<open>int\<close>, which names of fewer
  than \<open>2^31\<close> characters cannot overflow).
\<close>

section \<open>Edit distance\<close>

text \<open>
  One row of the dynamic programme: \<open>left\<close> is \<^verbatim>\<open>Dn[j - 1]\<close>, the list of distances is \<^verbatim>\<open>Do\<close> from index
  \<open>j - 1\<close> on, and the string is \<^verbatim>\<open>s2\<close> from index \<open>j - 1\<close> on.
\<close>

fun distance_row :: "'a \<Rightarrow> 'a list \<Rightarrow> nat \<Rightarrow> nat list \<Rightarrow> nat list" where
  "distance_row c (x # xs) left (d0 # d1 # ds) =
     (let v = min (min (d1 + 1) (left + 1)) (d0 + (if c = x then 0 else 1))
      in v # distance_row c xs v (d1 # ds))"
| "distance_row c _ left _ = []"

definition next_row :: "'a list \<Rightarrow> nat list \<Rightarrow> 'a \<Rightarrow> nat list" where
  "next_row s2 Do c = (let d = hd Do + 1 in d # distance_row c s2 d Do)"

definition first_row :: "'a list \<Rightarrow> nat list" where
  "first_row s2 = [0..<length s2 + 1]"

definition editDistance :: "'a list \<Rightarrow> 'a list \<Rightarrow> nat" where
  "editDistance s1 s2 = last (foldl (next_row s2) (first_row s2) s1)"

section \<open>Tables\<close>

text \<open>The search for the closest name: the best distance so far (\<open>None\<close> is the initial
  \<^verbatim>\<open>numeric_limits<unsigned>::max()\<close>) and its name.\<close>

definition maxDist :: nat where "maxDist = 3"

definition closer :: "wstring \<Rightarrow> (nat \<times> wstring) option \<Rightarrow> wstring \<Rightarrow> (nat \<times> wstring) option" where
  "closer name best thatName =
     (let d = editDistance name thatName
      in if (case best of None \<Rightarrow> True | Some (bestDist, _) \<Rightarrow> d < bestDist) \<and> d < maxDist
         then Some (d, thatName) else best)"

definition findInTable ::
  "(wstring, 'v) std_map \<Rightarrow> wstring \<Rightarrow> source_pos \<Rightarrow> error_code \<Rightarrow> error_code \<Rightarrow> failure + 'v" where
  "findInTable m name pos notFoundError misspelledError =
     (case map_find m name of
        Some v \<Rightarrow> Inr v
      | None \<Rightarrow>
          (case foldl (closer name) None (map fst m) of
             Some (bestDist, bestName) \<Rightarrow>
               Inl (TranslatableError pos misspelledError [Arg_string name, Arg_string bestName])
           | None \<Rightarrow> Inl (TranslatableError pos notFoundError [Arg_string name])))"

record named_value =
  nval_name :: wstring
  nval_value :: int

record common_definitions =
  events :: "named_value list"
  constants :: "named_value list"

record subroutine_descriptor =
  sub_name :: wstring
  sub_address :: u32
  sub_line :: u32

record compiler =
  variablesMap :: variables_map
  implementedEvents :: "u32 set"
  functionsMap :: functions_map
  constantsMap :: "(wstring, int) std_map"
  globalEventsMap :: "(wstring, u32) std_map"
  allEventsMap :: "(wstring, u32) std_map"
  subroutineTable :: "subroutine_descriptor list"
  subroutineReverseTable :: "(wstring, u32) std_map"
  freeVariableIndex :: u32
  endVariableIndex :: u32
  targetDescription :: target_description
  commonDefinitions :: common_definitions

primrec contains :: "named_value list \<Rightarrow> wstring \<Rightarrow> nat \<Rightarrow> nat option" where
  "contains [] s i = None"
| "contains (v # vs) s i = (if nval_name v = s then Some i else contains vs s (Suc i))"

definition findVariable :: "compiler \<Rightarrow> wstring \<Rightarrow> source_pos \<Rightarrow> failure + u32 \<times> u32" where
  "findVariable c name pos =
     findInTable (variablesMap c) name pos ERROR_VARIABLE_NOT_DEFINED ERROR_VARIABLE_NOT_DEFINED_GUESS"

definition findFunction :: "compiler \<Rightarrow> wstring \<Rightarrow> source_pos \<Rightarrow> failure + u32" where
  "findFunction c name pos =
     findInTable (functionsMap c) name pos ERROR_FUNCTION_NOT_DEFINED ERROR_FUNCTION_NOT_DEFINED_GUESS"

definition findConstant :: "compiler \<Rightarrow> wstring \<Rightarrow> source_pos \<Rightarrow> failure + int" where
  "findConstant c name pos =
     findInTable (constantsMap c) name pos ERROR_CONSTANT_NOT_DEFINED ERROR_CONSTANT_NOT_DEFINED_GUESS"

definition constantExists :: "compiler \<Rightarrow> wstring \<Rightarrow> bool" where
  "constantExists c name = (map_find (constantsMap c) name \<noteq> None)"

definition findGlobalEvent :: "compiler \<Rightarrow> wstring \<Rightarrow> source_pos \<Rightarrow> failure + u32" where
  "findGlobalEvent c name pos =
     (case findInTable (globalEventsMap c) name pos ERROR_EVENT_NOT_DEFINED ERROR_EVENT_NOT_DEFINED_GUESS of
        Inr i \<Rightarrow> Inr i
      | Inl e \<Rightarrow>
          if map_find (allEventsMap c) name \<noteq> None
          then Inl (TranslatableError pos ERROR_EMIT_LOCAL_EVENT [Arg_string name])
          else Inl e)"

definition findAnyEvent :: "compiler \<Rightarrow> wstring \<Rightarrow> source_pos \<Rightarrow> failure + u32" where
  "findAnyEvent c name pos =
     findInTable (allEventsMap c) name pos ERROR_EVENT_NOT_DEFINED ERROR_EVENT_NOT_DEFINED_GUESS"

definition findSubroutine :: "compiler \<Rightarrow> wstring \<Rightarrow> source_pos \<Rightarrow> failure + u32" where
  "findSubroutine c name pos =
     findInTable (subroutineReverseTable c) name pos
       ERROR_SUBROUTINE_NOT_DEFINED ERROR_SUBROUTINE_NOT_DEFINED_GUESS"

text \<open>Indices count in a 32-bit \<^verbatim>\<open>unsigned\<close>.\<close>

definition event_entries :: "named_value list \<Rightarrow> (wstring \<times> u32) list" where
  "event_entries es = map (\<lambda>(i, e). (nval_name e, word_of_nat i)) (enumerate 0 es)"

definition local_event_entries :: "local_event list \<Rightarrow> (wstring \<times> u32) list" where
  "local_event_entries es =
     map (\<lambda>(i, e). (le_name e, ASEBA_EVENT_LOCAL_EVENTS_START - word_of_nat i)) (enumerate 0 es)"

definition buildMaps :: "compiler \<Rightarrow> compiler" where
  "buildMaps c =
     (let td = targetDescription c; cd = commonDefinitions c;
          (vm, free) = getVariablesMap td;
          global = map_fill (event_entries (events cd)) []
      in c\<lparr>implementedEvents := {}, subroutineTable := [], subroutineReverseTable := [],
           variablesMap := vm, freeVariableIndex := free,
           functionsMap := getFunctionsMap td,
           constantsMap := map_fill (map (\<lambda>v. (nval_name v, nval_value v)) (constants cd)) [],
           globalEventsMap := global,
           allEventsMap := map_fill (local_event_entries (localEvents td)) global\<rparr>)"

section \<open>The edit distance is the least number of edits\<close>

text \<open>One edit: a character is deleted, inserted or replaced.\<close>

inductive edit :: "'a list \<Rightarrow> 'a list \<Rightarrow> bool" where
  delete: "edit (u @ c # v) (u @ v)"
| insert: "edit (u @ v) (u @ c # v)"
| replace: "edit (u @ c # v) (u @ d # v)"

text \<open>Alignments of two strings with their number of mismatches.\<close>

inductive align :: "nat \<Rightarrow> 'a list \<Rightarrow> 'a list \<Rightarrow> bool" where
  empty: "align 0 [] []"
| keep: "align n xs ys \<Longrightarrow> align n (xs @ [c]) (ys @ [c])"
| swap: "align n xs ys \<Longrightarrow> align (Suc n) (xs @ [c]) (ys @ [d])"
| drop: "align n xs ys \<Longrightarrow> align (Suc n) (xs @ [c]) ys"
| add: "align n xs ys \<Longrightarrow> align (Suc n) xs (ys @ [d])"

lemma align_append:
  "align m u' v' \<Longrightarrow> align n u v \<Longrightarrow> align (n + m) (u @ u') (v @ v')"
proof (induction rule: align.induct)
  case (keep m xs ys c)
  then show ?case using align.keep [of "n + m" "u @ xs" "v @ ys" c] by simp
next
  case (swap m xs ys c d)
  then show ?case using align.swap [of "n + m" "u @ xs" "v @ ys" c d] by simp
next
  case (drop m xs ys c)
  then show ?case using align.drop [of "n + m" "u @ xs" "v @ ys" c] by simp
next
  case (add m xs ys d)
  then show ?case using align.add [of "n + m" "u @ xs" "v @ ys" d] by simp
qed simp

lemma align_split:
  "align n xs ys \<Longrightarrow> xs = u @ v \<Longrightarrow>
    \<exists>n1 n2 y1 y2. n = n1 + n2 \<and> ys = y1 @ y2 \<and> align n1 u y1 \<and> align n2 v y2"
proof (induction arbitrary: v rule: align.induct)
  case empty
  then show ?case by (auto intro: align.empty)
next
  case (keep n xs ys c)
  show ?case
  proof (cases v rule: rev_cases)
    case Nil
    with keep show ?thesis by (metis align.empty align.keep append_Nil2 add_0_right)
  next
    case (snoc v' c')
    with keep.prems keep.IH [of v'] show ?thesis
      by (metis align.keep append.assoc append1_eq_conv)
  qed
next
  case (swap n xs ys c d)
  show ?case
  proof (cases v rule: rev_cases)
    case Nil
    with swap show ?thesis by (metis align.empty align.swap append_Nil2 add_0_right)
  next
    case (snoc v' c')
    with swap.prems swap.IH [of v'] show ?thesis
      by (metis align.swap append.assoc append1_eq_conv add_Suc_right)
  qed
next
  case (drop n xs ys c)
  show ?case
  proof (cases v rule: rev_cases)
    case Nil
    with drop show ?thesis by (metis align.empty align.drop append_Nil2 add_0_right)
  next
    case (snoc v' c')
    with drop.prems drop.IH [of v'] show ?thesis
      by (metis align.drop append.assoc append1_eq_conv add_Suc_right)
  qed
next
  case (add n xs ys d)
  then obtain n1 n2 y1 y2 where "n = n1 + n2" "ys = y1 @ y2" "align n1 u y1" "align n2 v y2"
    by blast
  then show ?case by (metis align.add append.assoc add_Suc_right)
qed

lemma align_length_le: "align n xs ys \<Longrightarrow> length ys \<le> length xs + n"
  by (induction rule: align.induct) auto

lemma align_Nil: "align (length ys) [] ys"
  by (induction ys rule: rev_induct) (auto intro: align.intros)

lemma align_single: "align (if ys = [] then 1 else length ys) [c] ys"
proof (cases ys)
  case Nil
  then show ?thesis using align.drop [OF align.empty, of c] by simp
next
  case (Cons y ys')
  then show ?thesis
    using align_append [OF align_Nil [of ys'] align.swap [OF align.empty, of c y]] by simp
qed

lemma align_refl: "align 0 xs xs"
  by (induction xs rule: rev_induct) (auto intro: align.intros)

text \<open>One edit before an alignment costs at most one mismatch.\<close>

lemma align_part:
  assumes "align n (u @ w @ v) ys"
    and step: "\<And>m y. align m w y \<Longrightarrow> \<exists>m' \<le> m + 1. align m' w' y"
  shows "\<exists>n' \<le> n + 1. align n' (u @ w' @ v) ys"
proof -
  from align_split [OF assms(1), of u "w @ v"] obtain n1 n2 y1 y2
    where 1: "n = n1 + n2" "ys = y1 @ y2" "align n1 u y1" "align n2 (w @ v) y2" by auto
  from align_split [OF 1(4), of w v] obtain n3 n4 y3 y4
    where 2: "n2 = n3 + n4" "y2 = y3 @ y4" "align n3 w y3" "align n4 v y4" by auto
  from step [OF 2(3)] obtain m where m: "m \<le> n3 + 1" "align m w' y3" by auto
  have "align (n1 + (m + n4)) (u @ w' @ v) ys"
    using 1 2 m by (simp add: align_append)
  moreover have "n1 + (m + n4) \<le> n + 1" using 1 2 m by simp
  ultimately show ?thesis by blast
qed

lemma align_edit:
  assumes "edit xs xs'" and "align n xs' ys"
  shows "\<exists>n' \<le> n + 1. align n' xs ys"
  using assms
proof (cases rule: edit.cases)
  case (delete u c v)
  have "\<exists>m' \<le> m + 1. align m' [c] y" if "align m [] y" for m y
    using align_length_le [OF that] align_single [of y c]
    by (intro exI [of _ "if y = [] then 1 else length y"]) auto
  with align_part [of n u "[]" v ys "[c]"] assms(2) delete show ?thesis by simp
next
  case (insert u v c)
  have "\<exists>m' \<le> m + 1. align m' [] y" if "align m [c] y" for m y
    using align_length_le [OF that] align_Nil [of y] by auto
  with align_part [of n u "[c]" v ys "[]"] assms(2) insert show ?thesis by simp
next
  case (replace u c v d)
  have "\<exists>m' \<le> m + 1. align m' [c] y" if "align m [d] y" for m y
    using align_length_le [OF that] align_single [of y c]
    by (intro exI [of _ "if y = [] then 1 else length y"]) auto
  with align_part [of n u "[d]" v ys "[c]"] assms(2) replace show ?thesis by simp
qed

lemma edits_align: "(edit ^^ n) xs ys \<Longrightarrow> \<exists>m \<le> n. align m xs ys"
proof (induction n arbitrary: xs)
  case 0
  then show ?case using align_refl by auto
next
  case (Suc n)
  then obtain zs where "edit xs zs" "(edit ^^ n) zs ys" by (metis relpowp_Suc_D2)
  from Suc.IH [OF this(2)] obtain m where "m \<le> n" "align m zs ys" by blast
  with align_edit [OF \<open>edit xs zs\<close>, of m ys] show ?case by (auto intro: le_trans)
qed

lemma edit_snoc: "edit xs ys \<Longrightarrow> edit (xs @ [c]) (ys @ [c])"
  by (erule edit.cases) (auto intro: edit.intros)

lemma edits_snoc: "(edit ^^ n) xs ys \<Longrightarrow> (edit ^^ n) (xs @ [c]) (ys @ [c])"
proof (induction n arbitrary: ys)
  case (Suc n)
  then show ?case using edit_snoc by (metis relpowp_Suc_E relpowp_Suc_I)
qed simp

lemma align_edits: "align n xs ys \<Longrightarrow> (edit ^^ n) xs ys"
proof (induction rule: align.induct)
  case (keep n xs ys c)
  then show ?case by (simp add: edits_snoc)
next
  case (swap n xs ys c d)
  then show ?case using edits_snoc [of n xs ys c] edit.replace [of ys c "[]" d]
    by (metis relpowp_Suc_I)
next
  case (drop n xs ys c)
  then show ?case using edit.delete [of xs c "[]"] by (metis append_Nil2 relpowp_Suc_I2)
next
  case (add n xs ys d)
  then show ?case using edit.insert [of ys "[]" d] by (metis append_Nil2 relpowp_Suc_I)
qed simp

section \<open>The dynamic programme computes it\<close>

text \<open>\<open>least_align n xs ys\<close>: the best alignment has \<open>n\<close> mismatches.\<close>

definition least_align :: "nat \<Rightarrow> 'a list \<Rightarrow> 'a list \<Rightarrow> bool" where
  "least_align n xs ys \<longleftrightarrow> align n xs ys \<and> (\<forall>m. align m xs ys \<longrightarrow> n \<le> m)"

lemma least_align_Nil: "least_align (length ys) [] ys"
  using align_Nil align_length_le by (fastforce simp: least_align_def)

inductive_cases align_nil_right: "align n xs []"
inductive_cases align_snoc: "align n (xs @ [c]) (ys @ [d])"

lemma least_align_drop: "least_align n xs [] \<Longrightarrow> least_align (n + 1) (xs @ [c]) []"
  by (auto simp: least_align_def intro: align.drop elim: align_nil_right)

lemma least_align_step:
  assumes "least_align a xs ys" "least_align b xs (ys @ [d])" "least_align l (xs @ [c]) ys"
  shows "least_align (min (min (b + 1) (l + 1)) (a + (if c = d then 0 else 1))) (xs @ [c]) (ys @ [d])"
proof -
  let ?m = "min (min (b + 1) (l + 1)) (a + (if c = d then 0 else 1))"
  have "align (b + 1) (xs @ [c]) (ys @ [d])" "align (l + 1) (xs @ [c]) (ys @ [d])"
    "align (a + (if c = d then 0 else 1)) (xs @ [c]) (ys @ [d])"
    using assms by (auto simp: least_align_def intro: align.intros)
  then have "align ?m (xs @ [c]) (ys @ [d])" by (simp add: min_def)
  moreover have "?m \<le> m" if "align m (xs @ [c]) (ys @ [d])" for m
    using that assms
    by (elim align_snoc) (auto simp: least_align_def min_def not_le less_eq_Suc_le split: if_splits)
  ultimately show ?thesis by (simp add: least_align_def)
qed

text \<open>A row holds the least alignments of \<open>xs\<close> with the prefixes \<open>ys, ys @ [z1], ...\<close>.\<close>

primrec row_of :: "'a list \<Rightarrow> 'a list \<Rightarrow> 'a list \<Rightarrow> nat list \<Rightarrow> bool" where
  "row_of xs ys [] ds = (\<exists>d. ds = [d] \<and> least_align d xs ys)"
| "row_of xs ys (z # zs) ds =
     (\<exists>d ds'. ds = d # ds' \<and> least_align d xs ys \<and> row_of xs (ys @ [z]) zs ds')"

lemma row_of_hd: "row_of xs ys zs ds \<Longrightarrow> \<exists>d ds'. ds = d # ds' \<and> least_align d xs ys"
  by (cases zs) auto

lemma row_of_distance_row:
  "row_of xs ys zs ds \<Longrightarrow> least_align l (xs @ [c]) ys \<Longrightarrow>
    row_of (xs @ [c]) ys zs (l # distance_row c zs l ds)"
proof (induction zs arbitrary: ys ds l)
  case Nil
  then show ?case by auto
next
  case (Cons z zs)
  from Cons.prems(1) obtain d0 ds' where 1: "ds = d0 # ds'" "least_align d0 xs ys"
    "row_of xs (ys @ [z]) zs ds'" by auto
  from row_of_hd [OF 1(3)] obtain d1 ds'' where 2: "ds' = d1 # ds''" "least_align d1 xs (ys @ [z])"
    by auto
  from Cons.IH [OF 1(3) least_align_step [OF 1(2) 2(2) Cons.prems(2)]] show ?case
    using 1 2 Cons.prems(2) by (simp add: Let_def)
qed

lemma row_of_first: "row_of [] ys zs [length ys..<length ys + length zs + 1]"
proof (induction zs arbitrary: ys)
  case Nil
  then show ?case by (simp add: least_align_Nil)
next
  case (Cons z zs)
  have "[length ys..<length ys + length (z # zs) + 1] =
      length ys # [length (ys @ [z])..<length (ys @ [z]) + length zs + 1]"
    by (simp add: upt_conv_Cons del: upt_Suc)
  with Cons [of "ys @ [z]"] show ?case by (simp add: least_align_Nil del: upt_Suc)
qed

lemma row_of_fold: "row_of s1 [] s2 (foldl (next_row s2) (first_row s2) s1)"
proof (induction s1 rule: rev_induct)
  case Nil
  then show ?case using row_of_first [of "[]" s2] by (simp add: first_row_def)
next
  case (snoc c s1)
  from row_of_hd [OF snoc] obtain d ds where
    "foldl (next_row s2) (first_row s2) s1 = d # ds" "least_align d s1 []" by auto
  then show ?case
    using row_of_distance_row [OF snoc least_align_drop, of d c] by (simp add: next_row_def [of s2 "d # ds"] Let_def)
qed

lemma row_of_last: "row_of xs ys zs ds \<Longrightarrow> least_align (last ds) xs (ys @ zs)"
proof (induction zs arbitrary: ys ds)
  case (Cons z zs)
  then obtain d ds' where "ds = d # ds'" "row_of xs (ys @ [z]) zs ds'" by auto
  moreover from this have "ds' \<noteq> []" using row_of_hd by fastforce
  ultimately show ?case using Cons.IH by fastforce
qed auto

text \<open>C10: The edit distance is the least number of single-character deletions, insertions and
  replacements that turn the first string into the second: that many edits are enough, and no
  shorter sequence of edits exists.\<close>

theorem editDistance_least:
  "(edit ^^ editDistance s1 s2) s1 s2 \<and> editDistance s1 s2 = (LEAST n. (edit ^^ n) s1 s2)"
proof -
  have l: "least_align (editDistance s1 s2) s1 s2"
    using row_of_last [OF row_of_fold [of s1 s2]] by (simp add: editDistance_def)
  then have e: "(edit ^^ editDistance s1 s2) s1 s2"
    using align_edits unfolding least_align_def by metis
  have "editDistance s1 s2 \<le> n" if "(edit ^^ n) s1 s2" for n
    using l edits_align [OF that] unfolding least_align_def by (metis order_trans)
  then have "(LEAST n. (edit ^^ n) s1 s2) = editDistance s1 s2" using e by (intro Least_equality) auto
  with e show ?thesis by simp
qed

section \<open>What a failed lookup reports\<close>

text \<open>The candidate kept after a list of names: the first of the names at the least distance, if that
  distance is below the limit.\<close>

definition best_of :: "wstring \<Rightarrow> wstring list \<Rightarrow> (nat \<times> wstring) option \<Rightarrow> bool" where
  "best_of name names b \<longleftrightarrow>
     (case b of
        None \<Rightarrow> \<forall>x\<in>set names. maxDist \<le> editDistance name x
      | Some (d, x) \<Rightarrow> d < maxDist \<and> d = editDistance name x \<and>
          (\<exists>us vs. names = us @ x # vs \<and> (\<forall>u\<in>set us. d < editDistance name u)
            \<and> (\<forall>v\<in>set vs. d \<le> editDistance name v)))"

lemma best_ofI:
  "editDistance name x < maxDist \<Longrightarrow> names = us @ x # vs \<Longrightarrow>
    (\<And>u. u \<in> set us \<Longrightarrow> editDistance name x < editDistance name u) \<Longrightarrow>
    (\<And>v. v \<in> set vs \<Longrightarrow> editDistance name x \<le> editDistance name v) \<Longrightarrow>
    best_of name names (Some (editDistance name x, x))"
  unfolding best_of_def option.case prod.case by (intro conjI exI [of _ us] exI [of _ vs]) auto

lemma best_of_closer: "best_of name names b \<Longrightarrow> best_of name (names @ [x]) (closer name b x)"
proof (cases b)
  case None
  assume "best_of name names b"
  with None have far: "\<forall>u\<in>set names. maxDist \<le> editDistance name u" by (simp add: best_of_def)
  show ?thesis
  proof (cases "editDistance name x < maxDist")
    case True
    with None far show ?thesis
      by (auto simp: closer_def intro!: best_ofI [where us = names and vs = "[]"])
  next
    case False
    with None far show ?thesis by (simp add: closer_def best_of_def)
  qed
next
  case (Some p)
  obtain d y where p: "p = (d, y)" by force
  assume "best_of name names b"
  with Some p obtain us vs where *: "d < maxDist" "d = editDistance name y"
    "names = us @ y # vs" "\<forall>u\<in>set us. d < editDistance name u"
    "\<forall>v\<in>set vs. d \<le> editDistance name v"
    by (auto simp: best_of_def)
  show ?thesis
  proof (cases "editDistance name x < d")
    case True
    with * have "\<forall>u\<in>set names. editDistance name x < editDistance name u" by fastforce
    with True * Some p show ?thesis
      by (auto simp: closer_def intro!: best_ofI [where us = names and vs = "[]"])
  next
    case False
    with * Some p show ?thesis
      by (auto simp: closer_def intro!: best_ofI [where us = us and vs = "vs @ [x]"])
  qed
qed

lemma best_of_fold: "best_of name names (foldl (closer name) None names)"
proof (induction names rule: rev_induct)
  case Nil
  then show ?case by (simp add: best_of_def)
next
  case (snoc x names)
  then show ?case by (simp add: best_of_closer)
qed

text \<open>A lookup that fails proposes a name exactly when some name of the table is at edit distance
  at most two; the proposed name is in the table, no name of the table is closer, and of the equally
  close names it is the first in the order of the table.\<close>

theorem findInTable_guess:
  assumes "map_find m name = None"
  shows "(\<exists>bestName us vs. findInTable m name pos nf ms =
            Inl (TranslatableError pos ms [Arg_string name, Arg_string bestName]) \<and>
          map fst m = us @ bestName # vs \<and> editDistance name bestName \<le> 2 \<and>
          (\<forall>x\<in>set us. editDistance name bestName < editDistance name x) \<and>
          (\<forall>x\<in>set vs. editDistance name bestName \<le> editDistance name x)) \<or>
        (findInTable m name pos nf ms = Inl (TranslatableError pos nf [Arg_string name]) \<and>
          (\<forall>x\<in>fst ` set m. 2 < editDistance name x))"
proof (cases "foldl (closer name) None (map fst m)")
  case None
  with best_of_fold [of name "map fst m"] assms show ?thesis
    by (auto simp: findInTable_def best_of_def maxDist_def)
next
  case (Some b)
  with best_of_fold [of name "map fst m"] assms show ?thesis
    by (cases b) (auto simp: findInTable_def best_of_def maxDist_def)
qed

section \<open>The event tables\<close>

lemma map_find_fill_entry:
  assumes "distinct (map fst es)" "(k, v) \<in> set es"
  shows "map_find (map_fill es m) k = Some v"
proof -
  from assms have "map_of (rev es) k = Some v" by (simp add: rev_map [symmetric])
  then show ?thesis by (simp add: map_find_map_fill)
qed

lemma map_find_fill_other: "k \<notin> fst ` set es \<Longrightarrow> map_find (map_fill es m) k = map_find m k"
proof -
  assume "k \<notin> fst ` set es"
  then have "map_of (rev es) k = None" by (simp add: map_of_eq_None_iff)
  then show ?thesis by (simp add: map_find_map_fill)
qed

lemma event_entries_facts:
  "map fst (event_entries gs) = map nval_name gs"
  "i < length gs \<Longrightarrow> (nval_name (gs ! i), word_of_nat i) \<in> set (event_entries gs)"
  by (auto simp: event_entries_def nth_enumerate_eq in_set_enumerate_eq
      intro!: nth_equalityI image_eqI [where x = "(i, gs ! i)"])

lemma local_event_entries_facts:
  "map fst (local_event_entries ls) = map le_name ls"
  "j < length ls \<Longrightarrow> (le_name (ls ! j), 0xFFFE - word_of_nat j) \<in> set (local_event_entries ls)"
  by (auto simp: local_event_entries_def nth_enumerate_eq in_set_enumerate_eq
      ASEBA_EVENT_LOCAL_EVENTS_START_def intro!: nth_equalityI image_eqI [where x = "(j, ls ! j)"])

lemma fst_set: "fst ` set es = set (map fst es)"
  by simp

lemma buildMaps_globalEvents:
  "globalEventsMap (buildMaps c) = map_fill (event_entries (events (commonDefinitions c))) []"
  by (simp add: buildMaps_def Let_def split: prod.split)

lemma buildMaps_allEvents:
  "allEventsMap (buildMaps c) =
    map_fill (local_event_entries (localEvents (targetDescription c))) (globalEventsMap (buildMaps c))"
  by (simp add: buildMaps_def Let_def split: prod.split)

lemma findInTable_found: "map_find m name = Some v \<Longrightarrow> findInTable m name pos nf ms = Inr v"
  by (simp add: findInTable_def)

lemma findInTable_missing: "map_find m name = None \<Longrightarrow> \<exists>e. findInTable m name pos nf ms = Inl e"
  by (auto simp: findInTable_def split: option.split)

text \<open>Once the tables are built, for distinct names, the name of a global event denotes its index
  both where an event may be handled and where it may be emitted, and the name of a local event denotes
  its index counted down from \<open>0xFFFE\<close> where it may be handled, and is refused with its own error where
  it may only be emitted.\<close>

theorem buildMaps_events:
  assumes "gs = events (commonDefinitions c)" and "ls = localEvents (targetDescription c)"
    and "distinct (map nval_name gs @ map le_name ls)"
    and "i < length gs" and "j < length ls"
  shows "findGlobalEvent (buildMaps c) (nval_name (gs ! i)) pos = Inr (word_of_nat i) \<and>
     findAnyEvent (buildMaps c) (nval_name (gs ! i)) pos = Inr (word_of_nat i) \<and>
     findAnyEvent (buildMaps c) (le_name (ls ! j)) pos = Inr (0xFFFE - word_of_nat j) \<and>
     findGlobalEvent (buildMaps c) (le_name (ls ! j)) pos =
       Inl (TranslatableError pos ERROR_EMIT_LOCAL_EVENT [Arg_string (le_name (ls ! j))])"
proof -
  have other: "nval_name (gs ! i) \<notin> fst ` set (local_event_entries ls)"
    "le_name (ls ! j) \<notin> fst ` set (event_entries gs)"
    unfolding fst_set event_entries_facts local_event_entries_facts
    using assms(3-5) nth_mem [of i gs] nth_mem [of j ls] by (force simp: disjoint_iff)+
  have g: "map_find (globalEventsMap (buildMaps c)) (nval_name (gs ! i)) = Some (word_of_nat i)"
    using assms by (simp add: buildMaps_globalEvents map_find_fill_entry event_entries_facts)
  moreover have "map_find (allEventsMap (buildMaps c)) (nval_name (gs ! i)) = Some (word_of_nat i)"
    using g other assms(2) by (simp add: buildMaps_allEvents map_find_fill_other)
  moreover have "map_find (allEventsMap (buildMaps c)) (le_name (ls ! j)) = Some (0xFFFE - word_of_nat j)"
    using assms by (simp add: buildMaps_allEvents map_find_fill_entry local_event_entries_facts)
  moreover have "map_find (globalEventsMap (buildMaps c)) (le_name (ls ! j)) = None"
    using other assms(1) by (simp add: buildMaps_globalEvents map_find_fill_other)
  ultimately show ?thesis
    using findInTable_missing [of "globalEventsMap (buildMaps c)" "le_name (ls ! j)" pos
        ERROR_EVENT_NOT_DEFINED ERROR_EVENT_NOT_DEFINED_GUESS]
    by (auto simp: findGlobalEvent_def findAnyEvent_def findInTable_found)
qed

definition sample_compiler :: compiler where
  "sample_compiler =
     \<lparr>variablesMap = [], implementedEvents = {}, functionsMap = [], constantsMap = [], globalEventsMap = [],
      allEventsMap = [], subroutineTable = [], subroutineReverseTable = [], freeVariableIndex = 0,
      endVariableIndex = 0,
      targetDescription = sample_target\<lparr>localEvents := [\<lparr>le_name = ws ''prox'', le_description = []\<rparr>]\<rparr>,
      commonDefinitions = \<lparr>events = [\<lparr>nval_name = ws ''ping'', nval_value = 1\<rparr>], constants = []\<rparr>\<rparr>"

end
