(* ===== verification/Bytecode.thy ===== *)
theory Bytecode
  imports Identifier_Lookup
begin

text \<open>
  Bytecode under construction: \<^verbatim>\<open>BytecodeElement\<close> and \<^verbatim>\<open>BytecodeVector\<close> of \<^verbatim>\<open>compiler.h\<close>, with their
  methods of \<^verbatim>\<open>compiler.cpp\<close>. Every loop that walks over code steps from the first word of an
  instruction to the next by \<^verbatim>\<open>getWordSize\<close>; the walks share \<open>opcodes\<close> (the first words) and
  \<open>rewrite\<close> (change the first words in place).
\<close>

record bytecode_element =
  bytecode :: u16
  line :: u16

record bytecode_vector =
  elements :: "bytecode_element list"
  maxStackDepth :: u32
  callDepth :: u32
  lastLine :: u32

definition empty_vector :: bytecode_vector where
  "empty_vector = \<lparr>elements = [], maxStackDepth = 0, callDepth = 0, lastLine = 0\<rparr>"

definition element :: "u16 \<Rightarrow> u16 \<Rightarrow> bytecode_element" where
  "element b l = \<lparr>bytecode = b, line = l\<rparr>"

definition opcode :: "bytecode_element \<Rightarrow> u16" where
  "opcode e = drop_bit 12 (bytecode e)"

definition getWordSize :: "bytecode_element \<Rightarrow> nat" where
  "getWordSize e =
     (if opcode e \<in> {bytecode_id ASEBA_BYTECODE_LARGE_IMMEDIATE, bytecode_id ASEBA_BYTECODE_LOAD_INDIRECT,
          bytecode_id ASEBA_BYTECODE_STORE_INDIRECT, bytecode_id ASEBA_BYTECODE_CONDITIONAL_BRANCH} then 2
      else if opcode e = bytecode_id ASEBA_BYTECODE_EMIT then 3
      else 1)"

definition push_back :: "bytecode_element \<Rightarrow> bytecode_vector \<Rightarrow> bytecode_vector" where
  "push_back e v = v\<lparr>elements := elements v @ [e], lastLine := ucast (line e)\<rparr>"

text \<open>\<^verbatim>\<open>std::copy\<close> to a back inserter of the vector.\<close>

definition copy_back :: "bytecode_element list \<Rightarrow> bytecode_vector \<Rightarrow> bytecode_vector" where
  "copy_back es v = foldl (\<lambda>v e. push_back e v) v es"

section \<open>Walks\<close>

fun opcodes :: "bytecode_element list \<Rightarrow> bytecode_element list" where
  "opcodes [] = []"
| "opcodes (e # es) = e # opcodes (drop (getWordSize e - 1) es)"

fun rewrite :: "(bytecode_element \<Rightarrow> bytecode_element) \<Rightarrow> bytecode_element list \<Rightarrow> bytecode_element list" where
  "rewrite f [] = []"
| "rewrite f (e # es) =
     (let e' = f e; k = getWordSize e' - 1 in e' # take k es @ rewrite f (drop k es))"

definition stop_to_ret :: "bytecode_element \<Rightarrow> bytecode_element" where
  "stop_to_ret e =
     (if opcode e = bytecode_id ASEBA_BYTECODE_STOP
      then e\<lparr>bytecode := AsebaBytecodeFromId ASEBA_BYTECODE_SUB_RET\<rparr> else e)"

definition changeStopToRetSub :: "bytecode_vector \<Rightarrow> bytecode_vector" where
  "changeStopToRetSub v = v\<lparr>elements := rewrite stop_to_ret (elements v)\<rparr>"

definition getTypeOfLast :: "bytecode_vector \<Rightarrow> u16" where
  "getTypeOfLast v = (if elements v = [] then 16 else opcode (last (opcodes (elements v))))"

text \<open>The event table at the head of linked bytecode: pairs of identifier and address, up to the index in
  the first word.\<close>

function event_table :: "bytecode_element list \<Rightarrow> nat \<Rightarrow> nat \<Rightarrow> (u32, u32) std_map \<Rightarrow> failure + (u32, u32) std_map" where
  "event_table es pc n m =
     (if pc < n then
        if pc + 1 < length es
        then event_table es (pc + 2) n (map_set (ucast (bytecode (es ! (pc + 1)))) (ucast (bytecode (es ! pc))) m)
        else Inl Undefined
      else Inr m)"
  by auto
termination
  by (relation "measure (\<lambda>(es, pc, n, m). n - pc)") auto

declare event_table.simps [simp del]

definition getEventAddressesToIds :: "bytecode_vector \<Rightarrow> failure + (u32, u32) std_map" where
  "getEventAddressesToIds v =
     (case elements v of
        [] \<Rightarrow> Inl Undefined
      | e # es \<Rightarrow> event_table (elements v) 1 (unat (bytecode e)) [])"

section \<open>Whole instructions\<close>

text \<open>Code that consists of whole instructions.\<close>

fun aligned :: "bytecode_element list \<Rightarrow> bool" where
  "aligned [] \<longleftrightarrow> True"
| "aligned (e # es) \<longleftrightarrow> getWordSize e - 1 \<le> length es \<and> aligned (drop (getWordSize e - 1) es)"

lemma getWordSize_bounds: "1 \<le> getWordSize e" "getWordSize e \<le> 3"
  by (auto simp: getWordSize_def)

lemma aligned_append: "aligned xs \<Longrightarrow> aligned ys \<Longrightarrow> aligned (xs @ ys)"
  by (induction xs rule: aligned.induct) auto

lemma opcodes_append: "aligned xs \<Longrightarrow> opcodes (xs @ ys) = opcodes xs @ opcodes ys"
  by (induction xs rule: aligned.induct) auto

lemma rewrite_append:
  assumes "\<And>e. e \<in> set (opcodes xs) \<Longrightarrow> getWordSize (f e) = getWordSize e"
  shows "aligned xs \<Longrightarrow> rewrite f (xs @ ys) = rewrite f xs @ rewrite f ys"
  using assms by (induction xs rule: aligned.induct) (auto simp: Let_def)

lemma opcodes_rewrite:
  assumes "\<And>e. e \<in> set (opcodes xs) \<Longrightarrow> getWordSize (f e) = getWordSize e"
  shows "aligned xs \<Longrightarrow> opcodes (rewrite f xs) = map f (opcodes xs)"
  using assms by (induction xs rule: aligned.induct) (auto simp: Let_def)

lemma aligned_rewrite:
  assumes "\<And>e. e \<in> set (opcodes xs) \<Longrightarrow> getWordSize (f e) = getWordSize e"
  shows "aligned xs \<Longrightarrow> aligned (rewrite f xs)"
  using assms by (induction xs rule: aligned.induct) (auto simp: Let_def)

lemma length_rewrite: "length (rewrite f xs) = length xs"
  by (induction f xs rule: rewrite.induct) (auto simp: Let_def)

lemma opcodes_subset: "set (opcodes xs) \<subseteq> set xs"
proof (induction xs rule: opcodes.induct)
  case (2 e es)
  then show ?case using set_drop_subset [of "getWordSize e - 1" es] by auto
qed simp

lemma opcodes_empty [simp]: "opcodes xs = [] \<longleftrightarrow> xs = []"
  by (cases xs) auto

lemma opcode_FromId [simp]:
  "drop_bit 12 (AsebaBytecodeFromId i) = bytecode_id i"
  by (cases i) (simp_all add: AsebaBytecodeFromId_def)

lemma stop_to_ret_size: "getWordSize (stop_to_ret e) = getWordSize e"
  by (simp add: stop_to_ret_def getWordSize_def opcode_def)

lemma elements_push_back [simp]: "elements (push_back e v) = elements v @ [e]"
  by (simp add: push_back_def)

lemma elements_copy_back [simp]: "elements (copy_back es v) = elements v @ es"
  unfolding copy_back_def by (induction es arbitrary: v) auto

text \<open>Turning stops into returns walks over code instruction by instruction: the words that are not
  the first of an instruction are never touched, every stop instruction becomes a return, and all other
  instructions stay.\<close>

theorem changeStopToRetSub_instructions:
  assumes "aligned (elements v)"
  shows "length (elements (changeStopToRetSub v)) = length (elements v) \<and> aligned (elements (changeStopToRetSub v)) \<and>
    opcodes (elements (changeStopToRetSub v)) =
      map (\<lambda>e. if opcode e = 0 then e\<lparr>bytecode := 0xE000\<rparr> else e) (opcodes (elements v))"
proof -
  have "stop_to_ret = (\<lambda>e. if opcode e = 0 then e\<lparr>bytecode := 0xE000\<rparr> else e)"
    by (rule ext) (simp add: stop_to_ret_def AsebaBytecodeFromId_def)
  then show ?thesis
    using assms opcodes_rewrite [of "elements v" stop_to_ret] aligned_rewrite [of "elements v" stop_to_ret]
    by (simp add: changeStopToRetSub_def length_rewrite stop_to_ret_size)
qed

end
