(* ===== verification/Tree_Typecheck.thy ===== *)
theory Tree_Typecheck
  imports Identifier_Lookup
begin

text \<open>
  \<^verbatim>\<open>compiler/tree-typecheck.cpp\<close> and the type-checking methods of \<^verbatim>\<open>tree.h\<close>. A check returns the type of the
  node together with the node itself, because checking a subroutine call fills in its identifier.
\<close>

definition expectType :: "source_pos \<Rightarrow> ReturnType \<Rightarrow> ReturnType \<Rightarrow> failure + unit" where
  "expectType pos expected type =
     (if type \<noteq> expected
      then Inl (TranslatableError pos ERROR_EXPECTING_TYPE
                  [Arg_string (typeName expected), Arg_string (typeName type)])
      else Inr ())"

text \<open>The operators \<^verbatim>\<open>ASEBA_OP_EQUAL\<close> to \<^verbatim>\<open>ASEBA_OP_SMALLER_EQUAL_THAN\<close>, the logic operators, and the
  range \<^verbatim>\<open>ASEBA_OP_EQUAL\<close> to \<^verbatim>\<open>ASEBA_OP_AND\<close>.\<close>

definition comparison :: "AsebaBinaryOperator \<Rightarrow> bool" where
  "comparison op \<longleftrightarrow> op \<in> {ASEBA_OP_EQUAL, ASEBA_OP_NOT_EQUAL, ASEBA_OP_BIGGER_THAN,
     ASEBA_OP_BIGGER_EQUAL_THAN, ASEBA_OP_SMALLER_THAN, ASEBA_OP_SMALLER_EQUAL_THAN}"

definition logic :: "AsebaBinaryOperator \<Rightarrow> bool" where
  "logic op \<longleftrightarrow> op \<in> {ASEBA_OP_OR, ASEBA_OP_AND}"

definition conditional :: "AsebaBinaryOperator \<Rightarrow> bool" where
  "conditional op \<longleftrightarrow> binary_code ASEBA_OP_EQUAL \<le> binary_code op \<and> binary_code op \<le> binary_code ASEBA_OP_AND"

definition operand_type :: "AsebaBinaryOperator \<Rightarrow> ReturnType" where
  "operand_type op = (if logic op then RT_BOOL else RT_INT)"

definition result_type :: "AsebaBinaryOperator \<Rightarrow> ReturnType" where
  "result_type op = (if comparison op \<or> logic op then RT_BOOL else RT_INT)"

definition unary_type :: "AsebaUnaryOperator \<Rightarrow> ReturnType" where
  "unary_type op = (if op = ASEBA_UNARY_OP_NOT then RT_BOOL else RT_INT)"

text \<open>The test of the condition of an if, when or while after its children are checked.\<close>

definition condition_ok :: "node \<Rightarrow> bool" where
  "condition_ok c =
     (case c of
        BinaryArithmeticNode _ op _ _ \<Rightarrow> conditional op
      | UnaryArithmeticNode _ op _ \<Rightarrow> op = ASEBA_UNARY_OP_NOT
      | _ \<Rightarrow> False)"

definition expectCondition :: "node \<Rightarrow> failure + unit" where
  "expectCondition c =
     guardR (condition_ok c)
       (TranslatableError (sourcePos c) ERROR_EXPECTING_CONDITION [Arg_string (toNodeName c)])"

text \<open>A child that has to have a given type.\<close>

definition checked :: "source_pos \<Rightarrow> ReturnType \<Rightarrow> failure + ReturnType \<times> node \<Rightarrow> failure + node" where
  "checked p expected m = bindR m (\<lambda>(t, n). bindR (expectType p expected t) (\<lambda>_. Inr n))"

lemma checked_cong [fundef_cong]: "m = m' \<Longrightarrow> checked p t m = checked p t m'"
  by simp

fun typeCheck :: "compiler \<Rightarrow> node \<Rightarrow> failure + ReturnType \<times> node" where
  "typeCheck c (BlockNode p cs) =
     bindR (mapR (typeCheck c) cs) (\<lambda>rs. Inr (RT_UNIT, BlockNode p (map snd rs)))"
| "typeCheck c (ProgramNode p cs) =
     bindR (mapR (typeCheck c) cs) (\<lambda>rs. Inr (RT_UNIT, ProgramNode p (map snd rs)))"
| "typeCheck c (AssignmentNode p l r) =
     bindR (checked p RT_UNIT (typeCheck c l)) (\<lambda>l'.
     bindR (checked p RT_INT (typeCheck c r)) (\<lambda>r'.
     Inr (RT_UNIT, AssignmentNode p l' r')))"
| "typeCheck c (IfWhenNode p e el cond t f) =
     bindR (checked p RT_BOOL (typeCheck c cond)) (\<lambda>cond'.
     bindR (checked p RT_UNIT (typeCheck c t)) (\<lambda>t'.
     bindR (optR (\<lambda>x. checked p RT_UNIT (typeCheck c x)) f) (\<lambda>f'.
     bindR (expectCondition cond) (\<lambda>_.
     Inr (RT_UNIT, IfWhenNode p e el cond' t' f')))))"
| "typeCheck c (WhileNode p cond b) =
     bindR (checked p RT_BOOL (typeCheck c cond)) (\<lambda>cond'.
     bindR (checked p RT_UNIT (typeCheck c b)) (\<lambda>b'.
     bindR (expectCondition cond) (\<lambda>_.
     Inr (RT_UNIT, WhileNode p cond' b'))))"
| "typeCheck c (FoldedIfWhenNode p op e el l r t f) =
     bindR (typeCheck c l) (\<lambda>(_, l').
     bindR (typeCheck c r) (\<lambda>(_, r').
     bindR (typeCheck c t) (\<lambda>(_, t').
     bindR (optR (typeCheck c) f) (\<lambda>f'.
     Inr (RT_UNIT, FoldedIfWhenNode p op e el l' r' t' (map_option snd f'))))))"
| "typeCheck c (FoldedWhileNode p op l r b) =
     bindR (typeCheck c l) (\<lambda>(_, l').
     bindR (typeCheck c r) (\<lambda>(_, r').
     bindR (typeCheck c b) (\<lambda>(_, b').
     Inr (RT_UNIT, FoldedWhileNode p op l' r' b'))))"
| "typeCheck c (EventDeclNode p i) = Inr (RT_UNIT, EventDeclNode p i)"
| "typeCheck c (EmitNode p i a s cs) = Inr (RT_UNIT, EmitNode p i a s cs)"
| "typeCheck c (SubDeclNode p i) = Inr (RT_UNIT, SubDeclNode p i)"
| "typeCheck c (CallSubNode p name i) =
     bindR (findSubroutine c name p) (\<lambda>i'. Inr (RT_UNIT, CallSubNode p name i'))"
| "typeCheck c (BinaryArithmeticNode p op l r) =
     bindR (checked p (operand_type op) (typeCheck c l)) (\<lambda>l'.
     bindR (checked p (operand_type op) (typeCheck c r)) (\<lambda>r'.
     Inr (result_type op, BinaryArithmeticNode p op l' r')))"
| "typeCheck c (UnaryArithmeticNode p op x) =
     bindR (checked p (unary_type op) (typeCheck c x)) (\<lambda>x'.
     Inr (unary_type op, UnaryArithmeticNode p op x'))"
| "typeCheck c (ImmediateNode p v) = Inr (RT_INT, ImmediateNode p v)"
| "typeCheck c (StoreNode p a) = Inr (RT_UNIT, StoreNode p a)"
| "typeCheck c (LoadNode p a) = Inr (RT_INT, LoadNode p a)"
| "typeCheck c (ArrayWriteNode p a s n i) = Inr (RT_UNIT, ArrayWriteNode p a s n i)"
| "typeCheck c (ArrayReadNode p a s n i) = Inr (RT_INT, ArrayReadNode p a s n i)"
| "typeCheck c (LoadNativeArgNode p t a s n i) = Inr (RT_INT, LoadNativeArgNode p t a s n i)"
| "typeCheck c (CallNode p f ts cs) = Inr (RT_UNIT, CallNode p f ts cs)"
| "typeCheck c (ReturnNode p) = Inr (RT_UNIT, ReturnNode p)"
| "typeCheck c (TupleVectorNode p cs) = Inl Abort"
| "typeCheck c (MemoryVectorNode p a s n w i) = Inl Abort"
| "typeCheck c (ArithmeticAssignmentNode p op l r) = Inl Abort"
| "typeCheck c (UnaryArithmeticAssignmentNode p op m) = Inl Abort"

section \<open>Deep typing\<close>

text \<open>
  The type discipline of the language, written down operator by operator and independently of the tables
  of the checker: the type of the operands and the type of the result. An expression has a type when all
  of its operands, array indices included, have the types that their operators ask for.
\<close>

primrec signature :: "AsebaBinaryOperator \<Rightarrow> ReturnType \<times> ReturnType" where
  "signature ASEBA_OP_SHIFT_LEFT = (RT_INT, RT_INT)"
| "signature ASEBA_OP_SHIFT_RIGHT = (RT_INT, RT_INT)"
| "signature ASEBA_OP_ADD = (RT_INT, RT_INT)"
| "signature ASEBA_OP_SUB = (RT_INT, RT_INT)"
| "signature ASEBA_OP_MULT = (RT_INT, RT_INT)"
| "signature ASEBA_OP_DIV = (RT_INT, RT_INT)"
| "signature ASEBA_OP_MOD = (RT_INT, RT_INT)"
| "signature ASEBA_OP_BIT_OR = (RT_INT, RT_INT)"
| "signature ASEBA_OP_BIT_XOR = (RT_INT, RT_INT)"
| "signature ASEBA_OP_BIT_AND = (RT_INT, RT_INT)"
| "signature ASEBA_OP_EQUAL = (RT_INT, RT_BOOL)"
| "signature ASEBA_OP_NOT_EQUAL = (RT_INT, RT_BOOL)"
| "signature ASEBA_OP_BIGGER_THAN = (RT_INT, RT_BOOL)"
| "signature ASEBA_OP_BIGGER_EQUAL_THAN = (RT_INT, RT_BOOL)"
| "signature ASEBA_OP_SMALLER_THAN = (RT_INT, RT_BOOL)"
| "signature ASEBA_OP_SMALLER_EQUAL_THAN = (RT_INT, RT_BOOL)"
| "signature ASEBA_OP_OR = (RT_BOOL, RT_BOOL)"
| "signature ASEBA_OP_AND = (RT_BOOL, RT_BOOL)"

primrec unary_signature :: "AsebaUnaryOperator \<Rightarrow> ReturnType \<times> ReturnType" where
  "unary_signature ASEBA_UNARY_OP_SUB = (RT_INT, RT_INT)"
| "unary_signature ASEBA_UNARY_OP_ABS = (RT_INT, RT_INT)"
| "unary_signature ASEBA_UNARY_OP_BIT_NOT = (RT_INT, RT_INT)"
| "unary_signature ASEBA_UNARY_OP_NOT = (RT_BOOL, RT_BOOL)"

primrec expr_type :: "ReturnType \<Rightarrow> node \<Rightarrow> bool" where
  "expr_type t (BinaryArithmeticNode p op l r) \<longleftrightarrow>
     snd (signature op) = t \<and> expr_type (fst (signature op)) l \<and> expr_type (fst (signature op)) r"
| "expr_type t (UnaryArithmeticNode p op c) \<longleftrightarrow>
     snd (unary_signature op) = t \<and> expr_type (fst (unary_signature op)) c"
| "expr_type t (ImmediateNode p v) \<longleftrightarrow> t = RT_INT"
| "expr_type t (LoadNode p a) \<longleftrightarrow> t = RT_INT"
| "expr_type t (ArrayReadNode p a s n i) \<longleftrightarrow> t = RT_INT \<and> expr_type RT_INT i"
| "expr_type t (BlockNode p cs) \<longleftrightarrow> False"
| "expr_type t (ProgramNode p cs) \<longleftrightarrow> False"
| "expr_type t (AssignmentNode p l r) \<longleftrightarrow> False"
| "expr_type t (IfWhenNode p e el c tr f) \<longleftrightarrow> False"
| "expr_type t (FoldedIfWhenNode p op e el l r tr f) \<longleftrightarrow> False"
| "expr_type t (WhileNode p c b) \<longleftrightarrow> False"
| "expr_type t (FoldedWhileNode p op l r b) \<longleftrightarrow> False"
| "expr_type t (EventDeclNode p i) \<longleftrightarrow> False"
| "expr_type t (EmitNode p i a s cs) \<longleftrightarrow> False"
| "expr_type t (SubDeclNode p i) \<longleftrightarrow> False"
| "expr_type t (CallSubNode p n i) \<longleftrightarrow> False"
| "expr_type t (StoreNode p a) \<longleftrightarrow> False"
| "expr_type t (ArrayWriteNode p a s n i) \<longleftrightarrow> False"
| "expr_type t (LoadNativeArgNode p ta a s n i) \<longleftrightarrow> False"
| "expr_type t (CallNode p f ts cs) \<longleftrightarrow> False"
| "expr_type t (ReturnNode p) \<longleftrightarrow> False"
| "expr_type t (TupleVectorNode p cs) \<longleftrightarrow> False"
| "expr_type t (MemoryVectorNode p a s n w i) \<longleftrightarrow> False"
| "expr_type t (ArithmeticAssignmentNode p op l r) \<longleftrightarrow> False"
| "expr_type t (UnaryArithmeticAssignmentNode p op m) \<longleftrightarrow> False"

text \<open>The index expressions inside an expression are typed.\<close>

fun indices_typed :: "node \<Rightarrow> bool" where
  "indices_typed (BinaryArithmeticNode p op l r) \<longleftrightarrow> indices_typed l \<and> indices_typed r"
| "indices_typed (UnaryArithmeticNode p op c) \<longleftrightarrow> indices_typed c"
| "indices_typed (ArrayReadNode p a s n i) \<longleftrightarrow> expr_type RT_INT i"
| "indices_typed (LoadNativeArgNode p t a s n i) \<longleftrightarrow> False"
| "indices_typed _ \<longleftrightarrow> True"

lemma expectType_Inr [simp]: "expectType p t t' = Inr u \<longleftrightarrow> t' = t"
  by (auto simp: expectType_def)

lemma checked_eq_Inr: "checked p t m = Inr n \<longleftrightarrow> m = Inr (t, n)"
  by (cases m) (auto simp: checked_def bindR_eq_Inr)

lemma type_not_unit [simp]:
  "operand_type op \<noteq> RT_UNIT" "unary_type uop \<noteq> RT_UNIT"
  by (auto simp: operand_type_def unary_type_def)

text \<open>The tables of the checker agree with the discipline; the rules of the typing of operators in terms of
  them are what the proofs on the checker and the optimizer use.\<close>

lemma signature_tables: "signature op = (operand_type op, result_type op)"
  by (cases op) (simp_all add: operand_type_def result_type_def comparison_def logic_def)

lemma unary_signature_tables: "unary_signature op = (unary_type op, unary_type op)"
  by (cases op) (simp_all add: unary_type_def)

lemma expr_type_operators [simp]:
  "expr_type t (BinaryArithmeticNode p op l r) \<longleftrightarrow>
     t = result_type op \<and> expr_type (operand_type op) l \<and> expr_type (operand_type op) r"
  "expr_type t (UnaryArithmeticNode p uop c) \<longleftrightarrow> t = unary_type uop \<and> expr_type (unary_type uop) c"
  by (auto simp: signature_tables unary_signature_tables)

declare expr_type.simps(1,2) [simp del]

text \<open>C9: On an expression the type checker decides the type discipline of the language, which is stated
  operator by operator on its own, except that it never looks at array indices: when those are typed, it
  accepts the expression with type int or bool exactly when the expression has that type all the way down,
  and it leaves the expression unchanged.\<close>

theorem typeCheck_expr:
  assumes "indices_typed n" and "t \<noteq> RT_UNIT"
  shows "typeCheck c n = Inr (t, n') \<longleftrightarrow> expr_type t n \<and> n' = n"
  using assms
proof (induction n arbitrary: t n' rule: indices_typed.induct)
  case (1 p op l r)
  then show ?case by (auto simp: bindR_eq_Inr checked_eq_Inr)
next
  case (2 p op x)
  then show ?case by (auto simp: bindR_eq_Inr checked_eq_Inr)
qed (auto simp: bindR_eq_Inr split: prod.splits)

theorem typeCheck_expr_witness:
  "typeCheck sample_compiler (BinaryArithmeticNode no_pos ASEBA_OP_EQUAL (LoadNode no_pos 1) (ImmediateNode no_pos 2)) =
     Inr (RT_BOOL, BinaryArithmeticNode no_pos ASEBA_OP_EQUAL (LoadNode no_pos 1) (ImmediateNode no_pos 2)) \<longleftrightarrow>
   expr_type RT_BOOL (BinaryArithmeticNode no_pos ASEBA_OP_EQUAL (LoadNode no_pos 1) (ImmediateNode no_pos 2)) \<and>
   BinaryArithmeticNode no_pos ASEBA_OP_EQUAL (LoadNode no_pos 1) (ImmediateNode no_pos 2) =
     BinaryArithmeticNode no_pos ASEBA_OP_EQUAL (LoadNode no_pos 1) (ImmediateNode no_pos 2)"
  by (rule typeCheck_expr) simp_all

section \<open>Conditions and subroutine calls\<close>

lemma bool_condition_ok: "typeCheck c n = Inr (RT_BOOL, n') \<Longrightarrow> condition_ok n"
proof (cases n)
  case (BinaryArithmeticNode p op l r)
  assume "typeCheck c n = Inr (RT_BOOL, n')"
  with BinaryArithmeticNode show ?thesis
    by (cases op) (auto simp: condition_ok_def conditional_def result_type_def comparison_def logic_def)
next
  case (UnaryArithmeticNode p op x)
  assume "typeCheck c n = Inr (RT_BOOL, n')"
  with UnaryArithmeticNode show ?thesis
    by (auto simp: condition_ok_def unary_type_def split: if_splits)
qed (auto simp: bindR_eq_Inr split: prod.splits)

text \<open>The subroutine calls of the statements.\<close>

fun calls :: "node \<Rightarrow> (wstring \<times> u32) list" where
  "calls (BlockNode p cs) = concat (map calls cs)"
| "calls (ProgramNode p cs) = concat (map calls cs)"
| "calls (IfWhenNode p e el c t f) = calls t @ (case f of None \<Rightarrow> [] | Some x \<Rightarrow> calls x)"
| "calls (WhileNode p c b) = calls b"
| "calls (CallSubNode p n i) = [(n, i)]"
| "calls _ = []"

definition resolved :: "compiler \<Rightarrow> node \<Rightarrow> bool" where
  "resolved c n \<longleftrightarrow> (\<forall>(name, i)\<in>set (calls n). map_find (subroutineReverseTable c) name = Some i)"

lemma resolved_simps [simp]:
  "resolved c (BlockNode p cs) \<longleftrightarrow> (\<forall>n\<in>set cs. resolved c n)"
  "resolved c (ProgramNode p cs) \<longleftrightarrow> (\<forall>n\<in>set cs. resolved c n)"
  "resolved c (IfWhenNode p e el x t f) \<longleftrightarrow> resolved c t \<and> (case f of None \<Rightarrow> True | Some y \<Rightarrow> resolved c y)"
  "resolved c (WhileNode p x b) \<longleftrightarrow> resolved c b"
  "resolved c (CallSubNode p name i) \<longleftrightarrow> map_find (subroutineReverseTable c) name = Some i"
  by (auto simp: resolved_def split: option.splits)

lemma resolved_no_calls: "calls n = [] \<Longrightarrow> resolved c n"
  by (simp add: resolved_def)

lemma findInTable_Inr: "findInTable m name pos nf ms = Inr v \<longleftrightarrow> map_find m name = Some v"
  by (auto simp: findInTable_def split: option.splits prod.splits)

definition keeps_calls :: "compiler \<Rightarrow> node \<Rightarrow> node \<Rightarrow> bool" where
  "keeps_calls c n n' \<longleftrightarrow> map fst (calls n') = map fst (calls n) \<and> resolved c n'"

lemma keeps_calls_list:
  "mapR f cs = Inr rs \<Longrightarrow> (\<And>x t y. x \<in> set cs \<Longrightarrow> f x = Inr (t, y) \<Longrightarrow> keeps_calls c x y) \<Longrightarrow>
    map fst (concat (map calls (map snd rs))) = map fst (concat (map calls cs)) \<and>
    (\<forall>n\<in>snd ` set rs. resolved c n)"
proof (induction cs arbitrary: rs)
  case (Cons x cs)
  then obtain t y rs' where "f x = Inr (t, y)" "mapR f cs = Inr rs'" "rs = (t, y) # rs'" by auto
  moreover from this Cons have "map fst (concat (map calls (map snd rs'))) = map fst (concat (map calls cs)) \<and>
      (\<forall>n\<in>snd ` set rs'. resolved c n)" by simp
  moreover have "keeps_calls c x y" using Cons.prems(2) calculation(1) by simp
  ultimately show ?case by (simp add: keeps_calls_def)
qed simp

lemma keeps_calls_block: "mapR (typeCheck c) cs = Inr rs \<Longrightarrow>
    (\<And>x t y. x \<in> set cs \<Longrightarrow> typeCheck c x = Inr (t, y) \<Longrightarrow> keeps_calls c x y) \<Longrightarrow>
    keeps_calls c (BlockNode p cs) (BlockNode p (map snd rs)) \<and>
    keeps_calls c (ProgramNode p cs) (ProgramNode p (map snd rs))"
  using keeps_calls_list [of "typeCheck c" cs rs c] by (simp add: keeps_calls_def)

lemma keeps_calls_none: "calls n = [] \<Longrightarrow> calls n' = [] \<Longrightarrow> keeps_calls c n n'"
  by (simp add: keeps_calls_def resolved_no_calls)

text \<open>After the type check the statements hold the same subroutine calls in the same order, and every
  call carries the identifier that the table of subroutines gives for its name.\<close>

theorem typeCheck_resolves:
  assumes "typeCheck c n = Inr (t, n')"
  shows "map fst (calls n') = map fst (calls n) \<and> resolved c n'"
proof -
  have "keeps_calls c n n'"
    using assms
  proof (induction c n arbitrary: t n' rule: typeCheck.induct)
    case (1 c p cs)
    then show ?case using keeps_calls_block [of c cs _ p] by auto
  next
    case (2 c p cs)
    then show ?case using keeps_calls_block [of c cs _ p] by auto
  next
    case (4 c p e el cond tr f)
    from 4(4) obtain cond' t' f' where *: "typeCheck c tr = Inr (RT_UNIT, t')" "typeCheck c cond = Inr (RT_BOOL, cond')"
      "optR (\<lambda>x. checked p RT_UNIT (typeCheck c x)) f = Inr f'" "n' = IfWhenNode p e el cond' t' f'"
      by (auto simp: checked_eq_Inr)
    with 4(2) have "keeps_calls c tr t'" by (auto simp: checked_eq_Inr)
    moreover have "f = None \<and> f' = None \<or> (\<exists>x y. f = Some x \<and> f' = Some y \<and> keeps_calls c x y)"
      using *(1-3) 4(3) by (auto simp: optR_eq_Inr checked_eq_Inr)
    ultimately show ?case using *(4) by (auto simp: keeps_calls_def)
  next
    case (5 c p cond b)
    then show ?case by (auto simp: checked_eq_Inr keeps_calls_def)
  next
    case (11 c p name i)
    then show ?case by (auto simp: keeps_calls_def findSubroutine_def findInTable_Inr)
  qed (auto simp: bindR_eq_Inr intro!: keeps_calls_none split: prod.splits)
  then show ?thesis by (simp add: keeps_calls_def)
qed

definition sub_compiler :: compiler where
  "sub_compiler = sample_compiler\<lparr>subroutineReverseTable := [(ws ''stop'', 3)]\<rparr>"

end
