(* ===== verification/Power_Of_Two.thy ===== *)
theory Power_Of_Two
  imports Aseba_Prelude
begin

text \<open>
  \<^verbatim>\<open>compiler/power-of-two.h\<close>, at the type \<^verbatim>\<open>int\<close> at which the optimizer uses it: a right shift of a signed
  integer is a division by two rounding down. The loop of both functions ends because a non-zero
  number cannot be halved for ever.
\<close>

function strip_twos :: "int \<Rightarrow> int" where
  "strip_twos number = (if number = 0 \<or> odd number then number else strip_twos (number div 2))"
  by auto
termination
  by (relation "measure (\<lambda>n. nat \<bar>n\<bar>)") (auto elim!: evenE)

function count_twos :: "int \<Rightarrow> u32 \<Rightarrow> u32" where
  "count_twos number i = (if number = 0 \<or> odd number then i else count_twos (number div 2) (i + 1))"
  by auto
termination
  by (relation "measure (\<lambda>(n, i). nat \<bar>n\<bar>)") (auto elim!: evenE)

definition isPOT :: "int \<Rightarrow> bool" where
  "isPOT number = (if number = 0 then False else strip_twos number = 1)"

definition shiftFromPOT :: "int \<Rightarrow> u32" where
  "shiftFromPOT number = (if number = 0 then 0 else count_twos number 0)"

declare strip_twos.simps [simp del] count_twos.simps [simp del]

lemma strip_twos_power: "strip_twos (2 ^ k) = 1"
proof (induction k)
  case 0
  then show ?case by (simp add: strip_twos.simps)
next
  case (Suc k)
  then show ?case by (subst strip_twos.simps) simp
qed

lemma strip_twos_1: "strip_twos n = 1 \<Longrightarrow> \<exists>k. n = 2 ^ k"
proof (induction n rule: strip_twos.induct)
  case (1 n)
  show ?case
  proof (cases "n = 0 \<or> odd n")
    case True
    with 1(2) have "n = 2 ^ 0" by (simp add: strip_twos.simps [of n])
    then show ?thesis by blast
  next
    case False
    with 1 obtain k where "n div 2 = 2 ^ k" by (auto simp: strip_twos.simps [of n])
    with False have "n = 2 ^ Suc k" by (auto elim!: evenE)
    then show ?thesis by blast
  qed
qed

lemma count_twos_power: "count_twos (2 ^ k) i = i + word_of_nat k"
proof (induction k arbitrary: i)
  case 0
  then show ?case by (simp add: count_twos.simps)
next
  case (Suc k)
  then show ?case by (subst count_twos.simps) simp
qed

lemma isPOT_iff: "isPOT n \<longleftrightarrow> (\<exists>k. n = 2 ^ k)"
  using strip_twos_1 [of n] strip_twos_power by (auto simp: isPOT_def)

lemma shiftFromPOT_power: "shiftFromPOT (2 ^ k) = word_of_nat k"
  by (simp add: shiftFromPOT_def count_twos_power)

text \<open>For every 32-bit integer, \<^verbatim>\<open>isPOT\<close> holds exactly for the powers of two, and then \<^verbatim>\<open>shiftFromPOT\<close>
  is the exponent: shifting one left by it gives the number back.\<close>

theorem isPOT_shift:
  assumes "- (2 ^ 31) \<le> n" and "n < 2 ^ 31"
  shows "(isPOT n \<longleftrightarrow> (\<exists>k < 31. n = 2 ^ k)) \<and> (isPOT n \<longrightarrow> n = 2 ^ unat (shiftFromPOT n))"
proof -
  have small: "k < 31" if "n = 2 ^ k" for k
    using assms(2) that power_strict_increasing_iff [of "2 :: int" k 31] by simp
  have "n = 2 ^ unat (shiftFromPOT n)" if "n = 2 ^ k" for k
  proof -
    have "unat (shiftFromPOT n) = k"
      using small [OF that] that by (simp add: shiftFromPOT_power unat_of_nat)
    with that show ?thesis by simp
  qed
  with small show ?thesis by (auto simp: isPOT_iff)
qed

end
