(* ===== verification/Tree_Optimize.thy ===== *)
theory Tree_Optimize
  imports Tree_Typecheck Power_Of_Two "HOL-Library.Signed_Division"
begin

text \<open>
  \<^verbatim>\<open>compiler/tree-optimize.cpp\<close>. Constants are folded on the C type \<^verbatim>\<open>int\<close> (32 bits): what C++17 leaves
  undefined (an overflow, a shift by a negative or too large amount, a left shift of a negative
  number) is the failure \<open>Undefined\<close>. A node that optimizes to a null pointer is \<open>None\<close>; an assertion
  that fails and the dereference of a null pointer are \<open>Abort\<close>.
\<close>

section \<open>Constant folding\<close>

definition INT_MIN :: int where "INT_MIN = - (2 ^ 31)"
definition INT_MAX :: int where "INT_MAX = 2 ^ 31 - 1"

definition c_int :: "int \<Rightarrow> failure + int" where
  "c_int v = (if INT_MIN \<le> v \<and> v \<le> INT_MAX then Inr v else Inl Undefined)"

definition shift_left :: "int \<Rightarrow> int \<Rightarrow> failure + int" where
  "shift_left a b =
     (if a < 0 \<or> b < 0 \<or> 32 \<le> b \<or> 2 ^ 32 \<le> a * 2 ^ nat b then Inl Undefined
      else Inr (sint (word_of_int (a * 2 ^ nat b) :: 32 word)))"

definition shift_right :: "int \<Rightarrow> int \<Rightarrow> failure + int" where
  "shift_right a b = (if b < 0 \<or> 32 \<le> b then Inl Undefined else Inr (a div 2 ^ nat b))"

primrec fold_binary :: "AsebaBinaryOperator \<Rightarrow> source_pos \<Rightarrow> int \<Rightarrow> int \<Rightarrow> failure + int" where
  "fold_binary ASEBA_OP_SHIFT_LEFT p a b = shift_left a b"
| "fold_binary ASEBA_OP_SHIFT_RIGHT p a b = shift_right a b"
| "fold_binary ASEBA_OP_ADD p a b = c_int (a + b)"
| "fold_binary ASEBA_OP_SUB p a b = c_int (a - b)"
| "fold_binary ASEBA_OP_MULT p a b = c_int (a * b)"
| "fold_binary ASEBA_OP_DIV p a b =
     (if b = 0 then Inl (TranslatableError p ERROR_DIVISION_BY_ZERO []) else c_int (a sdiv b))"
| "fold_binary ASEBA_OP_MOD p a b =
     (if b = 0 then Inl (TranslatableError p ERROR_DIVISION_BY_ZERO [])
      else bindR (c_int (a sdiv b)) (\<lambda>_. Inr (a smod b)))"
| "fold_binary ASEBA_OP_BIT_OR p a b = Inr (a OR b)"
| "fold_binary ASEBA_OP_BIT_XOR p a b = Inr (a XOR b)"
| "fold_binary ASEBA_OP_BIT_AND p a b = Inr (a AND b)"
| "fold_binary ASEBA_OP_EQUAL p a b = Inr (of_bool (a = b))"
| "fold_binary ASEBA_OP_NOT_EQUAL p a b = Inr (of_bool (a \<noteq> b))"
| "fold_binary ASEBA_OP_BIGGER_THAN p a b = Inr (of_bool (a > b))"
| "fold_binary ASEBA_OP_BIGGER_EQUAL_THAN p a b = Inr (of_bool (a \<ge> b))"
| "fold_binary ASEBA_OP_SMALLER_THAN p a b = Inr (of_bool (a < b))"
| "fold_binary ASEBA_OP_SMALLER_EQUAL_THAN p a b = Inr (of_bool (a \<le> b))"
| "fold_binary ASEBA_OP_OR p a b = Inr (of_bool (a \<noteq> 0 \<or> b \<noteq> 0))"
| "fold_binary ASEBA_OP_AND p a b = Inr (of_bool (a \<noteq> 0 \<and> b \<noteq> 0))"

primrec fold_unary :: "AsebaUnaryOperator \<Rightarrow> source_pos \<Rightarrow> int \<Rightarrow> failure + int" where
  "fold_unary ASEBA_UNARY_OP_SUB p v = c_int (- v)"
| "fold_unary ASEBA_UNARY_OP_ABS p v =
     (if v = -32768 then Inl (TranslatableError p ERROR_ABS_NOT_POSSIBLE []) else c_int \<bar>v\<bar>)"
| "fold_unary ASEBA_UNARY_OP_BIT_NOT p v = Inr (NOT v)"
| "fold_unary ASEBA_UNARY_OP_NOT p v = Inr (of_bool (v = 0))"

section \<open>Rewriting of binary operations\<close>

text \<open>The operand that survives an operation with its neutral element (the left operand is looked at
  last and wins).\<close>

definition neutral :: "AsebaBinaryOperator \<Rightarrow> node \<Rightarrow> node \<Rightarrow> node option" where
  "neutral op l r =
     (let L = immediate l; R = immediate r in
      if op = ASEBA_OP_MULT \<or> op = ASEBA_OP_DIV then
        if L = Some 1 \<and> op = ASEBA_OP_MULT then Some r else if R = Some 1 then Some l else None
      else if op = ASEBA_OP_ADD \<or> op = ASEBA_OP_SUB then
        if L = Some 0 \<and> op = ASEBA_OP_ADD then Some r else if R = Some 0 then Some l else None
      else if op = ASEBA_OP_BIT_OR \<or> op = ASEBA_OP_OR then
        if L = Some 0 then Some r else if R = Some 0 then Some l else None
      else if op = ASEBA_OP_BIT_AND then
        if L = Some (-1) then Some r else if R = Some (-1) then Some l else None
      else if op = ASEBA_OP_AND then
        if L \<notin> {None, Some 0} then Some r else if R \<notin> {None, Some 0} then Some l else None
      else None)"

text \<open>The constant that an operation with an absorbing element amounts to.\<close>

definition absorbing :: "AsebaBinaryOperator \<Rightarrow> node \<Rightarrow> node \<Rightarrow> int option" where
  "absorbing op l r =
     (let L = immediate l; R = immediate r in
      if (op = ASEBA_OP_MULT \<or> op = ASEBA_OP_BIT_AND \<or> op = ASEBA_OP_AND) \<and> (R = Some 0 \<or> L = Some 0)
      then Some 0
      else if op = ASEBA_OP_BIT_OR \<and> (R = Some (-1) \<or> L = Some (-1)) then Some (-1)
      else if op = ASEBA_OP_OR \<and> (R \<notin> {None, Some 0} \<or> L \<notin> {None, Some 0}) then Some 1
      else None)"

text \<open>A multiplication or division by a power of two becomes a shift; a division by a constant zero
  that is left is an error.\<close>

definition pot_shift :: "source_pos \<Rightarrow> AsebaBinaryOperator \<Rightarrow> node \<Rightarrow> node \<Rightarrow> failure + node" where
  "pot_shift p op l r =
     (case r of
        ImmediateNode q v \<Rightarrow>
          if isPOT v \<and> op = ASEBA_OP_MULT
          then Inr (BinaryArithmeticNode p ASEBA_OP_SHIFT_LEFT l (ImmediateNode q (uint (shiftFromPOT v))))
          else if isPOT v \<and> op = ASEBA_OP_DIV
          then Inr (BinaryArithmeticNode p ASEBA_OP_SHIFT_RIGHT l (ImmediateNode q (uint (shiftFromPOT v))))
          else if op = ASEBA_OP_DIV \<and> v = 0
          then Inl (TranslatableError p ERROR_DIVISION_BY_ZERO [])
          else Inr (BinaryArithmeticNode p op l r)
      | _ \<Rightarrow> Inr (BinaryArithmeticNode p op l r))"

definition optimize_binary :: "source_pos \<Rightarrow> AsebaBinaryOperator \<Rightarrow> node \<Rightarrow> node \<Rightarrow> failure + node" where
  "optimize_binary p op l r =
     (case (immediate l, immediate r) of
        (Some a, Some b) \<Rightarrow> bindR (fold_binary op p a b) (\<lambda>v. Inr (ImmediateNode p v))
      | _ \<Rightarrow>
          (case neutral op l r of
             Some n \<Rightarrow> Inr n
           | None \<Rightarrow>
               (case absorbing op l r of
                  Some v \<Rightarrow> Inr (ImmediateNode p v)
                | None \<Rightarrow> pot_shift p op l r)))"

section \<open>Removal of not\<close>

text \<open>\<^verbatim>\<open>deMorganNotRemoval\<close> aborts on an arithmetic operator, and dereferences a null pointer where an
  operand of a logic operator is not a binary operation.\<close>

primrec inverted :: "AsebaBinaryOperator \<Rightarrow> AsebaBinaryOperator option" where
  "inverted ASEBA_OP_EQUAL = Some ASEBA_OP_NOT_EQUAL"
| "inverted ASEBA_OP_NOT_EQUAL = Some ASEBA_OP_EQUAL"
| "inverted ASEBA_OP_BIGGER_THAN = Some ASEBA_OP_SMALLER_EQUAL_THAN"
| "inverted ASEBA_OP_BIGGER_EQUAL_THAN = Some ASEBA_OP_SMALLER_THAN"
| "inverted ASEBA_OP_SMALLER_THAN = Some ASEBA_OP_BIGGER_EQUAL_THAN"
| "inverted ASEBA_OP_SMALLER_EQUAL_THAN = Some ASEBA_OP_BIGGER_THAN"
| "inverted ASEBA_OP_OR = Some ASEBA_OP_AND"
| "inverted ASEBA_OP_AND = Some ASEBA_OP_OR"
| "inverted ASEBA_OP_SHIFT_LEFT = None"
| "inverted ASEBA_OP_SHIFT_RIGHT = None"
| "inverted ASEBA_OP_ADD = None"
| "inverted ASEBA_OP_SUB = None"
| "inverted ASEBA_OP_MULT = None"
| "inverted ASEBA_OP_DIV = None"
| "inverted ASEBA_OP_MOD = None"
| "inverted ASEBA_OP_BIT_OR = None"
| "inverted ASEBA_OP_BIT_XOR = None"
| "inverted ASEBA_OP_BIT_AND = None"

fun deMorganNotRemoval :: "node \<Rightarrow> failure + node" where
  "deMorganNotRemoval (BinaryArithmeticNode p op l r) =
     (case inverted op of
        None \<Rightarrow> Inl Abort
      | Some op' \<Rightarrow>
          if logic op then
            bindR (deMorganNotRemoval l) (\<lambda>l'.
            bindR (deMorganNotRemoval r) (\<lambda>r'.
            Inr (BinaryArithmeticNode p op' l' r')))
          else Inr (BinaryArithmeticNode p op' l r))"
| "deMorganNotRemoval _ = Inl Abort"

definition optimize_unary :: "source_pos \<Rightarrow> AsebaUnaryOperator \<Rightarrow> node \<Rightarrow> failure + node" where
  "optimize_unary p op c =
     (case c of
        ImmediateNode _ v \<Rightarrow> bindR (fold_unary op p v) (\<lambda>w. Inr (ImmediateNode p w))
      | BinaryArithmeticNode _ _ _ _ \<Rightarrow>
          if op = ASEBA_UNARY_OP_NOT then deMorganNotRemoval c else Inr (UnaryArithmeticNode p op c)
      | _ \<Rightarrow> Inr (UnaryArithmeticNode p op c))"

section \<open>Array accesses, conditions and loops\<close>

text \<open>The index is converted to \<^verbatim>\<open>unsigned\<close> before the bounds check.\<close>

definition optimize_read :: "source_pos \<Rightarrow> u32 \<Rightarrow> u32 \<Rightarrow> wstring \<Rightarrow> node \<Rightarrow> failure + node" where
  "optimize_read p addr sz name i =
     (case immediate i of
        Some v \<Rightarrow>
          (let index = word_of_int v :: u32 in
           if index \<ge> sz
           then Inl (TranslatableError p ERROR_ARRAY_OUT_OF_BOUND_READ
                       [Arg_unsigned index, Arg_string name, Arg_unsigned sz])
           else Inr (LoadNode p (addr + index)))
      | None \<Rightarrow> Inr (ArrayReadNode p addr sz name i))"

definition optimize_write :: "source_pos \<Rightarrow> u32 \<Rightarrow> u32 \<Rightarrow> wstring \<Rightarrow> node \<Rightarrow> failure + node" where
  "optimize_write p addr sz name i =
     (case immediate i of
        Some v \<Rightarrow>
          (let index = word_of_int v :: u32 in
           if index \<ge> sz
           then Inl (TranslatableError p ERROR_ARRAY_OUT_OF_BOUND_WRITE
                       [Arg_unsigned index, Arg_string name, Arg_unsigned sz])
           else Inr (StoreNode p (addr + index)))
      | None \<Rightarrow> Inr (ArrayWriteNode p addr sz name i))"

definition no_code :: "node option \<Rightarrow> bool" where
  "no_code b = (case b of None \<Rightarrow> True | Some n \<Rightarrow> empty_block n)"

definition optimize_if ::
  "source_pos \<Rightarrow> bool \<Rightarrow> u32 \<Rightarrow> node \<Rightarrow> node option \<Rightarrow> node option \<Rightarrow> failure + node option" where
  "optimize_if p edgeSensitive endLine c t f =
     (if no_code t \<and> no_code f then Inr None
      else
        (case c of
           ImmediateNode _ v \<Rightarrow> Inr (if v \<noteq> 0 then t else f)
         | BinaryArithmeticNode _ op l r \<Rightarrow>
             Inr (Some (FoldedIfWhenNode p op edgeSensitive endLine l r
                         (case t of None \<Rightarrow> BlockNode p [] | Some b \<Rightarrow> b) f))
         | _ \<Rightarrow> Inl Abort))"

definition optimize_while :: "source_pos \<Rightarrow> node \<Rightarrow> node option \<Rightarrow> failure + node option" where
  "optimize_while p c b =
     (case immediate c of
        Some v \<Rightarrow> if v \<noteq> 0 then Inl (TranslatableError p ERROR_INFINITE_LOOP []) else Inr None
      | None \<Rightarrow>
          (case b of
             None \<Rightarrow> Inr None
           | Some blk \<Rightarrow>
               if empty_block blk then Inr None
               else
                 (case c of
                    BinaryArithmeticNode _ op l r \<Rightarrow> Inr (Some (FoldedWhileNode p op l r blk))
                  | _ \<Rightarrow> Inl Abort)))"

section \<open>The pass\<close>

text \<open>A child that must not become null: the assertions of the source. (The emit statement has no such
  assertion, a null child would be dereferenced when its code is emitted.)\<close>

definition required :: "failure + node option \<Rightarrow> failure + node" where
  "required m = bindR m (\<lambda>x. case x of None \<Rightarrow> Inl Abort | Some n \<Rightarrow> Inr n)"

lemma required_cong [fundef_cong]: "m = m' \<Longrightarrow> required m = required m'"
  by simp

lemma required_eq_Inr: "required m = Inr n \<longleftrightarrow> m = Inr (Some n)"
  by (auto simp: required_def bindR_eq_Inr split: option.splits)

text \<open>The statements a block keeps: no null pointer, no empty block.\<close>

definition surviving :: "node option list \<Rightarrow> node list" where
  "surviving ns = filter (\<lambda>n. \<not> empty_block n) (concat (map (\<lambda>x. case x of None \<Rightarrow> [] | Some n \<Rightarrow> [n]) ns))"

fun optimize :: "node \<Rightarrow> failure + node option" where
  "optimize (BlockNode p cs) =
     bindR (mapR optimize cs) (\<lambda>ns. Inr (Some (BlockNode p (surviving ns))))"
| "optimize (ProgramNode p cs) =
     bindR (mapR optimize cs) (\<lambda>ns. Inr (Some (ProgramNode p (surviving ns))))"
| "optimize (AssignmentNode p l r) =
     bindR (required (optimize l)) (\<lambda>l'.
     bindR (required (optimize r)) (\<lambda>r'.
     Inr (Some (AssignmentNode p l' r'))))"
| "optimize (IfWhenNode p e el c t f) =
     bindR (required (optimize c)) (\<lambda>c'.
     bindR (optimize t) (\<lambda>t'.
     bindR (optR optimize f) (\<lambda>f'.
     optimize_if p e el c' t' (Option.bind f' id))))"
| "optimize (FoldedIfWhenNode p op e el l r t f) = Inl Abort"
| "optimize (WhileNode p c b) =
     bindR (required (optimize c)) (\<lambda>c'.
     bindR (optimize b) (\<lambda>b'.
     optimize_while p c' b'))"
| "optimize (FoldedWhileNode p op l r b) = Inl Abort"
| "optimize (EventDeclNode p i) = Inr (Some (EventDeclNode p i))"
| "optimize (EmitNode p i a s cs) =
     bindR (mapR (\<lambda>c. required (optimize c)) cs) (\<lambda>cs'. Inr (Some (EmitNode p i a s cs')))"
| "optimize (SubDeclNode p i) = Inr (Some (SubDeclNode p i))"
| "optimize (CallSubNode p n i) = Inr (Some (CallSubNode p n i))"
| "optimize (BinaryArithmeticNode p op l r) =
     bindR (required (optimize l)) (\<lambda>l'.
     bindR (required (optimize r)) (\<lambda>r'.
     bindR (optimize_binary p op l' r') (\<lambda>n. Inr (Some n))))"
| "optimize (UnaryArithmeticNode p op c) =
     bindR (required (optimize c)) (\<lambda>c'.
     bindR (optimize_unary p op c') (\<lambda>n. Inr (Some n)))"
| "optimize (ImmediateNode p v) = Inr (Some (ImmediateNode p v))"
| "optimize (StoreNode p a) = Inr (Some (StoreNode p a))"
| "optimize (LoadNode p a) = Inr (Some (LoadNode p a))"
| "optimize (ArrayWriteNode p a s n i) =
     bindR (required (optimize i)) (\<lambda>i'. bindR (optimize_write p a s n i') (\<lambda>x. Inr (Some x)))"
| "optimize (ArrayReadNode p a s n i) =
     bindR (required (optimize i)) (\<lambda>i'. bindR (optimize_read p a s n i') (\<lambda>x. Inr (Some x)))"
| "optimize (LoadNativeArgNode p t a s n i) =
     bindR (required (optimize i)) (\<lambda>i'.
     bindR (guardR (immediate i' = None) Abort) (\<lambda>_.
     Inr (Some (LoadNativeArgNode p t a s n i'))))"
| "optimize (CallNode p f ts cs) =
     bindR (mapR (\<lambda>c. required (optimize c)) cs) (\<lambda>cs'. Inr (Some (CallNode p f ts cs')))"
| "optimize (ReturnNode p) = Inr (Some (ReturnNode p))"
| "optimize (TupleVectorNode p cs) = Inl Abort"
| "optimize (MemoryVectorNode p a s n w i) = Inl Abort"
| "optimize (ArithmeticAssignmentNode p op l r) = Inl Abort"
| "optimize (UnaryArithmeticAssignmentNode p op m) = Inl Abort"

end
