(* ===== verification/Tree_Emit.thy ===== *)
theory Tree_Emit
  imports Bytecode Tree_Optimize
begin

text \<open>
  \<^verbatim>\<open>compiler/tree-emit.cpp\<close>. The pointer \<^verbatim>\<open>PreLinkBytecode::current\<close> is a reference: to the code of an event,
  of a subroutine, or to one of the local vectors in which the code of a condition and of its blocks is
  built (a stack, \<open>temps\<close>). A failed assertion and a call of \<^verbatim>\<open>abort\<close> are \<open>Abort\<close>.
\<close>

datatype vector_ref = Event_vector u32 | Subroutine_vector u32 | Temporary nat

record prelink =
  pl_events :: "(u32, bytecode_vector) std_map"
  pl_subroutines :: "(u32, bytecode_vector) std_map"
  temps :: "bytecode_vector list"
  current :: vector_ref

definition update_entry :: "'k \<Rightarrow> ('v \<Rightarrow> 'v) \<Rightarrow> ('k, 'v) std_map \<Rightarrow> ('k, 'v) std_map" where
  "update_entry k f m = map (\<lambda>(k', v). (k', if k' = k then f v else v)) m"

definition update_vector :: "vector_ref \<Rightarrow> (bytecode_vector \<Rightarrow> bytecode_vector) \<Rightarrow> prelink \<Rightarrow> prelink" where
  "update_vector r f st =
     (case r of
        Event_vector i \<Rightarrow> st\<lparr>pl_events := update_entry i f (pl_events st)\<rparr>
      | Subroutine_vector i \<Rightarrow> st\<lparr>pl_subroutines := update_entry i f (pl_subroutines st)\<rparr>
      | Temporary k \<Rightarrow> st\<lparr>temps := (temps st)[k := f (temps st ! k)]\<rparr>)"

text \<open>Words pushed to the current vector.\<close>

definition push :: "bytecode_element list \<Rightarrow> prelink \<Rightarrow> prelink" where
  "push es st = update_vector (current st) (copy_back es) st"

definition PreLinkBytecode :: prelink where
  "PreLinkBytecode =
     \<lparr>pl_events = [(ASEBA_EVENT_INIT, empty_vector)], pl_subroutines = [], temps = [],
      current = Event_vector ASEBA_EVENT_INIT\<rparr>"

section \<open>Words of the instructions\<close>

definition word_at :: "source_pos \<Rightarrow> u16 \<Rightarrow> bytecode_element" where
  "word_at p w = element w (ucast (row p))"

definition instr :: "source_pos \<Rightarrow> AsebaBytecodeId \<Rightarrow> u16 \<Rightarrow> bytecode_element" where
  "instr p i operand = word_at p (AsebaBytecodeFromId i OR operand)"

definition addImmediateToBytecodes :: "int \<Rightarrow> source_pos \<Rightarrow> failure + bytecode_element list" where
  "addImmediateToBytecodes v p =
     (if v = INT_MIN then Inl Undefined
      else if \<bar>v\<bar> div 2 ^ 11 = 0
      then Inr [instr p ASEBA_BYTECODE_SMALL_IMMEDIATE (word_of_int v AND 0x0fff)]
      else Inr [instr p ASEBA_BYTECODE_LARGE_IMMEDIATE 0, word_at p (word_of_int v)])"

definition pushImmediate :: "int \<Rightarrow> source_pos \<Rightarrow> prelink \<Rightarrow> failure + prelink" where
  "pushImmediate v p st = bindR (addImmediateToBytecodes v p) (\<lambda>es. Inr (push es st))"

text \<open>The words of a condition followed by its blocks, from the code of the four parts.\<close>

definition if_code ::
  "source_pos \<Rightarrow> AsebaBinaryOperator \<Rightarrow> bool \<Rightarrow> bytecode_element list \<Rightarrow> bytecode_element list \<Rightarrow>
    bytecode_element list \<Rightarrow> bytecode_element list option \<Rightarrow> bytecode_element list" where
  "if_code p op edgeSensitive ble bre btb bfb =
     ble @ bre @
     [instr p ASEBA_BYTECODE_CONDITIONAL_BRANCH
        (binary_code op OR (if edgeSensitive then push_bit ASEBA_IF_IS_WHEN_BIT 1 else 0)),
      word_at p (2 + word_of_nat (length btb) + (if bfb = None then 0 else 1))] @ btb @
     (case bfb of
        None \<Rightarrow> []
      | Some b \<Rightarrow>
          element (AsebaBytecodeFromId ASEBA_BYTECODE_JUMP OR (word_of_nat (length b) + 1))
            (if btb = [] then ucast (row p) else line (last btb)) # b)"

definition while_code ::
  "source_pos \<Rightarrow> AsebaBinaryOperator \<Rightarrow> bytecode_element list \<Rightarrow> bytecode_element list \<Rightarrow>
    bytecode_element list \<Rightarrow> bytecode_element list" where
  "while_code p op ble bre bb =
     ble @ bre @
     [instr p ASEBA_BYTECODE_CONDITIONAL_BRANCH (binary_code op),
      word_at p (2 + word_of_nat (length bb) + 1)] @ bb @
     [instr p ASEBA_BYTECODE_JUMP ((- word_of_nat (length ble + length bre + length bb + 2)) AND 0x0fff)]"

definition native_arg_code :: "source_pos \<Rightarrow> u32 \<Rightarrow> u32 \<Rightarrow> u32 \<Rightarrow> bytecode_element list" where
  "native_arg_code p tempAddr arrayAddr arraySize =
     [instr p ASEBA_BYTECODE_STORE (ucast tempAddr),
      instr p ASEBA_BYTECODE_LOAD (ucast tempAddr),
      instr p ASEBA_BYTECODE_LOAD (ucast tempAddr),
      instr p ASEBA_BYTECODE_LOAD_INDIRECT (ucast arrayAddr),
      word_at p (ucast arraySize),
      instr p ASEBA_BYTECODE_STORE (ucast tempAddr)]"

section \<open>Emission\<close>

text \<open>Code generated into a new local vector, which is returned.\<close>

definition in_temp ::
  "(prelink \<Rightarrow> failure + prelink) \<Rightarrow> prelink \<Rightarrow> failure + bytecode_element list \<times> prelink" where
  "in_temp f st =
     (let k = length (temps st) in
      bindR (f (st\<lparr>temps := temps st @ [empty_vector], current := Temporary k\<rparr>))
        (\<lambda>st'. Inr (elements (temps st' ! k), st'\<lparr>temps := take k (temps st')\<rparr>)))"

lemma in_temp_cong [fundef_cong]:
  "st = st' \<Longrightarrow> (\<And>x. f x = g x) \<Longrightarrow> in_temp f st = in_temp g st'"
  by (simp add: in_temp_def)

definition set_lastLine :: "u32 \<Rightarrow> prelink \<Rightarrow> prelink" where
  "set_lastLine l st = update_vector (current st) (\<lambda>v. v\<lparr>lastLine := l\<rparr>) st"

definition declare_event :: "u32 \<Rightarrow> prelink \<Rightarrow> failure + prelink" where
  "declare_event i st =
     (if map_find (pl_events st) i \<noteq> None then Inl Abort
      else Inr (st\<lparr>pl_events := map_set i empty_vector (pl_events st), current := Event_vector i\<rparr>))"

definition declare_sub :: "u32 \<Rightarrow> prelink \<Rightarrow> failure + prelink" where
  "declare_sub i st =
     (if map_find (pl_subroutines st) i \<noteq> None then Inl Abort
      else Inr (st\<lparr>pl_subroutines := map_set i empty_vector (pl_subroutines st),
                   current := Subroutine_vector i\<rparr>))"

section \<open>Stack depth\<close>

definition max_depth :: "u32 list \<Rightarrow> u32" where
  "max_depth ds = foldl max 0 ds"

fun getStackDepth :: "node \<Rightarrow> failure + u32" where
  "getStackDepth (FoldedIfWhenNode p op e el l r t f) =
     bindR (getStackDepth l) (\<lambda>dl. bindR (getStackDepth r) (\<lambda>dr. bindR (getStackDepth t) (\<lambda>dt.
     bindR (optR getStackDepth f) (\<lambda>df.
     Inr (case df of None \<Rightarrow> max (dl + dr) dt | Some d \<Rightarrow> max (max (dl + dr) dt) d)))))"
| "getStackDepth (FoldedWhileNode p op l r b) =
     bindR (getStackDepth l) (\<lambda>dl. bindR (getStackDepth r) (\<lambda>dr. bindR (getStackDepth b) (\<lambda>db.
     Inr (max (dl + dr) db))))"
| "getStackDepth (BinaryArithmeticNode p op l r) =
     bindR (getStackDepth l) (\<lambda>dl. bindR (getStackDepth r) (\<lambda>dr. Inr (dl + dr)))"
| "getStackDepth (ImmediateNode p v) = Inr 1"
| "getStackDepth (LoadNode p a) = Inr 1"
| "getStackDepth (LoadNativeArgNode p t a s n i) = bindR (getStackDepth i) (\<lambda>d. Inr (max d 2))"
| "getStackDepth (CallNode p f ts cs) =
     bindR (mapR getStackDepth cs) (\<lambda>ds.
     Inr (max_depth (map (\<lambda>(i, d). word_of_nat (length ts + i) + d) (enumerate 0 ds))))"
| "getStackDepth (ReturnNode p) = Inr 0"
| "getStackDepth (TupleVectorNode p cs) = Inl Abort"
| "getStackDepth (MemoryVectorNode p a s n w i) = Inl Abort"
| "getStackDepth (ArithmeticAssignmentNode p op l r) = Inl Abort"
| "getStackDepth (UnaryArithmeticAssignmentNode p op m) = Inl Abort"
| "getStackDepth (BlockNode p cs) = bindR (mapR getStackDepth cs) (\<lambda>ds. Inr (max_depth ds))"
| "getStackDepth (ProgramNode p cs) = bindR (mapR getStackDepth cs) (\<lambda>ds. Inr (max_depth ds))"
| "getStackDepth (AssignmentNode p l r) =
     bindR (getStackDepth l) (\<lambda>dl. bindR (getStackDepth r) (\<lambda>dr. Inr (max_depth [dl, dr])))"
| "getStackDepth (IfWhenNode p e el c t f) =
     bindR (getStackDepth c) (\<lambda>dc. bindR (getStackDepth t) (\<lambda>dt. bindR (optR getStackDepth f) (\<lambda>df.
     Inr (max_depth ([dc, dt] @ (case df of None \<Rightarrow> [] | Some d \<Rightarrow> [d]))))))"
| "getStackDepth (WhileNode p c b) =
     bindR (getStackDepth c) (\<lambda>dc. bindR (getStackDepth b) (\<lambda>db. Inr (max_depth [dc, db])))"
| "getStackDepth (EventDeclNode p i) = Inr 0"
| "getStackDepth (EmitNode p i a s cs) = bindR (mapR getStackDepth cs) (\<lambda>ds. Inr (max_depth ds))"
| "getStackDepth (SubDeclNode p i) = Inr 0"
| "getStackDepth (CallSubNode p n i) = Inr 0"
| "getStackDepth (UnaryArithmeticNode p op c) = bindR (getStackDepth c) (\<lambda>d. Inr (max_depth [d]))"
| "getStackDepth (StoreNode p a) = Inr 0"
| "getStackDepth (ArrayWriteNode p a s n i) = bindR (getStackDepth i) (\<lambda>d. Inr (max_depth [d]))"
| "getStackDepth (ArrayReadNode p a s n i) = bindR (getStackDepth i) (\<lambda>d. Inr (max_depth [d]))"

text \<open>The depth of every event and subroutine, from the statements between two declarations.\<close>

definition set_depth :: "vector_ref \<Rightarrow> u32 \<Rightarrow> prelink \<Rightarrow> prelink" where
  "set_depth r d st = update_vector r (\<lambda>v. v\<lparr>maxStackDepth := d\<rparr>) st"

fun analyze_depth :: "node list \<Rightarrow> vector_ref \<Rightarrow> u32 \<Rightarrow> prelink \<Rightarrow> failure + prelink" where
  "analyze_depth [] cur d st = Inr (set_depth cur d st)"
| "analyze_depth (c # cs) cur d st =
     (case c of
        EventDeclNode _ i \<Rightarrow> analyze_depth cs (Event_vector i) 0 (set_depth cur d st)
      | SubDeclNode _ i \<Rightarrow> analyze_depth cs (Subroutine_vector i) 0 (set_depth cur d st)
      | _ \<Rightarrow> bindR (getStackDepth c) (\<lambda>k. analyze_depth cs cur (max d k) st))"

section \<open>The pass\<close>

fun emit :: "node \<Rightarrow> prelink \<Rightarrow> failure + prelink" where
  "emit (BlockNode p cs) st = foldR emit cs st"
| "emit (ProgramNode p cs) st =
     bindR (foldR emit cs st) (\<lambda>st'. analyze_depth cs (Event_vector ASEBA_EVENT_INIT) 0 st')"
| "emit (AssignmentNode p l r) st = bindR (emit r st) (\<lambda>st'. emit l st')"
| "emit (IfWhenNode p e el c t f) st = Inl Abort"
| "emit (FoldedIfWhenNode p op e el l r t f) st =
     bindR (in_temp (emit l) st) (\<lambda>(ble, st1).
     bindR (in_temp (emit r) st1) (\<lambda>(bre, st2).
     bindR (in_temp (emit t) st2) (\<lambda>(btb, st3).
     bindR (case f of
              None \<Rightarrow> Inr (None, st3)
            | Some b \<Rightarrow> bindR (in_temp (emit b) st3) (\<lambda>(bfb, st4). Inr (Some bfb, st4))) (\<lambda>(bfb, st4).
     Inr (set_lastLine el (push (if_code p op e ble bre btb bfb) (st4\<lparr>current := current st\<rparr>)))))))"
| "emit (WhileNode p c b) st = Inl Abort"
| "emit (FoldedWhileNode p op l r b) st =
     bindR (in_temp (emit l) st) (\<lambda>(ble, st1).
     bindR (in_temp (emit r) st1) (\<lambda>(bre, st2).
     bindR (in_temp (emit b) st2) (\<lambda>(bb, st3).
     Inr (push (while_code p op ble bre bb) (st3\<lparr>current := current st\<rparr>)))))"
| "emit (EventDeclNode p i) st = declare_event i st"
| "emit (EmitNode p i a s cs) st =
     bindR (foldR emit cs st) (\<lambda>st'.
     Inr (push [instr p ASEBA_BYTECODE_EMIT (ucast i), word_at p (ucast a), word_at p (ucast s)] st'))"
| "emit (SubDeclNode p i) st = declare_sub i st"
| "emit (CallSubNode p n i) st = Inr (push [instr p ASEBA_BYTECODE_SUB_CALL (ucast i)] st)"
| "emit (BinaryArithmeticNode p op l r) st =
     bindR (emit l st) (\<lambda>st1. bindR (emit r st1) (\<lambda>st2.
     Inr (push [instr p ASEBA_BYTECODE_BINARY_ARITHMETIC (binary_code op)] st2)))"
| "emit (UnaryArithmeticNode p op c) st =
     bindR (emit c st) (\<lambda>st'. Inr (push [instr p ASEBA_BYTECODE_UNARY_ARITHMETIC (unary_code op)] st'))"
| "emit (ImmediateNode p v) st = pushImmediate v p st"
| "emit (StoreNode p a) st = Inr (push [instr p ASEBA_BYTECODE_STORE (ucast a)] st)"
| "emit (LoadNode p a) st = Inr (push [instr p ASEBA_BYTECODE_LOAD (ucast a)] st)"
| "emit (ArrayWriteNode p a s n i) st =
     bindR (guardR (immediate i = None) Abort) (\<lambda>_. bindR (emit i st) (\<lambda>st'.
     Inr (push [instr p ASEBA_BYTECODE_STORE_INDIRECT (ucast a), word_at p (ucast s)] st')))"
| "emit (ArrayReadNode p a s n i) st =
     bindR (guardR (immediate i = None) Abort) (\<lambda>_. bindR (emit i st) (\<lambda>st'.
     Inr (push [instr p ASEBA_BYTECODE_LOAD_INDIRECT (ucast a), word_at p (ucast s)] st')))"
| "emit (LoadNativeArgNode p t a s n i) st =
     bindR (guardR (immediate i = None) Abort) (\<lambda>_. bindR (emit i st) (\<lambda>st1.
     bindR (pushImmediate (sint a) p (push (native_arg_code p t a s) st1)) (\<lambda>st2.
     Inr (push [instr p ASEBA_BYTECODE_BINARY_ARITHMETIC (binary_code ASEBA_OP_ADD)] st2))))"
| "emit (CallNode p f ts cs) st =
     bindR (foldR (\<lambda>t. pushImmediate (sint t) p) (rev ts) st) (\<lambda>st1.
     bindR (foldR emit (rev cs) st1) (\<lambda>st2.
     Inr (push [instr p ASEBA_BYTECODE_NATIVE_CALL (ucast f)] st2)))"
| "emit (ReturnNode p) st = Inr (push [word_at p (AsebaBytecodeFromId ASEBA_BYTECODE_STOP)] st)"
| "emit (TupleVectorNode p cs) st = Inl Abort"
| "emit (MemoryVectorNode p a s n w i) st = Inl Abort"
| "emit (ArithmeticAssignmentNode p op l r) st = Inl Abort"
| "emit (UnaryArithmeticAssignmentNode p op m) st = Inl Abort"

section \<open>Terminators\<close>

definition drop_empty :: "(u32, bytecode_vector) std_map \<Rightarrow> (u32, bytecode_vector) std_map" where
  "drop_empty m = filter (\<lambda>(i, v). elements v \<noteq> []) m"

definition close_event :: "bytecode_vector \<Rightarrow> bytecode_vector" where
  "close_event v = push_back (element (AsebaBytecodeFromId ASEBA_BYTECODE_STOP) (ucast (lastLine v))) v"

definition close_sub :: "subroutine_descriptor list \<Rightarrow> u32 \<Rightarrow> bytecode_vector \<Rightarrow> failure + bytecode_vector" where
  "close_sub table i v =
     (if elements v \<noteq> [] then
        (let v' = changeStopToRetSub v in
         Inr (if getTypeOfLast v' \<noteq> bytecode_id ASEBA_BYTECODE_SUB_RET
              then push_back (element (AsebaBytecodeFromId ASEBA_BYTECODE_SUB_RET) (ucast (lastLine v'))) v'
              else v'))
      else if unat i < length table
      then Inr (push_back (element (AsebaBytecodeFromId ASEBA_BYTECODE_SUB_RET) (ucast (sub_line (table ! unat i)))) v)
      else Inl Undefined)"

definition fixup :: "subroutine_descriptor list \<Rightarrow> prelink \<Rightarrow> failure + prelink" where
  "fixup table st =
     bindR (mapR (\<lambda>(i, v). bindR (close_sub table i v) (\<lambda>v'. Inr (i, v'))) (pl_subroutines st)) (\<lambda>subs.
     Inr (st\<lparr>pl_events := map (\<lambda>(i, v). (i, close_event v)) (drop_empty (pl_events st)),
             pl_subroutines := subs\<rparr>))"

end
