(* ===== verification/Optimize_Correct.thy ===== *)
theory Optimize_Correct
  imports Tree_Optimize
begin

text \<open>
  What the optimizer promises. An expression has a reference value: the value of each operator on
  integers, undefined where an operand or a result leaves the 16 bits of the virtual machine, a divisor
  is zero or an index is out of bounds. Optimizing a well-typed expression keeps that value, never
  aborts, and turns a condition into a constant or a comparison. The expressions are typed all the way
  down (\<^verbatim>\<open>typeCheck\<close> does not look at indices).
\<close>

section \<open>Reference values\<close>

definition int16 :: "int \<Rightarrow> int option" where
  "int16 v = (if -32768 \<le> v \<and> v \<le> 32767 then Some v else None)"

primrec binary_value :: "AsebaBinaryOperator \<Rightarrow> int \<Rightarrow> int \<Rightarrow> int option" where
  "binary_value ASEBA_OP_SHIFT_LEFT a b = (if 0 \<le> b \<and> b < 16 then int16 (a * 2 ^ nat b) else None)"
| "binary_value ASEBA_OP_SHIFT_RIGHT a b = (if 0 \<le> b \<and> b < 16 then int16 (a div 2 ^ nat b) else None)"
| "binary_value ASEBA_OP_ADD a b = int16 (a + b)"
| "binary_value ASEBA_OP_SUB a b = int16 (a - b)"
| "binary_value ASEBA_OP_MULT a b = int16 (a * b)"
| "binary_value ASEBA_OP_DIV a b = (if b = 0 then None else int16 (a sdiv b))"
| "binary_value ASEBA_OP_MOD a b = (if b = 0 then None else int16 (a smod b))"
| "binary_value ASEBA_OP_BIT_OR a b = int16 (a OR b)"
| "binary_value ASEBA_OP_BIT_XOR a b = int16 (a XOR b)"
| "binary_value ASEBA_OP_BIT_AND a b = int16 (a AND b)"
| "binary_value ASEBA_OP_EQUAL a b = Some (of_bool (a = b))"
| "binary_value ASEBA_OP_NOT_EQUAL a b = Some (of_bool (a \<noteq> b))"
| "binary_value ASEBA_OP_BIGGER_THAN a b = Some (of_bool (a > b))"
| "binary_value ASEBA_OP_BIGGER_EQUAL_THAN a b = Some (of_bool (a \<ge> b))"
| "binary_value ASEBA_OP_SMALLER_THAN a b = Some (of_bool (a < b))"
| "binary_value ASEBA_OP_SMALLER_EQUAL_THAN a b = Some (of_bool (a \<le> b))"
| "binary_value ASEBA_OP_OR a b = Some (of_bool (a \<noteq> 0 \<or> b \<noteq> 0))"
| "binary_value ASEBA_OP_AND a b = Some (of_bool (a \<noteq> 0 \<and> b \<noteq> 0))"

primrec unary_value :: "AsebaUnaryOperator \<Rightarrow> int \<Rightarrow> int option" where
  "unary_value ASEBA_UNARY_OP_SUB v = int16 (- v)"
| "unary_value ASEBA_UNARY_OP_ABS v = int16 \<bar>v\<bar>"
| "unary_value ASEBA_UNARY_OP_BIT_NOT v = int16 (NOT v)"
| "unary_value ASEBA_UNARY_OP_NOT v = Some (of_bool (v = 0))"

fun eval :: "(u32 \<Rightarrow> int) \<Rightarrow> node \<Rightarrow> int option" where
  "eval m (BinaryArithmeticNode p op l r) =
     Option.bind (eval m l) (\<lambda>a. Option.bind (eval m r) (\<lambda>b. binary_value op a b))"
| "eval m (UnaryArithmeticNode p op c) = Option.bind (eval m c) (unary_value op)"
| "eval m (ImmediateNode p v) = int16 v"
| "eval m (LoadNode p a) = int16 (m a)"
| "eval m (ArrayReadNode p a s n i) =
     Option.bind (eval m i) (\<lambda>v. if 0 \<le> v \<and> v < uint s then int16 (m (a + word_of_int v)) else None)"
| "eval m _ = None"

text \<open>A division by a power of two is exact or has a non-negative dividend: the shift that replaces it
  rounds down, the division rounds towards zero.\<close>

fun pot_divisions_agree :: "(u32 \<Rightarrow> int) \<Rightarrow> node \<Rightarrow> bool" where
  "pot_divisions_agree m (BinaryArithmeticNode p op l r) \<longleftrightarrow>
     pot_divisions_agree m l \<and> pot_divisions_agree m r \<and>
     (op = ASEBA_OP_DIV \<longrightarrow>
       (case (eval m l, eval m r) of (Some a, Some b) \<Rightarrow> isPOT b \<longrightarrow> 0 \<le> a \<or> b dvd a | _ \<Rightarrow> True))"
| "pot_divisions_agree m (UnaryArithmeticNode p op c) \<longleftrightarrow> pot_divisions_agree m c"
| "pot_divisions_agree m (ArrayReadNode p a s n i) \<longleftrightarrow> pot_divisions_agree m i"
| "pot_divisions_agree m _ \<longleftrightarrow> True"

lemma int16_Some [simp]: "int16 v = Some w \<longleftrightarrow> w = v \<and> -32768 \<le> v \<and> v \<le> 32767"
  by (auto simp: int16_def)

lemma eval_range: "eval m n = Some v \<Longrightarrow> -32768 \<le> v \<and> v \<le> 32767"
proof (cases n)
  case (BinaryArithmeticNode p op l r)
  assume "eval m n = Some v"
  with BinaryArithmeticNode show ?thesis
    by (cases op) (auto simp: bind_eq_Some_conv split: if_splits)
next
  case (UnaryArithmeticNode p op c)
  assume "eval m n = Some v"
  with UnaryArithmeticNode show ?thesis by (cases op) (auto simp: bind_eq_Some_conv)
next
  case (ArrayReadNode p a s nm i)
  assume "eval m n = Some v"
  with ArrayReadNode show ?thesis by (auto simp: bind_eq_Some_conv split: if_splits)
qed auto

section \<open>Conditions\<close>

text \<open>What a condition becomes: a constant, or comparisons combined by and and or.\<close>

fun bool_form :: "node \<Rightarrow> bool" where
  "bool_form (BinaryArithmeticNode p op l r) \<longleftrightarrow> comparison op \<or> (logic op \<and> bool_form l \<and> bool_form r)"
| "bool_form _ \<longleftrightarrow> False"

definition bool_result :: "node \<Rightarrow> bool" where
  "bool_result n \<longleftrightarrow> bool_form n \<or> immediate n = Some 0 \<or> immediate n = Some 1"

lemma bool_form_immediate: "bool_form n \<Longrightarrow> immediate n = None"
  by (cases n) (auto simp: immediate_def)

lemma bool_form_value: "bool_form n \<Longrightarrow> eval m n = Some v \<Longrightarrow> v = 0 \<or> v = 1"
proof (cases n)
  case (BinaryArithmeticNode p op l r)
  assume "bool_form n" "eval m n = Some v"
  with BinaryArithmeticNode show ?thesis
    by (cases op) (auto simp: comparison_def logic_def bind_eq_Some_conv)
qed auto

lemma bool_result_value: "bool_result n \<Longrightarrow> eval m n = Some v \<Longrightarrow> v = 0 \<or> v = 1"
  using bool_form_value by (fastforce simp: bool_result_def immediate_eq_Some)

lemma deMorgan_bool_form:
  "bool_form n \<Longrightarrow> \<exists>n'. deMorganNotRemoval n = Inr n' \<and> bool_form n' \<and>
     (\<forall>m v. eval m n = Some v \<longrightarrow> eval m n' = Some (of_bool (v = 0)))"
proof (induction n rule: bool_form.induct)
  case (1 p op l r)
  show ?case
  proof (cases "logic op")
    case True
    with 1 obtain l' r' where l': "deMorganNotRemoval l = Inr l'" "bool_form l'"
        "\<And>m v. eval m l = Some v \<Longrightarrow> eval m l' = Some (of_bool (v = 0))"
      and r': "deMorganNotRemoval r = Inr r'" "bool_form r'"
        "\<And>m v. eval m r = Some v \<Longrightarrow> eval m r' = Some (of_bool (v = 0))"
      by (auto simp: comparison_def logic_def)
    with True show ?thesis
      by (auto simp: logic_def bind_eq_Some_conv)
  next
    case False
    with 1 have "comparison op" by simp
    with False show ?thesis
      by (auto simp: comparison_def logic_def bind_eq_Some_conv)
  qed
qed auto

section \<open>One binary operation\<close>

lemma fold_binary_failure: "fold_binary op p a b = Inl e \<Longrightarrow> e \<noteq> Abort"
  by (cases op) (auto simp: c_int_def shift_left_def shift_right_def bindR_eq_Inl split: if_splits)

lemma fold_unary_failure: "fold_unary op p v = Inl e \<Longrightarrow> e \<noteq> Abort"
  by (cases op) (auto simp: c_int_def split: if_splits)

lemma fold_binary_bool:
  "result_type op = RT_BOOL \<Longrightarrow> \<exists>v. fold_binary op p a b = Inr v \<and> (v = 0 \<or> v = 1)"
  by (cases op) (auto simp: result_type_def comparison_def logic_def)

lemma pot_shift_failure: "pot_shift p op l r = Inl e \<Longrightarrow> e \<noteq> Abort"
  by (cases r) (auto simp: pot_shift_def split: if_splits)

lemma optimize_binary_failure: "optimize_binary p op l r = Inl e \<Longrightarrow> e \<noteq> Abort"
  by (auto simp: optimize_binary_def bindR_eq_Inl dest: fold_binary_failure pot_shift_failure
      split: option.splits)

lemma pot_shift_id: "op \<noteq> ASEBA_OP_MULT \<Longrightarrow> op \<noteq> ASEBA_OP_DIV \<Longrightarrow> pot_shift p op l r = Inr (BinaryArithmeticNode p op l r)"
  by (cases r) (auto simp: pot_shift_def)

lemma optimize_binary_comparison:
  assumes "comparison op"
  shows "\<exists>n. optimize_binary p op l r = Inr n \<and> bool_result n"
proof (cases "immediate l \<noteq> None \<and> immediate r \<noteq> None")
  case True
  then obtain a b where "immediate l = Some a" "immediate r = Some b" by auto
  with assms fold_binary_bool [of op p a b] show ?thesis
    by (auto simp: optimize_binary_def result_type_def bool_result_def)
next
  case False
  have "op \<noteq> ASEBA_OP_MULT" "op \<noteq> ASEBA_OP_DIV" "neutral op l r = None" "absorbing op l r = None"
    using assms by (auto simp: comparison_def neutral_def absorbing_def)
  with False assms show ?thesis
    by (auto simp: optimize_binary_def bool_result_def pot_shift_id split: option.splits)
qed

lemma optimize_binary_logic:
  assumes "logic op" "bool_result l" "bool_result r"
  shows "\<exists>n. optimize_binary p op l r = Inr n \<and> bool_result n"
proof (cases "immediate l")
  case None
  note l = this
  show ?thesis
  proof (cases "immediate r")
    case None
    with assms l show ?thesis
      by (auto simp: optimize_binary_def bool_result_def logic_def neutral_def absorbing_def pot_shift_id)
  next
    case (Some b)
    with assms l show ?thesis
      by (auto simp: optimize_binary_def bool_result_def logic_def neutral_def absorbing_def)
  qed
next
  case (Some a)
  note l = this
  show ?thesis
  proof (cases "immediate r")
    case None
    with assms l show ?thesis
      by (auto simp: optimize_binary_def bool_result_def logic_def neutral_def absorbing_def)
  next
    case (Some b)
    with assms l fold_binary_bool [of op p a b] show ?thesis
      by (auto simp: optimize_binary_def bool_result_def result_type_def)
  qed
qed

section \<open>Optimizing a well-typed expression never aborts\<close>

definition sound_result :: "ReturnType \<Rightarrow> failure + node option \<Rightarrow> bool" where
  "sound_result t r \<longleftrightarrow>
     (case r of Inl e \<Rightarrow> e \<noteq> Abort | Inr x \<Rightarrow> (\<exists>n. x = Some n \<and> (t = RT_BOOL \<longrightarrow> bool_result n)))"

lemma sound_result_bind:
  assumes "sound_result t r"
    and "\<And>n. required r = Inr n \<Longrightarrow> (t = RT_BOOL \<longrightarrow> bool_result n) \<Longrightarrow> sound_result t' (f n)"
  shows "sound_result t' (bindR (required r) f)"
  using assms by (cases r) (auto simp: sound_result_def required_def)

lemma sound_result_some:
  assumes "\<And>e. r = Inl e \<Longrightarrow> e \<noteq> Abort" and "\<And>n. r = Inr n \<Longrightarrow> t = RT_BOOL \<longrightarrow> bool_result n"
  shows "sound_result t (bindR r (\<lambda>n. Inr (Some n)))"
  using assms by (cases r) (auto simp: sound_result_def)

lemma optimize_binary_sound:
  assumes "operand_type op = RT_BOOL \<longrightarrow> bool_result l" "operand_type op = RT_BOOL \<longrightarrow> bool_result r"
  shows "sound_result (result_type op) (bindR (optimize_binary p op l r) (\<lambda>n. Inr (Some n)))"
proof (rule sound_result_some)
  show "e \<noteq> Abort" if "optimize_binary p op l r = Inl e" for e
    using that by (rule optimize_binary_failure)
  show "result_type op = RT_BOOL \<longrightarrow> bool_result n" if "optimize_binary p op l r = Inr n" for n
    using that assms optimize_binary_comparison [of op p l r] optimize_binary_logic [of op l r p]
    by (auto simp: operand_type_def result_type_def split: if_splits)
qed

lemma optimize_not_sound: "bool_result c \<Longrightarrow> \<exists>n. optimize_unary p ASEBA_UNARY_OP_NOT c = Inr n \<and> bool_result n"
proof -
  assume "bool_result c"
  then consider v where "immediate c = Some v" "v = 0 \<or> v = 1" | "bool_form c"
    by (auto simp: bool_result_def)
  then show ?thesis
  proof cases
    case 1
    then show ?thesis by (auto simp: immediate_eq_Some optimize_unary_def bool_result_def)
  next
    case 2
    then obtain q o' l r where "c = BinaryArithmeticNode q o' l r" by (cases c) auto
    with 2 deMorgan_bool_form [of c] show ?thesis by (auto simp: optimize_unary_def bool_result_def)
  qed
qed

lemma optimize_unary_failure:
  "optimize_unary p op c = Inl e \<Longrightarrow> op \<noteq> ASEBA_UNARY_OP_NOT \<Longrightarrow> e \<noteq> Abort"
  by (cases c) (auto simp: optimize_unary_def bindR_eq_Inl dest: fold_unary_failure)

lemma optimize_unary_sound:
  assumes "unary_type op = RT_BOOL \<longrightarrow> bool_result c"
  shows "sound_result (unary_type op) (bindR (optimize_unary p op c) (\<lambda>n. Inr (Some n)))"
proof (cases "op = ASEBA_UNARY_OP_NOT")
  case True
  with assms optimize_not_sound [of c p] show ?thesis
    by (auto simp: unary_type_def sound_result_def)
next
  case False
  with optimize_unary_failure show ?thesis
    by (intro sound_result_some) (auto simp: unary_type_def)
qed

lemma optimize_read_sound: "optimize_read p a s n i = Inl e \<Longrightarrow> e \<noteq> Abort"
  by (auto simp: optimize_read_def Let_def split: option.splits if_splits)

lemma optimize_sound: "expr_type t n \<Longrightarrow> sound_result t (optimize n)"
proof (induction n arbitrary: t)
  case (BinaryArithmeticNode p op l r)
  then show ?case
    by (auto intro!: sound_result_bind [where t = "operand_type op"] optimize_binary_sound)
next
  case (UnaryArithmeticNode p op c)
  then show ?case
    by (auto intro!: sound_result_bind [where t = "unary_type op"] optimize_unary_sound)
next
  case (ArrayReadNode p a s nm i)
  then show ?case
    by (auto intro!: sound_result_bind [where t = RT_INT] sound_result_some dest: optimize_read_sound)
qed (auto simp: sound_result_def)

section \<open>Optimizing a well-typed expression keeps its value\<close>

lemma eval_immediate: "immediate n = Some a \<Longrightarrow> eval m n = Some v \<Longrightarrow> v = a"
  by (auto simp: immediate_eq_Some)

lemma sint_small: "-32768 \<le> c \<Longrightarrow> c \<le> 32767 \<Longrightarrow> sint (word_of_int c :: 32 word) = c"
  by (simp add: sint_sbintrunc' signed_take_bit_int_eq_self)

lemma shift_left_value:
  assumes "-32768 \<le> a * 2 ^ nat b" "a * 2 ^ nat b \<le> 32767"
  shows "shift_left a b = Inr (a * 2 ^ nat b) \<or> shift_left a b = Inl Undefined"
  unfolding shift_left_def sint_small [OF assms] by simp

lemma fold_binary_value:
  "binary_value op a b = Some v \<Longrightarrow> fold_binary op p a b = Inr v \<or> fold_binary op p a b = Inl Undefined"
  using shift_left_value [of a b]
  by (cases op) (auto simp: c_int_def shift_right_def bindR_eq_Inr bindR_eq_Inl split: if_splits)

lemma fold_unary_value:
  "unary_value op a = Some v \<Longrightarrow> fold_unary op p a = Inr v \<or> fold_unary op p a = Inl Undefined"
  by (cases op) (auto simp: c_int_def split: if_splits)

lemma neutral_value:
  assumes "neutral op l r = Some n" "eval m l = Some a" "eval m r = Some b" "binary_value op a b = Some v"
    and "logic op \<longrightarrow> (a = 0 \<or> a = 1) \<and> (b = 0 \<or> b = 1)"
  shows "eval m n = Some v"
  using assms eval_range [OF assms(2)] eval_range [OF assms(3)]
    eval_immediate [of l _ m a] eval_immediate [of r _ m b]
  by (cases op) (auto simp: neutral_def Let_def logic_def split: if_splits)

lemma absorbing_value:
  assumes "absorbing op l r = Some w" "eval m l = Some a" "eval m r = Some b" "binary_value op a b = Some v"
  shows "w = v"
  using assms eval_immediate [of l _ m a] eval_immediate [of r _ m b]
  by (cases op) (auto simp: absorbing_def Let_def split: if_splits)

lemma small_power: "(2 :: int) ^ k \<le> 32767 \<Longrightarrow> k < 15"
  using power_increasing_iff [of "2 :: int" 15 k] by (simp add: not_le [symmetric])

lemma pot_exponent:
  assumes "isPOT b" "b \<le> 32767"
  shows "b = 2 ^ unat (shiftFromPOT b) \<and> uint (shiftFromPOT b) < 15"
proof -
  from assms obtain k where k: "b = 2 ^ k" "k < 15" by (auto simp: isPOT_iff dest: small_power)
  then have u: "unat (shiftFromPOT b) = k" by (simp add: shiftFromPOT_power unat_of_nat)
  have "uint (shiftFromPOT b) = int k" unfolding u [symmetric] by simp
  with u k show ?thesis by simp
qed

lemma sdiv_pot: "0 \<le> a \<or> 2 ^ k dvd a \<Longrightarrow> a sdiv 2 ^ k = (a :: int) div 2 ^ k"
  by (auto simp: signed_divide_int_def sgn_if dvd_neg_div)

lemma pot_shift_value:
  assumes "eval m l = Some a" "eval m r = Some b" "binary_value op a b = Some v"
    and "op = ASEBA_OP_DIV \<longrightarrow> isPOT b \<longrightarrow> 0 \<le> a \<or> b dvd a"
  shows "\<exists>n. pot_shift p op l r = Inr n \<and> eval m n = Some v"
proof (cases "\<exists>q w. r = ImmediateNode q w \<and> isPOT w \<and> (op = ASEBA_OP_MULT \<or> op = ASEBA_OP_DIV)")
  case True
  then obtain q where r: "r = ImmediateNode q b" and b: "isPOT b" "b \<le> 32767"
    and op: "op = ASEBA_OP_MULT \<or> op = ASEBA_OP_DIV" using assms(2) by auto
  from pot_exponent [OF b] have e: "b = 2 ^ unat (shiftFromPOT b)"
    "0 \<le> uint (shiftFromPOT b)" "uint (shiftFromPOT b) < 15" by auto
  from e(2,3) have "-32768 \<le> uint (shiftFromPOT b)" "uint (shiftFromPOT b) \<le> 32767" by linarith+
  then have i: "int16 (uint (shiftFromPOT b)) = Some (uint (shiftFromPOT b))" by simp
  from op show ?thesis
  proof
    assume "op = ASEBA_OP_MULT"
    with r b(1) e assms show ?thesis by (simp add: i pot_shift_def)
  next
    assume d: "op = ASEBA_OP_DIV"
    with assms(4) b(1) e(1) sdiv_pot [of a "unat (shiftFromPOT b)"]
    have "a div 2 ^ unat (shiftFromPOT b) = a sdiv b" by simp
    with d r b(1) e assms show ?thesis by (simp add: i pot_shift_def split: if_splits)
  qed
next
  case False
  with assms(2,3) have "pot_shift p op l r = Inr (BinaryArithmeticNode p op l r)"
    by (cases r) (auto simp: pot_shift_def)
  with assms show ?thesis by simp
qed

definition keeps :: "(u32 \<Rightarrow> int) \<Rightarrow> int \<Rightarrow> failure + node \<Rightarrow> bool" where
  "keeps m v r \<longleftrightarrow> r = Inl Undefined \<or> (\<exists>n. r = Inr n \<and> eval m n = Some v)"

lemma optimize_binary_value:
  assumes "eval m l = Some a" "eval m r = Some b" "binary_value op a b = Some v"
    and "logic op \<longrightarrow> (a = 0 \<or> a = 1) \<and> (b = 0 \<or> b = 1)"
    and "op = ASEBA_OP_DIV \<longrightarrow> isPOT b \<longrightarrow> 0 \<le> a \<or> b dvd a"
  shows "keeps m v (optimize_binary p op l r)"
proof -
  have v: "int16 v = Some v" using assms eval_range [of m "BinaryArithmeticNode p op l r" v] by simp
  show ?thesis
  proof (cases "immediate l \<noteq> None \<and> immediate r \<noteq> None")
    case True
    with assms have "immediate l = Some a" "immediate r = Some b" by (auto dest: eval_immediate)
    with fold_binary_value [OF assms(3), of p] v show ?thesis
      by (auto simp: keeps_def optimize_binary_def)
  next
    case False
    then have "optimize_binary p op l r = (case neutral op l r of Some n \<Rightarrow> Inr n
      | None \<Rightarrow> (case absorbing op l r of Some v \<Rightarrow> Inr (ImmediateNode p v) | None \<Rightarrow> pot_shift p op l r))"
      by (auto simp: optimize_binary_def split: option.splits)
    with neutral_value [OF _ assms(1-4)] absorbing_value [OF _ assms(1-3)]
      pot_shift_value [OF assms(1-3,5)] v
    show ?thesis by (auto simp: keeps_def split: option.splits)
  qed
qed

lemma optimize_unary_value:
  assumes "eval m c = Some a" "unary_value op a = Some v"
    and "op = ASEBA_UNARY_OP_NOT \<longrightarrow> bool_result c"
  shows "keeps m v (optimize_unary p op c)"
proof (cases "immediate c")
  case None
  show ?thesis
  proof (cases "op = ASEBA_UNARY_OP_NOT")
    case True
    with None assms(3) have "bool_form c" by (simp add: bool_result_def)
    moreover from this obtain q o' l r where "c = BinaryArithmeticNode q o' l r" by (cases c) auto
    ultimately show ?thesis
      using True deMorgan_bool_form [of c] assms by (auto simp: keeps_def optimize_unary_def)
  next
    case False
    with None have "optimize_unary p op c = Inr (UnaryArithmeticNode p op c)"
      by (cases c) (auto simp: optimize_unary_def)
    with assms show ?thesis by (simp add: keeps_def)
  qed
next
  case (Some u)
  then obtain q where c: "c = ImmediateNode q a" using assms(1) by (auto simp: immediate_eq_Some)
  have "int16 v = Some v" using assms eval_range [of m "UnaryArithmeticNode p op c" v] by simp
  with c fold_unary_value [OF assms(2), of p] show ?thesis by (auto simp: keeps_def optimize_unary_def)
qed

lemma optimize_read_value:
  assumes "eval m i = Some v" "0 \<le> v" "v < uint s" "int16 (m (a + word_of_int v)) = Some w"
  shows "keeps m w (optimize_read p a s nm i)"
proof (cases "immediate i")
  case (Some u)
  with assms(1) have u: "u = v" by (auto dest: eval_immediate)
  have "uint (word_of_int v :: u32) = v"
    using assms(2,3) uint_bounded [of s] by (simp add: uint_word_of_int_eq take_bit_int_eq_self)
  with assms(3) have "(word_of_int v :: u32) < s" by (simp add: word_less_def)
  with Some u assms show ?thesis by (simp add: keeps_def optimize_read_def Let_def leD)
next
  case None
  with assms show ?thesis by (auto simp: keeps_def optimize_read_def)
qed

lemma value_kept_bind:
  assumes "keeps m v (required r)" and "\<And>n. required r = Inr n \<Longrightarrow> eval m n = Some v \<Longrightarrow> keeps m w (f n)"
  shows "keeps m w (bindR (required r) f)"
  using assms by (auto simp: keeps_def)

lemma bool_type_value: "expr_type RT_BOOL n \<Longrightarrow> eval m n = Some v \<Longrightarrow> v = 0 \<or> v = 1"
proof (cases n)
  case (BinaryArithmeticNode p op l r)
  assume "expr_type RT_BOOL n" "eval m n = Some v"
  with BinaryArithmeticNode show ?thesis
    by (cases op) (auto simp: result_type_def comparison_def logic_def bind_eq_Some_conv)
next
  case (UnaryArithmeticNode p op c)
  assume "expr_type RT_BOOL n" "eval m n = Some v"
  with UnaryArithmeticNode show ?thesis
    by (cases op) (auto simp: unary_type_def bind_eq_Some_conv)
qed auto

lemma required_Some [simp]: "required (Inr (Some n)) = Inr n"
  by (simp add: required_def)

lemma required_bind: "required (bindR r f) = bindR r (\<lambda>x. required (f x))"
  by (cases r) (auto simp: required_def)

lemma optimize_value:
  "expr_type t n \<Longrightarrow> eval m n = Some v \<Longrightarrow> pot_divisions_agree m n \<Longrightarrow> keeps m v (required (optimize n))"
proof (induction n arbitrary: t v)
  case (BinaryArithmeticNode p op l r)
  from BinaryArithmeticNode.prems obtain a b where ab: "eval m l = Some a" "eval m r = Some b"
    "binary_value op a b = Some v" by (auto simp: bind_eq_Some_conv)
  have bool: "logic op \<longrightarrow> (a = 0 \<or> a = 1) \<and> (b = 0 \<or> b = 1)"
    using BinaryArithmeticNode.prems ab bool_type_value [of l m a] bool_type_value [of r m b]
    by (auto simp: operand_type_def)
  have div: "op = ASEBA_OP_DIV \<longrightarrow> isPOT b \<longrightarrow> 0 \<le> a \<or> b dvd a"
    using BinaryArithmeticNode.prems ab by auto
  have "keeps m a (required (optimize l))" "keeps m b (required (optimize r))"
    using BinaryArithmeticNode ab by auto
  then show ?case
    using optimize_binary_value [OF _ _ ab(3) bool div] by (auto simp: required_bind intro!: value_kept_bind)
next
  case (UnaryArithmeticNode p op c)
  from UnaryArithmeticNode.prems obtain a where a: "eval m c = Some a" "unary_value op a = Some v"
    by (auto simp: bind_eq_Some_conv)
  have "op = ASEBA_UNARY_OP_NOT \<longrightarrow> bool_result n" if "required (optimize c) = Inr n" for n
    using that optimize_sound [of RT_BOOL c] UnaryArithmeticNode.prems
    by (auto simp: unary_type_def sound_result_def required_eq_Inr)
  with a UnaryArithmeticNode show ?case
    by (auto simp: required_bind intro!: value_kept_bind [where v = a] optimize_unary_value)
next
  case (ArrayReadNode p a s nm i)
  from ArrayReadNode.prems obtain u where u: "eval m i = Some u" "0 \<le> u" "u < uint s"
    "int16 (m (a + word_of_int u)) = Some v" by (auto simp: bind_eq_Some_conv split: if_splits)
  with ArrayReadNode show ?case
    by (auto simp: required_bind intro!: value_kept_bind [where v = u] optimize_read_value)
qed (auto simp: keeps_def required_def)

text \<open>C3: Optimizing a well-typed expression keeps its value in every memory: when the expression
  evaluates without leaving 16 bits, without a zero divisor or an index out of bounds, and its divisions
  by powers of two are exact or have a non-negative dividend, then the optimizer returns an expression
  of the same value, unless it folds a left shift of a negative constant, which C++ leaves undefined.\<close>

theorem optimize_preserves_value:
  assumes "expr_type t n" and "eval m n = Some v" and "pot_divisions_agree m n"
  shows "optimize n = Inl Undefined \<or> (\<exists>n'. optimize n = Inr (Some n') \<and> eval m n' = Some v)"
  using optimize_value [OF assms] optimize_sound [OF assms(1)]
  by (cases "optimize n") (auto simp: keeps_def required_def sound_result_def)

definition sample_expr :: node where
  "sample_expr = BinaryArithmeticNode no_pos ASEBA_OP_DIV
     (BinaryArithmeticNode no_pos ASEBA_OP_ADD (LoadNode no_pos 3) (ImmediateNode no_pos 0))
     (ImmediateNode no_pos 4)"

theorem optimize_preserves_value_witness:
  "optimize sample_expr = Inl Undefined \<or>
   (\<exists>n'. optimize sample_expr = Inr (Some n') \<and> eval (\<lambda>a. 100) n' = Some 25)"
  by (rule optimize_preserves_value [of RT_INT])
    (simp_all add: sample_expr_def result_type_def operand_type_def comparison_def logic_def
      int16_def signed_divide_int_def)

text \<open>The shift that replaces a division by a power of two does not keep the value of a negative
  dividend that is not a multiple of the divisor: \<open>-7 / 2\<close> is folded to \<open>-3\<close> when the dividend is a
  constant, while the optimized code of \<open>x / 2\<close> gives \<open>-4\<close> for \<open>x = -7\<close>.\<close>

theorem division_rounding_changes:
  "optimize (BinaryArithmeticNode p ASEBA_OP_DIV (ImmediateNode q (-7)) (ImmediateNode r 2)) =
     Inr (Some (ImmediateNode p (-3))) \<and>
   (\<exists>n. optimize (BinaryArithmeticNode p ASEBA_OP_DIV (LoadNode q a) (ImmediateNode r 2)) = Inr (Some n) \<and>
     eval (\<lambda>_. -7) (BinaryArithmeticNode p ASEBA_OP_DIV (LoadNode q a) (ImmediateNode r 2)) = Some (-3) \<and>
     eval (\<lambda>_. -7) n = Some (-4))"
proof -
  have "isPOT 2" "shiftFromPOT 2 = 1"
    using isPOT_iff [of 2] shiftFromPOT_power [of 1] by (auto intro: exI [of _ 1])
  then show ?thesis
    by (simp add: optimize_binary_def immediate_def neutral_def absorbing_def pot_shift_def c_int_def
        INT_MIN_def INT_MAX_def int16_def signed_divide_int_def)
qed

text \<open>The optimizer crashes on expressions that the type checker does not look at, the indices of
  arrays: the negation of an arithmetic operation in an index passes the type check of the statement
  that holds it, and optimizing it aborts.\<close>

theorem untyped_index_aborts:
  "typeCheck c (AssignmentNode p (StoreNode p 0)
     (ArrayReadNode p a s n (UnaryArithmeticNode p ASEBA_UNARY_OP_NOT
       (BinaryArithmeticNode p ASEBA_OP_ADD (LoadNode p x) (LoadNode p y))))) =
   Inr (RT_UNIT, AssignmentNode p (StoreNode p 0)
     (ArrayReadNode p a s n (UnaryArithmeticNode p ASEBA_UNARY_OP_NOT
       (BinaryArithmeticNode p ASEBA_OP_ADD (LoadNode p x) (LoadNode p y))))) \<and>
   optimize (AssignmentNode p (StoreNode p 0)
     (ArrayReadNode p a s n (UnaryArithmeticNode p ASEBA_UNARY_OP_NOT
       (BinaryArithmeticNode p ASEBA_OP_ADD (LoadNode p x) (LoadNode p y))))) = Inl Abort"
  by (simp add: checked_def expectType_def required_def optimize_binary_def immediate_def neutral_def
      absorbing_def pot_shift_def optimize_unary_def)

text \<open>The argument of a native function at an index that is only found to be constant by the
  optimizer, such as \<open>a[x * 0]\<close>, makes the assertion of \<^verbatim>\<open>LoadNativeArgNode::optimize\<close> fail.\<close>

lemma constant_native_index_aborts:
  "optimize (LoadNativeArgNode p t a s n
     (BinaryArithmeticNode p ASEBA_OP_MULT (LoadNode p x) (ImmediateNode p 0))) = Inl Abort"
  by (simp add: required_def optimize_binary_def immediate_def neutral_def absorbing_def)

section \<open>Statements\<close>

text \<open>
  Statements whose expressions are typed all the way down. The argument of a native function is an
  immediate address, a block that stores values and leaves their address, or a run-time address with an
  integer index.
\<close>

fun stmt_typed :: "node \<Rightarrow> bool" where
  "stmt_typed (BlockNode p cs) \<longleftrightarrow> (\<forall>c\<in>set cs. stmt_typed c)"
| "stmt_typed (ProgramNode p cs) \<longleftrightarrow> (\<forall>c\<in>set cs. stmt_typed c)"
| "stmt_typed (AssignmentNode p l r) \<longleftrightarrow>
     (case l of StoreNode _ _ \<Rightarrow> True | ArrayWriteNode _ _ _ _ i \<Rightarrow> expr_type RT_INT i | _ \<Rightarrow> False) \<and>
     expr_type RT_INT r"
| "stmt_typed (IfWhenNode p e el c t f) \<longleftrightarrow>
     expr_type RT_BOOL c \<and> stmt_typed t \<and> (case f of None \<Rightarrow> True | Some x \<Rightarrow> stmt_typed x)"
| "stmt_typed (WhileNode p c b) \<longleftrightarrow> expr_type RT_BOOL c \<and> stmt_typed b"
| "stmt_typed (EventDeclNode p i) \<longleftrightarrow> True"
| "stmt_typed (SubDeclNode p i) \<longleftrightarrow> True"
| "stmt_typed (CallSubNode p n i) \<longleftrightarrow> True"
| "stmt_typed (ReturnNode p) \<longleftrightarrow> True"
| "stmt_typed (EmitNode p i a s cs) \<longleftrightarrow> (\<forall>c\<in>set cs. stmt_typed c \<and> (\<exists>q ds. c = BlockNode q ds))"
| "stmt_typed (CallNode p f ts cs) \<longleftrightarrow>
     (\<forall>c\<in>set cs.
        (case c of
           ImmediateNode _ _ \<Rightarrow> True
         | BlockNode _ ds \<Rightarrow> (\<forall>d\<in>set ds. stmt_typed d \<or> (\<exists>q v. d = ImmediateNode q v))
         | LoadNativeArgNode _ _ _ _ _ i \<Rightarrow> expr_type RT_INT i
         | _ \<Rightarrow> False))"
| "stmt_typed _ \<longleftrightarrow> False"

text \<open>What code can be emitted for: no unfolded condition, no vector, no array access at a constant
  index.\<close>

fun emittable :: "node \<Rightarrow> bool" where
  "emittable (BlockNode p cs) \<longleftrightarrow> (\<forall>c\<in>set cs. emittable c)"
| "emittable (ProgramNode p cs) \<longleftrightarrow> (\<forall>c\<in>set cs. emittable c)"
| "emittable (AssignmentNode p l r) \<longleftrightarrow> emittable l \<and> emittable r"
| "emittable (FoldedIfWhenNode p op e el l r t f) \<longleftrightarrow>
     emittable l \<and> emittable r \<and> emittable t \<and> (case f of None \<Rightarrow> True | Some x \<Rightarrow> emittable x)"
| "emittable (FoldedWhileNode p op l r b) \<longleftrightarrow> emittable l \<and> emittable r \<and> emittable b"
| "emittable (EmitNode p i a s cs) \<longleftrightarrow> (\<forall>c\<in>set cs. emittable c)"
| "emittable (BinaryArithmeticNode p op l r) \<longleftrightarrow> emittable l \<and> emittable r"
| "emittable (UnaryArithmeticNode p op c) \<longleftrightarrow> emittable c"
| "emittable (ArrayWriteNode p a s n i) \<longleftrightarrow> immediate i = None \<and> emittable i"
| "emittable (ArrayReadNode p a s n i) \<longleftrightarrow> immediate i = None \<and> emittable i"
| "emittable (LoadNativeArgNode p t a s n i) \<longleftrightarrow> immediate i = None \<and> emittable i"
| "emittable (CallNode p f ts cs) \<longleftrightarrow> (\<forall>c\<in>set cs. emittable c)"
| "emittable (EventDeclNode p i) \<longleftrightarrow> True"
| "emittable (SubDeclNode p i) \<longleftrightarrow> True"
| "emittable (CallSubNode p n i) \<longleftrightarrow> True"
| "emittable (ImmediateNode p v) \<longleftrightarrow> True"
| "emittable (StoreNode p a) \<longleftrightarrow> True"
| "emittable (LoadNode p a) \<longleftrightarrow> True"
| "emittable (ReturnNode p) \<longleftrightarrow> True"
| "emittable _ \<longleftrightarrow> False"

lemma emittable_neutral: "neutral op l r = Some n \<Longrightarrow> n = l \<or> n = r"
  by (auto simp: neutral_def Let_def split: if_splits)

lemma emittable_pot_shift:
  "pot_shift p op l r = Inr n \<Longrightarrow> emittable l \<Longrightarrow> emittable r \<Longrightarrow> emittable n"
  by (cases r) (auto simp: pot_shift_def split: if_splits)

lemma emittable_optimize_binary:
  "optimize_binary p op l r = Inr n \<Longrightarrow> emittable l \<Longrightarrow> emittable r \<Longrightarrow> emittable n"
  by (auto simp: optimize_binary_def bindR_eq_Inr dest: emittable_neutral emittable_pot_shift
      split: option.splits)

lemma emittable_deMorgan: "deMorganNotRemoval n = Inr n' \<Longrightarrow> emittable n \<Longrightarrow> emittable n'"
  by (induction n arbitrary: n' rule: deMorganNotRemoval.induct) (auto split: option.splits if_splits)

lemma emittable_optimize_unary: "optimize_unary p op c = Inr n \<Longrightarrow> emittable c \<Longrightarrow> emittable n"
  by (cases c) (auto simp: optimize_unary_def simp del: deMorganNotRemoval.simps
      dest: emittable_deMorgan split: if_splits)

lemma emittable_access:
  "optimize_read p a s nm i = Inr n \<Longrightarrow> emittable i \<Longrightarrow> emittable n"
  "optimize_write p a s nm i = Inr n \<Longrightarrow> emittable i \<Longrightarrow> emittable n"
  by (auto simp: optimize_read_def optimize_write_def Let_def split: option.splits if_splits)

lemma emittable_optimize_if:
  assumes "optimize_if p e el c t f = Inr (Some n)" "emittable c"
    and "\<And>x. t = Some x \<Longrightarrow> emittable x" "\<And>x. f = Some x \<Longrightarrow> emittable x"
  shows "emittable n"
  using assms by (cases c) (auto simp: optimize_if_def split: if_splits option.splits)

lemma emittable_optimize_while:
  assumes "optimize_while p c b = Inr (Some n)" "emittable c" and "\<And>x. b = Some x \<Longrightarrow> emittable x"
  shows "emittable n"
  using assms by (cases c) (auto simp: optimize_while_def immediate_def split: if_splits option.splits)

lemma set_surviving: "n \<in> set (surviving ns) \<Longrightarrow> Some n \<in> set ns"
  by (auto simp: surviving_def split: option.splits)

lemma surviving_all:
  assumes "mapR f cs = Inr ns" "n \<in> set (surviving ns)" and "\<And>c n. c \<in> set cs \<Longrightarrow> f c = Inr (Some n) \<Longrightarrow> P n"
  shows "P n"
  using mapR_set [OF assms(1) set_surviving [OF assms(2)]] assms(3) by auto

lemmas emittable_steps = emittable_optimize_binary emittable_optimize_unary emittable_access
  emittable_optimize_if emittable_optimize_while

lemma optimized_emittable: "optimize n = Inr (Some n') \<Longrightarrow> emittable n'"
proof (induction n arbitrary: n' rule: optimize.induct)
  case (1 p cs)
  then obtain ns where ns: "mapR optimize cs = Inr ns" "n' = BlockNode p (surviving ns)" by auto
  with 1(1) surviving_all [OF ns(1), where P = emittable] show ?case by auto
next
  case (2 p cs)
  then obtain ns where ns: "mapR optimize cs = Inr ns" "n' = ProgramNode p (surviving ns)" by auto
  with 2(1) surviving_all [OF ns(1), where P = emittable] show ?case by auto
next
  case (4 p e el c t f)
  from 4(4) obtain c' t' f' where *: "optimize c = Inr (Some c')" "optimize t = Inr t'"
    "optR optimize f = Inr f'" "optimize_if p e el c' t' (Option.bind f' id) = Inr (Some n')"
    by (auto simp: required_eq_Inr)
  then show ?case
    using 4(1-3) by (auto simp: optR_eq_Inr required_eq_Inr intro: emittable_optimize_if [OF *(4)])
next
  case (9 p i a s cs)
  then show ?case by (fastforce simp: required_eq_Inr dest: mapR_set)
next
  case (20 p f ts cs)
  then show ?case by (fastforce simp: required_eq_Inr dest: mapR_set)
qed (auto simp: required_eq_Inr dest: emittable_steps)

text \<open>Whatever tree the optimizer returns is one that code can be emitted for: it holds no if, when
  or while whose condition is not folded, no vector node and no array access at a constant index.\<close>

theorem optimize_emittable:
  "optimize n = Inr (Some n') \<Longrightarrow> emittable n'"
  by (rule optimized_emittable)

section \<open>Aborts on well-typed programs\<close>

lemma required_no_abort: "r \<noteq> Inl Abort \<Longrightarrow> r \<noteq> Inr None \<Longrightarrow> required r \<noteq> Inl Abort"
  by (cases r) (auto simp: required_def split: option.splits)

lemma expr_no_abort: "expr_type t n \<Longrightarrow> required (optimize n) \<noteq> Inl Abort"
  using optimize_sound [of t n] by (intro required_no_abort) (auto simp: sound_result_def)

lemma condition_result:
  "expr_type RT_BOOL n \<Longrightarrow> optimize n = Inr (Some c) \<Longrightarrow>
    (\<exists>p v. c = ImmediateNode p v) \<or> (\<exists>p op l r. c = BinaryArithmeticNode p op l r)"
  using optimize_sound [of RT_BOOL n] bool_form.elims(2) [of c]
  by (fastforce simp: sound_result_def bool_result_def immediate_eq_Some)

lemma optimize_if_no_abort:
  "expr_type RT_BOOL n \<Longrightarrow> optimize n = Inr (Some c) \<Longrightarrow> optimize_if p e el c t f \<noteq> Inl Abort"
  by (auto simp: optimize_if_def dest!: condition_result)

lemma optimize_while_no_abort:
  "expr_type RT_BOOL n \<Longrightarrow> optimize n = Inr (Some c) \<Longrightarrow> optimize_while p c b \<noteq> Inl Abort"
  by (auto simp: optimize_while_def immediate_def dest!: condition_result split: option.splits)

lemma optimize_target_no_abort:
  "(case l of StoreNode _ _ \<Rightarrow> True | ArrayWriteNode _ _ _ _ i \<Rightarrow> expr_type RT_INT i | _ \<Rightarrow> False) \<Longrightarrow>
    required (optimize l) \<noteq> Inl Abort"
  by (cases l)
    (auto simp: required_bind bindR_eq_Inl optimize_write_def Let_def expr_no_abort
      split: option.splits if_splits)

lemma block_no_abort:
  assumes "\<And>c. c \<in> set cs \<Longrightarrow> optimize c \<noteq> Inl Abort"
  shows "required (optimize (BlockNode p cs)) \<noteq> Inl Abort"
  using assms by (auto simp: required_def bindR_eq_Inl dest!: mapR_eq_Inl)

text \<open>The indices of the native arguments in a program, and those among them that the optimizer turns
  into a constant, which the assertion of \<^verbatim>\<open>LoadNativeArgNode::optimize\<close> forbids.\<close>

fun native_indices :: "node \<Rightarrow> node list" where
  "native_indices (BlockNode p cs) = concat (map native_indices cs)"
| "native_indices (ProgramNode p cs) = concat (map native_indices cs)"
| "native_indices (IfWhenNode p e el c t f) =
     native_indices t @ (case f of None \<Rightarrow> [] | Some x \<Rightarrow> native_indices x)"
| "native_indices (WhileNode p c b) = native_indices b"
| "native_indices (EmitNode p i a s cs) = concat (map native_indices cs)"
| "native_indices (CallNode p f ts cs) = concat (map native_indices cs)"
| "native_indices (LoadNativeArgNode p t a s n i) = [i]"
| "native_indices _ = []"

definition folds_to_constant :: "node \<Rightarrow> bool" where
  "folds_to_constant i \<longleftrightarrow> (case optimize i of Inr (Some x) \<Rightarrow> immediate x \<noteq> None | _ \<Rightarrow> False)"

lemma native_arg_abort:
  assumes "expr_type RT_INT i" "optimize (LoadNativeArgNode p t a s nm i) = Inl Abort"
  shows "folds_to_constant i"
  using assms expr_no_abort [of RT_INT i]
  by (auto simp: folds_to_constant_def bindR_eq_Inl required_eq_Inr guardR_def split: if_splits)

lemma native_arg_required:
  "required (optimize (LoadNativeArgNode p t a s nm i)) = Inl Abort \<longleftrightarrow>
    optimize (LoadNativeArgNode p t a s nm i) = Inl Abort"
  by (auto simp: required_bind bindR_eq_Inl)

lemma call_argument_no_abort:
  assumes "case c of
      ImmediateNode _ _ \<Rightarrow> True
    | BlockNode _ ds \<Rightarrow> (\<forall>d\<in>set ds. stmt_typed d \<or> (\<exists>q v. d = ImmediateNode q v))
    | LoadNativeArgNode _ _ _ _ _ i \<Rightarrow> expr_type RT_INT i
    | _ \<Rightarrow> False"
    and "\<And>q ds d. c = BlockNode q ds \<Longrightarrow> d \<in> set ds \<Longrightarrow> stmt_typed d \<Longrightarrow> optimize d \<noteq> Inl Abort"
    and "\<forall>i\<in>set (native_indices c). \<not> folds_to_constant i"
  shows "required (optimize c) \<noteq> Inl Abort"
proof (cases c)
  case (BlockNode q ds)
  with assms(1,2) have "optimize d \<noteq> Inl Abort" if "d \<in> set ds" for d using that by fastforce
  with BlockNode show ?thesis by (simp add: block_no_abort del: optimize.simps)
next
  case (LoadNativeArgNode q ta a s nm i)
  with assms(1,3) native_arg_abort [of i q ta a s nm] show ?thesis
    by (auto simp: native_arg_required simp del: optimize.simps)
qed (use assms(1) in \<open>auto simp: required_def\<close>)

lemma typed_no_abort:
  assumes "stmt_typed n" and "\<forall>i\<in>set (native_indices n). \<not> folds_to_constant i"
  shows "optimize n \<noteq> Inl Abort"
  using assms
proof (induction n rule: stmt_typed.induct)
  case (1 p cs)
  then show ?case by (auto simp: bindR_eq_Inl dest!: mapR_eq_Inl)
next
  case (2 p cs)
  then show ?case by (auto simp: bindR_eq_Inl dest!: mapR_eq_Inl)
next
  case (3 p l r)
  then show ?case
    using optimize_target_no_abort [of l] expr_no_abort [of RT_INT r] by (auto simp: bindR_eq_Inl)
next
  case (4 p e el c t f)
  then show ?case
    using expr_no_abort [of RT_BOOL c] optimize_if_no_abort [of c]
    by (cases f) (auto simp: bindR_eq_Inl required_eq_Inr)
next
  case (5 p c b)
  then show ?case
    using expr_no_abort [of RT_BOOL c] optimize_while_no_abort [of c]
    by (auto simp: bindR_eq_Inl required_eq_Inr)
next
  case (10 p i a s cs)
  have "required (optimize c) \<noteq> Inl Abort" if "c \<in> set cs" for c
    using 10 that by (intro required_no_abort) (auto simp: bindR_eq_Inr)
  then show ?case by (auto simp: bindR_eq_Inl dest!: mapR_eq_Inl)
next
  case (11 p f ts cs)
  have "required (optimize c) \<noteq> Inl Abort" if c: "c \<in> set cs" for c
  proof (rule call_argument_no_abort)
    show "optimize d \<noteq> Inl Abort" if "c = BlockNode q ds" "d \<in> set ds" "stmt_typed d" for q ds d
      using 11(1) [OF c that(1,2)] that 11(3) c by fastforce
  qed (use 11(2,3) c in auto)
  then show ?case by (auto simp: bindR_eq_Inl dest!: mapR_eq_Inl)
qed auto

text \<open>C14: The only abort that the optimizer can reach on a program whose expressions, array indices
  included, are well-typed is the assertion on native arguments: when it aborts, the program passes to a
  native function an array element whose index the optimizer itself turns into a constant. No other
  assertion fails, no null pointer is used and no unknown operator or condition is met; all other failures
  are reported errors and undefined constant arithmetic.\<close>

theorem optimize_no_abort:
  assumes "stmt_typed n" and "optimize n = Inl Abort"
  shows "\<exists>i\<in>set (native_indices n). \<exists>q v. optimize i = Inr (Some (ImmediateNode q v))"
proof -
  from assms typed_no_abort obtain i where "i \<in> set (native_indices n)" "folds_to_constant i" by blast
  then show ?thesis
    by (auto simp: folds_to_constant_def immediate_eq_Some split: sum.splits option.splits)
qed

definition sample_native_call :: node where
  "sample_native_call = CallNode no_pos 3 []
     [LoadNativeArgNode no_pos 0 16 4 (ws ''a'')
       (BinaryArithmeticNode no_pos ASEBA_OP_MULT (LoadNode no_pos 1) (ImmediateNode no_pos 0))]"

theorem optimize_no_abort_witness:
  "optimize sample_native_call = Inl Abort \<and>
   (\<exists>i\<in>set (native_indices sample_native_call). \<exists>q v. optimize i = Inr (Some (ImmediateNode q v)))"
proof -
  have *: "optimize sample_native_call = Inl Abort"
    using constant_native_index_aborts [of no_pos 0 16 4 "ws ''a''" 1]
    by (simp add: sample_native_call_def required_def del: optimize.simps(19))
  have "stmt_typed sample_native_call"
    by (simp add: sample_native_call_def result_type_def operand_type_def comparison_def logic_def)
  from optimize_no_abort [OF this *] * show ?thesis by blast
qed

end
