(* ===== verification/Emit_Code.thy ===== *)
theory Emit_Code
  imports Tree_Emit Optimize_Correct
begin

text \<open>
  The code of a statement or expression as a value: what \<^verbatim>\<open>emit\<close> appends to the current vector, free of
  the references and local vectors of the pass. The refinement theorem shows that the pass appends
  exactly this code and changes nothing else.
\<close>

fun code :: "node \<Rightarrow> failure + bytecode_element list" where
  "code (BlockNode p cs) = bindR (mapR code cs) (\<lambda>ess. Inr (concat ess))"
| "code (AssignmentNode p l r) = bindR (code r) (\<lambda>er. bindR (code l) (\<lambda>el. Inr (er @ el)))"
| "code (FoldedIfWhenNode p op e eln l r t f) =
     bindR (code l) (\<lambda>ble. bindR (code r) (\<lambda>bre. bindR (code t) (\<lambda>btb. bindR (optR code f) (\<lambda>bfb.
     Inr (if_code p op e ble bre btb bfb)))))"
| "code (FoldedWhileNode p op l r b) =
     bindR (code l) (\<lambda>ble. bindR (code r) (\<lambda>bre. bindR (code b) (\<lambda>bb. Inr (while_code p op ble bre bb))))"
| "code (EmitNode p i a s cs) =
     bindR (mapR code cs) (\<lambda>ess.
     Inr (concat ess @ [instr p ASEBA_BYTECODE_EMIT (ucast i), word_at p (ucast a), word_at p (ucast s)]))"
| "code (CallSubNode p n i) = Inr [instr p ASEBA_BYTECODE_SUB_CALL (ucast i)]"
| "code (BinaryArithmeticNode p op l r) =
     bindR (code l) (\<lambda>el. bindR (code r) (\<lambda>er.
     Inr (el @ er @ [instr p ASEBA_BYTECODE_BINARY_ARITHMETIC (binary_code op)])))"
| "code (UnaryArithmeticNode p op c) =
     bindR (code c) (\<lambda>ec. Inr (ec @ [instr p ASEBA_BYTECODE_UNARY_ARITHMETIC (unary_code op)]))"
| "code (ImmediateNode p v) = addImmediateToBytecodes v p"
| "code (StoreNode p a) = Inr [instr p ASEBA_BYTECODE_STORE (ucast a)]"
| "code (LoadNode p a) = Inr [instr p ASEBA_BYTECODE_LOAD (ucast a)]"
| "code (ArrayWriteNode p a s n i) =
     bindR (guardR (immediate i = None) Abort) (\<lambda>_. bindR (code i) (\<lambda>ei.
     Inr (ei @ [instr p ASEBA_BYTECODE_STORE_INDIRECT (ucast a), word_at p (ucast s)])))"
| "code (ArrayReadNode p a s n i) =
     bindR (guardR (immediate i = None) Abort) (\<lambda>_. bindR (code i) (\<lambda>ei.
     Inr (ei @ [instr p ASEBA_BYTECODE_LOAD_INDIRECT (ucast a), word_at p (ucast s)])))"
| "code (LoadNativeArgNode p t a s n i) =
     bindR (guardR (immediate i = None) Abort) (\<lambda>_. bindR (code i) (\<lambda>ei.
     bindR (addImmediateToBytecodes (sint a) p) (\<lambda>ea.
     Inr (ei @ native_arg_code p t a s @ ea @
       [instr p ASEBA_BYTECODE_BINARY_ARITHMETIC (binary_code ASEBA_OP_ADD)]))))"
| "code (CallNode p f ts cs) =
     bindR (mapR (\<lambda>t. addImmediateToBytecodes (sint t) p) (rev ts)) (\<lambda>ets.
     bindR (mapR code (rev cs)) (\<lambda>ecs.
     Inr (concat ets @ concat ecs @ [instr p ASEBA_BYTECODE_NATIVE_CALL (ucast f)])))"
| "code (ReturnNode p) = Inr [word_at p (AsebaBytecodeFromId ASEBA_BYTECODE_STOP)]"
| "code _ = Inl Abort"

text \<open>Nodes without a declaration or program below them.\<close>

fun decl_free :: "node \<Rightarrow> bool" where
  "decl_free (BlockNode p cs) \<longleftrightarrow> (\<forall>c\<in>set cs. decl_free c)"
| "decl_free (AssignmentNode p l r) \<longleftrightarrow> decl_free l \<and> decl_free r"
| "decl_free (FoldedIfWhenNode p op e eln l r t f) \<longleftrightarrow>
     decl_free l \<and> decl_free r \<and> decl_free t \<and> (case f of None \<Rightarrow> True | Some x \<Rightarrow> decl_free x)"
| "decl_free (FoldedWhileNode p op l r b) \<longleftrightarrow> decl_free l \<and> decl_free r \<and> decl_free b"
| "decl_free (EmitNode p i a s cs) \<longleftrightarrow> (\<forall>c\<in>set cs. decl_free c)"
| "decl_free (BinaryArithmeticNode p op l r) \<longleftrightarrow> decl_free l \<and> decl_free r"
| "decl_free (UnaryArithmeticNode p op c) \<longleftrightarrow> decl_free c"
| "decl_free (ArrayWriteNode p a s n i) \<longleftrightarrow> decl_free i"
| "decl_free (ArrayReadNode p a s n i) \<longleftrightarrow> decl_free i"
| "decl_free (LoadNativeArgNode p t a s n i) \<longleftrightarrow> decl_free i"
| "decl_free (CallNode p f ts cs) \<longleftrightarrow> (\<forall>c\<in>set cs. decl_free c)"
| "decl_free (ProgramNode p cs) \<longleftrightarrow> False"
| "decl_free (EventDeclNode p i) \<longleftrightarrow> False"
| "decl_free (SubDeclNode p i) \<longleftrightarrow> False"
| "decl_free _ \<longleftrightarrow> True"

section \<open>Refinement\<close>

text \<open>A change of a vector that appends words and keeps the depths.\<close>

definition grows :: "bytecode_element list \<Rightarrow> (bytecode_vector \<Rightarrow> bytecode_vector) \<Rightarrow> bool" where
  "grows es g \<longleftrightarrow> (\<forall>v. elements (g v) = elements v @ es \<and> maxStackDepth (g v) = maxStackDepth v \<and>
     callDepth (g v) = callDepth v)"

definition appends :: "bytecode_element list \<Rightarrow> (prelink \<Rightarrow> failure + prelink) \<Rightarrow> bool" where
  "appends es f \<longleftrightarrow> (\<forall>st. \<exists>g. grows es g \<and> f st = Inr (update_vector (current st) g st))"

definition emits :: "failure + bytecode_element list \<Rightarrow> (prelink \<Rightarrow> failure + prelink) \<Rightarrow> bool" where
  "emits r f \<longleftrightarrow> (case r of Inl e \<Rightarrow> (\<forall>st. f st = Inl e) | Inr es \<Rightarrow> appends es f)"

lemma update_entry_comp: "update_entry k f (update_entry k g m) = update_entry k (f \<circ> g) m"
  by (simp add: update_entry_def case_prod_beta)

lemma update_vector_comp: "update_vector r f (update_vector r g st) = update_vector r (f \<circ> g) st"
  by (cases r; cases "(case r of Temporary k \<Rightarrow> k | _ \<Rightarrow> 0) < length (temps st)")
    (auto simp: update_vector_def update_entry_comp list_update_beyond)

lemma current_update_vector [simp]: "current (update_vector r f st) = current st"
  by (cases r) (auto simp: update_vector_def)

lemma copy_back_grows: "grows es (copy_back es)"
proof -
  have "maxStackDepth (copy_back es v) = maxStackDepth v \<and> callDepth (copy_back es v) = callDepth v" for v
    unfolding copy_back_def by (induction es arbitrary: v) (auto simp: push_back_def)
  then show ?thesis by (simp add: grows_def)
qed

lemma grows_comp: "grows es g \<Longrightarrow> grows fs f \<Longrightarrow> grows (es @ fs) (f \<circ> g)"
  by (simp add: grows_def)

lemma appends_push: "appends es (\<lambda>st. Inr (push es st))"
  unfolding appends_def push_def using copy_back_grows by blast

lemma update_entry_id: "update_entry k id m = m"
  unfolding update_entry_def by (rule map_idI) auto

lemma appends_nil: "appends [] Inr"
  unfolding appends_def
  by (rule allI, rule exI [of _ id])
    (simp add: grows_def update_vector_def update_entry_id split: vector_ref.split)

lemma appends_seq:
  assumes "appends es f" "appends fs g"
  shows "appends (es @ fs) (\<lambda>st. bindR (f st) g)"
  unfolding appends_def
proof
  fix st
  from assms(1) obtain h where h: "grows es h" "f st = Inr (update_vector (current st) h st)"
    by (auto simp: appends_def)
  from assms(2) obtain k where k: "grows fs k"
    "g (update_vector (current st) h st) = Inr (update_vector (current st) k (update_vector (current st) h st))"
    by (auto simp: appends_def dest: spec [of _ "update_vector (current st) h st"])
  with h show "\<exists>m. grows (es @ fs) m \<and> bindR (f st) g = Inr (update_vector (current st) m st)"
    by (auto simp: update_vector_comp intro: grows_comp)
qed

lemma emits_seq:
  assumes "emits r f" and "\<And>es. r = Inr es \<Longrightarrow> emits (q es) g"
  shows "emits (bindR r (\<lambda>es. bindR (q es) (\<lambda>fs. Inr (es @ fs)))) (\<lambda>st. bindR (f st) g)"
proof (cases r)
  case (Inl e)
  with assms(1) show ?thesis by (simp add: emits_def)
next
  case (Inr es)
  with assms have f: "appends es f" and q: "emits (q es) g" by (auto simp: emits_def)
  show ?thesis
  proof (cases "q es")
    case (Inl e)
    have "bindR (f st) g = Inl e" for st
      using f q Inl by (auto simp: emits_def appends_def dest: spec [of _ st])
    with Inl \<open>r = Inr es\<close> show ?thesis by (simp add: emits_def)
  next
    case (Inr fs)
    with f q \<open>r = Inr es\<close> show ?thesis using appends_seq [of es f fs g] by (simp add: emits_def)
  qed
qed

lemma emits_push: "emits (Inr es) (\<lambda>st. Inr (push es st))"
  by (simp add: emits_def appends_push)

lemma emits_append:
  "emits r f \<Longrightarrow> emits (bindR r (\<lambda>es. Inr (es @ fs))) (\<lambda>st. bindR (f st) (\<lambda>st. Inr (push fs st)))"
  using emits_seq [of r f "\<lambda>_. Inr fs" "\<lambda>st. Inr (push fs st)"] emits_push by simp

lemma emits_pushImmediate: "emits (addImmediateToBytecodes v p) (pushImmediate v p)"
  by (auto simp: emits_def pushImmediate_def [abs_def] appends_push split: sum.split)

lemma emits_foldR:
  "(\<And>x. x \<in> set xs \<Longrightarrow> emits (r x) (f x)) \<Longrightarrow>
    emits (bindR (mapR r xs) (\<lambda>ess. Inr (concat ess))) (foldR f xs)"
proof (induction xs)
  case Nil
  have "foldR f [] = (\<lambda>s. Inr s)" by (rule ext) simp
  then show ?case by (simp add: emits_def appends_nil)
next
  case (Cons x xs)
  have "foldR f (x # xs) = (\<lambda>s. bindR (f x s) (foldR f xs))" by (rule ext) simp
  moreover have "bindR (mapR r (x # xs)) (\<lambda>ess. Inr (concat ess)) =
      bindR (r x) (\<lambda>es. bindR (bindR (mapR r xs) (\<lambda>ess. Inr (concat ess))) (\<lambda>fs. Inr (es @ fs)))"
    by (simp add: bindR_assoc)
  ultimately show ?case using Cons emits_seq [of "r x" "f x"] by simp
qed

text \<open>The code built in a local vector.\<close>

lemma in_temp_emits:
  assumes "emits r f"
  shows "in_temp f st = bindR r (\<lambda>es. Inr (es, st\<lparr>current := Temporary (length (temps st))\<rparr>))"
proof (cases r)
  case (Inl e)
  with assms show ?thesis by (simp add: emits_def in_temp_def)
next
  case (Inr es)
  let ?st = "st\<lparr>temps := temps st @ [empty_vector], current := Temporary (length (temps st))\<rparr>"
  from Inr assms have "\<forall>st. \<exists>g. grows es g \<and> f st = Inr (update_vector (current st) g st)"
    by (simp add: emits_def appends_def)
  from spec [OF this, of ?st] obtain g where "grows es g" "f ?st = Inr (update_vector (current ?st) g ?st)"
    by blast
  with Inr show ?thesis
    by (simp add: in_temp_def Let_def update_vector_def grows_def empty_vector_def)
qed

lemma emits_set_lastLine: "emits (Inr es) (\<lambda>st. Inr (set_lastLine l (push es st)))"
proof -
  have "grows [] (lastLine_update (\<lambda>_. l))" by (simp add: grows_def)
  then have "appends [] (\<lambda>st. Inr (set_lastLine l st))"
    unfolding appends_def set_lastLine_def by blast
  from appends_seq [OF appends_push [of es] this] show ?thesis by (simp add: emits_def)
qed

lemma emits_bind: "(\<And>x. emits (q x) (g x)) \<Longrightarrow> emits (bindR r q) (\<lambda>st. bindR r (\<lambda>x. g x st))"
  by (cases r) (auto simp: emits_def)

lemma emit_folded_if:
  assumes "emits rl (emit l)" "emits rr (emit r)" "emits rt (emit t)"
    and "\<And>x. f = Some x \<Longrightarrow> emits (code x) (emit x)"
  shows "emit (FoldedIfWhenNode p op e eln l r t f) st =
    bindR rl (\<lambda>ble. bindR rr (\<lambda>bre. bindR rt (\<lambda>btb. bindR (optR code f) (\<lambda>bfb.
      Inr (set_lastLine eln (push (if_code p op e ble bre btb bfb) st))))))"
  using assms by (cases f) (simp_all add: in_temp_emits bindR_assoc)

lemma emit_folded_while:
  assumes "emits rl (emit l)" "emits rr (emit r)" "emits rb (emit b)"
  shows "emit (FoldedWhileNode p op l r b) st =
    bindR rl (\<lambda>ble. bindR rr (\<lambda>bre. bindR rb (\<lambda>bb. Inr (push (while_code p op ble bre bb) st))))"
  using assms by (simp add: in_temp_emits bindR_assoc)

lemma emits_guard: "emits r f \<Longrightarrow> emits (bindR (guardR b e) (\<lambda>_. r)) (\<lambda>st. bindR (guardR b e) (\<lambda>_. f st))"
  by (cases b) (auto simp: emits_def)

lemma emitsI: "emits r' f' \<Longrightarrow> r = r' \<Longrightarrow> (\<And>st. f st = f' st) \<Longrightarrow> emits r f"
  by (metis ext)

lemma appends_pushI: "(\<And>st. f st = Inr (push es st)) \<Longrightarrow> appends es f"
  using appends_push [of es] by (simp add: appends_def)

lemma emits_code: "decl_free n \<Longrightarrow> emits (code n) (emit n)"
proof (induction n)
  case (BlockNode p cs)
  then have "emits (bindR (mapR code cs) (\<lambda>ess. Inr (concat ess))) (foldR emit cs)"
    by (intro emits_foldR) auto
  then show ?case by (rule emitsI) simp_all
next
  case (AssignmentNode p l r)
  then have "emits (bindR (code r) (\<lambda>es. bindR (code l) (\<lambda>fs. Inr (es @ fs)))) (\<lambda>st. bindR (emit r st) (emit l))"
    by (intro emits_seq) auto
  then show ?case by (rule emitsI) simp_all
next
  case (FoldedIfWhenNode p op e eln l r t f)
  then have "emits (code l) (emit l)" "emits (code r) (emit r)" "emits (code t) (emit t)"
    "\<And>x. f = Some x \<Longrightarrow> emits (code x) (emit x)" by auto
  note eq = emit_folded_if [OF this]
  have "emits (bindR (code l) (\<lambda>ble. bindR (code r) (\<lambda>bre. bindR (code t) (\<lambda>btb. bindR (optR code f) (\<lambda>bfb.
      Inr (if_code p op e ble bre btb bfb))))))
    (\<lambda>st. bindR (code l) (\<lambda>ble. bindR (code r) (\<lambda>bre. bindR (code t) (\<lambda>btb. bindR (optR code f) (\<lambda>bfb.
      Inr (set_lastLine eln (push (if_code p op e ble bre btb bfb) st)))))))"
    by (intro emits_bind emits_set_lastLine)
  then show ?case by (rule emitsI) (simp_all only: eq code.simps)
next
  case (FoldedWhileNode p op l r b)
  then have "emits (code l) (emit l)" "emits (code r) (emit r)" "emits (code b) (emit b)" by auto
  note eq = emit_folded_while [OF this]
  have "emits (bindR (code l) (\<lambda>ble. bindR (code r) (\<lambda>bre. bindR (code b) (\<lambda>bb. Inr (while_code p op ble bre bb)))))
    (\<lambda>st. bindR (code l) (\<lambda>ble. bindR (code r) (\<lambda>bre. bindR (code b) (\<lambda>bb.
      Inr (push (while_code p op ble bre bb) st)))))"
    by (intro emits_bind emits_push)
  then show ?case by (rule emitsI) (simp_all only: eq code.simps)
next
  case (EmitNode p i a s cs)
  then have "emits (bindR (mapR code cs) (\<lambda>ess. Inr (concat ess))) (foldR emit cs)"
    by (intro emits_foldR) auto
  from emits_append [OF this] show ?case by (rule emitsI) (simp_all add: bindR_assoc)
next
  case (BinaryArithmeticNode p op l r)
  then have "emits (bindR (code l) (\<lambda>es. bindR (code r) (\<lambda>fs. Inr (es @ fs)))) (\<lambda>st. bindR (emit l st) (emit r))"
    by (intro emits_seq) auto
  from emits_append [OF this] show ?case by (rule emitsI) (simp_all add: bindR_assoc)
next
  case (UnaryArithmeticNode p op c)
  then have "emits (code c) (emit c)" by simp
  from emits_append [OF this] show ?case by (rule emitsI) simp_all
next
  case (ImmediateNode p v)
  show ?case by (rule emitsI [OF emits_pushImmediate]) simp_all
next
  case (ArrayWriteNode p a s n i)
  then have "emits (code i) (emit i)" by simp
  from emits_guard [OF emits_append [OF this]] show ?case by (rule emitsI) simp_all
next
  case (ArrayReadNode p a s n i)
  then have "emits (code i) (emit i)" by simp
  from emits_guard [OF emits_append [OF this]] show ?case by (rule emitsI) simp_all
next
  case (LoadNativeArgNode p t a s n i)
  show ?case
  proof (cases "immediate i = None")
    case True
    with LoadNativeArgNode have "emits (code i) (emit i)" by simp
    from emits_append [OF emits_seq [OF emits_append [OF this] emits_pushImmediate]]
    show ?thesis by (rule emitsI) (simp_all add: True bindR_assoc)
  next
    case False
    then show ?thesis by (auto simp: emits_def)
  qed
next
  case (CallNode p f ts cs)
  have "emits (bindR (mapR (\<lambda>t. addImmediateToBytecodes (sint t) p) (rev ts)) (\<lambda>ess. Inr (concat ess)))
      (foldR (\<lambda>t. pushImmediate (sint t) p) (rev ts))"
    by (intro emits_foldR emits_pushImmediate)
  moreover have "emits (bindR (mapR code (rev cs)) (\<lambda>ess. Inr (concat ess))) (foldR emit (rev cs))"
    using CallNode by (intro emits_foldR) auto
  ultimately have "emits
      (bindR (bindR (mapR (\<lambda>t. addImmediateToBytecodes (sint t) p) (rev ts)) (\<lambda>ess. Inr (concat ess)))
        (\<lambda>es. bindR (bindR (mapR code (rev cs)) (\<lambda>ess. Inr (concat ess))) (\<lambda>fs. Inr (es @ fs))))
      (\<lambda>st. bindR (foldR (\<lambda>t. pushImmediate (sint t) p) (rev ts) st) (foldR emit (rev cs)))"
    by (rule emits_seq)
  from emits_append [OF this] show ?case by (rule emitsI) (simp_all add: bindR_assoc)
qed (auto simp: emits_def appends_push intro!: appends_pushI)

text \<open>C4: Emission refines the pure code generator: on a tree without declarations, \<^verbatim>\<open>emit\<close> fails exactly as
  the code generator does, and otherwise it appends exactly the generated code to the vector that is
  current, keeps the depths of that vector, and leaves every other vector and the current reference as
  they were.\<close>

theorem emit_refines_code:
  assumes "decl_free n"
  shows "(case code n of
      Inl e \<Rightarrow> emit n st = Inl e
    | Inr es \<Rightarrow> (\<exists>g. (\<forall>v. elements (g v) = elements v @ es \<and> maxStackDepth (g v) = maxStackDepth v \<and>
          callDepth (g v) = callDepth v) \<and> emit n st = Inr (update_vector (current st) g st)))"
  using emits_code [OF assms] by (simp add: emits_def appends_def grows_def split: sum.splits)

theorem emit_refines_code_witness:
  "(case code sample_expr of
      Inl e \<Rightarrow> emit sample_expr PreLinkBytecode = Inl e
    | Inr es \<Rightarrow> (\<exists>g. (\<forall>v. elements (g v) = elements v @ es \<and> maxStackDepth (g v) = maxStackDepth v \<and>
          callDepth (g v) = callDepth v) \<and>
        emit sample_expr PreLinkBytecode = Inr (update_vector (current PreLinkBytecode) g PreLinkBytecode)))"
  by (rule emit_refines_code) (simp add: sample_expr_def)

end
