(* ===== verification/Disassembler.thy ===== *)
theory Disassembler
  imports Bytecode
begin

text \<open>
  The reading of bytecode by \<^verbatim>\<open>Compiler::disassemble\<close> (\<^verbatim>\<open>compiler.cpp\<close>): which instruction a word starts, with
  which operands, and how many words it takes. The repository holds no other description of the
  instruction set, so this is the reading against which emitted code is judged. The text that the
  disassembler prints around the instructions (names of events and subroutines) is not modelled; an
  operator is printed from the low eight bits of its word, whatever they are.
\<close>

datatype instruction =
    Stop
  | Small_immediate int
  | Large_immediate int
  | Load u16
  | Store u16
  | Load_indirect u16 u16
  | Store_indirect u16 u16
  | Unary_arithmetic u16
  | Binary_arithmetic u16
  | Jump int
  | Conditional_branch u16 bool int
  | Emit u16 u16 u16
  | Native_call u16
  | Sub_call u16
  | Sub_ret
  | Unknown

text \<open>\<^verbatim>\<open>((signed short)(w << 4) >> 4)\<close>, \<^verbatim>\<open>w & 0x0fff\<close> and \<^verbatim>\<open>w & 0xff\<close>.\<close>

definition signed12 :: "u16 \<Rightarrow> int" where
  "signed12 w = sint (push_bit 4 w :: 16 word) div 2 ^ 4"

definition field12 :: "u16 \<Rightarrow> u16" where
  "field12 w = w AND 0x0fff"

definition operator_field :: "u16 \<Rightarrow> u16" where
  "operator_field w = w AND 0xff"

text \<open>The instruction at the head of a list of words, with the words that follow the first; a word past
  the end of the vector is an out-of-bounds read.\<close>

definition disassemble_one :: "bytecode_element list \<Rightarrow> failure + instruction" where
  "disassemble_one es =
     (case es of
        [] \<Rightarrow> Inl Undefined
      | e # rest \<Rightarrow>
          (let w = bytecode e; k = opcode e;
               w1 = (if 0 < length rest then Inr (bytecode (rest ! 0)) else Inl Undefined);
               w2 = (if 1 < length rest then Inr (bytecode (rest ! 1)) else Inl Undefined)
           in
           if k = 0x0 then Inr Stop
           else if k = 0x1 then Inr (Small_immediate (signed12 w))
           else if k = 0x2 then bindR w1 (\<lambda>x. Inr (Large_immediate (sint x)))
           else if k = 0x3 then Inr (Load (field12 w))
           else if k = 0x4 then Inr (Store (field12 w))
           else if k = 0x5 then bindR w1 (\<lambda>x. Inr (Load_indirect (field12 w) x))
           else if k = 0x6 then bindR w1 (\<lambda>x. Inr (Store_indirect (field12 w) x))
           else if k = 0x7 then Inr (Unary_arithmetic (operator_field w))
           else if k = 0x8 then Inr (Binary_arithmetic (operator_field w))
           else if k = 0x9 then Inr (Jump (signed12 w))
           else if k = 0xA then
             bindR w1 (\<lambda>x. Inr (Conditional_branch (operator_field w) (bit w ASEBA_IF_IS_WHEN_BIT) (sint x)))
           else if k = 0xB then bindR w1 (\<lambda>x. bindR w2 (\<lambda>y. Inr (Emit (field12 w) x y)))
           else if k = 0xC then Inr (Native_call (field12 w))
           else if k = 0xD then Inr (Sub_call (field12 w))
           else if k = 0xE then Inr Sub_ret
           else Inr Unknown))"

primrec instruction_size :: "instruction \<Rightarrow> nat" where
  "instruction_size Stop = 1"
| "instruction_size (Small_immediate v) = 1"
| "instruction_size (Large_immediate v) = 2"
| "instruction_size (Load a) = 1"
| "instruction_size (Store a) = 1"
| "instruction_size (Load_indirect a s) = 2"
| "instruction_size (Store_indirect a s) = 2"
| "instruction_size (Unary_arithmetic op) = 1"
| "instruction_size (Binary_arithmetic op) = 1"
| "instruction_size (Jump d) = 1"
| "instruction_size (Conditional_branch op w d) = 2"
| "instruction_size (Emit i a s) = 3"
| "instruction_size (Native_call f) = 1"
| "instruction_size (Sub_call a) = 1"
| "instruction_size Sub_ret = 1"
| "instruction_size Unknown = 1"

lemma instruction_size_pos: "0 < instruction_size i"
  by (cases i) auto

text \<open>The loop over a vector of words.\<close>

function disassemble :: "bytecode_element list \<Rightarrow> failure + instruction list" where
  "disassemble es =
     (if es = [] then Inr []
      else bindR (disassemble_one es) (\<lambda>i.
           bindR (disassemble (drop (instruction_size i) es)) (\<lambda>is. Inr (i # is))))"
  by auto
termination
  by (relation "measure length") (auto simp: instruction_size_pos)

declare disassemble.simps [simp del]

section \<open>Fields of a word\<close>

lemma opcode_split:
  assumes "w < 0x1000"
  shows "drop_bit 12 (AsebaBytecodeFromId i OR w) = bytecode_id i" "(AsebaBytecodeFromId i OR w) AND 0x0fff = w"
proof -
  from assms have w: "bit w m \<Longrightarrow> m < 12" for m using word_less_bit [of w 12 m] by simp
  have i: "bit (bytecode_id i) m \<Longrightarrow> m < 4" for m
    by (cases i) (auto simp: bit_numeral_rec bit_1_iff less_Suc_eq numeral_eq_Suc split: nat.splits dest: word_less_bit)
  show "drop_bit 12 (AsebaBytecodeFromId i OR w) = bytecode_id i"
    by (rule bit_word_eqI) (use w i in \<open>auto simp: AsebaBytecodeFromId_def bit_simps\<close>)
  have "(AsebaBytecodeFromId i OR w) AND mask 12 = w"
    by (intro bit_word_eqI) (use w in \<open>auto simp: AsebaBytecodeFromId_def bit_simps\<close>)
  then show "(AsebaBytecodeFromId i OR w) AND 0x0fff = w" by (simp add: mask_eq_exp_minus_1)
qed

end
