(* ===== verification/Emit_Correct.thy ===== *)
theory Emit_Correct
  imports Emit_Code Disassembler
begin

text \<open>
  Correctness of the generated code, judged by the disassembler's reading of it: immediates are read
  back as the value that was emitted, and the instructions of an expression, read as postfix notation,
  rebuild the expression that was emitted.
\<close>

section \<open>Words\<close>

lemma opcode_instr [simp]: "w < 0x1000 \<Longrightarrow> opcode (instr p i w) = bytecode_id i"
  unfolding opcode_def instr_def word_at_def element_def
  by (simp only: bytecode_element.simps opcode_split)

lemma field12_instr [simp]: "w < 0x1000 \<Longrightarrow> field12 (bytecode (instr p i w)) = w"
  by (simp add: field12_def instr_def word_at_def element_def opcode_split)

lemma bytecode_word_at [simp]: "bytecode (word_at p w) = w"
  by (simp add: word_at_def element_def)

lemma binary_code_small: "binary_code op < 18"
  by (cases op) auto

lemma unary_code_small: "unary_code op < 4"
  by (cases op) auto

lemma code_fields [simp]: "binary_code op < 0x1000" "unary_code uop < 0x1000"
  using binary_code_small [of op] unary_code_small [of uop] by (auto intro: less_trans)

lemma operator_field_instr [simp]:
  "operator_field (bytecode (instr p i (binary_code op))) = binary_code op"
  "operator_field (bytecode (instr p i (unary_code uop))) = unary_code uop"
  by (cases i; cases op; simp add: operator_field_def instr_def word_at_def element_def AsebaBytecodeFromId_def)
    (cases i; cases uop; simp add: operator_field_def instr_def word_at_def element_def AsebaBytecodeFromId_def)

lemma unat_ucast_up: "unat (ucast (x :: u16) :: u32) = unat x"
proof -
  have "unat x < 2 ^ 16" using unsigned_less [of x] by simp
  then have "unat x < 2 ^ 32" by simp
  then show ?thesis by (simp add: unsigned_ucast_eq unsigned_take_bit_eq take_bit_nat_eq_self)
qed

lemma ucast_small: "a < 0x1000 \<Longrightarrow> (ucast (a :: u32) :: u16) < 0x1000 \<and> ucast (ucast a :: u16) = a"
proof -
  assume "a < 0x1000"
  then have "unat a < 4096" by (simp add: word_less_nat_alt)
  moreover from this have "unat (ucast a :: u16) = unat a"
    by (simp add: unsigned_ucast_eq take_bit_nat_eq_self)
  moreover have "unat (ucast (ucast a :: u16) :: u32) = unat (ucast a :: u16)"
    by (rule unat_ucast_up)
  ultimately show ?thesis by (simp add: word_less_nat_alt word_unat_eq_iff)
qed

lemma sint16: "-32768 \<le> v \<Longrightarrow> v \<le> 32767 \<Longrightarrow> sint (word_of_int v :: u16) = v"
  by (simp add: sint_sbintrunc' signed_take_bit_int_eq_self)

lemma mask_12: "(mask 12 :: u16) = 0x0fff"
  by (simp add: mask_eq_exp_minus_1)

lemma signed12_field:
  assumes "-2048 \<le> v" "v < 2048"
  shows "signed12 (AsebaBytecodeFromId i OR (word_of_int v AND 0x0fff)) = v"
proof -
  have "push_bit 4 (AsebaBytecodeFromId i OR (word_of_int v AND mask 12)) = (push_bit 4 (word_of_int v) :: u16)"
    by (rule bit_word_eqI) (auto simp: AsebaBytecodeFromId_def bit_simps)
  also have "\<dots> = word_of_int (v * 16)" by (simp add: push_bit_eq_mult)
  finally have "push_bit 4 (AsebaBytecodeFromId i OR (word_of_int v AND 0x0fff)) = (word_of_int (v * 16) :: u16)"
    by (simp only: mask_12)
  with sint16 [of "v * 16"] assms have "sint (push_bit 4 (AsebaBytecodeFromId i OR (word_of_int v AND 0x0fff))) = v * 16"
    by simp
  then show ?thesis by (simp only: signed12_def) simp
qed

section \<open>Immediates\<close>

lemma field_and: "(w :: u16) AND 0x0fff < 0x1000"
  by (rule le_less_trans [OF word_and_le1]) simp

lemma immediate_decodes:
  assumes "-32768 \<le> v" and "v \<le> 32767"
  shows "\<exists>es i. addImmediateToBytecodes v p = Inr es \<and> disassemble_one (es @ rest) = Inr i \<and>
    instruction_size i = length es \<and> i \<in> {Small_immediate v, Large_immediate v}"
proof (cases "\<bar>v\<bar> div 2 ^ 11 = 0")
  case True
  then have "-2048 \<le> v" "v < 2048" by (auto simp: div_eq_0_iff)
  with True assms show ?thesis
    by (auto simp: addImmediateToBytecodes_def INT_MIN_def disassemble_one_def field_and instr_def [of p _ "_ AND _"]
        signed12_field opcode_def opcode_split Let_def simp del: drop_bit_or)
next
  case False
  with assms show ?thesis
    by (auto simp: addImmediateToBytecodes_def INT_MIN_def disassemble_one_def sint16 Let_def)
qed

text \<open>An immediate is read back as the value that was emitted: for every 16-bit value the code is one
  word or two, the disassembler takes exactly these words for one instruction, and that instruction
  pushes the value.\<close>

theorem immediate_roundtrip:
  assumes "-32768 \<le> v" and "v \<le> 32767"
  shows "\<exists>es i. addImmediateToBytecodes v p = Inr es \<and> disassemble_one (es @ rest) = Inr i \<and>
    instruction_size i = length es \<and> i \<in> {Small_immediate v, Large_immediate v}"
  using assms by (rule immediate_decodes)

section \<open>Disassembling a sequence\<close>

lemma disassemble_one_append: "disassemble_one xs = Inr i \<Longrightarrow>
    disassemble_one (xs @ ys) = Inr i \<and> instruction_size i \<le> length xs"
  by (cases xs) (auto simp: disassemble_one_def Let_def nth_append Suc_le_eq split: if_splits)

lemma disassemble_append:
  "disassemble xs = Inr is \<Longrightarrow> disassemble ys = Inr js \<Longrightarrow> disassemble (xs @ ys) = Inr (is @ js)"
proof (induction xs arbitrary: "is" rule: disassemble.induct)
  case (1 xs)
  show ?case
  proof (cases "xs = []")
    case True
    with 1 show ?thesis by (simp add: disassemble.simps [of "[]"])
  next
    case False
    with 1(2) obtain i ks where i: "disassemble_one xs = Inr i"
      and ks: "disassemble (drop (instruction_size i) xs) = Inr ks" "is = i # ks"
      by (auto simp: disassemble.simps [of xs])
    from disassemble_one_append [OF i, of ys] have
      "disassemble_one (xs @ ys) = Inr i" "instruction_size i \<le> length xs" by auto
    with False ks 1(1) [OF False i ks(1) 1(3)] show ?thesis
      by (simp add: disassemble.simps [of "xs @ ys"])
  qed
qed

lemma disassemble_single:
  "disassemble_one es = Inr i \<Longrightarrow> instruction_size i = length es \<Longrightarrow> disassemble es = Inr [i]"
  using instruction_size_pos [of i]
  by (subst disassemble.simps) (auto simp: disassemble.simps [of "[]"])

lemma disassemble_immediate:
  assumes "-32768 \<le> v" "v \<le> 32767"
  obtains es i where "addImmediateToBytecodes v p = Inr es" "disassemble es = Inr [i]"
    "i = Small_immediate v \<or> i = Large_immediate v"
proof -
  from immediate_decodes [OF assms, of p "[]"] show ?thesis using that disassemble_single by auto
qed

section \<open>Rebuilding expressions\<close>

text \<open>The operators of a code.\<close>

definition binary_of_code :: "u16 \<Rightarrow> AsebaBinaryOperator option" where
  "binary_of_code w = List.find (\<lambda>op. binary_code op = w)
     [ASEBA_OP_SHIFT_LEFT, ASEBA_OP_SHIFT_RIGHT, ASEBA_OP_ADD, ASEBA_OP_SUB, ASEBA_OP_MULT, ASEBA_OP_DIV,
      ASEBA_OP_MOD, ASEBA_OP_BIT_OR, ASEBA_OP_BIT_XOR, ASEBA_OP_BIT_AND, ASEBA_OP_EQUAL, ASEBA_OP_NOT_EQUAL,
      ASEBA_OP_BIGGER_THAN, ASEBA_OP_BIGGER_EQUAL_THAN, ASEBA_OP_SMALLER_THAN, ASEBA_OP_SMALLER_EQUAL_THAN,
      ASEBA_OP_OR, ASEBA_OP_AND]"

definition unary_of_code :: "u16 \<Rightarrow> AsebaUnaryOperator option" where
  "unary_of_code w = List.find (\<lambda>op. unary_code op = w)
     [ASEBA_UNARY_OP_SUB, ASEBA_UNARY_OP_ABS, ASEBA_UNARY_OP_BIT_NOT, ASEBA_UNARY_OP_NOT]"

lemma binary_of_code [simp]: "binary_of_code (binary_code op) = Some op"
  by (cases op) (simp_all add: binary_of_code_def)

lemma unary_of_code [simp]: "unary_of_code (unary_code op) = Some op"
  by (cases op) (simp_all add: unary_of_code_def)

text \<open>
  The instructions of an expression are its postfix notation: \<open>rebuild\<close> puts the expression together again
  from what the disassembler lists, an operator taking its operands from the expressions read before it.
  An instruction that is not part of an expression, an operator of unknown code and a missing operand end
  the reading. Source positions and names of arrays are not in the code, and \<open>bare\<close> drops them.
\<close>

fun rebuild :: "instruction list \<Rightarrow> node list \<Rightarrow> node list option" where
  "rebuild [] ns = Some ns"
| "rebuild (Small_immediate v # is) ns = rebuild is (ImmediateNode no_pos v # ns)"
| "rebuild (Large_immediate v # is) ns = rebuild is (ImmediateNode no_pos v # ns)"
| "rebuild (Load a # is) ns = rebuild is (LoadNode no_pos (ucast a) # ns)"
| "rebuild (Load_indirect a s # is) (i # ns) =
     rebuild is (ArrayReadNode no_pos (ucast a) (ucast s) [] i # ns)"
| "rebuild (Unary_arithmetic c # is) (n # ns) =
     Option.bind (unary_of_code c) (\<lambda>op. rebuild is (UnaryArithmeticNode no_pos op n # ns))"
| "rebuild (Binary_arithmetic c # is) (r # l # ns) =
     Option.bind (binary_of_code c) (\<lambda>op. rebuild is (BinaryArithmeticNode no_pos op l r # ns))"
| "rebuild _ _ = None"

fun bare :: "node \<Rightarrow> node" where
  "bare (BinaryArithmeticNode p op l r) = BinaryArithmeticNode no_pos op (bare l) (bare r)"
| "bare (UnaryArithmeticNode p op c) = UnaryArithmeticNode no_pos op (bare c)"
| "bare (ImmediateNode p v) = ImmediateNode no_pos v"
| "bare (LoadNode p a) = LoadNode no_pos a"
| "bare (ArrayReadNode p a s n i) = ArrayReadNode no_pos a s [] (bare i)"
| "bare n = n"

lemma eval_bare [simp]: "eval m (bare n) = eval m n"
  by (induction n rule: bare.induct) auto

lemma rebuild_append: "rebuild (is @ js) ns = Option.bind (rebuild is ns) (rebuild js)"
  by (induction "is" ns rule: rebuild.induct) (auto split: bind_splits)

text \<open>Addresses fit the twelve bits of an operand and sizes fit a word.\<close>

fun expr_fits :: "node \<Rightarrow> bool" where
  "expr_fits (BinaryArithmeticNode p op l r) \<longleftrightarrow> expr_fits l \<and> expr_fits r"
| "expr_fits (UnaryArithmeticNode p op c) \<longleftrightarrow> expr_fits c"
| "expr_fits (LoadNode p a) \<longleftrightarrow> a < 0x1000"
| "expr_fits (ArrayReadNode p a s n i) \<longleftrightarrow> a < 0x1000 \<and> s < 0x10000 \<and> expr_fits i"
| "expr_fits _ \<longleftrightarrow> True"

lemma ucast_size: "s < 0x10000 \<Longrightarrow> ucast (ucast (s :: u32) :: u16) = s"
  by (rule bit_word_eqI) (auto simp: bit_simps dest: word_less_bit [of s 16, simplified])

lemma disassemble_load: "a < 0x1000 \<Longrightarrow> disassemble [instr p ASEBA_BYTECODE_LOAD (ucast a)] = Inr [Load (ucast (a :: u32))]"
  using ucast_small [of a] by (intro disassemble_single) (auto simp: disassemble_one_def Let_def)

lemma disassemble_load_indirect:
  "a < 0x1000 \<Longrightarrow> disassemble [instr p ASEBA_BYTECODE_LOAD_INDIRECT (ucast a), word_at p w] =
    Inr [Load_indirect (ucast (a :: u32)) w]"
  using ucast_small [of a] by (intro disassemble_single) (auto simp: disassemble_one_def Let_def)

lemma disassemble_binary:
  "disassemble [instr p ASEBA_BYTECODE_BINARY_ARITHMETIC (binary_code op)] = Inr [Binary_arithmetic (binary_code op)]"
  by (intro disassemble_single) (auto simp: disassemble_one_def Let_def)

lemma disassemble_unary:
  "disassemble [instr p ASEBA_BYTECODE_UNARY_ARITHMETIC (unary_code op)] = Inr [Unary_arithmetic (unary_code op)]"
  by (intro disassemble_single) (auto simp: disassemble_one_def Let_def)

lemma code_rebuilds:
  "eval m n = Some v \<Longrightarrow> emittable n \<Longrightarrow> expr_fits n \<Longrightarrow>
    \<exists>es is. code n = Inr es \<and> disassemble es = Inr is \<and> (\<forall>ns. rebuild is ns = Some (bare n # ns))"
proof (induction m n arbitrary: v rule: eval.induct)
  case (1 m p op l r)
  from 1(3) obtain a b where ab: "eval m l = Some a" "eval m r = Some b" by (auto simp: bind_eq_Some_conv)
  from 1(1) [OF ab(1)] 1(4,5) obtain el il where
    l: "code l = Inr el" "disassemble el = Inr il" "\<And>ns. rebuild il ns = Some (bare l # ns)" by auto
  from 1(2) [OF ab] 1(4,5) obtain er ir where
    r: "code r = Inr er" "disassemble er = Inr ir" "\<And>ns. rebuild ir ns = Some (bare r # ns)" by auto
  from l r show ?case
    by (auto simp: rebuild_append intro!: disassemble_append disassemble_binary exI)
next
  case (2 m p op c)
  from 2(2) obtain a where a: "eval m c = Some a" by (auto simp: bind_eq_Some_conv)
  from 2(1) [OF a] 2(3,4) obtain ec ic where
    c: "code c = Inr ec" "disassemble ec = Inr ic" "\<And>ns. rebuild ic ns = Some (bare c # ns)" by auto
  from c show ?case
    by (auto simp: rebuild_append intro!: disassemble_append disassemble_unary exI)
next
  case (3 m p w)
  then obtain es i where "addImmediateToBytecodes w p = Inr es" "disassemble es = Inr [i]"
    "i = Small_immediate w \<or> i = Large_immediate w"
    using disassemble_immediate [of w p] by auto
  then show ?case by auto
next
  case (4 m p a)
  then show ?case using ucast_small [of a] by (auto simp: disassemble_load)
next
  case (5 m p a s nm i)
  from 5(2) obtain u where u: "eval m i = Some u" by (auto simp: bind_eq_Some_conv)
  from 5(1) [OF u] 5(3,4) obtain ei ii where
    i: "code i = Inr ei" "disassemble ei = Inr ii" "\<And>ns. rebuild ii ns = Some (bare i # ns)" by auto
  from disassemble_append [OF i(2) disassemble_load_indirect [of a p "ucast s"]] 5(4) i
    ucast_small [of a] ucast_size [of s] 5(3)
  show ?case by (auto simp: rebuild_append)
qed auto

lemma eval_decl_free: "eval m n = Some v \<Longrightarrow> decl_free n"
  by (induction m n arbitrary: v rule: eval.induct) (auto simp: bind_eq_Some_conv)

text \<open>C1: Compiling an expression keeps its value. What the emitter appends to the current code vector for
  the optimized form of a well-typed expression is read back by the disassembler as the postfix notation of
  one expression, which has the value of the source expression in the memory at hand; the rest of the
  pre-link state is unchanged. Conditions: the source expression evaluates with every intermediate value
  within 16 bits and every index within its array, each of its divisions by a power of two is exact or
  has a dividend that is not negative (otherwise the shift that replaces it rounds differently), the
  optimizer returns a tree (it folds a left shift of a negative constant to an undefined value), and
  the optimized expression uses addresses below \<open>0x1000\<close> and arrays of less than \<open>0x10000\<close> words.\<close>

theorem compiled_expression_value:
  assumes "expr_type t n" and "eval m n = Some v" and "pot_divisions_agree m n"
    and "optimize n = Inr (Some n')" and "expr_fits n'"
  shows "\<exists>es is n''. (\<exists>g. (\<forall>x. elements (g x) = elements x @ es \<and> maxStackDepth (g x) = maxStackDepth x \<and>
        callDepth (g x) = callDepth x) \<and> emit n' st = Inr (update_vector (current st) g st)) \<and>
    disassemble es = Inr is \<and> rebuild is [] = Some [n''] \<and> eval m n'' = Some v"
proof -
  from optimize_value [OF assms(1-3)] assms(4) have v: "eval m n' = Some v" by (simp add: keeps_def)
  moreover from assms(4) have "emittable n'" by (rule optimized_emittable)
  ultimately obtain es "is" where *: "code n' = Inr es" "disassemble es = Inr is"
    "rebuild is [] = Some [bare n']" using code_rebuilds assms(5) by blast
  from emits_code [OF eval_decl_free [OF v]] * have "\<exists>g. grows es g \<and> emit n' st = Inr (update_vector (current st) g st)"
    by (simp add: emits_def appends_def)
  with * v show ?thesis unfolding grows_def by (auto intro!: exI [of _ es])
qed

definition sample_optimized :: node where
  "sample_optimized = BinaryArithmeticNode no_pos ASEBA_OP_SHIFT_RIGHT (LoadNode no_pos 3) (ImmediateNode no_pos 2)"

lemma sample_expr_optimized: "optimize sample_expr = Inr (Some sample_optimized)"
proof -
  have "isPOT 4" "shiftFromPOT 4 = 2"
    using isPOT_iff [of 4] shiftFromPOT_power [of 2] by (auto intro: exI [of _ 2])
  then show ?thesis
    by (simp add: sample_expr_def sample_optimized_def required_def optimize_binary_def immediate_def
        neutral_def absorbing_def pot_shift_def)
qed

theorem compiled_expression_value_witness:
  "\<exists>es is n''. (\<exists>g. (\<forall>x. elements (g x) = elements x @ es \<and> maxStackDepth (g x) = maxStackDepth x \<and>
        callDepth (g x) = callDepth x) \<and>
      emit sample_optimized PreLinkBytecode = Inr (update_vector (current PreLinkBytecode) g PreLinkBytecode)) \<and>
    disassemble es = Inr is \<and> rebuild is [] = Some [n''] \<and> eval (\<lambda>a. 100) n'' = Some 25"
  by (rule compiled_expression_value [OF _ _ _ sample_expr_optimized, of RT_INT])
    (simp_all add: sample_expr_def sample_optimized_def result_type_def operand_type_def comparison_def logic_def
      int16_def signed_divide_int_def)

end
