(* ===== verification/Emit_Layout.thy ===== *)
theory Emit_Layout
  imports Emit_Correct
begin

text \<open>
  The shape of generated code: whole instructions, jumps that land between instructions, and the stack
  that straight-line code needs compared with what \<^verbatim>\<open>getStackDepth\<close> announces.
\<close>

section \<open>Whole instructions\<close>

lemma getWordSize_instr:
  "w < 0x1000 \<Longrightarrow> getWordSize (instr p i w) =
    (if i \<in> {ASEBA_BYTECODE_LARGE_IMMEDIATE, ASEBA_BYTECODE_LOAD_INDIRECT, ASEBA_BYTECODE_STORE_INDIRECT,
       ASEBA_BYTECODE_CONDITIONAL_BRANCH} then 2 else if i = ASEBA_BYTECODE_EMIT then 3 else 1)"
  by (cases i) (simp_all add: getWordSize_def)

text \<open>Operands that fit their field: addresses and identifiers twelve bits, and the jump over a false
  block the non-negative half of a signed field of twelve bits.\<close>

fun fits :: "node \<Rightarrow> bool" where
  "fits (BlockNode p cs) \<longleftrightarrow> (\<forall>c\<in>set cs. fits c)"
| "fits (AssignmentNode p l r) \<longleftrightarrow> fits l \<and> fits r"
| "fits (FoldedIfWhenNode p op e eln l r t f) \<longleftrightarrow> fits l \<and> fits r \<and> fits t \<and>
     (case f of None \<Rightarrow> True
      | Some x \<Rightarrow> fits x \<and> (case code x of Inl e \<Rightarrow> True | Inr es \<Rightarrow> length es + 1 < 0x800))"
| "fits (FoldedWhileNode p op l r b) \<longleftrightarrow> fits l \<and> fits r \<and> fits b"
| "fits (EmitNode p i a s cs) \<longleftrightarrow> i < 0x1000 \<and> (\<forall>c\<in>set cs. fits c)"
| "fits (CallSubNode p n i) \<longleftrightarrow> i < 0x1000"
| "fits (BinaryArithmeticNode p op l r) \<longleftrightarrow> fits l \<and> fits r"
| "fits (UnaryArithmeticNode p op c) \<longleftrightarrow> fits c"
| "fits (StoreNode p a) \<longleftrightarrow> a < 0x1000"
| "fits (LoadNode p a) \<longleftrightarrow> a < 0x1000"
| "fits (ArrayWriteNode p a s n i) \<longleftrightarrow> a < 0x1000 \<and> fits i"
| "fits (ArrayReadNode p a s n i) \<longleftrightarrow> a < 0x1000 \<and> fits i"
| "fits (LoadNativeArgNode p t a s n i) \<longleftrightarrow> t < 0x1000 \<and> a < 0x1000 \<and> fits i"
| "fits (CallNode p f ts cs) \<longleftrightarrow> f < 0x1000 \<and> (\<forall>c\<in>set cs. fits c)"
| "fits _ \<longleftrightarrow> True"

lemma aligned_concat: "(\<And>xs. xs \<in> set xss \<Longrightarrow> aligned xs) \<Longrightarrow> aligned (concat xss)"
  by (induction xss) (auto intro: aligned_append)

lemma aligned_immediate: "addImmediateToBytecodes v p = Inr es \<Longrightarrow> aligned es"
  by (auto simp: addImmediateToBytecodes_def getWordSize_instr field_and split: if_splits)

lemma aligned_branch: "aligned [instr p ASEBA_BYTECODE_CONDITIONAL_BRANCH w, word_at q x]" if "w < 0x1000"
  using that by (simp add: getWordSize_instr)

lemma when_field: "binary_code op OR push_bit ASEBA_IF_IS_WHEN_BIT 1 < 0x1000"
  by (cases op) (simp_all add: ASEBA_IF_IS_WHEN_BIT_def)

lemma branch_field: "binary_code op OR (if e then push_bit ASEBA_IF_IS_WHEN_BIT 1 else 0) < 0x1000"
  using when_field by simp

lemma small_length: "n + 1 < 0x800 \<Longrightarrow> (word_of_nat n + 1 :: u16) < 0x1000"
  by (simp add: word_less_nat_alt unat_word_ariths unat_of_nat take_bit_nat_eq_self)

lemma opcode_jump: "n + 1 < 0x800 \<Longrightarrow>
    getWordSize (element (AsebaBytecodeFromId ASEBA_BYTECODE_JUMP OR (word_of_nat n + 1)) l) = 1"
  using opcode_split(1) [OF small_length, of n ASEBA_BYTECODE_JUMP]
  unfolding getWordSize_def opcode_def element_def by (simp del: drop_bit_or)

lemma aligned_if_code:
  assumes "aligned ble" "aligned bre" "aligned btb"
    and "\<And>b. bfb = Some b \<Longrightarrow> aligned b \<and> length b + 1 < 0x800"
  shows "aligned (if_code p op e ble bre btb bfb)"
proof -
  have "aligned (case bfb of None \<Rightarrow> [] | Some b \<Rightarrow>
      element (AsebaBytecodeFromId ASEBA_BYTECODE_JUMP OR (word_of_nat (length b) + 1))
        (if btb = [] then ucast (row p) else line (last btb)) # b)"
    using assms(4) opcode_jump by (simp split: option.split)
  then show ?thesis
    unfolding if_code_def by (intro aligned_append assms aligned_branch branch_field)
qed

lemma aligned_while_code:
  assumes "aligned ble" "aligned bre" "aligned bb"
  shows "aligned (while_code p op ble bre bb)"
  unfolding while_code_def
  by (intro aligned_append assms aligned_branch) (simp_all add: getWordSize_instr field_and)

lemma mapR_aligned:
  assumes "mapR f xs = Inr ess" "\<And>x es. x \<in> set xs \<Longrightarrow> f x = Inr es \<Longrightarrow> aligned es"
  shows "aligned (concat ess)"
  using mapR_set [OF assms(1)] assms(2) by (intro aligned_concat) auto

lemma code_is_aligned: "fits n \<Longrightarrow> code n = Inr es \<Longrightarrow> aligned es"
proof (induction n arbitrary: es)
  case (BlockNode p cs)
  then show ?case by (auto elim!: mapR_aligned)
next
  case (AssignmentNode p l r)
  then show ?case by (auto intro: aligned_append)
next
  case (FoldedIfWhenNode p op e eln l r t f)
  then show ?case by (cases f) (auto intro!: aligned_if_code)
next
  case (FoldedWhileNode p op l r b)
  then show ?case by (auto intro!: aligned_while_code)
next
  case (EmitNode p i a s cs)
  then show ?case
    using ucast_small [of i] by (auto intro!: aligned_append elim!: mapR_aligned simp: getWordSize_instr)
next
  case (CallSubNode p n i)
  then show ?case using ucast_small [of i] by (auto simp: getWordSize_instr)
next
  case (BinaryArithmeticNode p op l r)
  then show ?case by (auto intro!: aligned_append simp: getWordSize_instr)
next
  case (UnaryArithmeticNode p op c)
  then show ?case by (auto intro!: aligned_append simp: getWordSize_instr)
next
  case (ImmediateNode p v)
  then show ?case by (auto intro: aligned_immediate)
next
  case (StoreNode p a)
  then show ?case using ucast_small [of a] by (auto simp: getWordSize_instr)
next
  case (LoadNode p a)
  then show ?case using ucast_small [of a] by (auto simp: getWordSize_instr)
next
  case (ArrayWriteNode p a s n i)
  then show ?case using ucast_small [of a] by (auto intro!: aligned_append simp: getWordSize_instr)
next
  case (ArrayReadNode p a s n i)
  then show ?case using ucast_small [of a] by (auto intro!: aligned_append simp: getWordSize_instr)
next
  case (LoadNativeArgNode p t a s n i)
  then show ?case
    using ucast_small [of a] ucast_small [of t]
    by (auto intro!: aligned_append dest!: aligned_immediate simp: getWordSize_instr native_arg_code_def)
next
  case (CallNode p f ts cs)
  then show ?case
    using ucast_small [of f]
    by (auto intro!: aligned_append elim!: mapR_aligned intro: aligned_immediate simp: getWordSize_instr)
next
  case (ReturnNode p)
  then show ?case by (auto simp: getWordSize_def opcode_def)
qed auto

text \<open>C11: The code generated for any tree without declarations whose operands fit their 12-bit fields consists
  of whole instructions: walking over it by word sizes, as linking and the stack analysis do, ends
  exactly at its end, and walking on into appended code visits the same instructions.\<close>

theorem code_aligned:
  assumes "fits n" and "code n = Inr es"
  shows "aligned es \<and> opcodes (es @ rest) = opcodes es @ opcodes rest"
  using code_is_aligned [OF assms] by (simp add: opcodes_append)

theorem code_aligned_witness:
  "aligned [instr no_pos ASEBA_BYTECODE_LOAD 3] \<and>
   opcodes ([instr no_pos ASEBA_BYTECODE_LOAD 3] @ []) = opcodes [instr no_pos ASEBA_BYTECODE_LOAD 3] @ opcodes []"
  by (rule code_aligned [of "LoadNode no_pos 3"]) simp_all

section \<open>Jumps\<close>

lemma sint_nat: "n < 0x8000 \<Longrightarrow> sint (word_of_nat n :: u16) = int n"
proof -
  assume "n < 0x8000"
  then have "int n \<le> 32767" by simp
  with sint16 [of "int n"] show ?thesis by simp
qed

lemma element_instr: "w < 0x1000 \<Longrightarrow> opcode (element (AsebaBytecodeFromId i OR w) l) = bytecode_id i"
  unfolding opcode_def element_def by (simp only: bytecode_element.simps opcode_split)

lemma signed12_small: "n < 0x800 \<Longrightarrow> signed12 (AsebaBytecodeFromId i OR word_of_nat n) = int n"
proof -
  assume n: "n < 0x800"
  have "(word_of_nat n :: u16) AND mask 12 = word_of_nat n"
    using n by (intro less_mask_eq) (simp add: word_less_nat_alt unat_of_nat take_bit_nat_eq_self)
  then have "(word_of_int (int n) :: u16) AND 0x0fff = word_of_nat n" by (simp add: mask_12)
  with signed12_field [of "int n" i] n show ?thesis by simp
qed

lemma operator_field_branch:
  "operator_field (bytecode (instr p i (binary_code op OR (if e then push_bit ASEBA_IF_IS_WHEN_BIT 1 else 0)))) =
    binary_code op"
  "bit (bytecode (instr p i (binary_code op OR (if e then push_bit ASEBA_IF_IS_WHEN_BIT 1 else 0)))) ASEBA_IF_IS_WHEN_BIT = e"
  by (cases i; cases op; cases e; simp add: operator_field_def instr_def word_at_def element_def
      AsebaBytecodeFromId_def ASEBA_IF_IS_WHEN_BIT_def)+

text \<open>A folded if or when branches over its blocks: the words after the operands are a conditional branch
  with the operator and the edge flag of the node whose skip, counted from the branch, leads exactly to
  the false block (or past the true block when there is none), and the jump at the end of the true block
  leads exactly past the false block.\<close>

theorem if_code_targets:
  assumes "length btb + 3 < 0x8000" and "length bfb + 1 < 0x800"
    and "ble_bre = length ble + length bre"
  shows "\<exists>skip j. disassemble_one (drop ble_bre (if_code p op e ble bre btb (Some bfb))) =
        Inr (Conditional_branch (binary_code op) e (int skip)) \<and>
      drop (ble_bre + skip) (if_code p op e ble bre btb (Some bfb)) = bfb \<and>
      disassemble_one (drop (ble_bre + skip - 1) (if_code p op e ble bre btb (Some bfb))) = Inr (Jump (int j)) \<and>
      ble_bre + skip - 1 + j = length (if_code p op e ble bre btb (Some bfb)) \<and>
      (\<exists>skip'. disassemble_one (drop ble_bre (if_code p op e ble bre btb None)) =
          Inr (Conditional_branch (binary_code op) e (int skip')) \<and>
        ble_bre + skip' = length (if_code p op e ble bre btb None))"
proof -
  have skip: "sint (2 + word_of_nat (length btb) + 1 :: u16) = int (length btb + 3)"
    using sint_nat [of "length btb + 3"] assms(1) by (simp add: algebra_simps)
  have skip': "sint (2 + word_of_nat (length btb) :: u16) = int (length btb + 2)"
    using sint_nat [of "length btb + 2"] assms(1) by (simp add: algebra_simps)
  have jump: "signed12 (AsebaBytecodeFromId ASEBA_BYTECODE_JUMP OR (word_of_nat (length bfb) + 1)) =
      int (length bfb + 1)"
    using signed12_small [of "length bfb + 1" ASEBA_BYTECODE_JUMP] assms(2) by (simp add: add.commute)
  have "disassemble_one (drop ble_bre (if_code p op e ble bre btb (Some bfb))) =
      Inr (Conditional_branch (binary_code op) e (int (length btb + 3)))"
    using skip assms(3)
    by (simp add: if_code_def disassemble_one_def branch_field operator_field_branch Let_def)
  moreover have "drop (ble_bre + (length btb + 3)) (if_code p op e ble bre btb (Some bfb)) = bfb"
    using assms(3) by (simp add: if_code_def numeral_3_eq_3)
  moreover have "disassemble_one (drop (ble_bre + (length btb + 3) - 1) (if_code p op e ble bre btb (Some bfb))) =
      Inr (Jump (int (length bfb + 1)))"
    using assms(3) jump small_length [OF assms(2)] element_instr [of "word_of_nat (length bfb) + 1" ASEBA_BYTECODE_JUMP]
    by (simp add: if_code_def disassemble_one_def Let_def element_def)
  moreover have "ble_bre + (length btb + 3) - 1 + (length bfb + 1) = length (if_code p op e ble bre btb (Some bfb))"
    using assms(3) by (simp add: if_code_def)
  moreover have "disassemble_one (drop ble_bre (if_code p op e ble bre btb None)) =
      Inr (Conditional_branch (binary_code op) e (int (length btb + 2)))"
    using skip' assms(3)
    by (simp add: if_code_def disassemble_one_def branch_field operator_field_branch Let_def)
  moreover have "ble_bre + (length btb + 2) = length (if_code p op e ble bre btb None)"
    using assms(3) by (simp add: if_code_def)
  ultimately show ?thesis by blast
qed

lemma disassemble_jump:
  "disassemble_one [instr p ASEBA_BYTECODE_JUMP (w AND 0x0fff)] =
    Inr (Jump (signed12 (AsebaBytecodeFromId ASEBA_BYTECODE_JUMP OR (w AND 0x0fff))))"
  using opcode_instr [OF field_and, of p ASEBA_BYTECODE_JUMP w]
  by (simp add: disassemble_one_def Let_def) (simp add: instr_def)

text \<open>A folded while loops: the branch skips exactly past the loop when its condition is false, and the jump at the
  end of the block leads back exactly to the first word of the condition.\<close>

theorem while_code_targets:
  assumes "length ble + length bre + length bb + 2 \<le> 0x800"
    and "k = length ble + length bre"
  shows "\<exists>skip. disassemble_one (drop k (while_code p op ble bre bb)) =
        Inr (Conditional_branch (binary_code op) False (int skip)) \<and>
      k + skip = length (while_code p op ble bre bb) \<and>
      disassemble_one (drop (length (while_code p op ble bre bb) - 1) (while_code p op ble bre bb)) =
        Inr (Jump (- int (length (while_code p op ble bre bb) - 1)))"
proof -
  have skip: "sint (2 + word_of_nat (length bb) + 1 :: u16) = int (length bb + 3)"
    using sint_nat [of "length bb + 3"] assms(1) by (simp add: algebra_simps)
  have loop: "signed12 (AsebaBytecodeFromId ASEBA_BYTECODE_JUMP OR
      ((- word_of_nat (length ble + length bre + length bb + 2)) AND 0x0fff)) =
      - int (length ble + length bre + length bb + 2)"
    using signed12_field [of "- int (length ble + length bre + length bb + 2)" ASEBA_BYTECODE_JUMP] assms(1)
    by simp
  have "disassemble_one (drop k (while_code p op ble bre bb)) =
      Inr (Conditional_branch (binary_code op) False (int (length bb + 3)))"
    using skip assms(2) operator_field_branch(2) [of p ASEBA_BYTECODE_CONDITIONAL_BRANCH op False]
    by (simp add: while_code_def disassemble_one_def Let_def)
  moreover have "k + (length bb + 3) = length (while_code p op ble bre bb)"
    using assms(2) by (simp add: while_code_def)
  moreover have "disassemble_one (drop (length (while_code p op ble bre bb) - 1) (while_code p op ble bre bb)) =
      Inr (Jump (signed12 (AsebaBytecodeFromId ASEBA_BYTECODE_JUMP OR
        ((- word_of_nat (length ble + length bre + length bb + 2)) AND 0x0fff))))"
    using disassemble_jump by (simp add: while_code_def)
  moreover have "length (while_code p op ble bre bb) - 1 = length ble + length bre + length bb + 2"
    by (simp add: while_code_def)
  ultimately show ?thesis unfolding loop by (metis (no_types))
qed

text \<open>The jump over a false block is not masked to its field: over a block of 2047 words the jump that is
  emitted is read as a jump 2048 words back.\<close>

theorem if_jump_overflow:
  assumes "length bfb = 0x7FF"
  shows "disassemble_one (drop (length ble + length bre + length btb + 2) (if_code p op e ble bre btb (Some bfb))) =
    Inr (Jump (-2048))"
proof -
  have "(word_of_nat (length bfb) + 1 :: u16) = 0x800" using assms by simp
  moreover have "opcode (element (AsebaBytecodeFromId ASEBA_BYTECODE_JUMP OR 0x800) l) = 9" for l
    using element_instr [where w = "0x800" and i = ASEBA_BYTECODE_JUMP] by simp
  moreover have "signed12 (AsebaBytecodeFromId ASEBA_BYTECODE_JUMP OR 0x800) = -2048"
    using signed12_field [of "-2048" ASEBA_BYTECODE_JUMP] by simp
  ultimately show ?thesis
    by (simp add: if_code_def disassemble_one_def Let_def) (simp add: element_def)
qed

section \<open>Stack depth\<close>

text \<open>The height of the stack after an instruction of straight-line code, and the greatest height while a
  sequence runs.\<close>

fun height :: "instruction \<Rightarrow> nat \<Rightarrow> nat" where
  "height (Small_immediate v) h = h + 1"
| "height (Large_immediate v) h = h + 1"
| "height (Load a) h = h + 1"
| "height (Store a) h = h - 1"
| "height (Load_indirect a n) h = h"
| "height (Store_indirect a n) h = h - 2"
| "height (Unary_arithmetic op) h = h"
| "height (Binary_arithmetic op) h = h - 1"
| "height _ h = h"

fun final_height :: "instruction list \<Rightarrow> nat \<Rightarrow> nat" where
  "final_height [] h = h"
| "final_height (i # is) h = final_height is (height i h)"

fun peak :: "instruction list \<Rightarrow> nat \<Rightarrow> nat" where
  "peak [] h = h"
| "peak (i # is) h = max h (peak is (height i h))"

lemma final_height_append: "final_height (is @ js) h = final_height js (final_height is h)"
  by (induction "is" arbitrary: h) auto

lemma peak_ge: "h \<le> peak is h"
  by (cases "is") auto

lemma peak_append: "peak (is @ js) h = max (peak is h) (peak js (final_height is h))"
  by (induction "is" arbitrary: h) (auto simp: peak_ge max.absorb2)

text \<open>Expressions, and the depth of an expression without wrap-around.\<close>

fun depth :: "node \<Rightarrow> nat option" where
  "depth (BinaryArithmeticNode p op l r) = Option.bind (depth l) (\<lambda>a. map_option (\<lambda>b. a + b) (depth r))"
| "depth (UnaryArithmeticNode p op c) = depth c"
| "depth (ImmediateNode p v) = Some 1"
| "depth (LoadNode p a) = Some 1"
| "depth (ArrayReadNode p a s n i) = depth i"
| "depth _ = None"

lemma depth_getStackDepth: "depth n = Some d \<Longrightarrow> getStackDepth n = Inr (word_of_nat d)"
  by (induction n arbitrary: d rule: depth.induct) (auto simp: bind_eq_Some_conv max_depth_def)

lemma depth_pos: "depth n = Some d \<Longrightarrow> 0 < d"
  by (induction n arbitrary: d rule: depth.induct) (auto simp: bind_eq_Some_conv)

lemma expr_stack:
  "eval m n = Some v \<Longrightarrow> emittable n \<Longrightarrow> expr_fits n \<Longrightarrow>
    \<exists>es is d. code n = Inr es \<and> disassemble es = Inr is \<and> depth n = Some d \<and>
      (\<forall>h. final_height is h = h + 1 \<and> peak is h \<le> h + d)"
proof (induction m n arbitrary: v rule: eval.induct)
  case (1 m p op l r)
  from 1(3) obtain a b where ab: "eval m l = Some a" "eval m r = Some b" by (auto simp: bind_eq_Some_conv)
  from 1(1) [OF ab(1)] 1(4,5) obtain el il dl where
    l: "code l = Inr el" "disassemble el = Inr il" "depth l = Some dl"
      "\<And>h. final_height il h = h + 1 \<and> peak il h \<le> h + dl" by auto
  from 1(2) [OF ab(1,2)] 1(4,5) obtain er ir dr where
    r: "code r = Inr er" "disassemble er = Inr ir" "depth r = Some dr"
      "\<And>h. final_height ir h = h + 1 \<and> peak ir h \<le> h + dr" by auto
  let ?is = "il @ ir @ [Binary_arithmetic (binary_code op)]"
  have "disassemble (el @ er @ [instr p ASEBA_BYTECODE_BINARY_ARITHMETIC (binary_code op)]) = Inr ?is"
    using l r by (intro disassemble_append disassemble_binary)
  moreover have "final_height ?is h = h + 1 \<and> peak ?is h \<le> h + (dl + dr)" for h
    using l(4) [of h] r(4) [of "h + 1"] depth_pos [OF l(3)] depth_pos [OF r(3)]
    by (auto simp: final_height_append peak_append)
  ultimately show ?case using l r by auto
next
  case (2 m p op c)
  from 2(2) obtain a where a: "eval m c = Some a" by (auto simp: bind_eq_Some_conv)
  from 2(1) [OF a] 2(3,4) obtain ec ic d where
    c: "code c = Inr ec" "disassemble ec = Inr ic" "depth c = Some d"
      "\<And>h. final_height ic h = h + 1 \<and> peak ic h \<le> h + d" by auto
  moreover have "disassemble (ec @ [instr p ASEBA_BYTECODE_UNARY_ARITHMETIC (unary_code op)]) =
      Inr (ic @ [Unary_arithmetic (unary_code op)])"
    using c by (intro disassemble_append disassemble_unary)
  moreover have "peak (ic @ [Unary_arithmetic (unary_code op)]) h \<le> h + d" for h
    using c(4) [of h] depth_pos [OF c(3)] by (auto simp: peak_append)
  ultimately show ?case by (auto simp: final_height_append)
next
  case (3 m p w)
  then obtain es i where "addImmediateToBytecodes w p = Inr es" "disassemble es = Inr [i]"
    "i = Small_immediate w \<or> i = Large_immediate w"
    using disassemble_immediate [of w p] by auto
  then show ?case by auto
next
  case (4 m p a)
  then show ?case using ucast_small [of a] by (auto simp: disassemble_load)
next
  case (5 m p a s nm i)
  from 5(2) obtain u where u: "eval m i = Some u" by (auto simp: bind_eq_Some_conv)
  from 5(1) [OF u(1)] 5(3,4) obtain ei ii d where
    i: "code i = Inr ei" "disassemble ei = Inr ii" "depth i = Some d"
      "\<And>h. final_height ii h = h + 1 \<and> peak ii h \<le> h + d" by auto
  moreover have "disassemble (ei @ [instr p ASEBA_BYTECODE_LOAD_INDIRECT (ucast a), word_at p (ucast s)]) =
      Inr (ii @ [Load_indirect (ucast a) (ucast s)])"
    using i 5(4) by (intro disassemble_append disassemble_load_indirect) auto
  moreover have "peak (ii @ [Load_indirect (ucast a) (ucast s)]) h \<le> h + d" for h
    using i(4) [of h] depth_pos [OF i(3)] by (auto simp: peak_append)
  ultimately show ?case using 5(3) by (auto simp: final_height_append)
qed auto

text \<open>C13: The stack depth announced for an expression is enough: while the code of an expression that evaluates, can be
  emitted and uses addresses of 12 bits and array sizes of 16 bits
  runs on a stack, the stack never grows by more than the announced depth, and in the end it has grown by
  exactly one value.\<close>

theorem stack_depth_sufficient:
  assumes "eval m n = Some v" and "emittable n" and "expr_fits n" and "depth n = Some d" and "d < 2 ^ 32"
  shows "\<exists>es is k. code n = Inr es \<and> disassemble es = Inr is \<and> getStackDepth n = Inr k \<and>
    (\<forall>h. final_height is h = h + 1 \<and> peak is h \<le> h + unat k)"
proof -
  from expr_stack [OF assms(1-3)] assms(4) obtain es "is" where
    *: "code n = Inr es" "disassemble es = Inr is" "\<And>h. final_height is h = h + 1 \<and> peak is h \<le> h + d"
    by auto
  have "unat (word_of_nat d :: u32) = d" using assms(5) by (simp add: unat_of_nat take_bit_nat_eq_self)
  with * depth_getStackDepth [OF assms(4)] show ?thesis by auto
qed

theorem stack_depth_sufficient_witness:
  "\<exists>es is k. code sample_optimized = Inr es \<and> disassemble es = Inr is \<and> getStackDepth sample_optimized = Inr k \<and>
    (\<forall>h. final_height is h = h + 1 \<and> peak is h \<le> h + unat k)"
  by (rule stack_depth_sufficient [of "\<lambda>a. 100" _ 25 2])
    (simp_all add: sample_optimized_def int16_def)

definition peak_of :: "failure + bytecode_element list \<Rightarrow> nat option" where
  "peak_of r = (case r of Inl e \<Rightarrow> None
     | Inr es \<Rightarrow> (case disassemble es of Inl e \<Rightarrow> None | Inr is \<Rightarrow> Some (peak is 0)))"

definition array_write_sample :: node where
  "array_write_sample = AssignmentNode no_pos
     (ArrayWriteNode no_pos 10 5 [] (BinaryArithmeticNode no_pos ASEBA_OP_ADD (LoadNode no_pos 1) (LoadNode no_pos 2)))
     (LoadNode no_pos 3)"

definition native_call_sample :: node where
  "native_call_sample = CallNode no_pos 7 []
     [LoadNativeArgNode no_pos 99 10 5 [] (LoadNode no_pos 1), ImmediateNode no_pos 20]"

text \<open>The announced depth is too small for some statements: an assignment to an array element holds the
  assigned value on the stack while the index is computed (\<open>a[x + y] = z\<close> announces two and needs three),
  and the arguments of a native call are emitted last to first while their depth counts first to last
  (a call with a run-time address followed by a constant announces two and needs three).\<close>

theorem stack_depth_too_small:
  "getStackDepth array_write_sample = Inr 2 \<and> peak_of (code array_write_sample) = Some 3 \<and>
   getStackDepth native_call_sample = Inr 2 \<and> peak_of (code native_call_sample) = Some 3"
proof (intro conjI)
  show "getStackDepth array_write_sample = Inr 2" by code_simp
  show "getStackDepth native_call_sample = Inr 2" by code_simp
  show "peak_of (code array_write_sample) = Some 3" by code_simp
  show "peak_of (code native_call_sample) = Some 3" by code_simp
qed

end
