(* ===== verification/Linker.thy ===== *)
theory Linker
  imports Emit_Layout
begin

text \<open>
  \<^verbatim>\<open>Compiler::link\<close> of \<^verbatim>\<open>compiler.cpp\<close>: the event vector table, the code of the events, the code of the
  subroutines, and the resolution of the subroutine calls, which walks over the whole vector from its
  first word, table included.
\<close>

definition plain :: "u32 \<Rightarrow> bytecode_element" where
  "plain w = element (ucast w) 0"

fun event_words :: "(u32, bytecode_vector) std_map \<Rightarrow> u32 \<Rightarrow> bytecode_element list" where
  "event_words [] addr = []"
| "event_words ((i, v) # es) addr =
     plain i # plain addr # event_words es (addr + word_of_nat (length (elements v)))"

fun place_subroutines :: "(u32, bytecode_vector) std_map \<Rightarrow> bytecode_element list \<Rightarrow>
    subroutine_descriptor list \<Rightarrow> failure + bytecode_element list \<times> subroutine_descriptor list" where
  "place_subroutines [] bs table = Inr (bs, table)"
| "place_subroutines ((i, v) # ss) bs table =
     (if unat i < length table
      then place_subroutines ss (bs @ elements v)
             (table[unat i := (table ! unat i)\<lparr>sub_address := word_of_nat (length bs)\<rparr>])
      else Inl Undefined)"

definition resolve :: "subroutine_descriptor list \<Rightarrow> bytecode_element \<Rightarrow> failure + bytecode_element" where
  "resolve table e =
     (if opcode e = bytecode_id ASEBA_BYTECODE_SUB_CALL then
        (let i = unat (bytecode e AND 0x0fff) in
         if i < length table
         then Inr (e\<lparr>bytecode := (bytecode e AND 0xf000) OR ucast (sub_address (table ! i))\<rparr>)
         else Inl Abort)
      else Inr e)"

fun rewriteR :: "(bytecode_element \<Rightarrow> failure + bytecode_element) \<Rightarrow> bytecode_element list \<Rightarrow>
    failure + bytecode_element list" where
  "rewriteR f [] = Inr []"
| "rewriteR f (e # es) =
     bindR (f e) (\<lambda>e'. let k = getWordSize e' - 1 in
     bindR (rewriteR f (drop k es)) (\<lambda>es'. Inr (e' # take k es @ es')))"

definition event_section :: "prelink \<Rightarrow> bytecode_element list" where
  "event_section pre =
     (let addr = word_of_nat (length (pl_events pre)) * 2 + 1
      in plain addr # event_words (pl_events pre) addr @ concat (map (\<lambda>(i, v). elements v) (pl_events pre)))"

definition link :: "compiler \<Rightarrow> prelink \<Rightarrow> failure + bool \<times> bytecode_element list \<times> compiler" where
  "link c pre =
     bindR (place_subroutines (pl_subroutines pre) (event_section pre) (subroutineTable c)) (\<lambda>(bs, table).
     bindR (rewriteR (resolve table) bs) (\<lambda>bs'.
     Inr (length bs' \<le> unat (bytecodeSize (targetDescription c)), bs', c\<lparr>subroutineTable := table\<rparr>)))"

section \<open>Layout before resolution\<close>

lemma length_event_words: "length (event_words es a) = 2 * length es"
  by (induction es a rule: event_words.induct) auto

lemma event_words_append:
  "event_words (us @ (i, v) # vs) a =
    event_words us a @ plain i # plain (a + sum_list (map (\<lambda>(i, v). word_of_nat (length (elements v))) us)) #
    event_words vs (a + sum_list (map (\<lambda>(i, v). word_of_nat (length (elements v))) us) + word_of_nat (length (elements v)))"
  by (induction us arbitrary: a) (auto simp: add.assoc)

lemma place_subroutines_prefix:
  "place_subroutines ss bs table = Inr (bs', table') \<Longrightarrow>
    bs' = bs @ concat (map (\<lambda>(i, v). elements v) ss) \<and> length table' = length table"
  by (induction ss bs table rule: place_subroutines.induct) (auto split: if_splits)

lemma place_subroutines_other:
  "place_subroutines ss bs table = Inr (bs', table') \<Longrightarrow> j \<notin> (\<lambda>(i, v). unat i) ` set ss \<Longrightarrow>
    table' ! j = table ! j"
  by (induction ss bs table rule: place_subroutines.induct) (auto split: if_splits)

lemma place_subroutines_at:
  "place_subroutines (us @ (i, v) # vs) bs table = Inr (bs', table') \<Longrightarrow>
    distinct (map fst (us @ (i, v) # vs)) \<Longrightarrow>
    sub_address (table' ! unat i) = word_of_nat (length bs + length (concat (map (\<lambda>(i, v). elements v) us)))"
proof (induction us arbitrary: bs table)
  case Nil
  then have "unat i \<notin> (\<lambda>(i, v). unat i) ` set vs" by (force simp: word_unat_eq_iff)
  with Nil place_subroutines_other show ?case by (fastforce split: if_splits)
next
  case (Cons u us)
  then show ?case by (cases u) (auto split: if_splits simp: algebra_simps)
qed

section \<open>Resolution\<close>

lemma rewriteR_rewrite:
  assumes "\<And>e. e \<in> set (opcodes xs) \<Longrightarrow> f e = Inr (g e) \<and> getWordSize (g e) = getWordSize e"
  shows "aligned xs \<Longrightarrow> rewriteR f xs = Inr (rewrite g xs)"
  using assms by (induction xs rule: aligned.induct) (auto simp: Let_def)

text \<open>The resolved form of an instruction.\<close>

definition resolved_word :: "subroutine_descriptor list \<Rightarrow> bytecode_element \<Rightarrow> bytecode_element" where
  "resolved_word table e =
     (if opcode e = 0xD
      then e\<lparr>bytecode := 0xD000 OR ucast (sub_address (table ! unat (bytecode e AND 0x0fff)))\<rparr> else e)"

lemma opcode_mask: "opcode e = 0xD \<Longrightarrow> bytecode e AND 0xf000 = 0xD000"
proof -
  assume "opcode e = 0xD"
  then have d: "drop_bit 12 (bytecode e) = 0xD" by (simp add: opcode_def)
  have "bytecode e AND push_bit 12 (mask 4) = push_bit 12 (drop_bit 12 (bytecode e))"
    by (rule bit_word_eqI) (auto simp: bit_simps)
  moreover have "(push_bit 12 (mask 4) :: u16) = 0xf000" by (simp add: mask_eq_exp_minus_1)
  ultimately show ?thesis by (simp only: d) simp
qed

lemma resolve_eq:
  assumes "opcode e = 0xD \<longrightarrow> unat (bytecode e AND 0x0fff) < length table"
  shows "resolve table e = Inr (resolved_word table e)"
  using assms by (auto simp: resolve_def resolved_word_def opcode_mask Let_def)

lemma call_word:
  "a < 0x1000 \<Longrightarrow> drop_bit 12 (0xD000 OR ucast (a :: u32) :: u16) = 0xD"
  "a < 0x1000 \<Longrightarrow> (0xD000 OR ucast (a :: u32) :: u16) AND 0x0fff = ucast a"
  using opcode_split [of "ucast a" ASEBA_BYTECODE_SUB_CALL] ucast_small [of a]
  by (simp_all add: AsebaBytecodeFromId_def del: drop_bit_or)

lemma opcode_resolved_word:
  assumes "opcode e = 0xD \<longrightarrow> sub_address (table ! unat (bytecode e AND 0x0fff)) < 0x1000"
  shows "opcode (resolved_word table e) = opcode e"
  using assms call_word(1) by (simp add: resolved_word_def opcode_def del: drop_bit_or)

lemma resolved_word_size:
  assumes "opcode e = 0xD \<longrightarrow> sub_address (table ! unat (bytecode e AND 0x0fff)) < 0x1000"
  shows "getWordSize (resolved_word table e) = getWordSize e"
  using opcode_resolved_word [OF assms] by (simp add: getWordSize_def)

section \<open>Correctness of linking\<close>

text \<open>
  What linking relies on: vectors of whole instructions under distinct identifiers, calls of
  subroutines that exist, event identifiers that the walk over the table takes for one-word
  instructions, and code that is small enough for addresses of twelve bits.
\<close>

definition linkable :: "compiler \<Rightarrow> prelink \<Rightarrow> bool" where
  "linkable c pre \<longleftrightarrow>
     distinct (map fst (pl_subroutines pre)) \<and>
     (\<forall>(i, v)\<in>set (pl_events pre). aligned (elements v) \<and> (i < 0x1000 \<or> 0xF000 \<le> i \<and> i < 0x10000)) \<and>
     (\<forall>(i, v)\<in>set (pl_subroutines pre). aligned (elements v) \<and> unat i < length (subroutineTable c)) \<and>
     (\<forall>(i, v)\<in>set (pl_events pre) \<union> set (pl_subroutines pre). \<forall>e\<in>set (opcodes (elements v)).
        opcode e = 0xD \<longrightarrow> ucast (bytecode e AND 0x0fff) \<in> fst ` set (pl_subroutines pre)) \<and>
     1 + 2 * length (pl_events pre) + length (concat (map (\<lambda>(i, v). elements v) (pl_events pre))) +
       length (concat (map (\<lambda>(i, v). elements v) (pl_subroutines pre))) < 0x1000"

lemma table_word_opcode:
  assumes "w < 0x1000 \<or> 0xF000 \<le> w \<and> w < 0x10000"
  shows "opcode (plain w) = 0 \<or> opcode (plain w) = 15"
proof -
  have "unat (opcode (plain w)) = drop_bit 12 (unat (ucast w :: u16))"
    using take_bit_nat_eq_self [OF unsigned_less [of "ucast w :: u16"]]
    by (simp add: opcode_def plain_def element_def unsigned_drop_bit_eq)
  also have "\<dots> = unat w mod 65536 div 4096"
    by (simp add: unsigned_ucast_eq unsigned_take_bit_eq drop_bit_eq_div take_bit_eq_mod)
  finally have "unat (opcode (plain w)) = unat w mod 65536 div 4096" .
  moreover have "unat w < 4096 \<or> 61440 \<le> unat w \<and> unat w < 65536"
    using assms by (simp add: word_less_nat_alt word_le_nat_alt)
  ultimately have "unat (opcode (plain w)) = 0 \<or> unat (opcode (plain w)) = 15" by auto
  then show ?thesis by (auto simp: word_unat_eq_iff)
qed

lemma table_word:
  assumes "w < 0x1000 \<or> 0xF000 \<le> w \<and> w < 0x10000"
  shows "getWordSize (plain w) = 1 \<and> opcode (plain w) \<noteq> 0xD"
  using table_word_opcode [OF assms] by (auto simp: getWordSize_def)

definition code_length :: "(u32, bytecode_vector) std_map \<Rightarrow> nat" where
  "code_length m = length (concat (map (\<lambda>(i, v). elements v) m))"

lemma code_length_simps [simp]:
  "code_length [] = 0" "code_length ((i, v) # m) = length (elements v) + code_length m"
  "code_length (m @ m') = code_length m + code_length m'"
  by (simp_all add: code_length_def)

lemma small_address: "n < 0x1000 \<Longrightarrow> (word_of_nat n :: u32) < 0x1000 \<and> unat (word_of_nat n :: u32) = n"
  by (simp add: word_less_nat_alt unat_of_nat take_bit_nat_eq_self)

lemma event_words_table:
  "n + code_length es < 0x1000 \<Longrightarrow> (\<forall>(i, v)\<in>set es. i < 0x1000 \<or> 0xF000 \<le> i \<and> i < 0x10000) \<Longrightarrow>
    e \<in> set (event_words es (word_of_nat n)) \<Longrightarrow> getWordSize e = 1 \<and> opcode e \<noteq> 0xD"
proof (induction es arbitrary: n)
  case (Cons x es)
  obtain i v where x: "x = (i, v)" by force
  have adv: "word_of_nat n + word_of_nat (length (elements v)) = (word_of_nat (n + length (elements v)) :: u32)"
    by simp
  from Cons.prems(1,2) x have "getWordSize (plain i) = 1 \<and> opcode (plain i) \<noteq> 0xD"
    "getWordSize (plain (word_of_nat n)) = 1 \<and> opcode (plain (word_of_nat n)) \<noteq> 0xD"
    using small_address [of n] table_word [of i] table_word [of "word_of_nat n"] by simp_all
  with Cons.IH [of "n + length (elements v)"] Cons.prems x adv show ?case by (auto simp del: of_nat_add)
qed simp

lemma single_words: "(\<And>e. e \<in> set es \<Longrightarrow> getWordSize e = 1) \<Longrightarrow> aligned es \<and> opcodes es = es"
  by (induction es) auto

lemma rewrite_id: "(\<And>e. e \<in> set (opcodes es) \<Longrightarrow> f e = e) \<Longrightarrow> rewrite f es = es"
  by (induction f es rule: rewrite.induct) (auto simp: Let_def)

lemma rewrite_concat:
  assumes "\<And>x. x \<in> set xs \<Longrightarrow> aligned (h x)"
    and "\<And>x e. x \<in> set xs \<Longrightarrow> e \<in> set (opcodes (h x)) \<Longrightarrow> getWordSize (f e) = getWordSize e"
  shows "rewrite f (concat (map h xs)) = concat (map (\<lambda>x. rewrite f (h x)) xs)"
  using assms
proof (induction xs)
  case (Cons x xs)
  then have "rewrite f (h x @ concat (map h xs)) = rewrite f (h x) @ rewrite f (concat (map h xs))"
    by (intro rewrite_append) auto
  moreover have "rewrite f (concat (map h xs)) = concat (map (\<lambda>x. rewrite f (h x)) xs)"
    using Cons.prems by (intro Cons.IH) auto
  ultimately show ?case by simp
qed simp

lemma place_subroutines_ok:
  "(\<And>i v. (i, v) \<in> set ss \<Longrightarrow> unat i < length table) \<Longrightarrow>
    \<exists>table'. place_subroutines ss bs table = Inr (bs @ concat (map (\<lambda>(i, v). elements v) ss), table')"
  by (induction ss bs table rule: place_subroutines.induct) auto

text \<open>The image of a vector in linked code.\<close>

definition image_of :: "subroutine_descriptor list \<Rightarrow> bytecode_vector \<Rightarrow> bytecode_element list" where
  "image_of table v = rewrite (resolved_word table) (elements v)"

definition table_part :: "prelink \<Rightarrow> bytecode_element list" where
  "table_part pre =
     (let addr = word_of_nat (length (pl_events pre)) * 2 + 1 in plain addr # event_words (pl_events pre) addr)"

lemma event_section_split:
  "event_section pre = table_part pre @ concat (map (\<lambda>(i, v). elements v) (pl_events pre))"
  by (simp add: event_section_def table_part_def Let_def)

lemma length_table_part: "length (table_part pre) = 1 + 2 * length (pl_events pre)"
  by (simp add: table_part_def length_event_words Let_def)

lemma length_image_of [simp]: "length (image_of table v) = length (elements v)"
  by (simp add: image_of_def length_rewrite)

lemma linkable_facts:
  assumes "linkable c pre"
  shows "distinct (map fst (pl_subroutines pre))"
    and "\<And>i v. (i, v) \<in> set (pl_events pre) \<Longrightarrow> aligned (elements v)"
    and "\<forall>(i, v)\<in>set (pl_events pre). i < 0x1000 \<or> 0xF000 \<le> i \<and> i < 0x10000"
    and "\<And>i v. (i, v) \<in> set (pl_subroutines pre) \<Longrightarrow> aligned (elements v) \<and> unat i < length (subroutineTable c)"
    and "\<And>i v e. (i, v) \<in> set (pl_events pre) \<union> set (pl_subroutines pre) \<Longrightarrow> e \<in> set (opcodes (elements v)) \<Longrightarrow>
      opcode e = 0xD \<Longrightarrow> ucast (bytecode e AND 0x0fff) \<in> fst ` set (pl_subroutines pre)"
    and "1 + 2 * length (pl_events pre) + code_length (pl_events pre) + code_length (pl_subroutines pre) < 0x1000"
  using assms unfolding linkable_def code_length_def by blast+

lemma table_part_words:
  assumes "linkable c pre" "e \<in> set (table_part pre)"
  shows "getWordSize e = 1 \<and> opcode e \<noteq> 0xD"
proof -
  let ?n = "2 * length (pl_events pre) + 1"
  have n: "word_of_nat (length (pl_events pre)) * 2 + 1 = (word_of_nat ?n :: u32)" by simp
  have "?n + code_length (pl_events pre) < 0x1000" using linkable_facts(6) [OF assms(1)] by simp
  moreover from this have "getWordSize (plain (word_of_nat ?n)) = 1 \<and> opcode (plain (word_of_nat ?n)) \<noteq> 0xD"
    using small_address [of ?n] by (intro table_word) simp
  ultimately show ?thesis
    using assms(2) event_words_table [of ?n "pl_events pre" e] linkable_facts(3) [OF assms(1)]
    unfolding table_part_def Let_def n by auto
qed

lemma subroutine_address:
  assumes "linkable c pre" "pl_subroutines pre = us @ (i, v) # vs"
    and "place_subroutines (pl_subroutines pre) (event_section pre) (subroutineTable c) = Inr (bs, table)"
  shows "unat (sub_address (table ! unat i)) = length (event_section pre) + code_length us"
    and "sub_address (table ! unat i) < 0x1000"
proof -
  have "length (event_section pre) + code_length us < 0x1000"
    using linkable_facts(6) [OF assms(1)] assms(2)
    by (simp add: event_section_split length_table_part code_length_def)
  note small = small_address [OF this]
  have "sub_address (table ! unat i) = word_of_nat (length (event_section pre) + code_length us)"
    unfolding code_length_def
    by (rule place_subroutines_at [of us i v vs _ "subroutineTable c" bs])
      (use linkable_facts(1) [OF assms(1)] assms(2,3) in simp_all)
  with small show "unat (sub_address (table ! unat i)) = length (event_section pre) + code_length us"
    "sub_address (table ! unat i) < 0x1000"
    by simp_all
qed

lemma called_subroutine:
  assumes "linkable c pre" "(i, v) \<in> set (pl_events pre) \<union> set (pl_subroutines pre)"
    "e \<in> set (opcodes (elements v))" "opcode e = 0xD"
    and "place_subroutines (pl_subroutines pre) (event_section pre) (subroutineTable c) = Inr (bs, table)"
  shows "unat (bytecode e AND 0x0fff) < length table \<and> sub_address (table ! unat (bytecode e AND 0x0fff)) < 0x1000"
proof -
  from linkable_facts(5) [OF assms(1-4)] obtain w where
    w: "(ucast (bytecode e AND 0x0fff), w) \<in> set (pl_subroutines pre)" by auto
  then obtain us vs where split: "pl_subroutines pre = us @ (ucast (bytecode e AND 0x0fff), w) # vs"
    by (auto simp: in_set_conv_decomp)
  have u: "unat (ucast (bytecode e AND 0x0fff) :: u32) = unat (bytecode e AND 0x0fff)"
    by (rule unat_ucast_up)
  from subroutine_address(2) [OF assms(1) split assms(5)] linkable_facts(4) [OF assms(1) w]
    place_subroutines_prefix [OF assms(5)]
  show ?thesis unfolding u by simp
qed

lemma resolve_table:
  assumes "linkable c pre"
  shows "aligned (table_part pre)" "opcodes (table_part pre) = table_part pre"
    and "\<And>e. e \<in> set (table_part pre) \<Longrightarrow> resolve table e = Inr (resolved_word table e) \<and> resolved_word table e = e"
  using single_words [of "table_part pre"] table_part_words [OF assms]
  by (auto simp: resolve_def resolved_word_def)

definition vectors :: "prelink \<Rightarrow> bytecode_vector list" where
  "vectors pre = map snd (pl_events pre) @ map snd (pl_subroutines pre)"

lemma vectors_aligned: "linkable c pre \<Longrightarrow> v \<in> set (vectors pre) \<Longrightarrow> aligned (elements v)"
  using linkable_facts(2,4) by (fastforce simp: vectors_def)

lemma resolve_code:
  assumes "linkable c pre" "v \<in> set (vectors pre)" "e \<in> set (opcodes (elements v))"
    and "place_subroutines (pl_subroutines pre) (event_section pre) (subroutineTable c) = Inr (bs, table)"
  shows "resolve table e = Inr (resolved_word table e) \<and> getWordSize (resolved_word table e) = getWordSize e"
proof -
  from assms(2) have "\<exists>i. (i, v) \<in> set (pl_events pre) \<union> set (pl_subroutines pre)"
    by (force simp: vectors_def)
  then obtain i where "(i, v) \<in> set (pl_events pre) \<union> set (pl_subroutines pre)" by blast
  from called_subroutine [OF assms(1) this assms(3) _ assms(4)] show ?thesis
    by (auto intro!: resolve_eq resolved_word_size)
qed

lemma opcodes_concat:
  "(\<And>v. v \<in> set vs \<Longrightarrow> aligned (elements v)) \<Longrightarrow>
    opcodes (concat (map elements vs)) = concat (map (\<lambda>v. opcodes (elements v)) vs)"
  by (induction vs) (auto simp: opcodes_append)

lemma resolve_all:
  assumes "linkable c pre"
    and "place_subroutines (pl_subroutines pre) (event_section pre) (subroutineTable c) = Inr (bs, table)"
  shows "rewriteR (resolve table) (table_part pre @ concat (map elements (vectors pre))) =
    Inr (table_part pre @ concat (map (image_of table) (vectors pre)))"
proof -
  let ?g = "resolved_word table"
  note head = resolve_table(1,2) [OF assms(1)] resolve_table(3) [OF assms(1), where table = table] and al = vectors_aligned [OF assms(1)]
    and res = resolve_code [OF assms(1) _ _ assms(2)]
  have "aligned (concat (map elements (vectors pre)))" using al by (intro aligned_concat) auto
  then have "rewriteR (resolve table) (table_part pre @ concat (map elements (vectors pre))) =
      Inr (rewrite ?g (table_part pre @ concat (map elements (vectors pre))))"
    using head res al opcodes_concat [of "vectors pre"]
    by (intro rewriteR_rewrite aligned_append) (auto simp: opcodes_append)
  moreover have "rewrite ?g (table_part pre @ concat (map elements (vectors pre))) =
      rewrite ?g (table_part pre) @ rewrite ?g (concat (map elements (vectors pre)))"
    using head by (intro rewrite_append) auto
  moreover have "rewrite ?g (table_part pre) = table_part pre" using head by (intro rewrite_id) auto
  moreover have "rewrite ?g (concat (map elements (vectors pre))) = concat (map (image_of table) (vectors pre))"
    unfolding image_of_def using al res by (intro rewrite_concat) auto
  ultimately show ?thesis by simp
qed

lemma link_result:
  assumes "linkable c pre"
  obtains table bs0 where
    "place_subroutines (pl_subroutines pre) (event_section pre) (subroutineTable c) = Inr (bs0, table)"
    "link c pre = Inr (1 + 2 * length (pl_events pre) + code_length (pl_events pre) + code_length (pl_subroutines pre)
        \<le> unat (bytecodeSize (targetDescription c)),
      table_part pre @ concat (map (image_of table) (vectors pre)), c\<lparr>subroutineTable := table\<rparr>)"
proof -
  from linkable_facts(4) [OF assms] place_subroutines_ok [of "pl_subroutines pre" "subroutineTable c" "event_section pre"]
  obtain table where place: "place_subroutines (pl_subroutines pre) (event_section pre) (subroutineTable c) =
      Inr (event_section pre @ concat (map (\<lambda>(i, v). elements v) (pl_subroutines pre)), table)" by blast
  have raw: "event_section pre @ concat (map (\<lambda>(i, v). elements v) (pl_subroutines pre)) =
      table_part pre @ concat (map elements (vectors pre))"
    by (simp add: event_section_split vectors_def split_def comp_def)
  have "length (table_part pre @ concat (map (image_of table) (vectors pre))) =
      1 + 2 * length (pl_events pre) + code_length (pl_events pre) + code_length (pl_subroutines pre)"
    by (simp add: length_table_part vectors_def code_length_def length_concat comp_def split_def)
  with that [OF place] resolve_all [OF assms place] place raw show ?thesis by (simp add: link_def)
qed

lemma sum_lengths: "sum_list (map (\<lambda>(i, v). word_of_nat (length (elements v))) us) = (word_of_nat (code_length us) :: u32)"
  by (induction us) auto

lemma table_entry:
  assumes "linkable c pre" "pl_events pre = us @ (i, v) # vs"
  shows "bytecode ((table_part pre @ rest) ! (1 + 2 * length us)) = ucast i"
    and "unat (bytecode ((table_part pre @ rest) ! (2 + 2 * length us))) = length (table_part pre) + code_length us"
proof -
  obtain N where N: "N = 2 * length (pl_events pre) + 1" by simp
  have n: "word_of_nat (length (pl_events pre)) * 2 + 1 = (word_of_nat N :: u32)" by (simp add: N)
  have small: "N + code_length us < 0x1000" using linkable_facts(6) [OF assms(1)] assms(2) by (simp add: N)
  have t: "table_part pre = plain (word_of_nat N) # event_words us (word_of_nat N) @
      plain i # plain (word_of_nat (N + code_length us)) #
      event_words vs (word_of_nat N + word_of_nat (code_length us) + word_of_nat (length (elements v)))"
    unfolding table_part_def Let_def n unfolding assms(2) event_words_append sum_lengths by simp
  then show "bytecode ((table_part pre @ rest) ! (1 + 2 * length us)) = ucast i"
    by (simp add: nth_append length_event_words plain_def element_def)
  have "bytecode ((table_part pre @ rest) ! (2 + 2 * length us)) = ucast (word_of_nat (N + code_length us) :: u32)"
    unfolding t by (simp add: nth_append length_event_words plain_def element_def)
  moreover have "unat (ucast (word_of_nat (N + code_length us) :: u32) :: u16) = N + code_length us"
    using small by (simp add: unsigned_ucast_eq unsigned_take_bit_eq unat_of_nat take_bit_nat_eq_self del: of_nat_add)
  ultimately show "unat (bytecode ((table_part pre @ rest) ! (2 + 2 * length us))) =
      length (table_part pre) + code_length us"
    by (simp add: length_table_part N del: of_nat_add)
qed

lemma take_drop_images:
  "take (length (elements v)) (drop (length pre + code_length us)
      (pre @ concat (map (image_of t) (map snd us)) @ image_of t v @ rest)) = image_of t v"
proof -
  have "length (concat (map (image_of t) (map snd us))) = code_length us"
    by (induction us) auto
  then show ?thesis by simp
qed

lemma opcodes_image:
  assumes "linkable c pre" "v \<in> set (vectors pre)"
    and "place_subroutines (pl_subroutines pre) (event_section pre) (subroutineTable c) = Inr (bs, table)"
  shows "opcodes (image_of table v) = map (resolved_word table) (opcodes (elements v))"
  unfolding image_of_def
  using resolve_code [OF assms(1,2) _ assms(3)] vectors_aligned [OF assms(1,2)] by (intro opcodes_rewrite) auto

text \<open>C2: Linking lays the program out as the virtual machine finds it: for code that fits, the table gives for the
  \<open>k\<close>-th event its identifier and the address at which the code of that event stands, the table of
  subroutines gives the address at which the code of each subroutine stands, in that code exactly the
  subroutine calls are changed, each to the address of the subroutine it names, and linking reports
  success exactly when the whole fits the target.\<close>

theorem link_correct:
  assumes "linkable c pre"
  shows "\<exists>fits bs c'. link c pre = Inr (fits, bs, c') \<and>
    (fits \<longleftrightarrow> length bs \<le> unat (bytecodeSize (targetDescription c))) \<and>
    (\<forall>us i v vs. pl_events pre = us @ (i, v) # vs \<longrightarrow>
      bytecode (bs ! (1 + 2 * length us)) = ucast i \<and>
      take (length (elements v)) (drop (unat (bytecode (bs ! (2 + 2 * length us)))) bs) =
        image_of (subroutineTable c') v) \<and>
    (\<forall>us i v vs. pl_subroutines pre = us @ (i, v) # vs \<longrightarrow>
      take (length (elements v)) (drop (unat (sub_address (subroutineTable c' ! unat i))) bs) =
        image_of (subroutineTable c') v) \<and>
    (\<forall>v\<in>set (vectors pre). opcodes (image_of (subroutineTable c') v) =
      map (resolved_word (subroutineTable c')) (opcodes (elements v)))"
proof -
  from link_result [OF assms] obtain table bs0 where
    place: "place_subroutines (pl_subroutines pre) (event_section pre) (subroutineTable c) = Inr (bs0, table)" and
    link: "link c pre = Inr (1 + 2 * length (pl_events pre) + code_length (pl_events pre) + code_length (pl_subroutines pre)
        \<le> unat (bytecodeSize (targetDescription c)),
      table_part pre @ concat (map (image_of table) (vectors pre)), c\<lparr>subroutineTable := table\<rparr>)" .
  let ?bs = "table_part pre @ concat (map (image_of table) (vectors pre))"
  have len: "length (concat (map (image_of table) (map snd m))) = code_length m" for m
    by (induction m) auto
  have event: "take (length (elements v)) (drop (length (table_part pre) + code_length us) ?bs) = image_of table v"
    if "pl_events pre = us @ (i, v) # vs" for us i v vs
  proof -
    have "?bs = table_part pre @ concat (map (image_of table) (map snd us)) @ image_of table v @
        concat (map (image_of table) (map snd vs @ map snd (pl_subroutines pre)))"
      by (simp add: vectors_def that)
    then show ?thesis by (simp only: take_drop_images)
  qed
  have sub: "take (length (elements v)) (drop (unat (sub_address (table ! unat i))) ?bs) = image_of table v"
    if "pl_subroutines pre = us @ (i, v) # vs" for us i v vs
  proof -
    let ?pre = "table_part pre @ concat (map (image_of table) (map snd (pl_events pre)))"
    have "?bs = ?pre @ concat (map (image_of table) (map snd us)) @ image_of table v @
        concat (map (image_of table) (map snd vs))"
      by (simp add: vectors_def that)
    moreover have "unat (sub_address (table ! unat i)) = length ?pre + code_length us"
      using subroutine_address(1) [OF assms that place]
      unfolding length_append len event_section_split by (simp add: code_length_def)
    ultimately show ?thesis by (simp only: take_drop_images)
  qed
  have lenbs: "length ?bs = 1 + 2 * length (pl_events pre) + code_length (pl_events pre) + code_length (pl_subroutines pre)"
    unfolding vectors_def map_append concat_append length_append len length_table_part by simp
  have table: "subroutineTable (c\<lparr>subroutineTable := table\<rparr>) = table" by simp
  show ?thesis
    by (rule exI, rule exI, rule exI, rule conjI [OF link], unfold table lenbs, intro conjI allI impI ballI)
      (use event sub table_entry [OF assms] opcodes_image [OF assms _ place] in \<open>simp_all only:\<close>)
qed

definition sample_prelink :: prelink where
  "sample_prelink = \<lparr>pl_events = [(0xFFFF, empty_vector\<lparr>elements := [element 0xD000 1, element 0 1]\<rparr>)],
     pl_subroutines = [(0, empty_vector\<lparr>elements := [element 0xE000 2]\<rparr>)], temps = [], current = Event_vector 0xFFFF\<rparr>"

definition link_compiler :: compiler where
  "link_compiler = sample_compiler\<lparr>subroutineTable := [\<lparr>sub_name = [], sub_address = 0, sub_line = 0\<rparr>]\<rparr>"

lemma sample_linkable: "linkable link_compiler sample_prelink"
  by (simp add: linkable_def link_compiler_def sample_prelink_def element_def getWordSize_def opcode_def)

theorem link_correct_witness:
  "\<exists>fits bs c'. link link_compiler sample_prelink = Inr (fits, bs, c') \<and>
    (fits \<longleftrightarrow> length bs \<le> unat (bytecodeSize (targetDescription link_compiler))) \<and>
    (\<forall>us i v vs. pl_events sample_prelink = us @ (i, v) # vs \<longrightarrow>
      bytecode (bs ! (1 + 2 * length us)) = ucast i \<and>
      take (length (elements v)) (drop (unat (bytecode (bs ! (2 + 2 * length us)))) bs) =
        image_of (subroutineTable c') v) \<and>
    (\<forall>us i v vs. pl_subroutines sample_prelink = us @ (i, v) # vs \<longrightarrow>
      take (length (elements v)) (drop (unat (sub_address (subroutineTable c' ! unat i))) bs) =
        image_of (subroutineTable c') v) \<and>
    (\<forall>v\<in>set (vectors sample_prelink). opcodes (image_of (subroutineTable c') v) =
      map (resolved_word (subroutineTable c')) (opcodes (elements v)))"
  by (rule link_correct [OF sample_linkable])

end
