(* ===== verification/Stack_Analysis.thy ===== *)
theory Stack_Analysis
  imports Tree_Emit
begin

text \<open>
  \<^verbatim>\<open>compiler/analysis.cpp\<close>: the check that no chain of subroutine calls overflows the stack. The loop over
  the subroutines repeats until a pass raises no call depth. Its exact answer is stated over call chains:
  every event starts chains of one call, and every subroutine, called or not, a chain of none.
\<close>

type_synonym code_map = "(u32, bytecode_vector) std_map"

definition sub_calls :: "bytecode_vector \<Rightarrow> u32 list" where
  "sub_calls v = map (\<lambda>e. ucast (bytecode e AND 0x0fff))
     (filter (\<lambda>e. opcode e = bytecode_id ASEBA_BYTECODE_SUB_CALL) (opcodes (elements v)))"

definition set_callDepth :: "u32 \<Rightarrow> u32 \<Rightarrow> code_map \<Rightarrow> code_map" where
  "set_callDepth i d subs = update_entry i (\<lambda>v. v\<lparr>callDepth := d\<rparr>) subs"

fun mark_called :: "u32 list \<Rightarrow> code_map \<Rightarrow> failure + code_map" where
  "mark_called [] subs = Inr subs"
| "mark_called (i # is) subs =
     (if map_find subs i = None then Inl Abort else mark_called is (set_callDepth i 1 subs))"

text \<open>\<open>None\<close> is the early return of \<^verbatim>\<open>false\<close>.\<close>

fun check_events :: "u32 \<Rightarrow> code_map \<Rightarrow> code_map \<Rightarrow> failure + code_map option" where
  "check_events size_max [] subs = Inr (Some subs)"
| "check_events size_max ((i, v) # es) subs =
     (if size_max < maxStackDepth v then Inr None
      else bindR (mark_called (sub_calls v) subs) (check_events size_max es))"

fun raise_calls :: "u32 \<Rightarrow> u32 list \<Rightarrow> code_map \<times> bool \<Rightarrow> failure + code_map \<times> bool" where
  "raise_calls myDepth [] s = Inr s"
| "raise_calls myDepth (i # is) (subs, wasActivity) =
     (case map_find subs i of
        None \<Rightarrow> Inl Abort
      | Some dest \<Rightarrow>
          if callDepth dest < myDepth + 1
          then raise_calls myDepth is (set_callDepth i (myDepth + 1) subs, True)
          else raise_calls myDepth is (subs, wasActivity))"

text \<open>One pass over the positions of the map of subroutines.\<close>

fun sub_pass :: "u32 \<Rightarrow> nat list \<Rightarrow> code_map \<times> bool \<Rightarrow> failure + (code_map \<times> bool) option" where
  "sub_pass size_max [] s = Inr (Some s)"
| "sub_pass size_max (k # ks) (subs, wasActivity) =
     (let v = snd (subs ! k); myDepth = callDepth v in
      if size_max < myDepth + maxStackDepth v then Inr None
      else bindR (raise_calls myDepth (sub_calls v) (subs, wasActivity)) (sub_pass size_max ks))"

section \<open>Termination\<close>

definition depth_of :: "code_map \<Rightarrow> u32 \<Rightarrow> nat" where
  "depth_of subs i = (case map_find subs i of None \<Rightarrow> 0 | Some v \<Rightarrow> unat (callDepth v))"

text \<open>What is left for the call depths to grow.\<close>

definition slack :: "code_map \<Rightarrow> nat" where
  "slack subs = (\<Sum>i\<in>fst ` set subs. 2 ^ 32 - depth_of subs i)"

lemma map_find_update_entry:
  "map_find (update_entry k f m) k' = (if k' = k then map_option f (map_find m k') else map_find m k')"
  by (induction m) (auto simp: map_find_def update_entry_def)

lemma keys_set_callDepth: "map fst (set_callDepth i d subs) = map fst subs"
  by (induction subs) (auto simp: set_callDepth_def update_entry_def)

lemma depth_of_set_callDepth:
  "map_find subs i \<noteq> None \<Longrightarrow> depth_of (set_callDepth i d subs) j = (if j = i then unat d else depth_of subs j)"
  by (auto simp: depth_of_def set_callDepth_def map_find_update_entry)

lemma slack_set_callDepth:
  assumes "map_find subs i = Some v" and "callDepth v < d"
  shows "slack (set_callDepth i d subs) < slack subs"
proof -
  have keys: "fst ` set (set_callDepth i d subs) = fst ` set subs"
    using arg_cong [OF keys_set_callDepth, of set] by simp
  have i: "i \<in> fst ` set subs" using assms(1) map_find_in_keys [of subs i] by simp
  have "unat (callDepth v) < unat d" using assms(2) by (simp add: word_less_nat_alt)
  moreover have "unat d < 2 ^ 32" using unsigned_less [of d] by simp
  ultimately have "2 ^ 32 - unat d < 2 ^ 32 - unat (callDepth v)" by linarith
  then show ?thesis unfolding slack_def keys
    using i assms(1) by (intro sum_strict_mono_ex1) (auto simp: depth_of_set_callDepth depth_of_def [of subs i])
qed

lemma raise_calls_slack:
  "raise_calls d is (subs, a) = Inr (subs', a') \<Longrightarrow>
    (if a' \<and> \<not> a then slack subs' < slack subs else slack subs' \<le> slack subs) \<and> (a \<longrightarrow> a')"
proof (induction "is" arbitrary: subs a)
  case (Cons i "is")
  then obtain v where v: "map_find subs i = Some v" by (auto split: option.splits)
  show ?case
  proof (cases "callDepth v < d + 1")
    case True
    with Cons v slack_set_callDepth [OF v True] show ?thesis by (fastforce split: if_splits)
  next
    case False
    with Cons v show ?thesis by (auto simp: word_less_nat_alt)
  qed
qed auto

lemma sub_pass_slack:
  "sub_pass m ks (subs, a) = Inr (Some (subs', a')) \<Longrightarrow>
    (if a' \<and> \<not> a then slack subs' < slack subs else slack subs' \<le> slack subs) \<and> (a \<longrightarrow> a')"
proof (induction ks arbitrary: subs a)
  case (Cons k ks)
  then obtain subs1 a1 where "raise_calls (callDepth (snd (subs ! k))) (sub_calls (snd (subs ! k))) (subs, a) = Inr (subs1, a1)"
    "sub_pass m ks (subs1, a1) = Inr (Some (subs', a'))"
    by (auto simp: Let_def split: if_splits)
  with Cons.IH [of subs1 a1] raise_calls_slack show ?case by (fastforce split: if_splits)
qed auto

function check_subs :: "u32 \<Rightarrow> code_map \<Rightarrow> failure + code_map option" where
  "check_subs size_max subs =
     bindR (sub_pass size_max [0..<length subs] (subs, False)) (\<lambda>r.
     case r of
       None \<Rightarrow> Inr None
     | Some (subs', wasActivity) \<Rightarrow> if wasActivity then check_subs size_max subs' else Inr (Some subs'))"
  by auto
termination
  by (relation "measure (\<lambda>(m, subs). slack subs)") (auto dest!: sub_pass_slack)

declare check_subs.simps [simp del]

text \<open>\<open>None\<close> is the result \<^verbatim>\<open>false\<close>, on which the caller drops the code.\<close>

definition verifyStackCalls :: "compiler \<Rightarrow> prelink \<Rightarrow> failure + prelink option" where
  "verifyStackCalls c pre =
     bindR (check_events (stackSize (targetDescription c)) (pl_events pre) (pl_subroutines pre)) (\<lambda>r.
     case r of
       None \<Rightarrow> Inr None
     | Some subs \<Rightarrow>
         bindR (check_subs (stackSize (targetDescription c)) subs) (\<lambda>r.
         Inr (map_option (\<lambda>subs'. pre\<lparr>pl_subroutines := subs'\<rparr>) r)))"

section \<open>Call chains\<close>

inductive chain :: "code_map \<Rightarrow> code_map \<Rightarrow> nat \<Rightarrow> u32 \<Rightarrow> bool" for es subs where
  uncalled: "i \<in> fst ` set subs \<Longrightarrow> chain es subs 0 i"
| from_event: "(e, v) \<in> set es \<Longrightarrow> i \<in> set (sub_calls v) \<Longrightarrow> chain es subs 1 i"
| called: "chain es subs n j \<Longrightarrow> map_find subs j = Some v \<Longrightarrow> i \<in> set (sub_calls v) \<Longrightarrow>
    chain es subs (Suc n) i"

text \<open>A chain at whose end the stack does not suffice.\<close>

definition overflows :: "u32 \<Rightarrow> code_map \<Rightarrow> code_map \<Rightarrow> bool" where
  "overflows m es subs \<longleftrightarrow>
     (\<exists>n i v. chain es subs n i \<and> map_find subs i = Some v \<and> unat m < n + unat (maxStackDepth v))"

text \<open>Every call names a subroutine.\<close>

definition closed_calls :: "code_map \<Rightarrow> code_map \<Rightarrow> bool" where
  "closed_calls es subs = list_all (\<lambda>(i, v). list_all (\<lambda>j. map_find subs j \<noteq> None) (sub_calls v)) (es @ subs)"

lemma closed_calls_find:
  "closed_calls es subs \<Longrightarrow> (i, v) \<in> set es \<union> set subs \<Longrightarrow> j \<in> set (sub_calls v) \<Longrightarrow> map_find subs j \<noteq> None"
  by (fastforce simp: closed_calls_def list_all_iff)

definition same_code :: "code_map \<Rightarrow> code_map \<Rightarrow> bool" where
  "same_code subs subs' \<longleftrightarrow>
     map (\<lambda>(i, v). (i, elements v, maxStackDepth v)) subs = map (\<lambda>(i, v). (i, elements v, maxStackDepth v)) subs'"

lemma same_code_refl [simp]: "same_code subs subs"
  by (simp add: same_code_def)

lemma same_code_trans [trans]: "same_code a b \<Longrightarrow> same_code b c \<Longrightarrow> same_code a c"
  by (simp add: same_code_def)

lemma same_code_set_callDepth [simp]: "same_code subs (set_callDepth i d subs)"
  by (induction subs) (auto simp: same_code_def set_callDepth_def update_entry_def)

lemma same_code_keys: "same_code subs subs' \<Longrightarrow> map fst subs' = map fst subs"
proof -
  assume "same_code subs subs'"
  then have "map fst (map (\<lambda>(i, v). (i, elements v, maxStackDepth v)) subs) =
      map fst (map (\<lambda>(i, v). (i, elements v, maxStackDepth v)) subs')" by (simp add: same_code_def)
  then show ?thesis by (simp add: comp_def case_prod_beta)
qed

lemma same_code_find:
  assumes "same_code subs subs'"
  shows "map_option (\<lambda>v. (elements v, maxStackDepth v)) (map_find subs' i) =
    map_option (\<lambda>v. (elements v, maxStackDepth v)) (map_find subs i)"
proof -
  have "map_option (\<lambda>v. (elements v, maxStackDepth v)) (map_find s i) =
      map_of (map (\<lambda>(i, v). (i, elements v, maxStackDepth v)) s) i" for s
    by (simp add: map_find_def map_of_map)
  from this [of subs] this [of subs'] assms show ?thesis by (simp only: same_code_def)
qed

lemma same_code_findD:
  assumes "same_code subs subs'" and "map_find subs' i = Some v'"
  obtains v where "map_find subs i = Some v" "sub_calls v' = sub_calls v" "maxStackDepth v' = maxStackDepth v"
  using same_code_find [OF assms(1), of i] assms(2) that by (cases "map_find subs i") (auto simp: sub_calls_def)

lemma same_code_present: "same_code subs subs' \<Longrightarrow> map_find subs' i = None \<longleftrightarrow> map_find subs i = None"
  using same_code_find [of subs subs' i] by (cases "map_find subs i"; cases "map_find subs' i") auto

section \<open>The loops\<close>

lemma mark_called_ok:
  assumes "\<And>i. i \<in> set is \<Longrightarrow> map_find subs i \<noteq> None"
  shows "\<exists>subs'. mark_called is subs = Inr subs' \<and> same_code subs subs' \<and>
    (\<forall>j. depth_of subs' j = (if j \<in> set is then 1 else depth_of subs j))"
  using assms
proof (induction "is" arbitrary: subs)
  case (Cons i "is")
  let ?s = "set_callDepth i 1 subs"
  have i: "map_find subs i \<noteq> None" using Cons.prems by simp
  have "map_find ?s j \<noteq> None" if "j \<in> set is" for j
    using Cons.prems that same_code_present [of subs ?s] by simp
  with Cons.IH [of ?s] obtain subs' where "mark_called is ?s = Inr subs'" "same_code ?s subs'"
    "\<forall>j. depth_of subs' j = (if j \<in> set is then 1 else depth_of ?s j)" by blast
  with i show ?case using same_code_trans [OF same_code_set_callDepth, of i 1 subs subs']
    by (auto simp: depth_of_set_callDepth)
qed simp

lemma check_events_ok:
  assumes "\<And>e v i. (e, v) \<in> set es \<Longrightarrow> i \<in> set (sub_calls v) \<Longrightarrow> map_find subs i \<noteq> None"
  shows "\<exists>r. check_events m es subs = Inr r \<and> (r = None \<longleftrightarrow> (\<exists>(e, v)\<in>set es. m < maxStackDepth v)) \<and>
    (\<forall>subs'. r = Some subs' \<longrightarrow> same_code subs subs' \<and>
      (\<forall>j. depth_of subs' j = (if \<exists>(e, v)\<in>set es. j \<in> set (sub_calls v) then 1 else depth_of subs j)))"
  using assms
proof (induction es arbitrary: subs)
  case (Cons ev es)
  obtain e v where ev: "ev = (e, v)" by fastforce
  show ?case
  proof (cases "m < maxStackDepth v")
    case True
    with ev show ?thesis by auto
  next
    case False
    from mark_called_ok [of "sub_calls v" subs] Cons.prems ev obtain subs1 where
      m: "mark_called (sub_calls v) subs = Inr subs1" and s: "same_code subs subs1"
      and d: "\<forall>j. depth_of subs1 j = (if j \<in> set (sub_calls v) then 1 else depth_of subs j)"
      by (metis list.set_intros(1))
    have "map_find subs1 i \<noteq> None" if "(e, v) \<in> set es" "i \<in> set (sub_calls v)" for e v i
      using Cons.prems [of e v i] that same_code_present [OF s] by simp
    then obtain r where "check_events m es subs1 = Inr r"
      "r = None \<longleftrightarrow> (\<exists>(e, v)\<in>set es. m < maxStackDepth v)"
      "\<forall>subs'. r = Some subs' \<longrightarrow> same_code subs1 subs' \<and>
        (\<forall>j. depth_of subs' j = (if \<exists>(e, v)\<in>set es. j \<in> set (sub_calls v) then 1 else depth_of subs1 j))"
      using Cons.IH [of subs1] by (elim exE conjE meta_impE) assumption+
    with m False ev d same_code_trans [OF s] show ?thesis by auto
  qed
qed simp

text \<open>The state of the loop over the subroutines: the code is unchanged and every depth is the length of a
  chain.\<close>

definition depths_ok :: "u32 \<Rightarrow> code_map \<Rightarrow> code_map \<Rightarrow> code_map \<Rightarrow> bool" where
  "depths_ok m es subs0 subs \<longleftrightarrow> same_code subs0 subs \<and>
     (\<forall>i\<in>fst ` set subs0. chain es subs0 (depth_of subs i) i \<and> depth_of subs i \<le> Suc (unat m)) \<and>
     (\<forall>(e, v)\<in>set es. \<forall>i\<in>set (sub_calls v). 1 \<le> depth_of subs i)"

lemma depths_ok_set_callDepth:
  assumes "depths_ok m es subs0 subs" and "map_find subs i \<noteq> None"
    and "chain es subs0 (unat d) i" and "unat d \<le> Suc (unat m)" and "1 \<le> unat d"
  shows "depths_ok m es subs0 (set_callDepth i d subs)"
  using assms same_code_trans [OF _ same_code_set_callDepth, of subs0 subs i d]
  by (fastforce simp: depths_ok_def depth_of_set_callDepth)

lemma raise_calls_ok:
  assumes "depths_ok m es subs0 subs" and "unat m < 2 ^ 31" and "unat d \<le> unat m"
    and "\<And>i. i \<in> set is \<Longrightarrow> map_find subs0 i \<noteq> None \<and> chain es subs0 (Suc (unat d)) i"
  shows "\<exists>subs' a'. raise_calls d is (subs, a) = Inr (subs', a') \<and> depths_ok m es subs0 subs' \<and>
    (\<not> a' \<longrightarrow> subs' = subs \<and> \<not> a \<and> (\<forall>i\<in>set is. Suc (unat d) \<le> depth_of subs i))"
  using assms(1, 4)
proof (induction "is" arbitrary: subs a)
  case (Cons i "is")
  have d1: "unat (d + 1) = Suc (unat d)"
    using assms(2, 3) unat_add_lem [of d 1] by simp
  from Cons.prems have "map_find subs i \<noteq> None"
    using same_code_present [of subs0 subs] by (auto simp: depths_ok_def)
  then obtain v where v: "map_find subs i = Some v" by blast
  show ?case
  proof (cases "callDepth v < d + 1")
    case True
    have "depths_ok m es subs0 (set_callDepth i (d + 1) subs)"
      using Cons.prems v d1 assms(3) by (intro depths_ok_set_callDepth) auto
    with Cons.IH [of "set_callDepth i (d + 1) subs" True] Cons.prems(2) v True show ?thesis by auto
  next
    case False
    then have "Suc (unat d) \<le> depth_of subs i" using v d1 by (simp add: depth_of_def word_less_nat_alt)
    with Cons.IH [of subs a] Cons.prems v False show ?thesis by auto
  qed
qed simp

text \<open>The subroutine at position \<open>k\<close> fits, and no call of it raises a depth.\<close>

definition settled :: "u32 \<Rightarrow> code_map \<Rightarrow> code_map \<Rightarrow> nat \<Rightarrow> bool" where
  "settled m subs0 subs k \<longleftrightarrow>
     (case subs0 ! k of (i, v) \<Rightarrow> depth_of subs i + unat (maxStackDepth v) \<le> unat m \<and>
       (\<forall>j\<in>set (sub_calls v). Suc (depth_of subs i) \<le> depth_of subs j))"

lemma sub_pass_ok:
  assumes "depths_ok m es subs0 subs" and "unat m < 2 ^ 31" and "ordered subs0" and "closed_calls es subs0"
    and "\<And>i v. (i, v) \<in> set subs0 \<Longrightarrow> unat (maxStackDepth v) < 2 ^ 31"
    and "\<And>k. k \<in> set ks \<Longrightarrow> k < length subs0"
  shows "\<exists>r. sub_pass m ks (subs, a) = Inr r \<and> (r = None \<longrightarrow> overflows m es subs0) \<and>
    (\<forall>subs' a'. r = Some (subs', a') \<longrightarrow> depths_ok m es subs0 subs' \<and>
      (\<not> a' \<longrightarrow> subs' = subs \<and> \<not> a \<and> (\<forall>k\<in>set ks. settled m subs0 subs k)))"
  using assms(1, 6)
proof (induction ks arbitrary: subs a)
  case (Cons k ks)
  obtain i v where iv: "subs ! k = (i, v)" by fastforce
  obtain i0 v0 where iv0: "subs0 ! k = (i0, v0)" by fastforce
  from Cons.prems have s: "same_code subs0 subs" and k: "k < length subs0" by (auto simp: depths_ok_def)
  have len: "length subs = length subs0" using same_code_keys [OF s] by (metis length_map)
  have "map (\<lambda>(i, v). (i, elements v, maxStackDepth v)) subs0 ! k = map (\<lambda>(i, v). (i, elements v, maxStackDepth v)) subs ! k"
    using s by (simp only: same_code_def)
  then have same: "i0 = i" "maxStackDepth v0 = maxStackDepth v" "sub_calls v0 = sub_calls v"
    using k len iv iv0 by (auto simp: sub_calls_def)
  have ord: "ordered subs" using assms(3) same_code_keys [OF s] by (simp add: ordered_def)
  have in0: "(i, v0) \<in> set subs0" using nth_mem [OF k] iv0 same by simp
  have "(i, v) \<in> set subs" using nth_mem [of k subs] k len iv by simp
  then have dv: "depth_of subs i = unat (callDepth v)" using map_find_entry [OF ord] by (simp add: depth_of_def)
  have find0: "map_find subs0 i = Some v0" using map_find_entry [OF assms(3) in0] .
  have ch: "chain es subs0 (unat (callDepth v)) i" and le: "unat (callDepth v) \<le> Suc (unat m)"
    using Cons.prems(1) in0 dv unfolding depths_ok_def by force+
  have sum: "unat (callDepth v + maxStackDepth v) = unat (callDepth v) + unat (maxStackDepth v)"
    using le assms(2) assms(5) [OF in0] same by (intro unat_add_lem [THEN iffD1]) simp
  show ?case
  proof (cases "m < callDepth v + maxStackDepth v")
    case True
    then have "overflows m es subs0"
      unfolding overflows_def using ch find0 sum same by (metis word_less_nat_alt)
    with True iv show ?thesis by (simp add: Let_def)
  next
    case False
    then have small: "unat (callDepth v) + unat (maxStackDepth v) \<le> unat m" using sum by (simp add: word_less_nat_alt)
    have calls: "map_find subs0 j \<noteq> None \<and> chain es subs0 (Suc (unat (callDepth v))) j" if "j \<in> set (sub_calls v)" for j
      using closed_calls_find [OF assms(4), of i v0 j] in0 chain.called [OF ch find0] that same by simp
    obtain subs1 a1 where r: "raise_calls (callDepth v) (sub_calls v) (subs, a) = Inr (subs1, a1)" "depths_ok m es subs0 subs1"
      "\<not> a1 \<longrightarrow> subs1 = subs \<and> \<not> a \<and> (\<forall>j\<in>set (sub_calls v). Suc (unat (callDepth v)) \<le> depth_of subs j)"
      using raise_calls_ok [OF Cons.prems(1) assms(2), of "callDepth v" "sub_calls v" a] calls small by auto
    obtain r where p: "sub_pass m ks (subs1, a1) = Inr r" "r = None \<longrightarrow> overflows m es subs0"
      "\<forall>subs' a'. r = Some (subs', a') \<longrightarrow> depths_ok m es subs0 subs' \<and>
        (\<not> a' \<longrightarrow> subs' = subs1 \<and> \<not> a1 \<and> (\<forall>k\<in>set ks. settled m subs0 subs1 k))"
      using Cons.IH [OF r(2), of a1] Cons.prems(2) by auto
    have pass: "sub_pass m (k # ks) (subs, a) = Inr r" using False iv r(1) p(1) by (simp add: Let_def)
    have quiet: "subs' = subs \<and> \<not> a \<and> (\<forall>k\<in>set (k # ks). settled m subs0 subs k)"
      if "r = Some (subs', a')" "\<not> a'" for subs' a'
    proof -
      from p(3) that have *: "subs' = subs1" "\<not> a1" "\<forall>k\<in>set ks. settled m subs0 subs1 k" by blast+
      from r(3) *(2) have **: "subs1 = subs" "\<not> a" "\<forall>j\<in>set (sub_calls v). Suc (unat (callDepth v)) \<le> depth_of subs j"
        by blast+
      have "settled m subs0 subs k"
        unfolding settled_def iv0 prod.case same dv using small **(3) by (intro conjI)
      with * **(1, 2) show ?thesis by (metis set_ConsD)
    qed
    have "\<forall>subs' a'. r = Some (subs', a') \<longrightarrow> depths_ok m es subs0 subs' \<and>
        (\<not> a' \<longrightarrow> subs' = subs \<and> \<not> a \<and> (\<forall>k\<in>set (k # ks). settled m subs0 subs k))"
      using p(3) by (intro allI impI conjI quiet [THEN conjunct1] quiet [THEN conjunct2, THEN conjunct1]
          quiet [THEN conjunct2, THEN conjunct2]) (assumption | blast)+
    with pass p(2) show ?thesis by (intro exI [of _ r] conjI)
  qed
qed simp

text \<open>At a fixpoint every chain is at most as long as the depth of its end.\<close>

lemma chain_bounded:
  assumes "chain es subs n i"
    and "\<And>e v j. (e, v) \<in> set es \<Longrightarrow> j \<in> set (sub_calls v) \<Longrightarrow> 1 \<le> d j"
    and "\<And>k v j. map_find subs k = Some v \<Longrightarrow> j \<in> set (sub_calls v) \<Longrightarrow> Suc (d k) \<le> d j"
  shows "n \<le> d i"
  using assms(1)
proof induction
  case (called n j v i)
  with assms(3) [of j v i] show ?case by linarith
qed (use assms(2) in auto)

lemma fixpoint_no_overflow:
  assumes "depths_ok m es subs0 subs"
    and "\<And>i v. map_find subs0 i = Some v \<Longrightarrow> depth_of subs i + unat (maxStackDepth v) \<le> unat m \<and>
      (\<forall>j\<in>set (sub_calls v). Suc (depth_of subs i) \<le> depth_of subs j)"
  shows "\<not> overflows m es subs0"
proof
  assume "overflows m es subs0"
  then obtain n i v where ch: "chain es subs0 n i" and v: "map_find subs0 i = Some v"
    and less: "unat m < n + unat (maxStackDepth v)"
    unfolding overflows_def by blast
  from ch have "n \<le> depth_of subs i"
    by (rule chain_bounded) (use assms in \<open>auto simp: depths_ok_def\<close>)
  with assms(2) [OF v] less show False by linarith
qed

lemma check_subs_ok:
  assumes "unat m < 2 ^ 31" and "ordered subs0" and "closed_calls es subs0"
    and "\<And>i v. (i, v) \<in> set subs0 \<Longrightarrow> unat (maxStackDepth v) < 2 ^ 31"
    and "depths_ok m es subs0 subs"
  shows "\<exists>r. check_subs m subs = Inr r \<and> (r = None \<longleftrightarrow> overflows m es subs0)"
  using assms
proof (induction m subs rule: check_subs.induct)
  case (1 m subs)
  have len: "length subs = length subs0"
    using same_code_keys [of subs0 subs] 1(6) by (metis depths_ok_def length_map)
  then obtain r where r: "sub_pass m [0..<length subs] (subs, False) = Inr r" "r = None \<longrightarrow> overflows m es subs0"
    and s: "\<forall>subs' a'. r = Some (subs', a') \<longrightarrow> depths_ok m es subs0 subs' \<and>
      (\<not> a' \<longrightarrow> subs' = subs \<and> \<not> False \<and> (\<forall>k\<in>set [0..<length subs]. settled m subs0 subs k))"
    using sub_pass_ok [OF 1(6) 1(2-4), where ks = "[0..<length subs]" and a = False] 1(5) by auto
  show ?case
  proof (cases r)
    case None
    with r show ?thesis by (simp add: check_subs.simps [of m subs])
  next
    case (Some sa)
    obtain subs' a' where sa: "sa = (subs', a')" by fastforce
    show ?thesis
    proof (cases a')
      case True
      with 1(1) [OF r(1) Some sa [symmetric] True 1(2-5)] s Some sa r(1) show ?thesis
        by (simp add: check_subs.simps [of m subs])
    next
      case False
      have "\<not> overflows m es subs0"
      proof (rule fixpoint_no_overflow [OF 1(6)])
        fix i v assume "map_find subs0 i = Some v"
        then obtain k where "k < length subs0" "subs0 ! k = (i, v)"
          using map_find_SomeD by (metis in_set_conv_nth)
        moreover have "\<forall>k\<in>set [0..<length subs]. settled m subs0 subs k" using s Some sa False by blast
        ultimately have "settled m subs0 subs k" using len by simp
        with \<open>subs0 ! k = (i, v)\<close> show "depth_of subs i + unat (maxStackDepth v) \<le> unat m \<and>
            (\<forall>j\<in>set (sub_calls v). Suc (depth_of subs i) \<le> depth_of subs j)"
          by (simp add: settled_def)
      qed
      with False r(1) Some sa show ?thesis by (simp add: check_subs.simps [of m subs])
    qed
  qed
qed

lemma verifyStackCalls_chains:
  assumes "ordered (pl_subroutines pre)" and "closed_calls (pl_events pre) (pl_subroutines pre)"
    and "list_all (\<lambda>(i, v). callDepth v = 0 \<and> unat (maxStackDepth v) < 2 ^ 31) (pl_subroutines pre)"
    and "unat m < 2 ^ 31" and "m = stackSize (targetDescription c)"
  shows "\<exists>r. verifyStackCalls c pre = Inr r \<and>
    (r = None \<longleftrightarrow> (\<exists>(i, v)\<in>set (pl_events pre). m < maxStackDepth v) \<or>
      overflows m (pl_events pre) (pl_subroutines pre))"
proof -
  let ?es = "pl_events pre" and ?ss = "pl_subroutines pre"
  have "map_find ?ss i \<noteq> None" if "(e, v) \<in> set ?es" "i \<in> set (sub_calls v)" for e v i
    using closed_calls_find [OF assms(2)] that by blast
  then obtain r where r: "check_events m ?es ?ss = Inr r" "r = None \<longleftrightarrow> (\<exists>(e, v)\<in>set ?es. m < maxStackDepth v)"
    and s: "\<forall>subs'. r = Some subs' \<longrightarrow> same_code ?ss subs' \<and>
      (\<forall>j. depth_of subs' j = (if \<exists>(e, v)\<in>set ?es. j \<in> set (sub_calls v) then 1 else depth_of ?ss j))"
    using check_events_ok [of ?es ?ss m] by (elim exE conjE meta_impE) assumption+
  show ?thesis
  proof (cases r)
    case None
    with r assms(5) show ?thesis by (simp add: verifyStackCalls_def)
  next
    case (Some subs)
    have "depth_of ?ss j = 0" for j
      using assms(3) map_find_SomeD [of ?ss j] by (fastforce simp: depth_of_def list_all_iff split: option.split)
    then have d: "depth_of subs j = (if \<exists>(e, v)\<in>set ?es. j \<in> set (sub_calls v) then 1 else 0)" for j
      using s Some by auto
    have "same_code ?ss subs" using s Some by blast
    moreover have "chain ?es ?ss (depth_of subs i) i \<and> depth_of subs i \<le> Suc (unat m)" if "i \<in> fst ` set ?ss" for i
      using chain.uncalled [OF that] chain.from_event [of _ _ ?es i ?ss] by (auto simp: d)
    moreover have "\<forall>(e, v)\<in>set ?es. \<forall>i\<in>set (sub_calls v). 1 \<le> depth_of subs i" by (fastforce simp: d)
    ultimately have "depths_ok m ?es ?ss subs" by (auto simp: depths_ok_def)
    from check_subs_ok [OF assms(4) assms(1, 2) _ this] obtain r' where
      "check_subs m subs = Inr r'" "r' = None \<longleftrightarrow> overflows m ?es ?ss"
      using assms(3) by (force simp: list_all_iff)
    with Some r assms(5) show ?thesis by (auto simp: verifyStackCalls_def)
  qed
qed

section \<open>What the check decides\<close>

text \<open>Code as the analysis finds it: the subroutines in key order with no depth computed yet, every call naming one
  of them, and stack sizes that leave room for the sums.\<close>

definition analysable :: "compiler \<Rightarrow> prelink \<Rightarrow> bool" where
  "analysable c pre \<longleftrightarrow> ordered (pl_subroutines pre) \<and> closed_calls (pl_events pre) (pl_subroutines pre) \<and>
     list_all (\<lambda>(i, v). callDepth v = 0 \<and> unat (maxStackDepth v) < 2 ^ 31) (pl_subroutines pre) \<and>
     unat (stackSize (targetDescription c)) < 2 ^ 31"

definition call_relation :: "code_map \<Rightarrow> (u32 \<times> u32) set" where
  "call_relation subs = {(j, i). \<exists>v. map_find subs i = Some v \<and> j \<in> set (sub_calls v)}"

lemma no_overflow_wf:
  assumes "\<not> overflows m es subs" and "closed_calls es subs"
  shows "wf (call_relation subs)"
proof -
  define longest where "longest i = Max {n. chain es subs n i}" for i
  have bound: "n \<le> unat m" if "chain es subs n i" "map_find subs i \<noteq> None" for n i
    using assms(1) that unfolding overflows_def by (metis add_leE not_less option.exhaust)
  have fin: "finite {n. chain es subs n i}" if "map_find subs i \<noteq> None" for i
    by (rule finite_subset [of _ "{..unat m}"]) (use bound that in auto)
  have "longest i < longest j \<and> longest j \<le> unat m" if "(j, i) \<in> call_relation subs" for i j
  proof -
    from that obtain v where v: "map_find subs i = Some v" and j: "j \<in> set (sub_calls v)"
      by (auto simp: call_relation_def)
    have jn: "map_find subs j \<noteq> None" using closed_calls_find [OF assms(2) _ j] map_find_SomeD [OF v] by blast
    have "chain es subs 0 i" using v map_find_in_keys [of subs i] by (intro chain.uncalled) simp
    then have "chain es subs (longest i) i" using Max_in [OF fin, of i] v by (auto simp: longest_def)
    then have "chain es subs (Suc (longest i)) j" using v j by (rule chain.called)
    moreover from this have "chain es subs (longest j) j" using Max_in [OF fin [OF jn]] by (auto simp: longest_def)
    moreover have "Suc (longest i) \<le> longest j"
      unfolding longest_def [of j] using calculation(1) by (intro Max_ge [OF fin [OF jn]]) simp
    ultimately show ?thesis using bound [OF _ jn] by (simp add: Suc_le_eq)
  qed
  then have "call_relation subs \<subseteq> measure (\<lambda>i. unat m - longest i)" by fastforce
  then show ?thesis using wf_measure wf_subset by blast
qed

text \<open>C7: The stack check is exact: on analysable code the loop ends without a failed assertion, and it accepts
  exactly when every event fits the stack and, at the end of every chain of subroutine calls, the
  return addresses of the chain and the depth announced for the subroutine fit together.\<close>

theorem verifyStackCalls_exact:
  assumes "analysable c pre"
  shows "\<exists>r. verifyStackCalls c pre = Inr r \<and>
    (r \<noteq> None \<longleftrightarrow>
      (\<forall>(i, v)\<in>set (pl_events pre). maxStackDepth v \<le> stackSize (targetDescription c)) \<and>
      (\<forall>n i v. chain (pl_events pre) (pl_subroutines pre) n i \<longrightarrow> map_find (pl_subroutines pre) i = Some v \<longrightarrow>
        n + unat (maxStackDepth v) \<le> unat (stackSize (targetDescription c))))"
proof -
  obtain r where "verifyStackCalls c pre = Inr r" "r = None \<longleftrightarrow>
      (\<exists>(i, v)\<in>set (pl_events pre). stackSize (targetDescription c) < maxStackDepth v) \<or>
      overflows (stackSize (targetDescription c)) (pl_events pre) (pl_subroutines pre)"
    using verifyStackCalls_chains assms unfolding analysable_def by blast
  then show ?thesis
    unfolding overflows_def by (intro exI [of _ r]) (auto simp: not_less not_le)
qed

text \<open>C12: Only programs whose subroutine calls end are accepted: in analysable code that passes the stack check
  no subroutine reaches itself through calls, the relation from caller to callee is well-founded.\<close>

theorem accepted_calls_terminate:
  assumes "analysable c pre" and "verifyStackCalls c pre = Inr (Some pre')"
  shows "wf (call_relation (pl_subroutines pre))"
proof (rule no_overflow_wf)
  show "closed_calls (pl_events pre) (pl_subroutines pre)" using assms(1) by (simp add: analysable_def)
  show "\<not> overflows (stackSize (targetDescription c)) (pl_events pre) (pl_subroutines pre)"
    using verifyStackCalls_chains [of pre _ c] assms unfolding analysable_def by fastforce
qed

section \<open>A sample\<close>

text \<open>An event that calls a subroutine that calls another one.\<close>

definition stack_compiler :: compiler where
  "stack_compiler = sample_compiler\<lparr>targetDescription := sample_target\<lparr>stackSize := 4\<rparr>\<rparr>"

definition stack_sample :: prelink where
  "stack_sample = \<lparr>pl_events = [(0xFFFF, empty_vector\<lparr>elements := [element 0xD000 1, element 0 1], maxStackDepth := 4\<rparr>)],
     pl_subroutines = [(0, empty_vector\<lparr>elements := [element 0xD001 2, element 0xE000 2]\<rparr>),
       (1, empty_vector\<lparr>elements := [element 0xE000 3], maxStackDepth := 2\<rparr>)],
     temps = [], current = Event_vector 0xFFFF\<rparr>"

lemma stack_sample_analysable: "analysable stack_compiler stack_sample"
  by (simp add: analysable_def stack_compiler_def stack_sample_def ordered_def closed_calls_def sub_calls_def
      element_def getWordSize_def opcode_def empty_vector_def map_find_def)

lemma stack_sample_accepted: "\<exists>pre'. verifyStackCalls stack_compiler stack_sample = Inr (Some pre')"
  by (simp add: verifyStackCalls_def stack_compiler_def stack_sample_def check_subs.simps sub_calls_def
      element_def getWordSize_def opcode_def empty_vector_def map_find_def set_callDepth_def update_entry_def Let_def)

theorem verifyStackCalls_exact_witness:
  "\<exists>r. verifyStackCalls stack_compiler stack_sample = Inr r \<and>
    (r \<noteq> None \<longleftrightarrow>
      (\<forall>(i, v)\<in>set (pl_events stack_sample). maxStackDepth v \<le> stackSize (targetDescription stack_compiler)) \<and>
      (\<forall>n i v. chain (pl_events stack_sample) (pl_subroutines stack_sample) n i \<longrightarrow>
        map_find (pl_subroutines stack_sample) i = Some v \<longrightarrow>
        n + unat (maxStackDepth v) \<le> unat (stackSize (targetDescription stack_compiler))))"
  by (rule verifyStackCalls_exact [OF stack_sample_analysable])

theorem accepted_calls_terminate_witness: "wf (call_relation (pl_subroutines stack_sample))"
  using stack_sample_accepted accepted_calls_terminate [OF stack_sample_analysable] by blast

end
