(* ===== verification/Tree_Expand.thy ===== *)
theory Tree_Expand
  imports Tree_Optimize
begin

text \<open>
  \<^verbatim>\<open>compiler/tree-expand.cpp\<close>: the sizes and addresses of vectors, the check of sizes, the first pass that
  turns \<open>v += e\<close> and \<open>v++\<close> into assignments, and the second pass that turns an assignment of vectors into
  assignments of their elements, with the allocation of temporary variables of \<^verbatim>\<open>compiler/parser.cpp\<close>. The
  static counter of temporary variables is part of the state of the second pass. The second pass calls
  itself on the statements it makes for a temporary variable: each such call takes one unit of fuel.
\<close>

section \<open>Sizes and addresses\<close>

definition E_NOVAL :: u32 where "E_NOVAL = 0xFFFFFFFF"

definition isImmediateVector :: "node list \<Rightarrow> bool" where
  "isImmediateVector cs = list_all (\<lambda>c. immediate c \<noteq> None) cs"

text \<open>The element of a tuple of the given size.\<close>

definition nth_immediate :: "node list \<Rightarrow> u32 \<Rightarrow> u32 \<Rightarrow> failure + int" where
  "nth_immediate cs n k =
     (if k < n \<and> isImmediateVector cs \<and> unat k < length cs
      then (case immediate (cs ! unat k) of Some v \<Rightarrow> Inr v | None \<Rightarrow> Inl Abort)
      else Inl Abort)"

definition out_of_bound :: "source_pos \<Rightarrow> wstring \<Rightarrow> error_arg \<Rightarrow> u32 \<Rightarrow> failure" where
  "out_of_bound p name i size_of = TranslatableError p ERROR_ARRAY_OUT_OF_BOUND [Arg_string name, i, Arg_unsigned size_of]"

definition index_in :: "int \<Rightarrow> u32 \<Rightarrow> bool" where
  "index_in v size_of \<longleftrightarrow> 0 \<le> v \<and> v < sint size_of"

definition same_size :: "source_pos \<Rightarrow> u32 \<Rightarrow> u32 \<Rightarrow> failure + u32" where
  "same_size p s new_size =
     (if s = E_NOVAL then Inr new_size
      else if s \<noteq> new_size
      then Inl (TranslatableError p ERROR_ARRAY_SIZE_MISMATCH [Arg_unsigned s, Arg_unsigned new_size])
      else Inr s)"

fun getVectorSize :: "node \<Rightarrow> failure + u32" where
  "getVectorSize (ImmediateNode p v) = Inr 1"
| "getVectorSize (StoreNode p a) = Inr 1"
| "getVectorSize (LoadNode p a) = Inr 1"
| "getVectorSize (ArrayWriteNode p a s n i) = Inr 1"
| "getVectorSize (ArrayReadNode p a s n i) = Inr 1"
| "getVectorSize (TupleVectorNode p cs) = foldR (\<lambda>c s. bindR (getVectorSize c) (\<lambda>k. Inr (s + k))) cs 0"
| "getVectorSize (MemoryVectorNode p a s n w None) = Inr s"
| "getVectorSize (MemoryVectorNode p a s n w (Some i)) =
     (case i of
        TupleVectorNode q cs \<Rightarrow>
          bindR (getVectorSize i) (\<lambda>k.
          if k = 1 then Inr 1
          else if k = 2 then
            bindR (nth_immediate cs k 0) (\<lambda>im0. bindR (nth_immediate cs k 1) (\<lambda>im1.
            if \<not> index_in im1 s then Inl (out_of_bound p n (Arg_int im1) s)
            else bindR (c_int (im1 - im0)) (\<lambda>d. bindR (c_int (d + 1)) (\<lambda>e. Inr (word_of_int e)))))
          else Inl (TranslatableError p ERROR_ARRAY_ILLEGAL_ACCESS []))
      | _ \<Rightarrow> Inr 1)"
| "getVectorSize (BlockNode p cs) = foldR (\<lambda>c s. bindR (getVectorSize c) (same_size p s)) cs E_NOVAL"
| "getVectorSize (ProgramNode p cs) = foldR (\<lambda>c s. bindR (getVectorSize c) (same_size p s)) cs E_NOVAL"
| "getVectorSize (AssignmentNode p l r) = bindR (getVectorSize l) (\<lambda>s. bindR (getVectorSize r) (same_size p s))"
| "getVectorSize (IfWhenNode p e el c t f) =
     bindR (getVectorSize c) (\<lambda>s. bindR (getVectorSize t) (\<lambda>k. bindR (same_size p s k) (\<lambda>s.
     case f of None \<Rightarrow> Inr s | Some b \<Rightarrow> bindR (getVectorSize b) (same_size p s))))"
| "getVectorSize (FoldedIfWhenNode p op e el l r t f) =
     bindR (getVectorSize l) (\<lambda>s. bindR (getVectorSize r) (\<lambda>k. bindR (same_size p s k) (\<lambda>s.
     bindR (getVectorSize t) (\<lambda>k. bindR (same_size p s k) (\<lambda>s.
     case f of None \<Rightarrow> Inr s | Some b \<Rightarrow> bindR (getVectorSize b) (same_size p s))))))"
| "getVectorSize (WhileNode p c b) = bindR (getVectorSize c) (\<lambda>s. bindR (getVectorSize b) (same_size p s))"
| "getVectorSize (FoldedWhileNode p op l r b) =
     bindR (getVectorSize l) (\<lambda>s. bindR (getVectorSize r) (\<lambda>k. bindR (same_size p s k) (\<lambda>s.
     bindR (getVectorSize b) (same_size p s))))"
| "getVectorSize (EventDeclNode p i) = Inr E_NOVAL"
| "getVectorSize (EmitNode p i a s cs) = foldR (\<lambda>c s. bindR (getVectorSize c) (same_size p s)) cs E_NOVAL"
| "getVectorSize (SubDeclNode p i) = Inr E_NOVAL"
| "getVectorSize (CallSubNode p n i) = Inr E_NOVAL"
| "getVectorSize (BinaryArithmeticNode p op l r) =
     bindR (getVectorSize l) (\<lambda>s. bindR (getVectorSize r) (same_size p s))"
| "getVectorSize (UnaryArithmeticNode p op c) = getVectorSize c"
| "getVectorSize (LoadNativeArgNode p t a s n i) = getVectorSize i"
| "getVectorSize (CallNode p f ts cs) = foldR (\<lambda>c s. bindR (getVectorSize c) (same_size p s)) cs E_NOVAL"
| "getVectorSize (ReturnNode p) = Inr E_NOVAL"
| "getVectorSize (ArithmeticAssignmentNode p op l r) =
     bindR (getVectorSize l) (\<lambda>s. bindR (getVectorSize r) (same_size p s))"
| "getVectorSize (UnaryArithmeticAssignmentNode p op m) = getVectorSize m"

text \<open>The element of a tuple, after the assertion on its size.\<close>

definition getImmediateValue :: "source_pos \<Rightarrow> node list \<Rightarrow> u32 \<Rightarrow> failure + int" where
  "getImmediateValue p cs k = bindR (getVectorSize (TupleVectorNode p cs)) (\<lambda>n. nth_immediate cs n k)"

fun getVectorAddr :: "node \<Rightarrow> failure + u32" where
  "getVectorAddr (StoreNode p a) = Inr a"
| "getVectorAddr (LoadNode p a) = Inr a"
| "getVectorAddr (ArrayWriteNode p a s n i) = Inr a"
| "getVectorAddr (ArrayReadNode p a s n i) = Inr a"
| "getVectorAddr (MemoryVectorNode p a s n w None) = (if index_in 0 s then Inr a else Inl (out_of_bound p n (Arg_int 0) s))"
| "getVectorAddr (MemoryVectorNode p a s n w (Some i)) =
     (case i of
        TupleVectorNode q cs \<Rightarrow>
          bindR (getImmediateValue q cs 0) (\<lambda>shift.
          if index_in shift s then Inr (a + word_of_int shift) else Inl (out_of_bound p n (Arg_int shift) s))
      | _ \<Rightarrow> Inr E_NOVAL)"
| "getVectorAddr (BlockNode p (c # cs)) = getVectorAddr c"
| "getVectorAddr (ProgramNode p (c # cs)) = getVectorAddr c"
| "getVectorAddr (AssignmentNode p l r) = getVectorAddr l"
| "getVectorAddr (IfWhenNode p e el c t f) = getVectorAddr c"
| "getVectorAddr (FoldedIfWhenNode p op e el l r t f) = getVectorAddr l"
| "getVectorAddr (WhileNode p c b) = getVectorAddr c"
| "getVectorAddr (FoldedWhileNode p op l r b) = getVectorAddr l"
| "getVectorAddr (EmitNode p i a s (c # cs)) = getVectorAddr c"
| "getVectorAddr (BinaryArithmeticNode p op l r) = getVectorAddr l"
| "getVectorAddr (UnaryArithmeticNode p op c) = getVectorAddr c"
| "getVectorAddr (LoadNativeArgNode p t a s n i) = getVectorAddr i"
| "getVectorAddr (CallNode p f ts (c # cs)) = getVectorAddr c"
| "getVectorAddr (TupleVectorNode p (c # cs)) = getVectorAddr c"
| "getVectorAddr (ArithmeticAssignmentNode p op l r) = getVectorAddr l"
| "getVectorAddr (UnaryArithmeticAssignmentNode p op m) = getVectorAddr m"
| "getVectorAddr _ = Inr E_NOVAL"

definition isAddressStatic :: "node option \<Rightarrow> bool" where
  "isAddressStatic i =
     (case i of
        None \<Rightarrow> True
      | Some (TupleVectorNode q cs) \<Rightarrow> length cs \<le> 2 \<and> isImmediateVector cs
      | _ \<Rightarrow> False)"

section \<open>The check of sizes\<close>

definition same_sides :: "source_pos \<Rightarrow> node \<Rightarrow> node \<Rightarrow> failure + unit" where
  "same_sides p l r =
     bindR (getVectorSize l) (\<lambda>lSize. bindR (getVectorSize r) (\<lambda>rSize.
     guardR (lSize = rSize) (TranslatableError p ERROR_ARRAY_SIZE_MISMATCH [Arg_unsigned lSize, Arg_unsigned rSize])))"

definition scalar_condition :: "source_pos \<Rightarrow> error_code \<Rightarrow> node \<Rightarrow> failure + unit" where
  "scalar_condition p e c = bindR (getVectorSize c) (\<lambda>k. guardR (k = 1) (TranslatableError p e []))"

definition scalar_conditions :: "source_pos \<Rightarrow> error_code \<Rightarrow> node \<Rightarrow> node \<Rightarrow> failure + unit" where
  "scalar_conditions p e l r =
     bindR (getVectorSize l) (\<lambda>k. bindR (getVectorSize r) (\<lambda>k'.
     guardR (k = 1 \<and> k' = 1) (TranslatableError p e [])))"

fun checkVectorSize :: "node \<Rightarrow> failure + unit" where
  "checkVectorSize (AssignmentNode p l r) = same_sides p l r"
| "checkVectorSize (ArithmeticAssignmentNode p op l r) = same_sides p l r"
| "checkVectorSize (IfWhenNode p e el c t f) =
     bindR (scalar_condition p ERROR_IF_VECTOR_CONDITION c) (\<lambda>_. bindR (checkVectorSize t) (\<lambda>_.
     case f of None \<Rightarrow> Inr () | Some b \<Rightarrow> checkVectorSize b))"
| "checkVectorSize (FoldedIfWhenNode p op e el l r t f) =
     bindR (scalar_conditions p ERROR_IF_VECTOR_CONDITION l r) (\<lambda>_. bindR (checkVectorSize t) (\<lambda>_.
     case f of None \<Rightarrow> Inr () | Some b \<Rightarrow> checkVectorSize b))"
| "checkVectorSize (WhileNode p c b) =
     bindR (scalar_condition p ERROR_WHILE_VECTOR_CONDITION c) (\<lambda>_. checkVectorSize b)"
| "checkVectorSize (FoldedWhileNode p op l r b) =
     bindR (scalar_conditions p ERROR_WHILE_VECTOR_CONDITION l r) (\<lambda>_. checkVectorSize b)"
| "checkVectorSize (BlockNode p cs) = foldR (\<lambda>c _. checkVectorSize c) cs ()"
| "checkVectorSize (ProgramNode p cs) = foldR (\<lambda>c _. checkVectorSize c) cs ()"
| "checkVectorSize (EmitNode p i a s cs) = foldR (\<lambda>c _. checkVectorSize c) cs ()"
| "checkVectorSize (CallNode p f ts cs) = foldR (\<lambda>c _. checkVectorSize c) cs ()"
| "checkVectorSize (TupleVectorNode p cs) = foldR (\<lambda>c _. checkVectorSize c) cs ()"
| "checkVectorSize (BinaryArithmeticNode p op l r) = bindR (checkVectorSize l) (\<lambda>_. checkVectorSize r)"
| "checkVectorSize (UnaryArithmeticNode p op c) = checkVectorSize c"
| "checkVectorSize (ArrayWriteNode p a s n i) = checkVectorSize i"
| "checkVectorSize (ArrayReadNode p a s n i) = checkVectorSize i"
| "checkVectorSize (LoadNativeArgNode p t a s n i) = checkVectorSize i"
| "checkVectorSize (MemoryVectorNode p a s n w i) = (case i of None \<Rightarrow> Inr () | Some x \<Rightarrow> checkVectorSize x)"
| "checkVectorSize (UnaryArithmeticAssignmentNode p op m) = checkVectorSize m"
| "checkVectorSize _ = Inr ()"

section \<open>First pass: abstract nodes\<close>

fun expandAbstractNodes :: "node \<Rightarrow> failure + node" where
  "expandAbstractNodes (TupleVectorNode p cs) = Inr (TupleVectorNode p cs)"
| "expandAbstractNodes (MemoryVectorNode p a s n w i) = Inr (MemoryVectorNode p a s n w i)"
| "expandAbstractNodes (UnaryArithmeticAssignmentNode p op m) =
     bindR (getVectorSize m) (\<lambda>k. bindR (expandAbstractNodes m) (\<lambda>m'.
     Inr (AssignmentNode p m' (BinaryArithmeticNode p op m'
       (TupleVectorNode p (replicate (unat k) (ImmediateNode p 1)))))))"
| "expandAbstractNodes (ArithmeticAssignmentNode p op l r) =
     bindR (expandAbstractNodes l) (\<lambda>l'. bindR (expandAbstractNodes r) (\<lambda>r'.
     Inr (AssignmentNode p l' (BinaryArithmeticNode p op l' r'))))"
| "expandAbstractNodes (BlockNode p cs) = bindR (mapR expandAbstractNodes cs) (\<lambda>cs'. Inr (BlockNode p cs'))"
| "expandAbstractNodes (ProgramNode p cs) = bindR (mapR expandAbstractNodes cs) (\<lambda>cs'. Inr (ProgramNode p cs'))"
| "expandAbstractNodes (AssignmentNode p l r) =
     bindR (expandAbstractNodes l) (\<lambda>l'. bindR (expandAbstractNodes r) (\<lambda>r'. Inr (AssignmentNode p l' r')))"
| "expandAbstractNodes (IfWhenNode p e el c t f) =
     bindR (expandAbstractNodes c) (\<lambda>c'. bindR (expandAbstractNodes t) (\<lambda>t'.
     bindR (optR expandAbstractNodes f) (\<lambda>f'. Inr (IfWhenNode p e el c' t' f'))))"
| "expandAbstractNodes (FoldedIfWhenNode p op e el l r t f) =
     bindR (expandAbstractNodes l) (\<lambda>l'. bindR (expandAbstractNodes r) (\<lambda>r'. bindR (expandAbstractNodes t) (\<lambda>t'.
     bindR (optR expandAbstractNodes f) (\<lambda>f'. Inr (FoldedIfWhenNode p op e el l' r' t' f')))))"
| "expandAbstractNodes (WhileNode p c b) =
     bindR (expandAbstractNodes c) (\<lambda>c'. bindR (expandAbstractNodes b) (\<lambda>b'. Inr (WhileNode p c' b')))"
| "expandAbstractNodes (FoldedWhileNode p op l r b) =
     bindR (expandAbstractNodes l) (\<lambda>l'. bindR (expandAbstractNodes r) (\<lambda>r'. bindR (expandAbstractNodes b) (\<lambda>b'.
     Inr (FoldedWhileNode p op l' r' b'))))"
| "expandAbstractNodes (EmitNode p i a s cs) = bindR (mapR expandAbstractNodes cs) (\<lambda>cs'. Inr (EmitNode p i a s cs'))"
| "expandAbstractNodes (CallNode p f ts cs) = bindR (mapR expandAbstractNodes cs) (\<lambda>cs'. Inr (CallNode p f ts cs'))"
| "expandAbstractNodes (BinaryArithmeticNode p op l r) =
     bindR (expandAbstractNodes l) (\<lambda>l'. bindR (expandAbstractNodes r) (\<lambda>r'. Inr (BinaryArithmeticNode p op l' r')))"
| "expandAbstractNodes (UnaryArithmeticNode p op c) =
     bindR (expandAbstractNodes c) (\<lambda>c'. Inr (UnaryArithmeticNode p op c'))"
| "expandAbstractNodes (ArrayWriteNode p a s n i) = bindR (expandAbstractNodes i) (\<lambda>i'. Inr (ArrayWriteNode p a s n i'))"
| "expandAbstractNodes (ArrayReadNode p a s n i) = bindR (expandAbstractNodes i) (\<lambda>i'. Inr (ArrayReadNode p a s n i'))"
| "expandAbstractNodes (LoadNativeArgNode p t a s n i) =
     bindR (expandAbstractNodes i) (\<lambda>i'. Inr (LoadNativeArgNode p t a s n i'))"
| "expandAbstractNodes n = Inr n"

section \<open>Temporary variables\<close>

type_synonym expand_state = "compiler \<times> u32"

definition allocateTemporaryMemory :: "source_pos \<Rightarrow> u32 \<Rightarrow> compiler \<Rightarrow> failure + u32 \<times> compiler" where
  "allocateTemporaryMemory varPos size_of c =
     (let endOfMemory = variablesSize (targetDescription c) - endVariableIndex c;
          varAddr = endOfMemory - size_of;
          c' = c\<lparr>endVariableIndex := endVariableIndex c + size_of\<rparr>
      in if freeVariableIndex c' + endVariableIndex c' > variablesSize (targetDescription c')
         then Inl (TranslatableError varPos ERROR_NOT_ENOUGH_TEMP_SPACE [])
         else Inr (varAddr, c'))"

function decimal :: "nat \<Rightarrow> wstring" where
  "decimal n = (if n < 10 then [word_of_nat (48 + n)] else decimal (n div 10) @ [word_of_nat (48 + n mod 10)])"
  by auto
termination
  by (relation "measure id") auto

declare decimal.simps [simp del]

definition allocateTemporaryVariable ::
  "source_pos \<Rightarrow> node \<Rightarrow> expand_state \<Rightarrow> failure + (node \<times> node) \<times> expand_state" where
  "allocateTemporaryVariable varPos rValue st =
     bindR (getVectorSize rValue) (\<lambda>k.
     bindR (allocateTemporaryMemory varPos k (fst st)) (\<lambda>(addr, c).
     Inr ((MemoryVectorNode varPos addr k (ws ''temp'' @ decimal (unat (snd st))) False None, rValue),
          (c, snd st + 1))))"

section \<open>Second pass: vectors\<close>

function matchNameInMemoryVector :: "node \<Rightarrow> wstring \<Rightarrow> bool" where
  "matchNameInMemoryVector root name \<longleftrightarrow>
     (case root of MemoryVectorNode _ _ _ arrayName _ _ \<Rightarrow> arrayName = name | _ \<Rightarrow> False) \<or>
     list_ex (\<lambda>child. matchNameInMemoryVector child name) (children root)"
  by auto
termination
  by (relation "measure (\<lambda>(n, name). size n)") (auto dest: children_size)

declare matchNameInMemoryVector.simps [simp del]

text \<open>The child of a tuple that holds an element, and the index of the element in that child.\<close>

fun tuple_child :: "node list \<Rightarrow> nat \<Rightarrow> nat \<Rightarrow> failure + node \<times> u32" where
  "tuple_child [] index prevTotal = Inl Abort"
| "tuple_child (c # cs) index prevTotal =
     bindR (getVectorSize c) (\<lambda>k.
     if index < prevTotal + unat k then Inr (c, word_of_nat (index - prevTotal))
     else tuple_child cs index (prevTotal + unat k))"

lemma tuple_child_mem: "tuple_child cs i t = Inr (c, j) \<Longrightarrow> c \<in> set cs"
  by (induction cs i t rule: tuple_child.induct) (auto split: if_splits)

lemma tuple_child_size: "tuple_child cs i t = Inr (c, j) \<Longrightarrow> size c < Suc (size_list size cs)"
  using tuple_child_mem size_list_estimation' [of c cs "size c" size] by (fastforce simp: less_Suc_eq_le)

text \<open>A loop that maps and threads a state.\<close>

primrec mapS :: "('a \<Rightarrow> 's \<Rightarrow> 'e + 'b \<times> 's) \<Rightarrow> 'a list \<Rightarrow> 's \<Rightarrow> 'e + 'b list \<times> 's" where
  "mapS f [] s = Inr ([], s)"
| "mapS f (x # xs) s = bindR (f x s) (\<lambda>(y, s1). bindR (mapS f xs s1) (\<lambda>(ys, s2). Inr (y # ys, s2)))"

lemma mapS_cong [fundef_cong]:
  assumes "xs = ys" and "s = t" and "\<And>x u. x \<in> set ys \<Longrightarrow> f x u = g x u"
  shows "mapS f xs s = mapS g ys t"
proof -
  have "mapS f ys t = mapS g ys t" for t
    using assms(3)
  proof (induction ys arbitrary: t)
    case (Cons y ys)
    then show ?case by (auto intro!: bindR_cong)
  qed simp
  with assms show ?thesis by simp
qed

text \<open>The array of a vector in memory as it is accessed: at a constant or a computed index.\<close>

definition direct_access :: "node option \<Rightarrow> bool" where
  "direct_access i = (case i of None \<Rightarrow> True | Some (TupleVectorNode q cs) \<Rightarrow> True | _ \<Rightarrow> False)"

definition memory_element :: "node \<Rightarrow> u32 \<Rightarrow> failure + node" where
  "memory_element n index =
     (case n of
        MemoryVectorNode p a s name w i \<Rightarrow>
          bindR (getVectorAddr n) (\<lambda>addr.
          let pointer = addr + index in
          if a + s \<le> pointer then Inl (out_of_bound p name (Arg_unsigned index) s)
          else Inr (if w then StoreNode p pointer else LoadNode p pointer))
      | _ \<Rightarrow> Inl Abort)"

text \<open>Whether an assignment goes through a temporary variable.\<close>

definition needs_temporary :: "node \<Rightarrow> wstring \<Rightarrow> node \<Rightarrow> failure + bool" where
  "needs_temporary left name right =
     (if matchNameInMemoryVector right name then bindR (getVectorSize left) (\<lambda>k. Inr (1 < k)) else Inr False)"

function (sequential) expandVectorialNodes :: "nat \<Rightarrow> node \<Rightarrow> u32 \<Rightarrow> expand_state \<Rightarrow> failure + node \<times> expand_state" where
  "expandVectorialNodes fuel (AssignmentNode p (MemoryVectorNode q a s name w i) right) index st =
     (let left = MemoryVectorNode q a s name True i in
      bindR (needs_temporary left name right) (\<lambda>b.
      if b then
        (case fuel of
           0 \<Rightarrow> Inl Diverges
         | Suc fuel' \<Rightarrow>
             bindR (allocateTemporaryVariable p right st) (\<lambda>((tempVar, rValue), st1).
             expandVectorialNodes fuel'
               (BlockNode p [AssignmentNode p tempVar rValue, AssignmentNode p left tempVar]) 0 st1))
      else
        bindR (getVectorSize left) (\<lambda>k.
        bindR (mapS (\<lambda>j st.
            bindR (expandVectorialNodes fuel left (word_of_nat j) st) (\<lambda>(l, st1).
            bindR (expandVectorialNodes fuel right (word_of_nat j) st1) (\<lambda>(r, st2).
            Inr (AssignmentNode p l r, st2)))) [0..<unat k] st) (\<lambda>(cs, st').
        Inr (BlockNode p cs, st')))))"
| "expandVectorialNodes fuel (AssignmentNode p l r) index st =
     Inl (TranslatableError p ERROR_INCORRECT_LEFT_VALUE [Arg_string (toNodeName l)])"
| "expandVectorialNodes fuel (TupleVectorNode p cs) index st =
     bindR (tuple_child cs (unat index) 0) (\<lambda>(c, j). expandVectorialNodes fuel c j st)"
| "expandVectorialNodes fuel (MemoryVectorNode p a s n w i) index st =
     bindR (getVectorSize (MemoryVectorNode p a s n w i)) (\<lambda>k.
     bindR (guardR (index < k) Abort) (\<lambda>_.
     if direct_access i
     then bindR (memory_element (MemoryVectorNode p a s n w i) index) (\<lambda>e. Inr (e, st))
     else
       (case i of
          None \<Rightarrow> Inl Abort
        | Some x \<Rightarrow>
            bindR (expandVectorialNodes fuel x index st) (\<lambda>(x', st').
            Inr (if w then ArrayWriteNode p a s n x' else ArrayReadNode p a s n x', st')))))"
| "expandVectorialNodes fuel (ImmediateNode p v) index st =
     bindR (guardR (index = 0) Abort) (\<lambda>_. Inr (ImmediateNode p v, st))"
| "expandVectorialNodes fuel (ArithmeticAssignmentNode p op l r) index st = Inl Abort"
| "expandVectorialNodes fuel (UnaryArithmeticAssignmentNode p op m) index st = Inl Abort"
| "expandVectorialNodes fuel (BlockNode p cs) index st =
     bindR (mapS (\<lambda>c. expandVectorialNodes fuel c index) cs st) (\<lambda>(cs', st'). Inr (BlockNode p cs', st'))"
| "expandVectorialNodes fuel (ProgramNode p cs) index st =
     bindR (mapS (\<lambda>c. expandVectorialNodes fuel c index) cs st) (\<lambda>(cs', st'). Inr (ProgramNode p cs', st'))"
| "expandVectorialNodes fuel (IfWhenNode p e el c t f) index st =
     bindR (expandVectorialNodes fuel c index st) (\<lambda>(c', st1).
     bindR (expandVectorialNodes fuel t index st1) (\<lambda>(t', st2).
     case f of
       None \<Rightarrow> Inr (IfWhenNode p e el c' t' None, st2)
     | Some b \<Rightarrow> bindR (expandVectorialNodes fuel b index st2) (\<lambda>(b', st3). Inr (IfWhenNode p e el c' t' (Some b'), st3))))"
| "expandVectorialNodes fuel (FoldedIfWhenNode p op e el l r t f) index st =
     bindR (expandVectorialNodes fuel l index st) (\<lambda>(l', st1).
     bindR (expandVectorialNodes fuel r index st1) (\<lambda>(r', st2).
     bindR (expandVectorialNodes fuel t index st2) (\<lambda>(t', st3).
     case f of
       None \<Rightarrow> Inr (FoldedIfWhenNode p op e el l' r' t' None, st3)
     | Some b \<Rightarrow> bindR (expandVectorialNodes fuel b index st3) (\<lambda>(b', st4).
         Inr (FoldedIfWhenNode p op e el l' r' t' (Some b'), st4)))))"
| "expandVectorialNodes fuel (WhileNode p c b) index st =
     bindR (expandVectorialNodes fuel c index st) (\<lambda>(c', st1).
     bindR (expandVectorialNodes fuel b index st1) (\<lambda>(b', st2). Inr (WhileNode p c' b', st2)))"
| "expandVectorialNodes fuel (FoldedWhileNode p op l r b) index st =
     bindR (expandVectorialNodes fuel l index st) (\<lambda>(l', st1).
     bindR (expandVectorialNodes fuel r index st1) (\<lambda>(r', st2).
     bindR (expandVectorialNodes fuel b index st2) (\<lambda>(b', st3). Inr (FoldedWhileNode p op l' r' b', st3))))"
| "expandVectorialNodes fuel (EmitNode p i a s cs) index st =
     bindR (mapS (\<lambda>c. expandVectorialNodes fuel c index) cs st) (\<lambda>(cs', st'). Inr (EmitNode p i a s cs', st'))"
| "expandVectorialNodes fuel (CallNode p f ts cs) index st =
     bindR (mapS (\<lambda>c. expandVectorialNodes fuel c index) cs st) (\<lambda>(cs', st'). Inr (CallNode p f ts cs', st'))"
| "expandVectorialNodes fuel (BinaryArithmeticNode p op l r) index st =
     bindR (expandVectorialNodes fuel l index st) (\<lambda>(l', st1).
     bindR (expandVectorialNodes fuel r index st1) (\<lambda>(r', st2). Inr (BinaryArithmeticNode p op l' r', st2)))"
| "expandVectorialNodes fuel (UnaryArithmeticNode p op c) index st =
     bindR (expandVectorialNodes fuel c index st) (\<lambda>(c', st'). Inr (UnaryArithmeticNode p op c', st'))"
| "expandVectorialNodes fuel (ArrayWriteNode p a s n i) index st =
     bindR (expandVectorialNodes fuel i index st) (\<lambda>(i', st'). Inr (ArrayWriteNode p a s n i', st'))"
| "expandVectorialNodes fuel (ArrayReadNode p a s n i) index st =
     bindR (expandVectorialNodes fuel i index st) (\<lambda>(i', st'). Inr (ArrayReadNode p a s n i', st'))"
| "expandVectorialNodes fuel (LoadNativeArgNode p t a s n i) index st =
     bindR (expandVectorialNodes fuel i index st) (\<lambda>(i', st'). Inr (LoadNativeArgNode p t a s n i', st'))"
| "expandVectorialNodes fuel n index st = Inr (n, st)"
  by pat_completeness auto
termination
  by (relation "measures [\<lambda>(fuel, n, i, st). fuel, \<lambda>(fuel, n, i, st). size n]")
    (auto dest: tuple_child_size simp: less_Suc_eq_le intro: size_list_estimation' trans_le_add2)

end
