(* ===== verification/Expand_Correct.thy ===== *)
theory Expand_Correct
  imports Tree_Expand Optimize_Correct
begin

text \<open>
  What the expansion of vectors promises. A vector expression has a reference value, the list of the values
  of its elements. The elements the second pass makes of it have these values; and the assignments it
  makes of an assignment of vectors store all of them as they were before the first store, through a
  temporary variable where the assigned array is read on the right.
\<close>

section \<open>Reference values of vectors\<close>

definition array_ok :: "u32 \<Rightarrow> u32 \<Rightarrow> bool" where
  "array_ok a s \<longleftrightarrow> 0 < uint s \<and> uint a + uint s < 2 ^ 31"

text \<open>The first element and the number of elements that an access at constant indices denotes.\<close>

definition index_span :: "u32 \<Rightarrow> node option \<Rightarrow> (nat \<times> nat) option" where
  "index_span s i =
     (case i of
        None \<Rightarrow> Some (0, unat s)
      | Some (TupleVectorNode q [ImmediateNode q0 k]) \<Rightarrow> if 0 \<le> k \<and> k < uint s then Some (nat k, 1) else None
      | Some (TupleVectorNode q [ImmediateNode q0 k, ImmediateNode q1 l]) \<Rightarrow>
          if 0 \<le> k \<and> k \<le> l \<and> l < uint s then Some (nat k, Suc (nat (l - k))) else None
      | _ \<Rightarrow> None)"

definition cells :: "(u32 \<Rightarrow> int) \<Rightarrow> u32 \<Rightarrow> nat \<times> nat \<Rightarrow> int list option" where
  "cells m a kn = (case kn of (k, n) \<Rightarrow> those (map (\<lambda>j. int16 (m (a + word_of_nat (k + j)))) [0..<n]))"

fun veval :: "(u32 \<Rightarrow> int) \<Rightarrow> node \<Rightarrow> int list option" where
  "veval m (ImmediateNode p v) = map_option (\<lambda>v. [v]) (int16 v)"
| "veval m (BinaryArithmeticNode p op l r) =
     Option.bind (veval m l) (\<lambda>as. Option.bind (veval m r) (\<lambda>bs.
     if length as = length bs then those (map2 (binary_value op) as bs) else None))"
| "veval m (UnaryArithmeticNode p op c) = Option.bind (veval m c) (\<lambda>as. those (map (unary_value op) as))"
| "veval m (TupleVectorNode p cs) = map_option concat (those (map (veval m) cs))"
| "veval m (MemoryVectorNode p a s n w i) =
     (if array_ok a s \<and> \<not> w then
        (if direct_access i then Option.bind (index_span s i) (cells m a)
         else
           (case i of
              None \<Rightarrow> None
            | Some x \<Rightarrow>
                (case veval m x of
                   Some [v] \<Rightarrow> if 0 \<le> v \<and> v < uint s then map_option (\<lambda>v. [v]) (int16 (m (a + word_of_int v))) else None
                 | _ \<Rightarrow> None)))
      else None)"
| "veval m _ = None"

lemma those_eq_Some: "those xs = Some ys \<longleftrightarrow> xs = map Some ys"
proof (induction xs arbitrary: ys)
  case (Cons x xs)
  then show ?case by (cases ys) (auto split: option.splits)
qed auto

lemma those_map_Some: "those (map f xs) = Some ys \<longleftrightarrow> list_all2 (\<lambda>x y. f x = Some y) xs ys"
  unfolding those_eq_Some by (simp add: list_all2_conv_all_nth list_eq_iff_nth_eq) auto

section \<open>Accesses at constant indices\<close>

lemma sint_array_size:
  assumes "uint (s :: u32) < 2 ^ 31"
  shows "sint s = uint s"
proof -
  have "signed_take_bit 31 (uint s) = uint s"
    using assms uint_ge_0 [of s] by (intro signed_take_bit_int_eq_self) linarith+
  then show ?thesis by (simp add: sint_uint)
qed

lemma array_okD:
  assumes "array_ok a s"
  shows "uint s < 2 ^ 31" "0 < unat s" "unat a + unat s < 2 ^ 31"
proof -
  from assms have *: "0 < uint s" "uint a + uint s < 2 ^ 31" by (simp_all add: array_ok_def)
  with uint_ge_0 [of a] show "uint s < 2 ^ 31" by linarith
  from * have "int 0 < int (unat s)" "int (unat a + unat s) < int (2 ^ 31)" by simp_all
  then show "0 < unat s" "unat a + unat s < 2 ^ 31" by (simp_all only: of_nat_less_iff)
qed

lemma array_okI:
  assumes "0 < unat s" and "unat a + unat s < 2 ^ 31"
  shows "array_ok a s"
proof -
  have "int 0 < int (unat s)" "int (unat a + unat s) < int (2 ^ 31)"
    using assms by (simp_all only: of_nat_less_iff)
  then show ?thesis by (simp add: array_ok_def)
qed

lemma index_in_iff: "array_ok a s \<Longrightarrow> index_in v s \<longleftrightarrow> 0 \<le> v \<and> v < uint s"
  using sint_array_size [OF array_okD(1)] by (simp add: index_in_def)

lemma nat_less_unat: "0 \<le> v \<Longrightarrow> v < uint s \<Longrightarrow> nat v < unat s"
  by (simp add: nat_less_iff)

lemma index_span_cases:
  assumes "index_span s i = Some (k, n)"
  obtains "i = None" "k = 0" "n = unat s"
  | q q0 v where "i = Some (TupleVectorNode q [ImmediateNode q0 v])" "0 \<le> v" "v < uint s" "k = nat v" "n = 1"
  | q q0 q1 v u where "i = Some (TupleVectorNode q [ImmediateNode q0 v, ImmediateNode q1 u])"
      "0 \<le> v" "v \<le> u" "u < uint s" "k = nat v" "n = Suc (nat (u - v))"
  using assms unfolding index_span_def by (auto split: option.splits node.splits list.splits if_splits)

lemma index_span_bounds:
  "index_span s i = Some (k, n) \<Longrightarrow> 0 < unat s \<Longrightarrow> k + n \<le> unat s \<and> 0 < n \<and> direct_access i"
  by (elim index_span_cases)
    (auto simp: direct_access_def Suc_le_eq nat_less_unat nat_add_distrib [symmetric])

lemma tuple_size_simps:
  "getVectorSize (TupleVectorNode q [ImmediateNode q0 v]) = Inr 1"
  "getVectorSize (TupleVectorNode q [ImmediateNode q0 v, ImmediateNode q1 u]) = Inr 2"
  by simp_all

lemma static_size:
  assumes "index_span s i = Some (k, n)" and "array_ok a s"
  shows "getVectorSize (MemoryVectorNode p a s nm w i) = Inr (word_of_nat n)"
  using assms(1)
proof (cases rule: index_span_cases)
  case (3 q q0 q1 v u)
  have "u < 2 ^ 31 - 1" using 3 array_okD(1) [OF assms(2)] by linarith
  moreover have "(word_of_int (u - v + 1) :: u32) = word_of_nat n" using 3 by (simp add: of_nat_diff)
  ultimately show ?thesis
    using 3 assms(2) by (simp add: nth_immediate_def isImmediateVector_def index_in_iff c_int_def INT_MIN_def INT_MAX_def)
qed (use assms in auto)

lemma static_addr:
  assumes "index_span s i = Some (k, n)" and "array_ok a s"
  shows "getVectorAddr (MemoryVectorNode p a s nm w i) = Inr (a + word_of_nat k)"
  using assms(1)
proof (cases rule: index_span_cases)
  case 1
  then show ?thesis using assms(2) by (simp add: index_in_iff) (simp add: array_ok_def)
qed (use assms(2) in \<open>auto simp: getImmediateValue_def nth_immediate_def isImmediateVector_def index_in_iff\<close>)

lemma unat_add_of_nat: "unat a + n < 2 ^ 32 \<Longrightarrow> unat (a + word_of_nat n :: u32) = unat a + n"
  by (simp add: unat_word_ariths unat_of_nat)

lemma static_element:
  assumes "index_span s i = Some (k, n)" and "array_ok a s" and "j < n"
  shows "expandVectorialNodes fuel (MemoryVectorNode p a s nm w i) (word_of_nat j) st =
    Inr (if w then StoreNode p (a + word_of_nat (k + j)) else LoadNode p (a + word_of_nat (k + j)), st)"
proof -
  from assms have b: "k + n \<le> unat s" "direct_access i" using index_span_bounds array_okD by blast+
  have s: "unat a + unat s < 2 ^ 31" using assms(2) by (rule array_okD)
  have "(word_of_nat j :: u32) < word_of_nat n"
    using assms(3) b(1) s by (simp add: word_less_nat_alt unat_of_nat)
  moreover have "\<not> a + s \<le> a + word_of_nat k + word_of_nat j"
    using s b assms(3) unat_add_of_nat [of a "unat s"] unat_add_of_nat [of a "k + j"]
    by (simp add: word_le_nat_alt add.assoc)
  ultimately show ?thesis
    using b static_size [OF assms(1, 2)] static_addr [OF assms(1, 2)]
    by (simp add: memory_element_def Let_def add.assoc)
qed

section \<open>Elements of a vector\<close>

lemma length_le_concat: "xs \<in> set xss \<Longrightarrow> length xs \<le> length (concat xss)"
  by (induction xss) auto

lemma tuple_size:
  assumes "list_all2 (\<lambda>c vs. getVectorSize c = Inr (word_of_nat (length vs))) cs vss"
  shows "foldR (\<lambda>c s. bindR (getVectorSize c) (\<lambda>k. Inr (s + k))) cs (word_of_nat t) =
    Inr (word_of_nat (t + length (concat vss)))"
  using assms
proof (induction arbitrary: t rule: list_all2_induct)
  case (Cons c cs vs vss)
  then show ?case using Cons.IH [of "t + length vs"] by (simp add: algebra_simps)
qed simp

lemma tuple_child_find:
  assumes "list_all2 (\<lambda>c vs. getVectorSize c = Inr (word_of_nat (length vs))) cs vss"
    and "length (concat vss) < 2 ^ 31" and "j < length (concat vss)"
  shows "\<exists>i<length cs. \<exists>j'<length (vss ! i). tuple_child cs (t + j) t = Inr (cs ! i, word_of_nat j') \<and>
    concat vss ! j = vss ! i ! j'"
  using assms
proof (induction arbitrary: t j rule: list_all2_induct)
  case (Cons c cs vs vss)
  have u: "unat (word_of_nat (length vs) :: u32) = length vs" using Cons.prems(1) by (simp add: unat_of_nat)
  show ?case
  proof (cases "j < length vs")
    case True
    with Cons.hyps u show ?thesis by (intro exI [of _ 0]) (auto simp: nth_append)
  next
    case False
    with Cons.prems have "j - length vs < length (concat vss)" by auto
    from Cons.IH [OF _ this, of "t + length vs"] Cons.prems(1) obtain i j' where
      "i < length cs" "j' < length (vss ! i)" "tuple_child cs (t + length vs + (j - length vs)) (t + length vs) = Inr (cs ! i, word_of_nat j')"
      "concat vss ! (j - length vs) = vss ! i ! j'" by auto
    with False Cons.hyps u show ?thesis by (intro exI [of _ "Suc i"]) (auto simp: nth_append)
  qed
qed simp

lemma same_size_ok: "k < 2 ^ 31 \<Longrightarrow> same_size p (word_of_nat k) (word_of_nat k) = Inr (word_of_nat k)"
  by (simp add: same_size_def)

text \<open>What holds of a vector with the given element values.\<close>

definition expands_to :: "nat \<Rightarrow> expand_state \<Rightarrow> (u32 \<Rightarrow> int) \<Rightarrow> node \<Rightarrow> int list \<Rightarrow> bool" where
  "expands_to fuel st m n vs \<longleftrightarrow> getVectorSize n = Inr (word_of_nat (length vs)) \<and>
     (\<forall>j<length vs. \<exists>n'. expandVectorialNodes fuel n (word_of_nat j) st = Inr (n', st) \<and> eval m n' = Some (vs ! j))"

lemma expands_to_elem:
  assumes "expands_to fuel st m n vs" and "j < length vs"
  obtains n' where "expandVectorialNodes fuel n (word_of_nat j) st = Inr (n', st)" "eval m n' = Some (vs ! j)"
  using assms by (auto simp: expands_to_def)

lemma expands_to_binary:
  assumes "expands_to fuel st m l as" and "expands_to fuel st m r bs"
    and "length as = length bs" and "those (map2 (binary_value op) as bs) = Some vs" and "length vs < 2 ^ 31"
  shows "expands_to fuel st m (BinaryArithmeticNode p op l r) vs"
proof -
  have v: "length vs = length bs" "\<And>j. j < length bs \<Longrightarrow> binary_value op (as ! j) (bs ! j) = Some (vs ! j)"
    using assms(3, 4) by (auto simp: those_map_Some list_all2_conv_all_nth)
  have "\<exists>n'. expandVectorialNodes fuel (BinaryArithmeticNode p op l r) (word_of_nat j) st = Inr (n', st) \<and>
      eval m n' = Some (vs ! j)" if "j < length vs" for j
  proof -
    have j: "j < length as" "j < length bs" using that v(1) assms(3) by simp_all
    obtain l' where l': "expandVectorialNodes fuel l (word_of_nat j) st = Inr (l', st)" "eval m l' = Some (as ! j)"
      by (rule expands_to_elem [OF assms(1) j(1)])
    obtain r' where "expandVectorialNodes fuel r (word_of_nat j) st = Inr (r', st)" "eval m r' = Some (bs ! j)"
      by (rule expands_to_elem [OF assms(2) j(2)])
    with l' v(2) [OF j(2)] show ?thesis by simp
  qed
  moreover have "getVectorSize (BinaryArithmeticNode p op l r) = Inr (word_of_nat (length vs))"
  proof -
    have "getVectorSize l = Inr (word_of_nat (length vs))" "getVectorSize r = Inr (word_of_nat (length vs))"
      using assms(1-3) v(1) unfolding expands_to_def by simp_all
    then show ?thesis using same_size_ok [OF assms(5)] by simp
  qed
  ultimately show ?thesis unfolding expands_to_def by blast
qed

lemma expands_to_unary:
  assumes "expands_to fuel st m c as" and "those (map (unary_value op) as) = Some vs"
  shows "expands_to fuel st m (UnaryArithmeticNode p op c) vs"
proof -
  have v: "length vs = length as" "\<And>j. j < length as \<Longrightarrow> unary_value op (as ! j) = Some (vs ! j)"
    using assms(2) by (auto simp: those_map_Some list_all2_conv_all_nth)
  with assms(1) show ?thesis by (fastforce simp: expands_to_def)
qed

lemma expands_to_tuple:
  assumes "list_all2 (expands_to fuel st m) cs vss" and "length (concat vss) < 2 ^ 31"
  shows "expands_to fuel st m (TupleVectorNode p cs) (concat vss)"
proof -
  have sizes: "list_all2 (\<lambda>c vs. getVectorSize c = Inr (word_of_nat (length vs))) cs vss"
    using assms(1) by (rule list_all2_mono) (simp add: expands_to_def)
  have "\<exists>n'. expandVectorialNodes fuel (TupleVectorNode p cs) (word_of_nat j) st = Inr (n', st) \<and>
      eval m n' = Some (concat vss ! j)" if j: "j < length (concat vss)" for j
  proof -
    obtain i j' where i: "i < length cs" "j' < length (vss ! i)"
      "tuple_child cs j 0 = Inr (cs ! i, word_of_nat j')" "concat vss ! j = vss ! i ! j'"
      using tuple_child_find [OF sizes assms(2) j, of 0] by auto
    moreover have "expands_to fuel st m (cs ! i) (vss ! i)" using assms(1) i(1) by (rule list_all2_nthD)
    moreover have "unat (word_of_nat j :: u32) = j" using j assms(2) by (simp add: unat_of_nat)
    ultimately show ?thesis by (auto simp: expands_to_def)
  qed
  with tuple_size [OF sizes, of 0] show ?thesis by (simp add: expands_to_def)
qed

lemma expands_to_static:
  assumes "index_span s i = Some kn" and "array_ok a s" and "cells m a kn = Some vs"
  shows "expands_to fuel st m (MemoryVectorNode p a s nm False i) vs"
proof -
  obtain k n where kn: "kn = (k, n)" by fastforce
  have v: "length vs = n" "\<And>j. j < n \<Longrightarrow> int16 (m (a + word_of_nat (k + j))) = Some (vs ! j)"
    using assms(3) by (auto simp: kn cells_def those_map_Some list_all2_conv_all_nth)
  then show ?thesis
    using static_size [OF assms(1) [unfolded kn] assms(2)] static_element [OF assms(1) [unfolded kn] assms(2)]
    unfolding expands_to_def by simp
qed

lemma expands_to_indexed:
  assumes "expands_to fuel st m x [v]" and "\<not> direct_access (Some x)"
    and "0 \<le> v" and "v < uint s" and "int16 (m (a + word_of_int v)) = Some u"
  shows "expands_to fuel st m (MemoryVectorNode p a s nm False (Some x)) [u]"
proof -
  have "getVectorSize (MemoryVectorNode p a s nm False (Some x)) = Inr 1"
    using assms(2) by (cases x) (auto simp: direct_access_def)
  moreover obtain x' where "expandVectorialNodes fuel x 0 st = Inr (x', st)" "eval m x' = Some v"
    using assms(1) by (auto simp: expands_to_def)
  ultimately show ?thesis using assms(2-) unfolding expands_to_def by simp
qed

lemma expand_vector: "veval m n = Some vs \<Longrightarrow> length vs < 2 ^ 31 \<Longrightarrow> expands_to fuel st m n vs"
proof (induction m n arbitrary: vs rule: veval.induct)
  case (1 m p v)
  then show ?case by (auto simp: expands_to_def)
next
  case (2 m p op l r)
  from "2.prems"(1) obtain as bs where ab: "veval m l = Some as" "veval m r = Some bs" "length as = length bs"
    "those (map2 (binary_value op) as bs) = Some vs"
    by (auto simp: bind_eq_Some_conv split: if_splits)
  moreover have "length vs = length bs" using ab(3, 4) by (auto simp: those_map_Some dest!: list_all2_lengthD)
  ultimately show ?case using 2 by (intro expands_to_binary) auto
next
  case (3 m p op c)
  from "3.prems"(1) obtain as where "veval m c = Some as" "those (map (unary_value op) as) = Some vs"
    by (auto simp: bind_eq_Some_conv)
  moreover from this have "length vs = length as" by (auto simp: those_map_Some dest!: list_all2_lengthD)
  ultimately show ?case using 3 by (intro expands_to_unary) auto
next
  case (4 m p cs)
  from "4.prems"(1) obtain vss where vss: "list_all2 (\<lambda>c vs. veval m c = Some vs) cs vss" "vs = concat vss"
    by (auto simp: those_map_Some)
  have "list_all2 (expands_to fuel st m) cs vss"
  proof (rule list_all2_all_nthI)
    show "length cs = length vss" using vss(1) by (rule list_all2_lengthD)
    fix i assume i: "i < length cs"
    then have "length (vss ! i) \<le> length (concat vss)"
      using list_all2_lengthD [OF vss(1)] by (intro length_le_concat nth_mem) simp
    with 4 vss i show "expands_to fuel st m (cs ! i) (vss ! i)"
      using list_all2_nthD [OF vss(1) i] by simp
  qed
  with 4 vss show ?case using expands_to_tuple by simp
next
  case (5 m p a s n w i)
  show ?case
  proof (cases "direct_access i")
    case True
    with "5.prems"(1) show ?thesis by (auto simp: bind_eq_Some_conv split: if_splits intro: expands_to_static)
  next
    case False
    with "5.prems"(1) show ?thesis
      using 5(1)
      by (auto simp: split: if_splits option.splits list.splits intro!: expands_to_indexed)
  qed
qed auto

text \<open>The elements of a vector expression have its values: when a vector expression denotes a list of
  values, its size is the length of the list, and each element that the second pass makes of it is a scalar
  expression with the value at that position; making an element allocates nothing.\<close>

theorem expand_element_value:
  assumes "veval m n = Some vs" and "length vs < 2 ^ 31" and "j < length vs"
  shows "getVectorSize n = Inr (word_of_nat (length vs)) \<and>
    (\<exists>n'. expandVectorialNodes fuel n (word_of_nat j) st = Inr (n', st) \<and> eval m n' = Some (vs ! j))"
  using expand_vector [OF assms(1, 2)] assms(3) by (simp add: expands_to_def)

section \<open>Arrays that a vector expression reads\<close>

function arrays :: "node \<Rightarrow> (u32 \<times> u32 \<times> wstring) list" where
  "arrays n = (case n of MemoryVectorNode p a s name w i \<Rightarrow> [(a, s, name)] | _ \<Rightarrow> []) @ concat (map arrays (children n))"
  by auto
termination
  by (relation "measure size") (auto dest: children_size)

declare arrays.simps [simp del]

lemma arrays_simps [simp]:
  "arrays (ImmediateNode p v) = []"
  "arrays (BinaryArithmeticNode p op l r) = arrays l @ arrays r"
  "arrays (UnaryArithmeticNode p uop c) = arrays c"
  "arrays (TupleVectorNode p cs) = concat (map arrays cs)"
  "arrays (MemoryVectorNode p a s n w i) = (a, s, n) # (case i of None \<Rightarrow> [] | Some x \<Rightarrow> arrays x)"
  by (subst arrays.simps; simp split: option.split)+

definition names :: "node \<Rightarrow> wstring set" where
  "names n = (\<lambda>(a, s, name). name) ` set (arrays n)"

lemma names_rec:
  "names n = (case n of MemoryVectorNode p a s name w i \<Rightarrow> {name} | _ \<Rightarrow> {}) \<union> \<Union> (names ` set (children n))"
proof -
  have "(\<lambda>(a, s, name). name) ` set (case n of MemoryVectorNode p a s name w i \<Rightarrow> [(a, s, name)] | _ \<Rightarrow> []) =
      (case n of MemoryVectorNode p a s name w i \<Rightarrow> {name} | _ \<Rightarrow> {})"
    by (cases n) simp_all
  then show ?thesis
    unfolding names_def by (subst arrays.simps) (simp only: set_append set_concat set_map image_Un image_Union image_image)
qed

lemma matchName_names: "matchNameInMemoryVector n name \<longleftrightarrow> name \<in> names n"
proof (induction n rule: arrays.induct)
  case (1 n)
  then have "list_ex (\<lambda>c. matchNameInMemoryVector c name) (children n) \<longleftrightarrow> (\<exists>c\<in>set (children n). name \<in> names c)"
    by (simp add: list_ex_iff)
  moreover have "(case n of MemoryVectorNode p a s nm w i \<Rightarrow> nm = name | _ \<Rightarrow> False) \<longleftrightarrow>
      name \<in> (case n of MemoryVectorNode p a s name w i \<Rightarrow> {name} | _ \<Rightarrow> {})"
    by (cases n) auto
  ultimately show ?case
    by (subst matchNameInMemoryVector.simps, subst names_rec) (simp only: Un_iff UN_iff)
qed

definition in_range :: "u32 \<Rightarrow> u32 \<Rightarrow> u32 \<Rightarrow> bool" where
  "in_range a s x \<longleftrightarrow> unat a \<le> unat x \<and> unat x < unat a + unat s"

definition agree :: "(u32 \<Rightarrow> int) \<Rightarrow> (u32 \<Rightarrow> int) \<Rightarrow> node \<Rightarrow> bool" where
  "agree m m' n \<longleftrightarrow> (\<forall>(a, s, name)\<in>set (arrays n). \<forall>x. in_range a s x \<longrightarrow> m' x = m x)"

lemma cells_agree:
  assumes "array_ok a s" and "k + n \<le> unat s" and "\<forall>x. in_range a s x \<longrightarrow> m' x = m x"
  shows "cells m' a (k, n) = cells m a (k, n)"
proof -
  have "m' (a + word_of_nat (k + j)) = m (a + word_of_nat (k + j))" if "j < n" for j
    using that assms(2, 3) array_okD(3) [OF assms(1)] unat_add_of_nat [of a "k + j"] by (simp add: in_range_def)
  then show ?thesis
    unfolding cells_def prod.case by (intro arg_cong [where f = those] map_cong refl) simp
qed

lemma veval_agree: "veval m n = Some vs \<Longrightarrow> agree m m' n \<Longrightarrow> veval m' n = Some vs"
proof (induction m n arbitrary: vs rule: veval.induct)
  case (2 m p op l r)
  then have "agree m m' l" "agree m m' r" by (auto simp: agree_def)
  with 2 show ?case by (fastforce simp: bind_eq_Some_conv split: if_splits)
next
  case (3 m p op c)
  then have "agree m m' c" by (auto simp: agree_def)
  with 3 show ?case by (fastforce simp: bind_eq_Some_conv)
next
  case (4 m p cs)
  then have "agree m m' c" if "c \<in> set cs" for c using that by (auto simp: agree_def)
  with 4 show ?case by (fastforce simp: those_map_Some list_all2_conv_all_nth)
next
  case (5 m p a s n w i)
  from 5(3) have ag: "\<forall>x. in_range a s x \<longrightarrow> m' x = m x" by (simp add: agree_def)
  from 5(2) have ok: "array_ok a s" "\<not> w" by (auto split: if_splits)
  show ?case
  proof (cases "direct_access i")
    case True
    with 5(2) ok obtain k l where "index_span s i = Some (k, l)" "cells m a (k, l) = Some vs"
      by (auto simp: bind_eq_Some_conv)
    with True ok show ?thesis
      using cells_agree [OF ok(1) _ ag] index_span_bounds array_okD(2) [OF ok(1)] by simp
  next
    case False
    with 5(2) ok obtain x v where x: "i = Some x" "veval m x = Some [v]" "0 \<le> v" "v < uint s"
      "map_option (\<lambda>v. [v]) (int16 (m (a + word_of_int v))) = Some vs"
      by (auto split: option.splits list.splits if_splits)
    have "agree m m' x" using 5(3) x(1) by (simp add: agree_def)
    then have "veval m' x = Some [v]" using 5(1) [OF conjI [OF ok] False x(1)] x(2) by blast
    moreover have "in_range a s (a + word_of_int v)"
      using unat_add_of_nat [of a "nat v"] array_okD(3) [OF ok(1)] nat_less_unat [OF x(3, 4)] x(3)
      by (simp add: in_range_def)
    ultimately show ?thesis using False ok x ag by simp
  qed
qed auto

section \<open>Execution of assignments\<close>

fun exec :: "(u32 \<Rightarrow> int) \<Rightarrow> node \<Rightarrow> (u32 \<Rightarrow> int) option"
and exec_list :: "(u32 \<Rightarrow> int) \<Rightarrow> node list \<Rightarrow> (u32 \<Rightarrow> int) option" where
  "exec m (AssignmentNode p (StoreNode q a) r) = map_option (\<lambda>v. m(a := v)) (eval m r)"
| "exec m (AssignmentNode p (ArrayWriteNode q a s n i) r) =
     Option.bind (eval m r) (\<lambda>v. Option.bind (eval m i) (\<lambda>k.
     if 0 \<le> k \<and> k < uint s then Some (m(a + word_of_int k := v)) else None))"
| "exec m (BlockNode p cs) = exec_list m cs"
| "exec m _ = None"
| "exec_list m [] = Some m"
| "exec_list m (c # cs) = Option.bind (exec m c) (\<lambda>m'. exec_list m' cs)"

lemma exec_list_append: "exec_list m (xs @ ys) = Option.bind (exec_list m xs) (\<lambda>m'. exec_list m' ys)"
  by (induction xs arbitrary: m) (auto simp: bind_assoc)

text \<open>The memory with a list of values stored from the \<open>k\<close>-th word after \<open>a\<close> on.\<close>

definition stored :: "(u32 \<Rightarrow> int) \<Rightarrow> u32 \<Rightarrow> nat \<Rightarrow> int list \<Rightarrow> u32 \<Rightarrow> int" where
  "stored m a k vs x =
     (if unat a + k \<le> unat x \<and> unat x < unat a + k + length vs then vs ! (unat x - unat a - k) else m x)"

lemma stored_Nil [simp]: "stored m a k [] = m"
  by (simp add: stored_def fun_eq_iff)

lemma stored_snoc:
  assumes "unat a + k + length vs < 2 ^ 32"
  shows "(stored m a k vs)(a + word_of_nat (k + length vs) := v) = stored m a k (vs @ [v])"
proof
  fix x
  have u: "unat (a + word_of_nat (k + length vs)) = unat a + k + length vs"
    using assms unat_add_of_nat [of a "k + length vs"] by simp
  show "((stored m a k vs)(a + word_of_nat (k + length vs) := v)) x = stored m a k (vs @ [v]) x"
  proof (cases "x = a + word_of_nat (k + length vs)")
    case True
    then show ?thesis using u by (simp add: stored_def)
  next
    case False
    then have "unat x \<noteq> unat a + k + length vs" using u by (metis word_unat_eq_iff)
    with False show ?thesis by (auto simp: stored_def nth_append)
  qed
qed

lemma exec_stores:
  assumes "unat a + k + length vs < 2 ^ 32"
    and "\<And>j. j < length vs \<Longrightarrow> eval (stored m a k (take j vs)) (g j) = Some (vs ! j)"
  shows "j \<le> length vs \<Longrightarrow>
    exec_list m (map (\<lambda>j. AssignmentNode p (StoreNode q (a + word_of_nat (k + j))) (g j)) [0..<j]) =
      Some (stored m a k (take j vs))"
proof (induction j)
  case (Suc j)
  have "(stored m a k (take j vs))(a + word_of_nat (k + j) := vs ! j) = stored m a k (take (Suc j) vs)"
    using stored_snoc [of a k "take j vs" m "vs ! j"] Suc.prems assms(1) by (simp add: take_Suc_conv_app_nth)
  with Suc assms(2) show ?case by (simp add: exec_list_append del: of_nat_add)
qed simp

lemma mapS_pure:
  "(\<And>x. x \<in> set xs \<Longrightarrow> f x st = Inr (g x, st)) \<Longrightarrow> mapS f xs st = Inr (map g xs, st)"
  by (induction xs) auto

text \<open>The elements of a vector as scalar expressions, which have its values in every memory.\<close>

lemma elements_of:
  assumes "veval m r = Some vs" and "length vs < 2 ^ 31"
  obtains g where "\<And>j. j < length vs \<Longrightarrow> expandVectorialNodes fuel r (word_of_nat j) st = Inr (g j, st)"
    and "\<And>m' j. veval m' r = Some vs \<Longrightarrow> j < length vs \<Longrightarrow> eval m' (g j) = Some (vs ! j)"
proof -
  have "\<forall>j<length vs. \<exists>n'. expandVectorialNodes fuel r (word_of_nat j) st = Inr (n', st)"
    using expand_vector [OF assms, of fuel st] unfolding expands_to_def by blast
  then obtain g where g: "\<And>j. j < length vs \<Longrightarrow> expandVectorialNodes fuel r (word_of_nat j) st = Inr (g j, st)"
    by metis
  moreover have "eval m' (g j) = Some (vs ! j)" if h: "veval m' r = Some vs" "j < length vs" for m' j
  proof -
    obtain n' where "expandVectorialNodes fuel r (word_of_nat j) st = Inr (n', st)" "eval m' n' = Some (vs ! j)"
      by (rule expands_to_elem [OF expand_vector [OF h(1) assms(2)] h(2)])
    with g [OF h(2)] show ?thesis by simp
  qed
  ultimately show thesis by (rule that)
qed

lemma direct_assignment:
  assumes "index_span s i = Some (k, n)" and "array_ok a s" and "veval m r = Some vs" and "length vs = n"
    and "needs_temporary (MemoryVectorNode q a s name True i) name r = Inr False"
    and "\<And>j. j < n \<Longrightarrow> veval (stored m a k (take j vs)) r = Some vs"
  shows "\<exists>b. expandVectorialNodes fuel (AssignmentNode p (MemoryVectorNode q a s name w i) r) index st = Inr (b, st) \<and>
    exec m b = Some (stored m a k vs)"
proof -
  have b: "k + n \<le> unat s" "unat a + unat s < 2 ^ 31"
    using index_span_bounds [OF assms(1)] array_okD [OF assms(2)] by auto
  then have u: "unat (word_of_nat n :: u32) = n" and len: "length vs < 2 ^ 31" using assms(4) by (simp_all add: unat_of_nat)
  obtain g where g: "\<And>j. j < length vs \<Longrightarrow> expandVectorialNodes fuel r (word_of_nat j) st = Inr (g j, st)"
    "\<And>m' j. veval m' r = Some vs \<Longrightarrow> j < length vs \<Longrightarrow> eval m' (g j) = Some (vs ! j)"
    by (rule elements_of [OF assms(3) len, where fuel = fuel and st = st]) blast
  let ?h = "\<lambda>j. AssignmentNode p (StoreNode q (a + word_of_nat (k + j))) (g j)"
  have "expandVectorialNodes fuel (AssignmentNode p (MemoryVectorNode q a s name w i) r) index st =
      Inr (BlockNode p (map ?h [0..<n]), st)"
    unfolding expandVectorialNodes.simps(1) Let_def assms(5) bindR_Inr if_False static_size [OF assms(1, 2)] u
    by (subst mapS_pure [where g = ?h]) (use static_element [OF assms(1, 2)] g(1) assms(4) in \<open>auto simp del: of_nat_add\<close>)
  moreover have "exec_list m (map ?h [0..<n]) = Some (stored m a k vs)"
    using exec_stores [of a k vs m g n p q] b assms(4, 6) g(2) by simp
  ultimately show ?thesis by (intro exI [of _ "BlockNode p (map ?h [0..<n])"]) simp
qed

section \<open>Temporary variables\<close>

definition temp_start :: "expand_state \<Rightarrow> nat" where
  "temp_start st = unat (variablesSize (targetDescription (fst st))) - unat (endVariableIndex (fst st))"

definition space_ok :: "expand_state \<Rightarrow> bool" where
  "space_ok st \<longleftrightarrow> (case st of (c, uid) \<Rightarrow>
     unat (freeVariableIndex c) + unat (endVariableIndex c) \<le> unat (variablesSize (targetDescription c)) \<and>
     unat (variablesSize (targetDescription c)) < 2 ^ 31)"

definition space_left :: "expand_state \<Rightarrow> nat" where
  "space_left st = temp_start st - unat (freeVariableIndex (fst st))"

text \<open>An array is placed below the free memory or in the temporary memory.\<close>

definition placed :: "expand_state \<Rightarrow> u32 \<Rightarrow> u32 \<Rightarrow> bool" where
  "placed st a s \<longleftrightarrow> unat a + unat s \<le> unat (freeVariableIndex (fst st)) \<or> temp_start st \<le> unat a"

definition grown :: "expand_state \<Rightarrow> expand_state \<Rightarrow> bool" where
  "grown st st' \<longleftrightarrow> space_ok st' \<and> temp_start st' \<le> temp_start st \<and>
     freeVariableIndex (fst st') = freeVariableIndex (fst st)"

lemma grown_trans: "grown a b \<Longrightarrow> grown b c \<Longrightarrow> grown a c"
  by (simp add: grown_def)

lemma grown_placed: "grown st st' \<Longrightarrow> placed st a s \<Longrightarrow> placed st' a s"
  by (auto simp: grown_def placed_def)

lemma grown_space: "grown st st' \<Longrightarrow> space_left st' \<le> space_left st"
  by (auto simp: grown_def space_left_def)

lemma allocate_temporary:
  assumes "space_ok st" and "getVectorSize r = Inr (word_of_nat n)" and "0 < n" and "n < 2 ^ 31"
  shows "if n \<le> space_left st
    then \<exists>addr name st'. allocateTemporaryVariable p r st =
        Inr ((MemoryVectorNode p addr (word_of_nat n) name False None, r), st') \<and> grown st st' \<and>
      temp_start st' = unat addr \<and> temp_start st = unat addr + n \<and> array_ok addr (word_of_nat n)
    else allocateTemporaryVariable p r st = Inl (TranslatableError p ERROR_NOT_ENOUGH_TEMP_SPACE [])"
proof -
  obtain c uid where st: "st = (c, uid)" by fastforce
  define V E F where "V = variablesSize (targetDescription c)" and "E = endVariableIndex c" and "F = freeVariableIndex c"
  have ok: "unat F + unat E \<le> unat V" "unat V < 2 ^ 31" using assms(1) by (simp_all add: space_ok_def st V_def E_def F_def)
  have n: "unat (word_of_nat n :: u32) = n" using assms(4) by (simp add: unat_of_nat)
  have En: "unat (E + word_of_nat n) = unat E + n" using unat_add_of_nat [of E n] ok assms(4) by simp
  have FEn: "unat (F + (E + word_of_nat n)) = unat F + unat E + n"
    using unat_add_lem [of F "E + word_of_nat n"] En ok assms(4) by simp
  have left: "space_left st = unat V - unat E - unat F" by (simp add: space_left_def temp_start_def st V_def E_def F_def)
  have alloc: "allocateTemporaryVariable p r st =
      (if V < F + (E + word_of_nat n) then Inl (TranslatableError p ERROR_NOT_ENOUGH_TEMP_SPACE [])
       else Inr ((MemoryVectorNode p (V - E - word_of_nat n) (word_of_nat n) (ws ''temp'' @ decimal (unat uid)) False None, r),
         (c\<lparr>endVariableIndex := E + word_of_nat n\<rparr>, uid + 1)))"
    using assms(2) by (simp add: allocateTemporaryVariable_def allocateTemporaryMemory_def Let_def st V_def E_def F_def)
  show ?thesis
  proof (cases "n \<le> space_left st")
    case True
    then have le: "unat F + unat E + n \<le> unat V" using left ok by linarith
    then have nl: "\<not> V < F + (E + word_of_nat n)" by (simp add: word_less_nat_alt FEn)
    have "unat (V - E) = unat V - unat E" using ok by (intro unat_sub) (simp add: word_le_nat_alt)
    then have addr: "unat (V - E - word_of_nat n) = unat V - unat E - n"
      using le n unat_sub [of "word_of_nat n" "V - E"] by (simp add: word_le_nat_alt)
    have "array_ok (V - E - word_of_nat n) (word_of_nat n)"
      using addr n le ok assms(3) by (intro array_okI) simp_all
    moreover have "grown st (c\<lparr>endVariableIndex := E + word_of_nat n\<rparr>, uid + 1)"
      using le ok En by (simp add: grown_def space_ok_def temp_start_def st V_def [symmetric] F_def [symmetric] E_def [symmetric])
    moreover have "temp_start (c\<lparr>endVariableIndex := E + word_of_nat n\<rparr>, uid + 1) = unat (V - E - word_of_nat n)"
      "temp_start st = unat (V - E - word_of_nat n) + n"
      using addr En le by (simp_all add: temp_start_def st V_def [symmetric] E_def [symmetric])
    ultimately show ?thesis using True alloc nl by auto
  next
    case False
    then have "V < F + (E + word_of_nat n)" using left ok FEn by (simp add: word_less_nat_alt)
    with False alloc show ?thesis by simp
  qed
qed

section \<open>Assignments of vectors\<close>

text \<open>The assigned array is apart from the arrays of another name that are read, and all are placed.\<close>

definition laid_out :: "expand_state \<Rightarrow> u32 \<Rightarrow> u32 \<Rightarrow> wstring \<Rightarrow> node \<Rightarrow> bool" where
  "laid_out st a s name r \<longleftrightarrow> placed st a s \<and>
     (\<forall>(b, t, nm)\<in>set (arrays r). placed st b t \<and>
       (nm \<noteq> name \<longrightarrow> unat b + unat t \<le> unat a \<or> unat a + unat s \<le> unat b))"

text \<open>An assignment of vectors as its expansion leaves it: the block stores the values, changes no word but the
  assigned ones and newly allocated temporary memory, or there was not enough temporary memory.\<close>

definition assigns :: "(u32 \<Rightarrow> int) \<Rightarrow> source_pos \<Rightarrow> u32 \<Rightarrow> nat \<Rightarrow> int list \<Rightarrow> expand_state \<Rightarrow>
    failure + node \<times> expand_state \<Rightarrow> bool" where
  "assigns m p a k vs st res \<longleftrightarrow>
     (case res of
        Inl e \<Rightarrow> e = TranslatableError p ERROR_NOT_ENOUGH_TEMP_SPACE []
      | Inr (b, st') \<Rightarrow> grown st st' \<and> (\<exists>m'. exec m b = Some m' \<and>
          (\<forall>x. unat x < temp_start st' \<or> temp_start st \<le> unat x \<longrightarrow> m' x = stored m a k vs x)))"

lemma stored_agree:
  assumes "array_ok a s" and "k + length vs \<le> unat s" and "laid_out st a s name r" and "name \<notin> names r"
  shows "agree m (stored m a k vs) r"
proof -
  have "unat b + unat t \<le> unat a \<or> unat a + unat s \<le> unat b" if "(b, t, nm) \<in> set (arrays r)" for b t nm
    using assms(3, 4) that by (force simp: laid_out_def names_def)
  then show ?thesis using assms(2) by (fastforce simp: agree_def in_range_def stored_def)
qed

lemma veval_range:
  assumes "veval m n = Some vs" and "length vs < 2 ^ 31" and "j < length vs"
  shows "int16 (vs ! j) = Some (vs ! j)"
  using expands_to_elem [OF expand_vector [OF assms(1, 2)] assms(3)] eval_range by (metis int16_Some)

lemma veval_temporary:
  assumes "array_ok a (word_of_nat n)" and "n < 2 ^ 31" and "length vs = n"
    and "\<And>j. j < n \<Longrightarrow> int16 (vs ! j) = Some (vs ! j)"
    and "\<And>x. in_range a (word_of_nat n) x \<Longrightarrow> m x = stored m0 a 0 vs x"
  shows "veval m (MemoryVectorNode p a (word_of_nat n) name False None) = Some vs"
proof -
  have n: "unat (word_of_nat n :: u32) = n" using assms(2) by (simp add: unat_of_nat)
  have "m (a + word_of_nat j) = vs ! j" if "j < n" for j
    using assms(3) assms(5) [of "a + word_of_nat j"] unat_add_of_nat [of a j] array_okD(3) [OF assms(1)] n that
    by (simp add: in_range_def stored_def)
  then have "cells m a (0, n) = Some vs"
    using assms(3, 4) by (simp add: cells_def those_map_Some list_all2_conv_all_nth)
  then show ?thesis using assms(1) n by (simp add: direct_access_def index_span_def)
qed

lemma needs_temporary_iff:
  assumes "index_span s i = Some (k, n)" and "array_ok a s"
  shows "needs_temporary (MemoryVectorNode q a s name w i) name r = Inr (name \<in> names r \<and> 1 < n)"
proof -
  have "n < 2 ^ 32"
    using index_span_bounds [OF assms(1) array_okD(2) [OF assms(2)]] array_okD(3) [OF assms(2)] by auto
  then have "(1 :: u32) < word_of_nat n \<longleftrightarrow> 1 < n" by (simp add: word_less_nat_alt unat_of_nat)
  then show ?thesis by (simp add: needs_temporary_def matchName_names static_size [OF assms])
qed

lemma free_below_temp: "space_ok st \<Longrightarrow> unat (freeVariableIndex (fst st)) \<le> temp_start st"
  by (auto simp: space_ok_def temp_start_def)

lemma laid_out_temporary:
  assumes "laid_out st a s name r" and "grown st st1" and "temp_start st1 = unat addr" and "temp_start st = unat addr + n"
    and "n < 2 ^ 31"
  shows "laid_out st1 addr (word_of_nat n) tname r"
    and "laid_out st1 a s name (MemoryVectorNode p addr (word_of_nat n) tname False None)"
proof -
  have n: "unat (word_of_nat n :: u32) = n" using assms(5) by (simp add: unat_of_nat)
  have free: "unat (freeVariableIndex (fst st)) \<le> unat addr"
    using free_below_temp [of st1] assms(2, 3) by (simp add: grown_def)
  have apart: "unat b + unat t \<le> unat addr \<or> unat addr + n \<le> unat b" if "placed st b t" for b t
    using that free assms(4) by (auto simp: placed_def)
  have new: "placed st1 addr (word_of_nat n)" using assms(3) by (simp add: placed_def)
  show "laid_out st1 addr (word_of_nat n) tname r"
    using assms(1) new apart grown_placed [OF assms(2)] n by (fastforce simp: laid_out_def)
  show "laid_out st1 a s name (MemoryVectorNode p addr (word_of_nat n) tname False None)"
    using assms(1) new apart [of a s] grown_placed [OF assms(2)] n by (auto simp: laid_out_def)
qed

lemma laid_out_grown: "laid_out st a s name r \<Longrightarrow> grown st st' \<Longrightarrow> laid_out st' a s name r"
  by (auto simp: laid_out_def dest: grown_placed)

lemma assigns_sequence:
  assumes "assigns m p addr 0 vs st1 (expandVectorialNodes fuel A1 0 st1)"
    and "\<And>m1 st2. grown st1 st2 \<Longrightarrow>
      (\<forall>x. unat x < temp_start st2 \<or> temp_start st1 \<le> unat x \<longrightarrow> m1 x = stored m addr 0 vs x) \<Longrightarrow>
      assigns m1 p a k vs st2 (expandVectorialNodes fuel A2 0 st2)"
    and "grown st st1" and "temp_start st1 = unat addr" and "temp_start st = unat addr + length vs"
  shows "assigns m p a k vs st (expandVectorialNodes fuel (BlockNode p [A1, A2]) 0 st1)"
proof (cases "expandVectorialNodes fuel A1 0 st1")
  case (Inl e)
  with assms(1) show ?thesis by (simp add: assigns_def)
next
  case (Inr r1)
  obtain b1 st2 where r1: "r1 = (b1, st2)" by (rule prod.exhaust)
  with Inr assms(1) obtain m1 where g2: "grown st1 st2" and m1: "exec m b1 = Some m1"
    "\<forall>x. unat x < temp_start st2 \<or> temp_start st1 \<le> unat x \<longrightarrow> m1 x = stored m addr 0 vs x"
    by (auto simp: assigns_def)
  show ?thesis
  proof (cases "expandVectorialNodes fuel A2 0 st2")
    case (Inl e)
    with Inr r1 assms(2) [OF g2 m1(2)] show ?thesis by (simp add: assigns_def)
  next
    case inr2: (Inr r2)
    obtain b2 st3 where r2: "r2 = (b2, st3)" by (rule prod.exhaust)
    with inr2 assms(2) [OF g2 m1(2)] obtain m2 where g3: "grown st2 st3" and m2: "exec m1 b2 = Some m2"
      "\<forall>x. unat x < temp_start st3 \<or> temp_start st2 \<le> unat x \<longrightarrow> m2 x = stored m1 a k vs x"
      by (auto simp: assigns_def)
    have "m2 x = stored m a k vs x" if "unat x < temp_start st3 \<or> temp_start st \<le> unat x" for x
    proof -
      have le: "temp_start st3 \<le> temp_start st2" "temp_start st2 \<le> temp_start st1" "temp_start st1 \<le> temp_start st"
        using g2 g3 assms(3) by (simp_all add: grown_def)
      then have "m2 x = stored m1 a k vs x" using m2(2) that by auto
      moreover have "m1 x = stored m addr 0 vs x" using m1(2) that le by auto
      moreover have "stored m addr 0 vs x = m x" using that assms(4, 5) le by (auto simp: stored_def)
      ultimately show ?thesis by (simp add: stored_def)
    qed
    moreover have "grown st st3" using grown_trans assms(3) g2 g3 by blast
    ultimately show ?thesis using Inr inr2 r1 r2 m1(1) m2(1) by (simp add: assigns_def)
  qed
qed

lemma assignment_assigns:
  assumes "index_span s i = Some (k, n)" and "array_ok a s" and "veval m r = Some vs" and "length vs = n"
    and "laid_out st a s name r" and "space_ok st" and "space_left st < fuel"
  shows "assigns m p a k vs st (expandVectorialNodes fuel (AssignmentNode p (MemoryVectorNode q a s name w i) r) index st)"
  using assms
proof (induction fuel arbitrary: s i k n a m r st name q w index)
  case (Suc fuel)
  note prems = Suc.prems
  have b: "k + n \<le> unat s" "0 < n" "unat a + unat s < 2 ^ 31" 
    using index_span_bounds [OF prems(1) array_okD(2) [OF prems(2)]] array_okD(3) [OF prems(2)] by auto
  then have n31: "n < 2 ^ 31" by linarith
  then have n: "unat (word_of_nat n :: u32) = n" and len: "length vs < 2 ^ 31" using prems(4) by (simp_all add: unat_of_nat)
  have left: "needs_temporary (MemoryVectorNode q a s name True i) name r = Inr (name \<in> names r \<and> 1 < n)"
    by (rule needs_temporary_iff [OF prems(1, 2)])
  show ?case
  proof (cases "name \<in> names r \<and> 1 < n")
    case False
    have "veval (stored m a k (take j vs)) r = Some vs" if "j < n" for j
    proof (cases "name \<in> names r")
      case True
      with False that have "j = 0" by simp
      then show ?thesis using prems(3) by simp
    next
      case notin: False
      show ?thesis
        using b prems(4) by (intro veval_agree [OF prems(3)] stored_agree [OF prems(2) _ prems(5) notin]) simp
    qed
    moreover have "needs_temporary (MemoryVectorNode q a s name True i) name r = Inr False"
      using left False by auto
    ultimately have "\<exists>b. expandVectorialNodes (Suc fuel) (AssignmentNode p (MemoryVectorNode q a s name w i) r) index st =
        Inr (b, st) \<and> exec m b = Some (stored m a k vs)"
      by (intro direct_assignment [OF prems(1-4)])
    then
    show ?thesis using prems(6) by (auto simp: assigns_def grown_def)
  next
    case True
    then have temp: "needs_temporary (MemoryVectorNode q a s name True i) name r = Inr True" using left by simp
    have sz: "getVectorSize r = Inr (word_of_nat n)"
      using expand_vector [OF prems(3) len] prems(4) by (simp add: expands_to_def)
    show ?thesis
    proof (cases "n \<le> space_left st")
      case False
      then show ?thesis
        using allocate_temporary [OF prems(6) sz b(2) n31, of p] temp by (simp add: Let_def assigns_def)
    next
      case enough: True
      then obtain addr tname st1 where al: "allocateTemporaryVariable p r st =
          Inr ((MemoryVectorNode p addr (word_of_nat n) tname False None, r), st1)" "grown st st1"
        "temp_start st1 = unat addr" "temp_start st = unat addr + n" "array_ok addr (word_of_nat n)"
        using allocate_temporary [OF prems(6) sz b(2) n31, of p] by auto
      let ?t = "MemoryVectorNode p addr (word_of_nat n) tname False None"
      have span: "index_span (word_of_nat n) None = Some (0, n)" using n by (simp add: index_span_def)
      have ok1: "space_ok st1" using al(2) by (simp add: grown_def)
      have less: "space_left st1 < fuel"
        using al prems(7) enough b(2) by (auto simp: space_left_def grown_def)
      have A1: "assigns m p addr 0 vs st1 (expandVectorialNodes fuel (AssignmentNode p ?t r) 0 st1)"
        by (rule Suc.IH [OF span al(5) prems(3, 4) laid_out_temporary(1) [OF prems(5) al(2-4) n31] ok1 less])
      have A2: "assigns m1 p a k vs st2 (expandVectorialNodes fuel (AssignmentNode p (MemoryVectorNode q a s name True i) ?t) 0 st2)"
        if g2: "grown st1 st2" and m1: "\<forall>x. unat x < temp_start st2 \<or> temp_start st1 \<le> unat x \<longrightarrow> m1 x = stored m addr 0 vs x"
        for m1 st2
      proof (rule Suc.IH [OF prems(1, 2) _ prems(4)])
        show "veval m1 ?t = Some vs"
          using veval_range [OF prems(3) len] prems(4) m1 al(3)
          by (intro veval_temporary [OF al(5) n31 prems(4), of m1 m]) (auto simp: in_range_def)
        show "laid_out st2 a s name ?t"
          by (rule laid_out_grown [OF laid_out_temporary(2) [OF prems(5) al(2-4) n31] g2])
        show "space_ok st2" "space_left st2 < fuel"
          using g2 grown_space [OF g2] less by (simp_all add: grown_def)
      qed
      have eq: "expandVectorialNodes (Suc fuel) (AssignmentNode p (MemoryVectorNode q a s name w i) r) index st =
          expandVectorialNodes fuel (BlockNode p [AssignmentNode p ?t r, AssignmentNode p (MemoryVectorNode q a s name True i) ?t]) 0 st1"
        unfolding expandVectorialNodes.simps(1) Let_def temp bindR_Inr if_True nat.case al(1) prod.case ..
      have "temp_start st = unat addr + length vs" using al(4) prems(4) by simp
      then show ?thesis
        by (subst eq, intro assigns_sequence [OF A1 _ al(2, 3)] A2)
    qed
  qed
qed simp

text \<open>C6: An assignment of vectors stores all values as they were before it: for a right side that denotes a list of
  values, an array and its indices that hold as many, arrays of different names at different places and fuel for the
  temporary memory that is left, the second pass ends; it reports a lack of temporary memory, or it makes a block
  of assignments which, executed in any such memory, stores the values at the indices and changes nothing else
  but newly allocated temporary memory, also where the array is read on the right.\<close>

theorem vector_assignment_simultaneous:
  assumes "index_span s i = Some (k, length vs)" and "array_ok a s" and "veval m r = Some vs"
    and "laid_out st a s name r" and "space_ok st" and "space_left st < fuel"
  shows "case expandVectorialNodes fuel (AssignmentNode p (MemoryVectorNode q a s name w i) r) index st of
      Inl e \<Rightarrow> e = TranslatableError p ERROR_NOT_ENOUGH_TEMP_SPACE []
    | Inr (b, st') \<Rightarrow> \<exists>m'. exec m b = Some m' \<and>
        (\<forall>x. unat x < temp_start st' \<or> temp_start st \<le> unat x \<longrightarrow> m' x = stored m a k vs x)"
  using assignment_assigns [OF assms(1-3) refl assms(4-6), of p q w index]
  by (auto simp: assigns_def split: sum.splits)

text \<open>The assignment \<open>a = [a[1], a[0]]\<close>.\<close>

definition swap_state :: expand_state where
  "swap_state = (sample_compiler\<lparr>freeVariableIndex := 12\<rparr>, 0)"

definition swap_right :: node where
  "swap_right = TupleVectorNode no_pos
     [MemoryVectorNode no_pos 10 2 (ws ''a'') False (Some (TupleVectorNode no_pos [ImmediateNode no_pos 1])),
      MemoryVectorNode no_pos 10 2 (ws ''a'') False (Some (TupleVectorNode no_pos [ImmediateNode no_pos 0]))]"

lemma array_ok_sample: "array_ok 10 2"
  by (simp add: array_ok_def)

lemma veval_swap: "veval (\<lambda>x. int (unat x)) swap_right = Some [11, 10]"
  by (simp add: swap_right_def array_ok_sample direct_access_def index_span_def cells_def int16_def)

lemma swap_laid_out: "laid_out swap_state 10 2 (ws ''a'') swap_right" "space_ok swap_state" "space_left swap_state = 608"
  by (simp_all add: laid_out_def swap_right_def swap_state_def placed_def space_ok_def space_left_def temp_start_def
      sample_compiler_def sample_target_def)

theorem vector_assignment_simultaneous_witness:
  "case expandVectorialNodes 609 (AssignmentNode no_pos (MemoryVectorNode no_pos 10 2 (ws ''a'') False None) swap_right) 0 swap_state of
      Inl e \<Rightarrow> e = TranslatableError no_pos ERROR_NOT_ENOUGH_TEMP_SPACE []
    | Inr (b, st') \<Rightarrow> \<exists>m'. exec (\<lambda>x. int (unat x)) b = Some m' \<and>
        (\<forall>x. unat x < temp_start st' \<or> temp_start swap_state \<le> unat x \<longrightarrow>
          m' x = stored (\<lambda>x. int (unat x)) 10 0 [11, 10] x)"
  by (rule vector_assignment_simultaneous [OF _ array_ok_sample veval_swap swap_laid_out(1, 2)])
    (simp_all add: index_span_def swap_laid_out(3))

section \<open>Compound assignments\<close>

lemma veval_replicate: "veval m (TupleVectorNode p (replicate n (ImmediateNode p 1))) = Some (replicate n 1)"
proof -
  have "those (replicate n (Some [1 :: int])) = Some (replicate n [1])" by (simp add: those_eq_Some)
  then show ?thesis by (simp add: map_replicate int16_def concat_replicate_single)
qed

text \<open>The first pass gives \<open>v++\<close>, \<open>v--\<close> and \<open>v op= e\<close> their meaning: each becomes the assignment to \<open>v\<close> of a vector
  whose values are those of \<open>v\<close>, each combined by the operator with one or with the value of \<open>e\<close> at its place.\<close>

theorem compound_assignment_value:
  assumes "veval m (MemoryVectorNode q a s name False i) = Some vs" and "length vs < 2 ^ 31"
    and "expandAbstractNodes e = Inr e'" and "veval m e' = Some us" and "length us = length vs"
  shows "\<exists>r1 r2. expandAbstractNodes (UnaryArithmeticAssignmentNode p op (MemoryVectorNode q a s name False i)) =
        Inr (AssignmentNode p (MemoryVectorNode q a s name False i) r1) \<and>
      veval m r1 = those (map (\<lambda>v. binary_value op v 1) vs) \<and>
      expandAbstractNodes (ArithmeticAssignmentNode p op (MemoryVectorNode q a s name False i) e) =
        Inr (AssignmentNode p (MemoryVectorNode q a s name False i) r2) \<and>
      veval m r2 = those (map2 (binary_value op) vs us)"
proof -
  have sz: "getVectorSize (MemoryVectorNode q a s name False i) = Inr (word_of_nat (length vs))"
    using expand_vector [OF assms(1, 2)] by (simp add: expands_to_def)
  have n: "unat (word_of_nat (length vs) :: u32) = length vs" using assms(2) by (simp add: unat_of_nat)
  have z: "map2 (binary_value op) vs (replicate (length vs) 1) = map (\<lambda>v. binary_value op v 1) vs"
    by (simp add: list_eq_iff_nth_eq)
  let ?v = "MemoryVectorNode q a s name False i"
  have "veval m (BinaryArithmeticNode p op ?v (TupleVectorNode p (replicate (length vs) (ImmediateNode p 1)))) =
      those (map (\<lambda>v. binary_value op v 1) vs)"
    unfolding veval.simps(2) assms(1) veval_replicate by (simp add: z)
  moreover have "veval m (BinaryArithmeticNode p op ?v e') = those (map2 (binary_value op) vs us)"
    unfolding veval.simps(2) assms(1, 4) by (simp add: assms(5))
  ultimately show ?thesis
    unfolding expandAbstractNodes.simps sz assms(3) bindR_Inr n by blast
qed

end
