(* ===== verification/Lexer.thy ===== *)
theory Lexer
  imports Identifier_Lookup
begin

text \<open>
  \<^verbatim>\<open>compiler/lexer.cpp\<close>: the tokens and \<^verbatim>\<open>Compiler::tokenize\<close>. The stream is the list of characters not read yet:
  \<^verbatim>\<open>peek\<close> looks at its head, \<^verbatim>\<open>get\<close> takes it, and both find the end when it is empty. Which characters are
  letters or digits depends on the locale of the host: it is the parameter \<open>alnum\<close>.
\<close>

section \<open>Literals\<close>

text \<open>A wide character literal.\<close>

definition wc :: "char \<Rightarrow> wchar" where
  "wc c = word_of_nat (of_char c)"

definition iswdigit :: "wchar \<Rightarrow> bool" where
  "iswdigit c \<longleftrightarrow> wc CHR ''0'' \<le> c \<and> c \<le> wc CHR ''9''"

definition iswxdigit :: "wchar \<Rightarrow> bool" where
  "iswxdigit c \<longleftrightarrow> iswdigit c \<or> (wc CHR ''a'' \<le> c \<and> c \<le> wc CHR ''f'') \<or> (wc CHR ''A'' \<le> c \<and> c \<le> wc CHR ''F'')"

text \<open>\<^verbatim>\<open>wcstol\<close> on a string that holds digits of the base only; the result saturates at the largest \<^verbatim>\<open>long\<close>.\<close>

definition digit_value :: "wchar \<Rightarrow> int" where
  "digit_value c =
     (if iswdigit c then uint c - 48
      else if wc CHR ''a'' \<le> c then uint c - 87
      else uint c - 55)"

definition wcstol :: "wstring \<Rightarrow> int \<Rightarrow> int" where
  "wcstol s base = min (2 ^ 63 - 1) (foldl (\<lambda>v c. v * base + digit_value c) 0 s)"

definition literal_value :: "source_pos \<Rightarrow> wstring \<Rightarrow> failure + int" where
  "literal_value p s =
     (let (decode, wasUnsigned) =
        (if length s > 1 \<and> s ! 1 = wc CHR ''x'' then (wcstol (drop 2 s) 16, True)
         else if length s > 1 \<and> s ! 1 = wc CHR ''b'' then (wcstol (drop 2 s) 2, True)
         else (wcstol s 10, False))
      in if decode \<ge> 65536 then Inl (TranslatableError p ERROR_INT16_OUT_OF_RANGE [Arg_int decode])
         else if wasUnsigned \<and> decode > 32767 then Inr (decode - 65536)
         else Inr decode)"

definition plain_token :: "token_type \<Rightarrow> source_pos \<Rightarrow> token" where
  "plain_token t p = \<lparr>tk_type = t, sValue = [], iValue = 0, tk_pos = p\<rparr>"

definition int_token :: "source_pos \<Rightarrow> wstring \<Rightarrow> failure + token" where
  "int_token p s =
     bindR (literal_value p s) (\<lambda>v. Inr \<lparr>tk_type = TOKEN_INT_LITERAL, sValue = s, iValue = v, tk_pos = p\<rparr>)"

definition string_token :: "source_pos \<Rightarrow> wstring \<Rightarrow> token" where
  "string_token p s = \<lparr>tk_type = TOKEN_STRING_LITERAL, sValue = s, iValue = 0, tk_pos = p\<rparr>"

section \<open>Keywords\<close>

definition keyword_table :: "(wstring \<times> token_type) list" where
  "keyword_table =
     [(ws ''when'', TOKEN_STR_when), (ws ''emit'', TOKEN_STR_emit), (ws ''_emit'', TOKEN_STR_hidden_emit),
      (ws ''for'', TOKEN_STR_for), (ws ''in'', TOKEN_STR_in), (ws ''step'', TOKEN_STR_step),
      (ws ''while'', TOKEN_STR_while), (ws ''do'', TOKEN_STR_do), (ws ''if'', TOKEN_STR_if),
      (ws ''then'', TOKEN_STR_then), (ws ''else'', TOKEN_STR_else), (ws ''elseif'', TOKEN_STR_elseif),
      (ws ''end'', TOKEN_STR_end), (ws ''var'', TOKEN_STR_var), (ws ''const'', TOKEN_STR_const),
      (ws ''call'', TOKEN_STR_call), (ws ''sub'', TOKEN_STR_sub), (ws ''callsub'', TOKEN_STR_callsub),
      (ws ''onevent'', TOKEN_STR_onevent), (ws ''abs'', TOKEN_STR_abs), (ws ''return'', TOKEN_STR_return),
      (ws ''or'', TOKEN_OP_OR), (ws ''and'', TOKEN_OP_AND), (ws ''not'', TOKEN_OP_NOT)]"

definition isKeyword :: "wstring \<Rightarrow> bool" where
  "isKeyword s \<longleftrightarrow> map_of keyword_table s \<noteq> None"

section \<open>Positions\<close>

definition start_pos :: source_pos where
  "start_pos = \<lparr>character = -1, row = 0, column = -1, valid = True\<rparr>"

definition next_pos :: "source_pos \<Rightarrow> source_pos" where
  "next_pos p = p\<lparr>character := character p + 1, column := column p + 1\<rparr>"

text \<open>\<^verbatim>\<open>getNextCharacter\<close> and \<^verbatim>\<open>testNextCharacter\<close>: the token, the position and the rest if the next character is
  the tested one.\<close>

definition testNextCharacter ::
  "wchar \<Rightarrow> token_type \<Rightarrow> source_pos \<Rightarrow> wstring \<Rightarrow> (token \<times> source_pos \<times> wstring) option" where
  "testNextCharacter test t p rest =
     (case rest of
        [] \<Rightarrow> None
      | d # rest' \<Rightarrow> if d = test then Some (plain_token t p, next_pos p, rest') else None)"

section \<open>Comments\<close>

definition tabSize :: u32 where "tabSize = 4"

text \<open>The position after a character of a comment, before the next one is read.\<close>

definition comment_pos :: "wchar \<Rightarrow> source_pos \<Rightarrow> source_pos" where
  "comment_pos c p = p\<lparr>column := (if c = wc CHR 0x09 then column p + tabSize else column p + 1)\<rparr>"

definition block_pos :: "wchar \<Rightarrow> source_pos \<Rightarrow> source_pos" where
  "block_pos c p = (if c = wc CHR 0x0A then p\<lparr>row := row p + 1, column := 0\<rparr> else comment_pos c p)"

definition read_pos :: "source_pos \<Rightarrow> source_pos" where
  "read_pos p = p\<lparr>character := character p + 1\<rparr>"

fun block_comment :: "nat \<Rightarrow> wchar \<Rightarrow> source_pos \<Rightarrow> source_pos \<Rightarrow> wstring \<Rightarrow> failure + source_pos \<times> wstring" where
  "block_comment step c start p [] = Inl (TranslatableError start ERROR_UNBALANCED_COMMENT_BLOCK [])"
| "block_comment step c start p (d # rest) =
     (if 0 < step \<or> c \<noteq> wc CHR ''*'' \<or> d \<noteq> wc CHR ''#''
      then block_comment (step - 1) d start (read_pos (block_pos c p)) rest
      else Inr (next_pos p, rest))"

fun line_comment :: "wchar \<Rightarrow> source_pos \<Rightarrow> wstring \<Rightarrow> source_pos \<times> wstring" where
  "line_comment c p rest =
     (if c = wc CHR 0x0A then (p\<lparr>row := row p + 1, column := 0\<rparr>, rest)
      else if c = wc CHR 0x0D then (p\<lparr>column := 0\<rparr>, rest)
      else case rest of
        [] \<Rightarrow> (read_pos (comment_pos c p), [])
      | d # rest' \<Rightarrow> line_comment d (read_pos (comment_pos c p)) rest')"

declare line_comment.simps [simp del]

text \<open>The case of \<^verbatim>\<open>#\<close>: looking for a star at the end of the stream sets its end flag, and no character is
  read.\<close>

definition comment :: "source_pos \<Rightarrow> wstring \<Rightarrow> failure + source_pos \<times> wstring" where
  "comment p rest =
     (case rest of
        [] \<Rightarrow> Inr (p, [])
      | d # rest' \<Rightarrow>
          if d = wc CHR ''*'' then block_comment 2 (wc CHR ''#'') p p rest
          else Inr (line_comment (wc CHR ''#'') p rest))"

section \<open>Words\<close>

definition word_char :: "(wchar \<Rightarrow> bool) \<Rightarrow> wchar \<Rightarrow> bool" where
  "word_char alnum c \<longleftrightarrow> alnum c \<or> c = wc CHR ''_'' \<or> c = wc CHR ''.''"

definition check_number :: "source_pos \<Rightarrow> wstring \<Rightarrow> failure + unit" where
  "check_number p s =
     (if length s > 1 \<and> s ! 0 = wc CHR ''0'' \<and> \<not> iswdigit (s ! 1) then
        if s ! 1 = wc CHR ''x'' then guardR (list_all iswxdigit (drop 2 s)) (TranslatableError p ERROR_INVALID_HEXA_NUMBER [])
        else if s ! 1 = wc CHR ''b''
        then guardR (list_all (\<lambda>c. c = wc CHR ''0'' \<or> c = wc CHR ''1'') (drop 2 s)) (TranslatableError p ERROR_INVALID_BINARY_NUMBER [])
        else Inl (TranslatableError p ERROR_NUMBER_INVALID_BASE [])
      else guardR (list_all iswdigit (drop 1 s)) (TranslatableError p ERROR_IN_NUMBER []))"

definition word_token :: "source_pos \<Rightarrow> wstring \<Rightarrow> failure + token" where
  "word_token p s =
     (if iswdigit (s ! 0) then bindR (check_number p s) (\<lambda>_. int_token p s)
      else Inr (case map_of keyword_table s of Some t \<Rightarrow> plain_token t p | None \<Rightarrow> string_token p s))"

definition scan_word :: "(wchar \<Rightarrow> bool) \<Rightarrow> wchar \<Rightarrow> source_pos \<Rightarrow> wstring \<Rightarrow> failure + token list \<times> source_pos \<times> wstring" where
  "scan_word alnum c p rest =
     (if \<not> alnum c \<and> c \<noteq> wc CHR ''_'' then Inl (TranslatableError p ERROR_INVALID_IDENTIFIER [Arg_unsigned c])
      else
        (let more = takeWhile (word_char alnum) rest; n = word_of_nat (length more) in
         bindR (word_token p (c # more)) (\<lambda>t.
         Inr ([t], p\<lparr>character := character p + n, column := column p + n\<rparr>, dropWhile (word_char alnum) rest))))"

section \<open>The tokenizer\<close>

definition simple_tokens :: "(wchar \<times> token_type) list" where
  "simple_tokens =
     [(wc CHR ''('', TOKEN_PAR_OPEN), (wc CHR '')'', TOKEN_PAR_CLOSE), (wc CHR ''['', TOKEN_BRACKET_OPEN),
      (wc CHR '']'', TOKEN_BRACKET_CLOSE), (wc CHR '':'', TOKEN_COLON), (wc CHR '','', TOKEN_COMMA),
      (wc CHR ''~'', TOKEN_OP_BIT_NOT)]"

text \<open>The characters that are looked at together with the next one: the tokens by the next character, and the
  token of the character alone.\<close>

definition lookahead_tokens :: "(wchar \<times> (wchar \<times> token_type) list \<times> token_type option) list" where
  "lookahead_tokens =
     [(wc CHR ''+'', [(wc CHR ''='', TOKEN_OP_ADD_EQUAL), (wc CHR ''+'', TOKEN_OP_PLUS_PLUS)], Some TOKEN_OP_ADD),
      (wc CHR ''-'', [(wc CHR ''='', TOKEN_OP_NEG_EQUAL), (wc CHR ''-'', TOKEN_OP_MINUS_MINUS)], Some TOKEN_OP_NEG),
      (wc CHR ''*'', [(wc CHR ''='', TOKEN_OP_MULT_EQUAL)], Some TOKEN_OP_MULT),
      (wc CHR ''/'', [(wc CHR ''='', TOKEN_OP_DIV_EQUAL)], Some TOKEN_OP_DIV),
      (wc CHR ''%'', [(wc CHR ''='', TOKEN_OP_MOD_EQUAL)], Some TOKEN_OP_MOD),
      (wc CHR ''|'', [(wc CHR ''='', TOKEN_OP_BIT_OR_EQUAL)], Some TOKEN_OP_BIT_OR),
      (wc CHR ''^'', [(wc CHR ''='', TOKEN_OP_BIT_XOR_EQUAL)], Some TOKEN_OP_BIT_XOR),
      (wc CHR ''&'', [(wc CHR ''='', TOKEN_OP_BIT_AND_EQUAL)], Some TOKEN_OP_BIT_AND),
      (wc CHR ''!'', [(wc CHR ''='', TOKEN_OP_NOT_EQUAL)], None),
      (wc CHR ''='', [(wc CHR ''='', TOKEN_OP_EQUAL)], Some TOKEN_ASSIGN)]"

fun try_next :: "(wchar \<times> token_type) list \<Rightarrow> source_pos \<Rightarrow> wstring \<Rightarrow> (token \<times> source_pos \<times> wstring) option" where
  "try_next [] p rest = None"
| "try_next ((test, t) # ts) p rest =
     (case testNextCharacter test t p rest of Some r \<Rightarrow> Some r | None \<Rightarrow> try_next ts p rest)"

definition operator_token :: "(wchar \<times> token_type) list \<Rightarrow> token_type option \<Rightarrow> source_pos \<Rightarrow> wstring \<Rightarrow>
    failure + token list \<times> source_pos \<times> wstring" where
  "operator_token nexts alone p rest =
     (case try_next nexts p rest of
        Some (t, p', rest') \<Rightarrow> Inr ([t], p', rest')
      | None \<Rightarrow>
          (case alone of
             Some t \<Rightarrow> Inr ([plain_token t p], p, rest)
           | None \<Rightarrow> Inl (TranslatableError p ERROR_SYNTAX [])))"

text \<open>\<^verbatim>\<open><\<close> and \<^verbatim>\<open>>\<close>, which may be doubled.\<close>

definition shift_token :: "wchar \<Rightarrow> token_type \<Rightarrow> token_type \<Rightarrow> token_type \<Rightarrow> token_type \<Rightarrow> source_pos \<Rightarrow> wstring \<Rightarrow>
    failure + token list \<times> source_pos \<times> wstring" where
  "shift_token c shift_equal shift equal alone p rest =
     (case rest of
        d # rest' \<Rightarrow>
          if d = c then operator_token [(wc CHR ''='', shift_equal)] (Some shift) (next_pos p) rest'
          else operator_token [(wc CHR ''='', equal)] (Some alone) p rest
      | [] \<Rightarrow> operator_token [(wc CHR ''='', equal)] (Some alone) p rest)"

text \<open>What the switch does with a character: the new tokens, the position and the rest.\<close>

definition scan :: "(wchar \<Rightarrow> bool) \<Rightarrow> wchar \<Rightarrow> source_pos \<Rightarrow> wstring \<Rightarrow> failure + token list \<times> source_pos \<times> wstring" where
  "scan alnum c p rest =
     (if c = wc CHR '' '' \<or> c = wc CHR 0x09 then Inr ([], p, rest)
      else if c = wc CHR 0x0A then Inr ([], p\<lparr>row := row p + 1, column := -1\<rparr>, rest)
      else if c = wc CHR 0x0D then Inr ([], p\<lparr>column := -1\<rparr>, rest)
      else if c = wc CHR ''#'' then bindR (comment p rest) (\<lambda>(p', rest'). Inr ([], p', rest'))
      else if c = wc CHR ''<''
      then shift_token c TOKEN_OP_SHIFT_LEFT_EQUAL TOKEN_OP_SHIFT_LEFT TOKEN_OP_SMALLER_EQUAL TOKEN_OP_SMALLER p rest
      else if c = wc CHR ''>''
      then shift_token c TOKEN_OP_SHIFT_RIGHT_EQUAL TOKEN_OP_SHIFT_RIGHT TOKEN_OP_BIGGER_EQUAL TOKEN_OP_BIGGER p rest
      else
        (case map_of simple_tokens c of
           Some t \<Rightarrow> Inr ([plain_token t p], p, rest)
         | None \<Rightarrow>
             (case map_of lookahead_tokens c of
                Some (nexts, alone) \<Rightarrow> operator_token nexts alone p rest
              | None \<Rightarrow> scan_word alnum c p rest)))"

lemma block_comment_rest: "block_comment k c b p rest = Inr (p', rest') \<Longrightarrow> length rest' \<le> length rest"
  by (induction k c b p rest rule: block_comment.induct) (auto split: if_splits)

lemma line_comment_rest: "length (snd (line_comment c p rest)) \<le> length rest"
proof (induction c p rest rule: line_comment.induct)
  case (1 c p rest)
  then show ?case by (subst line_comment.simps) (auto split: list.split intro: le_SucI)
qed

lemma comment_rest: "comment p rest = Inr (p', rest') \<Longrightarrow> length rest' \<le> length rest"
  using line_comment_rest by (auto simp: comment_def dest: block_comment_rest split: list.splits if_splits)
    (metis length_Cons snd_conv)

lemma try_next_rest: "try_next ts p rest = Some (t, p', rest') \<Longrightarrow> length rest' \<le> length rest"
  by (induction ts p rest rule: try_next.induct)
    (auto simp: testNextCharacter_def split: option.splits list.splits if_splits)

lemma operator_token_rest: "operator_token ns al p rest = Inr (ts, p', rest') \<Longrightarrow> length rest' \<le> length rest"
  by (auto simp: operator_token_def dest: try_next_rest split: option.splits)

lemma shift_token_rest: "shift_token c a b d e p rest = Inr (ts, p', rest') \<Longrightarrow> length rest' \<le> length rest"
  by (auto simp: shift_token_def dest!: operator_token_rest split: list.splits if_splits)

lemma word_rest: "scan_word alnum c p rest = Inr (ts, p', rest') \<Longrightarrow> length rest' \<le> length rest"
  by (auto simp: scan_word_def Let_def length_dropWhile_le split: if_splits)

lemma scan_rest: "scan alnum c p rest = Inr (ts, p', rest') \<Longrightarrow> length rest' \<le> length rest"
  unfolding scan_def
  by (auto dest: comment_rest shift_token_rest operator_token_rest word_rest split: if_splits option.splits)

text \<open>The loop of \<^verbatim>\<open>Compiler::tokenize\<close>.\<close>

function tokenize_from :: "(wchar \<Rightarrow> bool) \<Rightarrow> source_pos \<Rightarrow> wstring \<Rightarrow> failure + token list" where
  "tokenize_from alnum p [] = Inr [plain_token TOKEN_END_OF_STREAM p]"
| "tokenize_from alnum p (c # rest) =
     bindR (scan alnum c (next_pos p) rest) (\<lambda>(ts, p', rest').
     bindR (tokenize_from alnum p' rest') (\<lambda>ts'. Inr (ts @ ts')))"
  by pat_completeness auto
termination
  by (relation "measure (\<lambda>(alnum, p, rest). length rest)") (auto dest: scan_rest)

definition tokenize :: "(wchar \<Rightarrow> bool) \<Rightarrow> wstring \<Rightarrow> failure + token list" where
  "tokenize alnum source = tokenize_from alnum start_pos source"

end
