(* ===== verification/Lexer_Correct.thy ===== *)
theory Lexer_Correct
  imports Lexer
begin

text \<open>
  What the tokenizer promises: the text of a list of tokens, with a space after each, is read back as these
  tokens. The host decides which characters are letters; what the proofs rely on is the locale \<open>ctype\<close>: on
  ASCII it is the C locale.
\<close>

section \<open>The character classes of the host\<close>

definition ascii_alnum :: "wchar \<Rightarrow> bool" where
  "ascii_alnum c \<longleftrightarrow> iswdigit c \<or> (wc CHR ''a'' \<le> c \<and> c \<le> wc CHR ''z'') \<or> (wc CHR ''A'' \<le> c \<and> c \<le> wc CHR ''Z'')"

text \<open>The characters that the switch names.\<close>

definition special :: "wchar list" where
  "special = [wc CHR '' '', wc CHR 0x09, wc CHR 0x0A, wc CHR 0x0D, wc CHR ''#'', wc CHR ''<'', wc CHR ''>''] @
     map fst simple_tokens @ map fst lookahead_tokens"

locale ctype =
  fixes alnum :: "wchar \<Rightarrow> bool"
  assumes ascii: "c < 128 \<Longrightarrow> alnum c \<longleftrightarrow> ascii_alnum c"
begin

lemma space_ends_word: "\<not> word_char alnum (wc CHR '' '')"
  using ascii [of "wc CHR '' ''"] by (simp add: word_char_def ascii_alnum_def iswdigit_def wc_def)

lemma word_read:
  assumes "list_all (word_char alnum) s"
  shows "takeWhile (word_char alnum) (s @ wc CHR '' '' # rest) = s"
    and "dropWhile (word_char alnum) (s @ wc CHR '' '' # rest) = wc CHR '' '' # rest"
  using assms space_ends_word by (induction s) auto

lemma special_not_alnum:
  assumes "c \<in> set special"
  shows "\<not> alnum c \<and> c \<noteq> wc CHR ''_''"
proof -
  have "list_all (\<lambda>c. c < 128 \<and> \<not> ascii_alnum c \<and> c \<noteq> wc CHR ''_'') special"
    by (simp add: special_def simple_tokens_def lookahead_tokens_def ascii_alnum_def iswdigit_def wc_def)
  with assms ascii show ?thesis by (auto simp: list_all_iff)
qed

lemma scan_word_start:
  assumes "alnum c \<or> c = wc CHR ''_''"
  shows "scan alnum c p rest = scan_word alnum c p rest"
proof -
  have "c \<notin> set special" using assms special_not_alnum by blast
  then have "c \<notin> set [wc CHR '' '', wc CHR 0x09, wc CHR 0x0A, wc CHR 0x0D, wc CHR ''#'', wc CHR ''<'', wc CHR ''>'']"
    "map_of simple_tokens c = None" "map_of lookahead_tokens c = None"
    by (auto simp: special_def map_of_eq_None_iff)
  then show ?thesis by (simp add: scan_def)
qed

lemma scan_word_read:
  assumes "alnum c \<or> c = wc CHR ''_''" and "list_all (word_char alnum) s" and "word_token p (c # s) = Inr t"
  shows "\<exists>p'. scan_word alnum c p (s @ wc CHR '' '' # rest) = Inr ([t], p', wc CHR '' '' # rest)"
  using assms by (auto simp: scan_word_def word_read Let_def)

lemma digit_alnum: "iswdigit c \<Longrightarrow> alnum c"
proof -
  assume d: "iswdigit c"
  then have "c < 128" by (auto simp: iswdigit_def wc_def word_le_nat_alt word_less_nat_alt)
  with d ascii show ?thesis by (simp add: ascii_alnum_def)
qed

end

interpretation c_locale: ctype ascii_alnum
  by unfold_locales simp

section \<open>The text of tokens\<close>

definition operators :: "(wstring \<times> token_type) list" where
  "operators =
     [(ws ''('', TOKEN_PAR_OPEN), (ws '')'', TOKEN_PAR_CLOSE), (ws ''['', TOKEN_BRACKET_OPEN),
      (ws '']'', TOKEN_BRACKET_CLOSE), (ws '':'', TOKEN_COLON), (ws '','', TOKEN_COMMA),
      (ws ''='', TOKEN_ASSIGN), (ws ''=='', TOKEN_OP_EQUAL), (ws ''!='', TOKEN_OP_NOT_EQUAL),
      (ws ''>'', TOKEN_OP_BIGGER), (ws ''>='', TOKEN_OP_BIGGER_EQUAL), (ws ''<'', TOKEN_OP_SMALLER),
      (ws ''<='', TOKEN_OP_SMALLER_EQUAL), (ws ''+'', TOKEN_OP_ADD), (ws ''-'', TOKEN_OP_NEG),
      (ws ''*'', TOKEN_OP_MULT), (ws ''/'', TOKEN_OP_DIV), (ws ''%'', TOKEN_OP_MOD),
      (ws ''<<'', TOKEN_OP_SHIFT_LEFT), (ws ''>>'', TOKEN_OP_SHIFT_RIGHT), (ws ''|'', TOKEN_OP_BIT_OR),
      (ws ''^'', TOKEN_OP_BIT_XOR), (ws ''&'', TOKEN_OP_BIT_AND), (ws ''~'', TOKEN_OP_BIT_NOT),
      (ws ''+='', TOKEN_OP_ADD_EQUAL), (ws ''-='', TOKEN_OP_NEG_EQUAL), (ws ''*='', TOKEN_OP_MULT_EQUAL),
      (ws ''/='', TOKEN_OP_DIV_EQUAL), (ws ''%='', TOKEN_OP_MOD_EQUAL),
      (ws ''<<='', TOKEN_OP_SHIFT_LEFT_EQUAL), (ws ''>>='', TOKEN_OP_SHIFT_RIGHT_EQUAL),
      (ws ''|='', TOKEN_OP_BIT_OR_EQUAL), (ws ''^='', TOKEN_OP_BIT_XOR_EQUAL),
      (ws ''&='', TOKEN_OP_BIT_AND_EQUAL), (ws ''++'', TOKEN_OP_PLUS_PLUS), (ws ''--'', TOKEN_OP_MINUS_MINUS)]"

lemma scan_operator:
  assumes "(s, t) \<in> set operators"
  shows "\<exists>q p'. scan alnum (hd s) p (tl s @ wc CHR '' '' # rest) = Inr ([plain_token t q], p', wc CHR '' '' # rest)"
proof -
  have "list_all (\<lambda>(s, t). \<exists>q p'. scan alnum (hd s) p (tl s @ wc CHR '' '' # rest) =
      Inr ([plain_token t q], p', wc CHR '' '' # rest)) operators"
    by (simp add: operators_def ws_def wc_def scan_def simple_tokens_def lookahead_tokens_def shift_token_def
        operator_token_def testNextCharacter_def plain_token_def)
  with assms show ?thesis by (auto simp: list_all_iff)
qed

text \<open>What a token holds beside its position, and the text it is read from.\<close>

definition content :: "token \<Rightarrow> token_type \<times> wstring \<times> int" where
  "content t = (tk_type t, sValue t, iValue t)"

definition text_of :: "token \<Rightarrow> wstring" where
  "text_of t =
     (if tk_type t \<in> {TOKEN_STRING_LITERAL, TOKEN_INT_LITERAL} then sValue t
      else fst (hd (filter (\<lambda>(s, u). u = tk_type t) (keyword_table @ operators))))"

definition word_text :: "(wchar \<Rightarrow> bool) \<Rightarrow> wstring \<Rightarrow> bool" where
  "word_text alnum s \<longleftrightarrow> s \<noteq> [] \<and> (alnum (hd s) \<or> hd s = wc CHR ''_'') \<and> list_all (word_char alnum) (tl s)"

text \<open>A keyword or an operator, an identifier that is no keyword, or a number with its value.\<close>

definition proper_token :: "(wchar \<Rightarrow> bool) \<Rightarrow> token \<Rightarrow> bool" where
  "proper_token alnum t \<longleftrightarrow>
     (tk_type t \<in> snd ` set (keyword_table @ operators) \<and> sValue t = [] \<and> iValue t = 0) \<or>
     (tk_type t = TOKEN_STRING_LITERAL \<and> word_text alnum (sValue t) \<and> \<not> iswdigit (hd (sValue t)) \<and>
       \<not> isKeyword (sValue t) \<and> iValue t = 0) \<or>
     (tk_type t = TOKEN_INT_LITERAL \<and> word_text alnum (sValue t) \<and> iswdigit (hd (sValue t)) \<and>
       check_number no_pos (sValue t) = Inr () \<and> literal_value no_pos (sValue t) = Inr (iValue t))"

definition source_of :: "token list \<Rightarrow> wstring" where
  "source_of ts = concat (map (\<lambda>t. text_of t @ [wc CHR '' '']) ts)"

lemma text_of_fixed:
  assumes "tk_type t \<in> snd ` set (keyword_table @ operators)"
  shows "(text_of t, tk_type t) \<in> set (keyword_table @ operators)"
proof -
  let ?f = "filter (\<lambda>(s, u). u = tk_type t) (keyword_table @ operators)"
  have "?f \<noteq> []" using assms by (auto simp: filter_empty_conv)
  then have "hd ?f \<in> set ?f" by (rule hd_in_set)
  moreover have "tk_type t \<notin> {TOKEN_STRING_LITERAL, TOKEN_INT_LITERAL}"
    using assms by (auto simp: keyword_table_def operators_def)
  ultimately show ?thesis by (auto simp: text_of_def)
qed

lemma check_number_pos: "check_number p s = Inr () \<longleftrightarrow> check_number q s = Inr ()"
  by (simp add: check_number_def)

lemma literal_value_pos: "literal_value p s = Inr v \<longleftrightarrow> literal_value q s = Inr v"
  by (simp add: literal_value_def Let_def split: prod.split)

context ctype
begin

lemma keyword_word:
  assumes "(s, t) \<in> set keyword_table"
  shows "word_text alnum s \<and> word_token p s = Inr (plain_token t p)"
proof -
  have "list_all (\<lambda>(s, t). s \<noteq> [] \<and> list_all (\<lambda>c. c < 128 \<and> (ascii_alnum c \<or> c = wc CHR ''_'')) s \<and>
      \<not> iswdigit (s ! 0) \<and> map_of keyword_table s = Some t) keyword_table"
    by (simp add: keyword_table_def ws_def wc_def ascii_alnum_def iswdigit_def)
  then have *: "s \<noteq> []" "list_all (\<lambda>c. alnum c \<or> c = wc CHR ''_'') s" "\<not> iswdigit (s ! 0)" "map_of keyword_table s = Some t"
    using assms ascii by (fastforce simp: list_all_iff)+
  then show ?thesis by (cases s) (auto simp: word_text_def word_token_def word_char_def list_all_iff)
qed

lemma scan_text:
  assumes "word_text alnum s" and "word_token (p :: source_pos) s = Inr t"
  shows "\<exists>p'. scan alnum (hd s) p (tl s @ wc CHR '' '' # rest) = Inr ([t], p', wc CHR '' '' # rest)"
  using assms scan_word_start [of "hd s"] scan_word_read [of "hd s" "tl s" p t rest] by (simp add: word_text_def)

lemma scan_token:
  assumes "proper_token alnum t"
  shows "text_of t \<noteq> [] \<and> (\<exists>t' p'. scan alnum (hd (text_of t)) p (tl (text_of t) @ wc CHR '' '' # rest) =
    Inr ([t'], p', wc CHR '' '' # rest) \<and> content t' = content t)"
proof -
  consider (kw) "(text_of t, tk_type t) \<in> set keyword_table" "sValue t = []" "iValue t = 0"
    | (oper) "(text_of t, tk_type t) \<in> set operators" "sValue t = []" "iValue t = 0"
    | (ident) "text_of t = sValue t" "tk_type t = TOKEN_STRING_LITERAL" "word_text alnum (sValue t)"
        "\<not> iswdigit (hd (sValue t))" "\<not> isKeyword (sValue t)" "iValue t = 0"
    | (num) "text_of t = sValue t" "tk_type t = TOKEN_INT_LITERAL" "word_text alnum (sValue t)" "iswdigit (hd (sValue t))"
        "check_number p (sValue t) = Inr ()" "literal_value p (sValue t) = Inr (iValue t)"
    using assms text_of_fixed [of t] check_number_pos [of p _ no_pos] literal_value_pos [of p _ _ no_pos]
    unfolding proper_token_def by (auto simp: text_of_def)
  then show ?thesis
  proof cases
    case kw
    then show ?thesis
      using keyword_word [of "text_of t" "tk_type t" p] scan_text [of "text_of t" p _ rest]
      by (fastforce simp: content_def plain_token_def word_text_def)
  next
    case oper
    moreover have "list_all (\<lambda>(s, t). s \<noteq> []) operators" by (simp add: operators_def ws_def)
    ultimately show ?thesis
      using scan_operator [of "text_of t" "tk_type t" alnum p rest]
      by (fastforce simp: content_def plain_token_def list_all_iff)
  next
    case ident
    then have "word_token p (sValue t) = Inr (string_token p (sValue t))"
      by (auto simp: word_token_def word_text_def isKeyword_def hd_conv_nth)
    with ident show ?thesis
      using scan_text [of "sValue t" p _ rest] by (fastforce simp: content_def string_token_def word_text_def)
  next
    case num
    then have "word_token p (sValue t) =
        Inr \<lparr>tk_type = TOKEN_INT_LITERAL, sValue = sValue t, iValue = iValue t, tk_pos = p\<rparr>"
      by (simp add: word_token_def word_text_def int_token_def hd_conv_nth)
    with num show ?thesis
      using scan_text [of "sValue t" p _ rest] by (fastforce simp: content_def word_text_def)
  qed
qed

lemma tokenize_source:
  "list_all (proper_token alnum) ts \<Longrightarrow>
    \<exists>ts'. tokenize_from alnum p (source_of ts) = Inr ts' \<and>
      map content ts' = map content ts @ [(TOKEN_END_OF_STREAM, [], 0)]"
proof (induction ts arbitrary: p)
  case Nil
  then show ?case by (simp add: source_of_def content_def plain_token_def)
next
  case (Cons t ts)
  let ?s = "text_of t"
  from Cons.prems have "proper_token alnum t" by simp
  from scan_token [OF this, of "next_pos p" "source_of ts"] obtain t' p' where s: "?s \<noteq> []"
    and t': "scan alnum (hd ?s) (next_pos p) (tl ?s @ wc CHR '' '' # source_of ts) = Inr ([t'], p', wc CHR '' '' # source_of ts)"
      "content t' = content t" by blast
  from Cons obtain ts' where ts': "tokenize_from alnum (next_pos p') (source_of ts) = Inr ts'"
    "map content ts' = map content ts @ [(TOKEN_END_OF_STREAM, [], 0)]" by force
  have src: "source_of (t # ts) = hd ?s # (tl ?s @ wc CHR '' '' # source_of ts)"
    using s by (simp add: source_of_def)
  have "scan alnum (wc CHR '' '') (next_pos p') (source_of ts) = Inr ([], next_pos p', source_of ts)"
    by (simp add: scan_def)
  then show ?case using t' ts' unfolding src tokenize_from.simps(2) by simp
qed

end

text \<open>C8: The tokenizer reads back what tokens are written as: the text of any list of keywords, operators, identifiers
  and numbers, with a space after each, is read as tokens of the same types and values in the same order,
  followed by the end of the stream, for every host whose letters and digits are the usual ones on ASCII.\<close>

theorem tokenize_roundtrip:
  assumes "ctype alnum" and "list_all (proper_token alnum) ts"
  shows "\<exists>ts'. tokenize alnum (source_of ts) = Inr ts' \<and>
    map content ts' = map content ts @ [(TOKEN_END_OF_STREAM, [], 0)]"
  unfolding tokenize_def using assms by (rule ctype.tokenize_source)

definition sample_tokens :: "token list" where
  "sample_tokens =
     [plain_token TOKEN_STR_if no_pos, string_token no_pos (ws ''x1''), plain_token TOKEN_OP_SHIFT_LEFT no_pos,
      \<lparr>tk_type = TOKEN_INT_LITERAL, sValue = ws ''0xff'', iValue = 255, tk_pos = no_pos\<rparr>]"

theorem tokenize_roundtrip_witness:
  "\<exists>ts'. tokenize ascii_alnum (source_of sample_tokens) = Inr ts' \<and>
    map content ts' = map content sample_tokens @ [(TOKEN_END_OF_STREAM, [], 0)]"
  by (rule tokenize_roundtrip [OF c_locale.ctype_axioms])
    (simp add: sample_tokens_def proper_token_def plain_token_def string_token_def keyword_table_def operators_def word_text_def
      word_char_def ascii_alnum_def iswdigit_def iswxdigit_def wc_def ws_def isKeyword_def check_number_def literal_value_def
      wcstol_def digit_value_def)

section \<open>Columns after a comment\<close>

text \<open>A comment shifts the columns of the next line: an identifier at the start of the line after an empty line is
  at column 0, after a line with a comment at column 1, because the end of the comment sets the column to 0
  instead of to the value before the first column.\<close>

theorem comment_shifts_column:
  "\<exists>t u e f. tokenize ascii_alnum [wc CHR 0x0A, wc CHR ''x''] = Inr [t, e] \<and> column (tk_pos t) = 0 \<and>
    tokenize ascii_alnum [wc CHR ''#'', wc CHR ''c'', wc CHR 0x0A, wc CHR ''x''] = Inr [u, f] \<and> column (tk_pos u) = 1"
  by (simp add: tokenize_def scan_def simple_tokens_def lookahead_tokens_def comment_def line_comment.simps comment_pos_def
      read_pos_def scan_word_def word_token_def keyword_table_def string_token_def plain_token_def ascii_alnum_def
      iswdigit_def wc_def ws_def next_pos_def start_pos_def Let_def)

end
