(* ===== verification/Parser.thy ===== *)
theory Parser
  imports Lexer Tree_Expand
begin

text \<open>
  \<^verbatim>\<open>compiler/parser.cpp\<close>, a recursive descent parser. Its state is the deque of tokens, the compiler and the counter
  of temporary variables; reading the front of an empty deque is \<open>Undefined\<close>. The functions call each
  other: each is defined over the argument \<open>self\<close>, which stands for the calls that close a cycle, and \<open>parse\<close>
  ties them together with fuel. The while loops take as many turns as there are tokens at most. Constructors of
  nodes are those of \<^verbatim>\<open>compiler/tree-build.cpp\<close>.
\<close>

section \<open>State\<close>

record parser_state =
  toks :: "token list"
  comp :: compiler
  uid :: u32

type_synonym 'a parser = "parser_state \<Rightarrow> failure + 'a \<times> parser_state"

definition returnP :: "'a \<Rightarrow> 'a parser" where
  "returnP x = (\<lambda>st. Inr (x, st))"

definition bindP :: "'a parser \<Rightarrow> ('a \<Rightarrow> 'b parser) \<Rightarrow> 'b parser" where
  "bindP m f = (\<lambda>st. bindR (m st) (\<lambda>(x, st'). f x st'))"

definition throwP :: "failure \<Rightarrow> 'a parser" where
  "throwP e = (\<lambda>st. Inl e)"

definition liftP :: "failure + 'a \<Rightarrow> 'a parser" where
  "liftP r = (\<lambda>st. bindR r (\<lambda>x. Inr (x, st)))"

definition guardP :: "bool \<Rightarrow> failure \<Rightarrow> unit parser" where
  "guardP b e = liftP (guardR b e)"

definition front :: "token parser" where
  "front = (\<lambda>st. case toks st of [] \<Rightarrow> Inl Undefined | t # ts \<Rightarrow> Inr (t, st))"

definition pop_front :: "unit parser" where
  "pop_front = (\<lambda>st. case toks st of [] \<Rightarrow> Inl Undefined | t # ts \<Rightarrow> Inr ((), st\<lparr>toks := ts\<rparr>))"

definition set_front :: "token \<Rightarrow> unit parser" where
  "set_front t = (\<lambda>st. case toks st of [] \<Rightarrow> Inl Undefined | _ # ts \<Rightarrow> Inr ((), st\<lparr>toks := t # ts\<rparr>))"

definition getC :: "compiler parser" where
  "getC = (\<lambda>st. Inr (comp st, st))"

definition setC :: "compiler \<Rightarrow> unit parser" where
  "setC c = (\<lambda>st. Inr ((), st\<lparr>comp := c\<rparr>))"

text \<open>A while loop over the tokens.\<close>

fun turns :: "nat \<Rightarrow> (token \<Rightarrow> bool) \<Rightarrow> ('a \<Rightarrow> 'a parser) \<Rightarrow> 'a \<Rightarrow> 'a parser" where
  "turns 0 c body x = throwP Diverges"
| "turns (Suc n) c body x = bindP front (\<lambda>t. if c t then bindP (body x) (turns n c body) else returnP x)"

definition while_front :: "(token \<Rightarrow> bool) \<Rightarrow> ('a \<Rightarrow> 'a parser) \<Rightarrow> 'a \<Rightarrow> 'a parser" where
  "while_front c body x = (\<lambda>st. turns (Suc (length (toks st))) c body x st)"

section \<open>Expectations\<close>

definition expect :: "token_type \<Rightarrow> unit parser" where
  "expect t = bindP front (\<lambda>f.
     guardP (tk_type f = t) (TranslatableError (tk_pos f) ERROR_EXPECTING [Arg_type t, Arg_type (tk_type f)]))"

definition literal_in :: "int \<Rightarrow> error_code \<Rightarrow> int parser" where
  "literal_in limit code =
     bindP (expect TOKEN_INT_LITERAL) (\<lambda>_. bindP front (\<lambda>f.
     bindP (guardP (\<not> (iValue f < 0 \<or> iValue f > limit)) (TranslatableError (tk_pos f) code [Arg_int (iValue f)])) (\<lambda>_.
     returnP (iValue f))))"

definition expectUInt12Literal :: "int parser" where
  "expectUInt12Literal = literal_in 4095 ERROR_UINT12_OUT_OF_RANGE"

definition expectUInt16Literal :: "int parser" where
  "expectUInt16Literal = literal_in 65535 ERROR_UINT16_OUT_OF_RANGE"

definition expectPositiveInt16Literal :: "int parser" where
  "expectPositiveInt16Literal = literal_in 32767 ERROR_PINT16_OUT_OF_RANGE"

definition expectAbsoluteInt16Literal :: "bool \<Rightarrow> int parser" where
  "expectAbsoluteInt16Literal negative = literal_in (if negative then 32768 else 32767) ERROR_INT16_OUT_OF_RANGE"

definition constant_in :: "int \<Rightarrow> int \<Rightarrow> error_code \<Rightarrow> int parser" where
  "constant_in low high code =
     bindP (expect TOKEN_STRING_LITERAL) (\<lambda>_. bindP front (\<lambda>f. bindP getC (\<lambda>c.
     bindP (liftP (findConstant c (sValue f) (tk_pos f))) (\<lambda>v.
     bindP (guardP (\<not> (v < low \<or> v > high)) (TranslatableError (tk_pos f) code [Arg_string (sValue f), Arg_int v])) (\<lambda>_.
     returnP v)))))"

definition expectPositiveConstant :: "int parser" where
  "expectPositiveConstant = constant_in 0 32767 ERROR_PCONSTANT_OUT_OF_RANGE"

definition expectConstant :: "int parser" where
  "expectConstant = constant_in (-32768) 32767 ERROR_CONSTANT_OUT_OF_RANGE"

definition expectPositiveInt16LiteralOrConstant :: "int parser" where
  "expectPositiveInt16LiteralOrConstant = bindP front (\<lambda>f.
     if tk_type f = TOKEN_INT_LITERAL then expectPositiveInt16Literal else expectPositiveConstant)"

definition negated :: "int parser \<Rightarrow> int parser" where
  "negated p = bindP p (\<lambda>v. returnP (- v))"

definition expectInt16Literal :: "int parser" where
  "expectInt16Literal = bindP front (\<lambda>f.
     if tk_type f = TOKEN_OP_NEG then bindP pop_front (\<lambda>_. negated (expectAbsoluteInt16Literal True))
     else if iValue f < 0
     then bindP (set_front (f\<lparr>iValue := iValue f * -1\<rparr>)) (\<lambda>_. negated (expectAbsoluteInt16Literal True))
     else expectAbsoluteInt16Literal False)"

definition expectInt16LiteralOrConstant :: "int parser" where
  "expectInt16LiteralOrConstant = bindP front (\<lambda>f.
     if tk_type f = TOKEN_OP_NEG \<or> tk_type f = TOKEN_INT_LITERAL then expectInt16Literal else expectConstant)"

definition expectGlobalEventId :: "u32 parser" where
  "expectGlobalEventId = bindP (expect TOKEN_STRING_LITERAL) (\<lambda>_. bindP front (\<lambda>f. bindP getC (\<lambda>c.
     liftP (findGlobalEvent c (sValue f) (tk_pos f)))))"

definition expectAnyEventId :: "u32 parser" where
  "expectAnyEventId = bindP (expect TOKEN_STRING_LITERAL) (\<lambda>_. bindP front (\<lambda>f. bindP getC (\<lambda>c.
     liftP (findAnyEvent c (sValue f) (tk_pos f)))))"

definition eventName :: "compiler \<Rightarrow> u32 \<Rightarrow> wstring" where
  "eventName c eventId =
     (let evs = events (commonDefinitions c); locals = localEvents (targetDescription c);
          localId = sint (ASEBA_EVENT_LOCAL_EVENTS_START - eventId)
      in if unat eventId < length evs then nval_name (evs ! unat eventId)
         else if 0 \<le> localId \<and> localId < int (length locals) then le_name (locals ! nat localId)
         else ws ''unknown'')"

definition isOneOf :: "token_type list \<Rightarrow> token \<Rightarrow> bool" where
  "isOneOf types f \<longleftrightarrow> tk_type f \<in> set types"

definition expectOneOf :: "token_type list \<Rightarrow> unit parser" where
  "expectOneOf types = bindP front (\<lambda>f.
     guardP (isOneOf types f) (TranslatableError (tk_pos f) ERROR_EXPECTING_ONE_OF [Arg_types types, Arg_type (tk_type f)]))"

section \<open>Temporary memory\<close>

definition freeTemporaryMemory :: "unit parser" where
  "freeTemporaryMemory = bindP getC (\<lambda>c. setC (c\<lparr>endVariableIndex := 0\<rparr>))"

definition temporary_memory :: "source_pos \<Rightarrow> u32 \<Rightarrow> u32 parser" where
  "temporary_memory p n = bindP getC (\<lambda>c. bindP (liftP (allocateTemporaryMemory p n c)) (\<lambda>(addr, c').
     bindP (setC c') (\<lambda>_. returnP addr)))"

definition temporary_variable :: "source_pos \<Rightarrow> node \<Rightarrow> node parser" where
  "temporary_variable p r = (\<lambda>st.
     bindR (allocateTemporaryVariable p r (comp st, uid st)) (\<lambda>((l, r), (c, k)).
     Inr (AssignmentNode p l r, st\<lparr>comp := c, uid := k\<rparr>)))"

section \<open>Expressions\<close>

text \<open>The calls that close a cycle of the grammar.\<close>

datatype grammar_call = NT_Or | NT_BinaryOr | NT_Unary | NT_Tuple | NT_Block | NT_ElseIf

text \<open>Operators by their tokens: both enumerations hold the operators of a group in the same order.\<close>

definition comparisons :: "(token_type \<times> AsebaBinaryOperator) list" where
  "comparisons = zip
     [TOKEN_OP_EQUAL, TOKEN_OP_NOT_EQUAL, TOKEN_OP_BIGGER, TOKEN_OP_BIGGER_EQUAL, TOKEN_OP_SMALLER, TOKEN_OP_SMALLER_EQUAL]
     [ASEBA_OP_EQUAL, ASEBA_OP_NOT_EQUAL, ASEBA_OP_BIGGER_THAN, ASEBA_OP_BIGGER_EQUAL_THAN, ASEBA_OP_SMALLER_THAN,
      ASEBA_OP_SMALLER_EQUAL_THAN]"

definition shifts :: "(token_type \<times> AsebaBinaryOperator) list" where
  "shifts = zip [TOKEN_OP_SHIFT_LEFT, TOKEN_OP_SHIFT_RIGHT] [ASEBA_OP_SHIFT_LEFT, ASEBA_OP_SHIFT_RIGHT]"

definition additions :: "(token_type \<times> AsebaBinaryOperator) list" where
  "additions = zip [TOKEN_OP_ADD, TOKEN_OP_NEG] [ASEBA_OP_ADD, ASEBA_OP_SUB]"

definition multiplications :: "(token_type \<times> AsebaBinaryOperator) list" where
  "multiplications = zip [TOKEN_OP_MULT, TOKEN_OP_DIV, TOKEN_OP_MOD] [ASEBA_OP_MULT, ASEBA_OP_DIV, ASEBA_OP_MOD]"

definition operatorMap :: "(token_type \<times> AsebaBinaryOperator) list" where
  "operatorMap = zip
     [TOKEN_OP_ADD_EQUAL, TOKEN_OP_NEG_EQUAL, TOKEN_OP_MULT_EQUAL, TOKEN_OP_DIV_EQUAL, TOKEN_OP_MOD_EQUAL,
      TOKEN_OP_SHIFT_LEFT_EQUAL, TOKEN_OP_SHIFT_RIGHT_EQUAL, TOKEN_OP_BIT_OR_EQUAL, TOKEN_OP_BIT_XOR_EQUAL,
      TOKEN_OP_BIT_AND_EQUAL]
     [ASEBA_OP_ADD, ASEBA_OP_SUB, ASEBA_OP_MULT, ASEBA_OP_DIV, ASEBA_OP_MOD, ASEBA_OP_SHIFT_LEFT, ASEBA_OP_SHIFT_RIGHT,
      ASEBA_OP_BIT_OR, ASEBA_OP_BIT_XOR, ASEBA_OP_BIT_AND]"

text \<open>A chain of operands joined by the operators of a group, grouped to the left.\<close>

definition binary_chain :: "node parser \<Rightarrow> (token_type \<times> AsebaBinaryOperator) list \<Rightarrow> node parser" where
  "binary_chain operand ops =
     bindP operand (while_front (\<lambda>f. map_of ops (tk_type f) \<noteq> None) (\<lambda>n.
       bindP front (\<lambda>f. bindP pop_front (\<lambda>_. bindP operand (\<lambda>r.
       returnP (BinaryArithmeticNode (tk_pos f) (the (map_of ops (tk_type f))) n r))))))"

definition expectConstantExpression :: "compiler \<Rightarrow> source_pos \<Rightarrow> node \<Rightarrow> failure + int" where
  "expectConstantExpression c pos tree =
     bindR (expandAbstractNodes (AssignmentNode pos (MemoryVectorNode pos 0 1 (ws ''fake'') False None) tree)) (\<lambda>t1.
     bindR (expandVectorialNodes 0 t1 0 (c, 0)) (\<lambda>(t2, st).
     bindR (optimize t2) (\<lambda>t3.
     case t3 of
       Some (BlockNode _ (AssignmentNode _ _ (ImmediateNode _ v) # _)) \<Rightarrow> Inr v
     | _ \<Rightarrow> Inl (TranslatableError pos ERROR_NOT_CONST_EXPR []))))"

text \<open>The parsed tree or its constant value: only thrown errors are caught.\<close>

definition tryParsingConstantExpression :: "(grammar_call \<Rightarrow> node parser) \<Rightarrow> source_pos \<Rightarrow> (node + int) parser" where
  "tryParsingConstantExpression self pos =
     bindP (self NT_BinaryOr) (\<lambda>tree. bindP getC (\<lambda>c.
     case expectConstantExpression c pos tree of
       Inr v \<Rightarrow> returnP (Inr v)
     | Inl (TranslatableError _ _ _) \<Rightarrow> returnP (Inl tree)
     | Inl e \<Rightarrow> throwP e))"

definition tuple_element :: "(grammar_call \<Rightarrow> node parser) \<Rightarrow> node parser" where
  "tuple_element self = bindP front (\<lambda>f. if tk_type f = TOKEN_BRACKET_OPEN then self NT_Tuple else self NT_BinaryOr)"

definition tuple_elements :: "(grammar_call \<Rightarrow> node parser) \<Rightarrow> node list parser" where
  "tuple_elements self =
     bindP (tuple_element self) (\<lambda>e. while_front (\<lambda>f. tk_type f = TOKEN_COMMA) (\<lambda>cs.
       bindP pop_front (\<lambda>_. bindP (tuple_element self) (\<lambda>c. returnP (cs @ [c])))) [e])"

definition parseTupleVector :: "(grammar_call \<Rightarrow> node parser) \<Rightarrow> node parser" where
  "parseTupleVector self =
     bindP (expect TOKEN_BRACKET_OPEN) (\<lambda>_. bindP pop_front (\<lambda>_. bindP front (\<lambda>f.
     bindP (tuple_elements self) (\<lambda>cs. bindP (expect TOKEN_BRACKET_CLOSE) (\<lambda>_. bindP pop_front (\<lambda>_.
     returnP (TupleVectorNode (tk_pos f) cs)))))))"

text \<open>The old style of initialization \<open>1,2,3\<close>, recognized by its first comma.\<close>

definition old_style_ahead :: "token list \<Rightarrow> bool" where
  "old_style_ahead ts \<longleftrightarrow>
     (length ts \<ge> 2 \<and> tk_type (ts ! 1) = TOKEN_COMMA) \<or>
     (length ts \<ge> 3 \<and> tk_type (ts ! 0) = TOKEN_OP_NEG \<and> tk_type (ts ! 2) = TOKEN_COMMA)"

definition parseOldStyleTuple :: "(grammar_call \<Rightarrow> node parser) \<Rightarrow> node option parser" where
  "parseOldStyleTuple self = (\<lambda>st.
     if old_style_ahead (toks st)
     then bindP front (\<lambda>f. bindP (tuple_elements self) (\<lambda>cs. returnP (Some (TupleVectorNode (tk_pos f) cs)))) st
     else Inr (None, st))"

text \<open>The index of a variable after its opening bracket.\<close>

definition parse_index :: "(grammar_call \<Rightarrow> node parser) \<Rightarrow> source_pos \<Rightarrow> node parser" where
  "parse_index self pos =
     bindP (tryParsingConstantExpression self pos) (\<lambda>r.
     case r of
       Inl tree \<Rightarrow> returnP tree
     | Inr start \<Rightarrow>
         bindP front (\<lambda>f.
         if tk_type f = TOKEN_COLON then
           bindP pop_front (\<lambda>_. bindP (tryParsingConstantExpression self (tk_pos f)) (\<lambda>r.
           case r of
             Inl tree \<Rightarrow> throwP (TranslatableError (tk_pos f) ERROR_INDEX_EXPECTING_CONSTANT [])
           | Inr finish \<Rightarrow>
               bindP front (\<lambda>g.
               bindP (guardP (\<not> finish < start) (TranslatableError (tk_pos g) ERROR_INDEX_WRONG_END [])) (\<lambda>_.
               returnP (TupleVectorNode pos [ImmediateNode pos start, ImmediateNode pos finish])))))
         else returnP (TupleVectorNode pos [ImmediateNode pos start])))"

definition parseVariable :: "(grammar_call \<Rightarrow> node parser) \<Rightarrow> node parser" where
  "parseVariable self =
     bindP (expect TOKEN_STRING_LITERAL) (\<lambda>_. bindP front (\<lambda>f. bindP getC (\<lambda>c.
     bindP (liftP (findVariable c (sValue f) (tk_pos f))) (\<lambda>(addr, k).
     bindP pop_front (\<lambda>_. bindP front (\<lambda>g.
     if tk_type g = TOKEN_BRACKET_OPEN then
       bindP pop_front (\<lambda>_. bindP (parse_index self (tk_pos g)) (\<lambda>i.
       bindP (expect TOKEN_BRACKET_CLOSE) (\<lambda>_. bindP pop_front (\<lambda>_.
       returnP (MemoryVectorNode (tk_pos f) addr k (sValue f) False (Some i))))))
     else returnP (MemoryVectorNode (tk_pos f) addr k (sValue f) False None)))))))"

definition parseConstantAndVariable :: "(grammar_call \<Rightarrow> node parser) \<Rightarrow> node parser" where
  "parseConstantAndVariable self =
     bindP (expect TOKEN_STRING_LITERAL) (\<lambda>_. bindP front (\<lambda>f. bindP getC (\<lambda>c.
     if constantExists c (sValue f) then
       bindP expectConstant (\<lambda>v. bindP pop_front (\<lambda>_.
       returnP (TupleVectorNode (tk_pos f) [ImmediateNode (tk_pos f) v])))
     else parseVariable self)))"

definition acceptableTypes :: "token_type list" where
  "acceptableTypes = [TOKEN_PAR_OPEN, TOKEN_BRACKET_OPEN, TOKEN_OP_NEG, TOKEN_OP_BIT_NOT, TOKEN_STR_abs,
     TOKEN_STRING_LITERAL, TOKEN_INT_LITERAL]"

definition unary_of :: "(grammar_call \<Rightarrow> node parser) \<Rightarrow> AsebaUnaryOperator \<Rightarrow> source_pos \<Rightarrow> node parser" where
  "unary_of self op pos = bindP pop_front (\<lambda>_. bindP (self NT_Unary) (\<lambda>n. returnP (UnaryArithmeticNode pos op n)))"

definition literal_ahead :: "token list \<Rightarrow> bool" where
  "literal_ahead ts \<longleftrightarrow> length ts \<ge> 2 \<and> tk_type (ts ! 1) = TOKEN_INT_LITERAL"

definition parseUnaryExpression :: "(grammar_call \<Rightarrow> node parser) \<Rightarrow> node parser" where
  "parseUnaryExpression self =
     bindP (expectOneOf acceptableTypes) (\<lambda>_. bindP front (\<lambda>f.
     if tk_type f = TOKEN_PAR_OPEN then
       bindP pop_front (\<lambda>_. bindP (self NT_Or) (\<lambda>n. bindP (expect TOKEN_PAR_CLOSE) (\<lambda>_. bindP pop_front (\<lambda>_. returnP n))))
     else if tk_type f = TOKEN_BRACKET_OPEN then parseTupleVector self
     else if tk_type f = TOKEN_OP_NEG then
       (\<lambda>st.
          if literal_ahead (toks st) then
            bindP pop_front (\<lambda>_. bindP front (\<lambda>g.
            bindP (set_front (g\<lparr>iValue := iValue g * -1, sValue := ws ''-'' @ sValue g\<rparr>)) (\<lambda>_. self NT_Unary))) st
          else unary_of self ASEBA_UNARY_OP_SUB (tk_pos f) st)
     else if tk_type f = TOKEN_OP_BIT_NOT then unary_of self ASEBA_UNARY_OP_BIT_NOT (tk_pos f)
     else if tk_type f = TOKEN_STR_abs then unary_of self ASEBA_UNARY_OP_ABS (tk_pos f)
     else if tk_type f = TOKEN_INT_LITERAL then
       bindP expectInt16Literal (\<lambda>v. bindP pop_front (\<lambda>_. returnP (TupleVectorNode (tk_pos f) [ImmediateNode (tk_pos f) v])))
     else if tk_type f = TOKEN_STRING_LITERAL then parseConstantAndVariable self
     else throwP (TranslatableError (tk_pos f) ERROR_INTERNAL [])))"

definition parseMultExpression :: "(grammar_call \<Rightarrow> node parser) \<Rightarrow> node parser" where
  "parseMultExpression self = binary_chain (parseUnaryExpression self) multiplications"

definition parseAddExpression :: "(grammar_call \<Rightarrow> node parser) \<Rightarrow> node parser" where
  "parseAddExpression self = binary_chain (parseMultExpression self) additions"

definition parseShiftExpression :: "(grammar_call \<Rightarrow> node parser) \<Rightarrow> node parser" where
  "parseShiftExpression self = binary_chain (parseAddExpression self) shifts"

definition parseBinaryAndExpression :: "(grammar_call \<Rightarrow> node parser) \<Rightarrow> node parser" where
  "parseBinaryAndExpression self = binary_chain (parseShiftExpression self) [(TOKEN_OP_BIT_AND, ASEBA_OP_BIT_AND)]"

definition parseBinaryXorExpression :: "(grammar_call \<Rightarrow> node parser) \<Rightarrow> node parser" where
  "parseBinaryXorExpression self = binary_chain (parseBinaryAndExpression self) [(TOKEN_OP_BIT_XOR, ASEBA_OP_BIT_XOR)]"

definition parseBinaryOrExpression :: "(grammar_call \<Rightarrow> node parser) \<Rightarrow> node parser" where
  "parseBinaryOrExpression self = binary_chain (parseBinaryXorExpression self) [(TOKEN_OP_BIT_OR, ASEBA_OP_BIT_OR)]"

definition parseCondition :: "(grammar_call \<Rightarrow> node parser) \<Rightarrow> node parser" where
  "parseCondition self = binary_chain (parseBinaryOrExpression self) comparisons"

definition parseNot :: "(grammar_call \<Rightarrow> node parser) \<Rightarrow> node parser" where
  "parseNot self =
     bindP front (\<lambda>f. bindP (while_front (\<lambda>f. tk_type f = TOKEN_OP_NOT) (\<lambda>odd. bindP pop_front (\<lambda>_. returnP (\<not> odd))) False) (\<lambda>odd.
     bindP (parseCondition self) (\<lambda>n. returnP (if odd then UnaryArithmeticNode (tk_pos f) ASEBA_UNARY_OP_NOT n else n))))"

definition parseAnd :: "(grammar_call \<Rightarrow> node parser) \<Rightarrow> node parser" where
  "parseAnd self = binary_chain (parseNot self) [(TOKEN_OP_AND, ASEBA_OP_AND)]"

definition parseOr :: "(grammar_call \<Rightarrow> node parser) \<Rightarrow> node parser" where
  "parseOr self = binary_chain (parseAnd self) [(TOKEN_OP_OR, ASEBA_OP_OR)]"

section \<open>Statements\<close>

definition block_until :: "(grammar_call \<Rightarrow> node parser) \<Rightarrow> token_type list \<Rightarrow> node list \<Rightarrow> node list parser" where
  "block_until self types = while_front (\<lambda>f. \<not> isOneOf types f) (\<lambda>cs. bindP (self NT_Block) (\<lambda>n. returnP (cs @ [n])))"

definition parseReturn :: "node parser" where
  "parseReturn = bindP front (\<lambda>f. bindP pop_front (\<lambda>_. returnP (ReturnNode (tk_pos f))))"

text \<open>The token is eaten if it is the expected one.\<close>

definition eat :: "token_type \<Rightarrow> unit parser" where
  "eat t = bindP (expect t) (\<lambda>_. pop_front)"

definition parseAssignment :: "(grammar_call \<Rightarrow> node parser) \<Rightarrow> node parser" where
  "parseAssignment self =
     bindP (expect TOKEN_STRING_LITERAL) (\<lambda>_. bindP (parseBinaryOrExpression self) (\<lambda>lValue. bindP front (\<lambda>f.
     if tk_type f = TOKEN_ASSIGN then
       bindP pop_front (\<lambda>_. bindP (parseBinaryOrExpression self) (\<lambda>r. returnP (AssignmentNode (tk_pos f) lValue r)))
     else if tk_type f = TOKEN_OP_PLUS_PLUS \<or> tk_type f = TOKEN_OP_MINUS_MINUS then
       bindP pop_front (\<lambda>_. returnP (UnaryArithmeticAssignmentNode (tk_pos f)
         (if tk_type f = TOKEN_OP_PLUS_PLUS then ASEBA_OP_ADD else ASEBA_OP_SUB) lValue))
     else
       (case map_of operatorMap (tk_type f) of
          Some op \<Rightarrow>
            bindP pop_front (\<lambda>_. bindP (parseBinaryOrExpression self) (\<lambda>r.
            returnP (ArithmeticAssignmentNode (tk_pos f) op lValue r)))
        | None \<Rightarrow> throwP (TranslatableError (tk_pos f) ERROR_EXPECTING_ASSIGNMENT [Arg_token f])))))"

text \<open>The end of an if: its end line is that of the end keyword. When an elseif follows, the member is left without a
  value; the model gives it 0.\<close>

definition if_end :: "(node \<Rightarrow> u32 \<Rightarrow> node) \<Rightarrow> node \<Rightarrow> node parser" where
  "if_end mk b = bindP front (\<lambda>f. bindP (eat TOKEN_STR_end) (\<lambda>_. returnP (mk b (row (tk_pos f)))))"

definition parseIfWhen :: "(grammar_call \<Rightarrow> node parser) \<Rightarrow> bool \<Rightarrow> node parser" where
  "parseIfWhen self edgeSensitive =
     bindP front (\<lambda>f. bindP pop_front (\<lambda>_. bindP (parseOr self) (\<lambda>c.
     bindP (eat (if edgeSensitive then TOKEN_STR_do else TOKEN_STR_then)) (\<lambda>_. bindP front (\<lambda>g.
     bindP (block_until self [TOKEN_STR_else, TOKEN_STR_elseif, TOKEN_STR_end] []) (\<lambda>cs.
     let t = BlockNode (tk_pos g) cs in
     bindP front (\<lambda>h.
     if \<not> edgeSensitive \<and> tk_type h = TOKEN_STR_else then
       bindP pop_front (\<lambda>_. bindP front (\<lambda>k.
       bindP (block_until self [TOKEN_STR_end] []) (\<lambda>ds.
       if_end (\<lambda>b el. IfWhenNode (tk_pos f) edgeSensitive el c t (Some b)) (BlockNode (tk_pos k) ds))))
     else if \<not> edgeSensitive \<and> tk_type h = TOKEN_STR_elseif then
       bindP (self NT_ElseIf) (\<lambda>n. returnP (IfWhenNode (tk_pos f) edgeSensitive 0 c t (Some n)))
     else if_end (\<lambda>b el. IfWhenNode (tk_pos f) edgeSensitive el c t None) t)))))))"

definition parseWhile :: "(grammar_call \<Rightarrow> node parser) \<Rightarrow> node parser" where
  "parseWhile self =
     bindP front (\<lambda>f. bindP pop_front (\<lambda>_. bindP (parseOr self) (\<lambda>c. bindP (eat TOKEN_STR_do) (\<lambda>_. bindP front (\<lambda>g.
     bindP (block_until self [TOKEN_STR_end] []) (\<lambda>cs. bindP pop_front (\<lambda>_.
     returnP (WhileNode (tk_pos f) c (BlockNode (tk_pos g) cs)))))))))"

definition constant_vector :: "source_pos \<Rightarrow> int \<Rightarrow> node" where
  "constant_vector p v = TupleVectorNode p [ImmediateNode p v]"

text \<open>A bound of the range of a for, with the position of its last token.\<close>

definition range_bound :: "(int \<times> source_pos) parser" where
  "range_bound = bindP expectInt16LiteralOrConstant (\<lambda>v. bindP front (\<lambda>f. bindP pop_front (\<lambda>_. returnP (v, tk_pos f))))"

definition range_step :: "int parser" where
  "range_step = bindP front (\<lambda>f.
     if tk_type f = TOKEN_STR_step then
       bindP pop_front (\<lambda>_. bindP expectInt16LiteralOrConstant (\<lambda>step. bindP front (\<lambda>g.
       bindP (guardP (step \<noteq> 0) (TranslatableError (tk_pos g) ERROR_FOR_NULL_STEPS [])) (\<lambda>_.
       bindP pop_front (\<lambda>_. returnP step)))))
     else returnP 1)"

definition check_range :: "int \<Rightarrow> source_pos \<Rightarrow> int \<Rightarrow> source_pos \<Rightarrow> int \<Rightarrow> failure + unit" where
  "check_range start startPos finish finishPos step =
     (if step > 0 then
        bindR (guardR (\<not> start > finish) (TranslatableError startPos ERROR_FOR_START_HIGHER_THAN_END [])) (\<lambda>_.
        guardR (finish \<noteq> 32767) (TranslatableError finishPos ERROR_FOR_INVALID_INC_END_INDEX []))
      else
        bindR (guardR (\<not> start < finish) (TranslatableError startPos ERROR_FOR_START_LOWER_THAN_END [])) (\<lambda>_.
        guardR (finish \<noteq> -32768) (TranslatableError finishPos ERROR_FOR_INVALID_DEC_END_INDEX [])))"

text \<open>The while of a for, with the increment at the end of its block.\<close>

definition for_loop :: "source_pos \<Rightarrow> node \<Rightarrow> int \<Rightarrow> int \<Rightarrow> source_pos \<Rightarrow> int \<Rightarrow> source_pos \<Rightarrow> node list \<Rightarrow> node" where
  "for_loop whilePos variable start finish finishPos step blockPos cs =
     (let varPos = sourcePos variable in
      WhileNode whilePos
        (BinaryArithmeticNode whilePos (if start \<le> finish then ASEBA_OP_SMALLER_EQUAL_THAN else ASEBA_OP_BIGGER_EQUAL_THAN)
           variable (constant_vector finishPos finish))
        (BlockNode blockPos (cs @
          [AssignmentNode varPos variable
             (BinaryArithmeticNode varPos ASEBA_OP_ADD variable (constant_vector varPos step))])))"

definition parseFor :: "(grammar_call \<Rightarrow> node parser) \<Rightarrow> node parser" where
  "parseFor self =
     bindP front (\<lambda>f. bindP pop_front (\<lambda>_. bindP (parseVariable self) (\<lambda>variable. bindP (eat TOKEN_STR_in) (\<lambda>_.
     bindP range_bound (\<lambda>(start, startPos). bindP (eat TOKEN_COLON) (\<lambda>_. bindP range_bound (\<lambda>(finish, finishPos).
     bindP range_step (\<lambda>step.
     bindP (liftP (check_range start startPos finish finishPos step)) (\<lambda>_.
     bindP (eat TOKEN_STR_do) (\<lambda>_.
     let init = AssignmentNode startPos variable (constant_vector startPos start) in
     if start = finish then
       bindP (block_until self [TOKEN_STR_end] [init]) (\<lambda>cs. bindP pop_front (\<lambda>_. returnP (BlockNode (tk_pos f) cs)))
     else
       bindP front (\<lambda>g. bindP (block_until self [TOKEN_STR_end] []) (\<lambda>cs. bindP pop_front (\<lambda>_.
       returnP (BlockNode (tk_pos f)
         [init, for_loop (tk_pos f) variable start finish finishPos step (tk_pos g) cs]))))))))))))))"

definition parseOnEvent :: "node parser" where
  "parseOnEvent =
     bindP front (\<lambda>f. bindP pop_front (\<lambda>_. bindP expectAnyEventId (\<lambda>eventId. bindP front (\<lambda>g. bindP getC (\<lambda>c.
     bindP (guardP (eventId \<notin> implementedEvents c)
       (TranslatableError (tk_pos g) ERROR_EVENT_ALREADY_IMPL [Arg_string (eventName c eventId)])) (\<lambda>_.
     bindP (setC (c\<lparr>implementedEvents := insert eventId (implementedEvents c)\<rparr>)) (\<lambda>_.
     bindP pop_front (\<lambda>_. returnP (EventDeclNode (tk_pos f) eventId)))))))))"

text \<open>The value that is emitted: a vector in memory at a constant address, or a temporary variable.\<close>

definition in_memory :: "node \<Rightarrow> failure + bool" where
  "in_memory n =
     (case n of
        MemoryVectorNode _ _ _ _ _ _ \<Rightarrow> bindR (getVectorAddr n) (\<lambda>a. Inr (a \<noteq> E_NOVAL))
      | _ \<Rightarrow> Inr False)"

definition check_event_size :: "bool \<Rightarrow> source_pos \<Rightarrow> wstring \<Rightarrow> u32 \<Rightarrow> u32 \<Rightarrow> failure + unit" where
  "check_event_size shorterArgsAllowed pos name eventSize arraySize =
     (if shorterArgsAllowed
      then guardR (\<not> arraySize > eventSize)
        (TranslatableError pos ERROR_EVENT_ARG_TOO_BIG [Arg_string name, Arg_unsigned eventSize, Arg_unsigned arraySize])
      else guardR (arraySize = eventSize)
        (TranslatableError pos ERROR_EVENT_WRONG_ARG_SIZE [Arg_string name, Arg_unsigned eventSize, Arg_unsigned arraySize]))"

definition event_named :: "compiler \<Rightarrow> u32 \<Rightarrow> failure + named_value" where
  "event_named c i = (if unat i < length (events (commonDefinitions c)) then Inr (events (commonDefinitions c) ! unat i) else Inl Undefined)"

definition parseEmit :: "(grammar_call \<Rightarrow> node parser) \<Rightarrow> bool \<Rightarrow> node parser" where
  "parseEmit self shorterArgsAllowed =
     bindP front (\<lambda>f. bindP pop_front (\<lambda>_. bindP expectGlobalEventId (\<lambda>eventId. bindP pop_front (\<lambda>_. bindP getC (\<lambda>c.
     bindP (liftP (event_named c eventId)) (\<lambda>ev.
     let pos = tk_pos f; eventSize = word_of_int (nval_value ev) in
     if eventSize > 0 then
       bindP (parseBinaryOrExpression self) (\<lambda>preNode. bindP (liftP (in_memory preNode)) (\<lambda>b.
       bindP (if b then returnP preNode else temporary_variable pos preNode) (\<lambda>n.
       bindP (liftP (getVectorAddr n)) (\<lambda>a. bindP (liftP (getVectorSize n)) (\<lambda>k.
       bindP (liftP (check_event_size shorterArgsAllowed pos (nval_name ev) eventSize k)) (\<lambda>_.
       returnP (EmitNode pos eventId a k (if b then [] else [n]))))))))
     else returnP (EmitNode pos eventId 0 0 [])))))))"

definition parseSubDecl :: "node parser" where
  "parseSubDecl =
     bindP front (\<lambda>f. bindP pop_front (\<lambda>_. bindP (expect TOKEN_STRING_LITERAL) (\<lambda>_. bindP front (\<lambda>g. bindP getC (\<lambda>c.
     bindP (guardP (map_find (subroutineReverseTable c) (sValue g) = None)
       (TranslatableError (tk_pos g) ERROR_SUBROUTINE_ALREADY_DEF [Arg_string (sValue g)])) (\<lambda>_.
     let i = word_of_nat (length (subroutineTable c)) in
     bindP (setC (c\<lparr>subroutineTable := subroutineTable c @
           [\<lparr>sub_name = sValue g, sub_address = 0, sub_line = row (tk_pos f)\<rparr>],
         subroutineReverseTable := map_set (sValue g) i (subroutineReverseTable c)\<rparr>)) (\<lambda>_.
     bindP pop_front (\<lambda>_. returnP (SubDeclNode (tk_pos f) i)))))))))"

definition parseCallSub :: "node parser" where
  "parseCallSub =
     bindP front (\<lambda>f. bindP pop_front (\<lambda>_. bindP (expect TOKEN_STRING_LITERAL) (\<lambda>_. bindP front (\<lambda>g. bindP pop_front (\<lambda>_.
     returnP (CallSubNode (tk_pos f) (sValue g) (-1)))))))"

section \<open>Calls of native functions\<close>

text \<open>An argument as a child of the call: the address of a vector in memory, the evaluation of any other expression into
  a temporary variable followed by its address, or the address of an array element found at run time.\<close>

definition native_argument :: "source_pos \<Rightarrow> source_pos \<Rightarrow> node \<Rightarrow> u32 \<Rightarrow> node parser" where
  "native_argument pos varPos preNode varAddr =
     (case preNode of
        MemoryVectorNode p a s n w i \<Rightarrow>
          if varAddr = E_NOVAL then
            bindP (temporary_memory varPos 1) (\<lambda>tempAddr.
            if direct_access i then throwP Abort
            else (case i of None \<Rightarrow> throwP Abort | Some x \<Rightarrow> returnP (LoadNativeArgNode p tempAddr a s n x)))
          else returnP (ImmediateNode varPos (sint varAddr))
      | _ \<Rightarrow>
          bindP (temporary_variable pos preNode) (\<lambda>temp. bindP (liftP (getVectorAddr temp)) (\<lambda>addr.
          returnP (BlockNode varPos [temp, ImmediateNode varPos (sint addr)]))))"

text \<open>The size of an argument against the size of its parameter: fixed, equal for all parameters of a template, or free.
  The results are the template arguments and the sizes of the templates.\<close>

definition check_argument ::
  "wstring \<Rightarrow> u32 \<Rightarrow> native_function_parameter \<Rightarrow> source_pos \<Rightarrow> u32 \<Rightarrow> u32 list \<times> int list \<Rightarrow> failure + u32 list \<times> int list" where
  "check_argument funcName i param varPos varSize ts =
     (case ts of (templateArgs, templateParameters) \<Rightarrow>
      if np_size param > 0 then
        if varSize \<noteq> word_of_int (np_size param)
        then Inl (TranslatableError varPos ERROR_FUNCTION_WRONG_ARG_SIZE
          [Arg_unsigned i, Arg_string (np_name param), Arg_string funcName, Arg_unsigned varSize, Arg_int (np_size param)])
        else Inr ts
      else if np_size param < 0 then
        (let k = nat (- np_size param - 1) in
         if k \<ge> length templateParameters then Inl Undefined
         else if templateParameters ! k < 0 then Inr (templateArgs, templateParameters[k := sint varSize])
         else if word_of_int (templateParameters ! k) \<noteq> varSize
         then Inl (TranslatableError varPos ERROR_FUNCTION_WRONG_ARG_SIZE_TEMPLATE
           [Arg_unsigned i, Arg_string (np_name param), Arg_string funcName, Arg_unsigned varSize,
            Arg_int (templateParameters ! k)])
         else Inr ts)
      else Inr (templateArgs @ [varSize], templateParameters))"

definition argument_end :: "wstring \<Rightarrow> u32 \<Rightarrow> u32 \<Rightarrow> unit parser" where
  "argument_end funcName count i =
     bindP front (\<lambda>f.
     bindP
       (if i + 1 = count then
          if tk_type f = TOKEN_COMMA
          then throwP (TranslatableError (tk_pos f) ERROR_FUNCTION_TOO_MANY_ARG [Arg_string funcName, Arg_unsigned count])
          else expect TOKEN_PAR_CLOSE
        else if tk_type f = TOKEN_PAR_CLOSE
        then throwP (TranslatableError (tk_pos f) ERROR_FUNCTION_NO_ENOUGH_ARG
          [Arg_string funcName, Arg_unsigned count, Arg_unsigned (i + 1)])
        else expect TOKEN_COMMA) (\<lambda>_.
     pop_front))"

primrec native_arguments :: "(grammar_call \<Rightarrow> node parser) \<Rightarrow> source_pos \<Rightarrow> wstring \<Rightarrow> u32 \<Rightarrow>
    native_function_parameter list \<Rightarrow> u32 \<Rightarrow> node list \<times> u32 list \<times> int list \<Rightarrow> (node list \<times> u32 list \<times> int list) parser" where
  "native_arguments self pos funcName count [] i acc = returnP acc"
| "native_arguments self pos funcName count (param # params) i acc =
     (case acc of (cs, ts) \<Rightarrow>
      bindP front (\<lambda>f.
      bindP (guardP (tk_type f \<noteq> TOKEN_PAR_CLOSE) (TranslatableError (tk_pos f) ERROR_FUNCTION_NO_ENOUGH_ARG
        [Arg_string funcName, Arg_unsigned count, Arg_unsigned i])) (\<lambda>_.
      bindP (parseBinaryOrExpression self) (\<lambda>preNode.
      bindP (liftP (getVectorAddr preNode)) (\<lambda>varAddr. bindP (liftP (getVectorSize preNode)) (\<lambda>varSize.
      bindP (native_argument pos (tk_pos f) preNode varAddr) (\<lambda>c.
      bindP (liftP (check_argument funcName i param (tk_pos f) varSize ts)) (\<lambda>ts'.
      bindP (argument_end funcName count i) (\<lambda>_.
      native_arguments self pos funcName count params (i + 1) (cs @ [c], ts'))))))))))"

definition native_named :: "compiler \<Rightarrow> u32 \<Rightarrow> failure + native_function" where
  "native_named c i =
     (let fs = nativeFunctions (targetDescription c) in if unat i < length fs then Inr (fs ! unat i) else Inl Undefined)"

definition parseFunctionCall :: "(grammar_call \<Rightarrow> node parser) \<Rightarrow> node parser" where
  "parseFunctionCall self =
     bindP front (\<lambda>f. bindP pop_front (\<lambda>_. bindP (expect TOKEN_STRING_LITERAL) (\<lambda>_. bindP front (\<lambda>g. bindP getC (\<lambda>c.
     let pos = tk_pos f; funcName = sValue g in
     bindP (liftP (findFunction c funcName pos)) (\<lambda>funcId. bindP (liftP (native_named c funcId)) (\<lambda>fn.
     bindP pop_front (\<lambda>_. bindP (eat TOKEN_PAR_OPEN) (\<lambda>_.
     if nf_parameters fn = [] then
       bindP front (\<lambda>h.
       bindP (guardP (tk_type h = TOKEN_PAR_CLOSE) (TranslatableError (tk_pos h) ERROR_FUNCTION_HAS_NO_ARG [Arg_string funcName])) (\<lambda>_.
       bindP pop_front (\<lambda>_. returnP (CallNode pos funcId [] []))))
     else
       (let n = nat (- foldl min 0 (map np_size (nf_parameters fn))) in
        bindP (native_arguments self pos funcName (word_of_nat (length (nf_parameters fn))) (nf_parameters fn) 0
          ([], [], replicate n (-1))) (\<lambda>(cs, templateArgs, templateParameters).
        returnP (CallNode pos funcId (templateArgs @ map word_of_int (filter (\<lambda>v. v \<ge> 0) templateParameters)) cs))))))))))))"

definition parseBlockStatement :: "(grammar_call \<Rightarrow> node parser) \<Rightarrow> node parser" where
  "parseBlockStatement self = bindP front (\<lambda>f.
     if tk_type f = TOKEN_STR_if then parseIfWhen self False
     else if tk_type f = TOKEN_STR_when then parseIfWhen self True
     else if tk_type f = TOKEN_STR_for then parseFor self
     else if tk_type f = TOKEN_STR_while then parseWhile self
     else if tk_type f = TOKEN_STR_emit then parseEmit self False
     else if tk_type f = TOKEN_STR_hidden_emit then parseEmit self True
     else if tk_type f = TOKEN_STR_call then parseFunctionCall self
     else if tk_type f = TOKEN_STR_callsub then parseCallSub
     else if tk_type f = TOKEN_STR_return then parseReturn
     else parseAssignment self)"

section \<open>Tying the calls\<close>

primrec parse :: "nat \<Rightarrow> grammar_call \<Rightarrow> node parser" where
  "parse 0 = (\<lambda>n. throwP Diverges)"
| "parse (Suc fuel) = (\<lambda>n.
     case n of
       NT_Or \<Rightarrow> parseOr (parse fuel)
     | NT_BinaryOr \<Rightarrow> parseBinaryOrExpression (parse fuel)
     | NT_Unary \<Rightarrow> parseUnaryExpression (parse fuel)
     | NT_Tuple \<Rightarrow> parseTupleVector (parse fuel)
     | NT_Block \<Rightarrow> parseBlockStatement (parse fuel)
     | NT_ElseIf \<Rightarrow> parseIfWhen (parse fuel) False)"

section \<open>Declarations and programs\<close>

definition expect_identifier :: "(wstring \<times> source_pos) parser" where
  "expect_identifier = bindP front (\<lambda>f.
     bindP (guardP (tk_type f = TOKEN_STRING_LITERAL) (TranslatableError (tk_pos f) ERROR_EXPECTING_IDENTIFIER [Arg_token f])) (\<lambda>_.
     bindP pop_front (\<lambda>_. returnP (sValue f, tk_pos f))))"

definition parseConstDef :: "(grammar_call \<Rightarrow> node parser) \<Rightarrow> unit parser" where
  "parseConstDef self =
     bindP pop_front (\<lambda>_. bindP expect_identifier (\<lambda>(constName, constPos). bindP getC (\<lambda>c.
     bindP (guardP (map_find (constantsMap c) constName = None)
       (TranslatableError constPos ERROR_CONST_ALREADY_DEFINED [Arg_string constName])) (\<lambda>_.
     bindP front (\<lambda>f.
     bindP (guardP (tk_type f = TOKEN_ASSIGN) (TranslatableError (tk_pos f) ERROR_EXPECTING_ASSIGNMENT [Arg_token f])) (\<lambda>_.
     bindP pop_front (\<lambda>_. bindP (self NT_BinaryOr) (\<lambda>tree. bindP getC (\<lambda>c.
     bindP (liftP (expectConstantExpression c constPos tree)) (\<lambda>v.
     setC (c\<lparr>constantsMap := map_set constName v (constantsMap c)\<rparr>)))))))))))"

definition parseVariableDefSize :: "(grammar_call \<Rightarrow> node parser) \<Rightarrow> u32 parser" where
  "parseVariableDefSize self = bindP front (\<lambda>f.
     if tk_type f = TOKEN_BRACKET_OPEN then
       bindP pop_front (\<lambda>_. bindP front (\<lambda>g.
       if tk_type g = TOKEN_BRACKET_CLOSE then bindP pop_front (\<lambda>_. returnP E_NOVAL)
       else
         bindP (self NT_BinaryOr) (\<lambda>tree. bindP getC (\<lambda>c.
         bindP (liftP (expectConstantExpression c (tk_pos f) tree)) (\<lambda>v.
         bindP (guardP (\<not> v < 0) (TranslatableError (tk_pos f) ERROR_SIZE_IS_NEGATIVE [Arg_int v])) (\<lambda>_.
         bindP (guardP (v \<noteq> 0) (TranslatableError (tk_pos f) ERROR_SIZE_IS_NULL [])) (\<lambda>_.
         bindP (eat TOKEN_BRACKET_CLOSE) (\<lambda>_. returnP (word_of_int v)))))))))
     else returnP 1)"

text \<open>The initialization of a variable: the assignment, and the size of the variable, which may come from it.\<close>

definition parseVarDefInit ::
  "(grammar_call \<Rightarrow> node parser) \<Rightarrow> source_pos \<Rightarrow> u32 \<Rightarrow> u32 \<Rightarrow> wstring \<Rightarrow> (node \<times> u32) option parser" where
  "parseVarDefInit self varPos varAddr varSize varName = bindP front (\<lambda>f.
     if tk_type f = TOKEN_ASSIGN then
       bindP pop_front (\<lambda>_. bindP (parseOldStyleTuple self) (\<lambda>old.
       bindP (case old of None \<Rightarrow> self NT_BinaryOr | Some n \<Rightarrow> returnP n) (\<lambda>rValue.
       bindP (if varSize = E_NOVAL then liftP (getVectorSize rValue) else returnP varSize) (\<lambda>k.
       returnP (Some (AssignmentNode (tk_pos f) (MemoryVectorNode varPos varAddr k varName False None) rValue, k))))))
     else returnP None)"

definition parseVarDef :: "(grammar_call \<Rightarrow> node parser) \<Rightarrow> node option parser" where
  "parseVarDef self =
     bindP pop_front (\<lambda>_.
     bindP getC (\<lambda>c0. bindP expect_identifier (\<lambda>(varName, varPos).
     let varAddr = freeVariableIndex c0 in
     bindP (parseVariableDefSize self) (\<lambda>declared.
     bindP (guardP (map_find (variablesMap c0) varName = None) (TranslatableError varPos ERROR_VAR_ALREADY_DEFINED [Arg_string varName])) (\<lambda>_.
     bindP (guardP (map_find (constantsMap c0) varName = None) (TranslatableError varPos ERROR_VAR_CONST_COLLISION [Arg_string varName])) (\<lambda>_.
     bindP (parseVarDefInit self varPos varAddr declared varName) (\<lambda>init.
     let varSize = (case init of None \<Rightarrow> declared | Some (n, k) \<Rightarrow> k) in
     bindP (guardP (\<not> (varSize = 0 \<or> varSize = E_NOVAL)) (TranslatableError varPos ERROR_UNDEFINED_SIZE [Arg_string varName])) (\<lambda>_.
     bindP getC (\<lambda>c.
     let c' = c\<lparr>variablesMap := map_set varName (varAddr, varSize) (variablesMap c),
                freeVariableIndex := freeVariableIndex c + varSize\<rparr> in
     bindP (guardP (\<not> freeVariableIndex c' > variablesSize (targetDescription c')) (TranslatableError varPos ERROR_NOT_ENOUGH_SPACE [])) (\<lambda>_.
     bindP (setC c') (\<lambda>_. returnP (map_option fst init))))))))))))"

definition parseStatement :: "(grammar_call \<Rightarrow> node parser) \<Rightarrow> node parser" where
  "parseStatement self =
     bindP freeTemporaryMemory (\<lambda>_. bindP front (\<lambda>f.
     if tk_type f = TOKEN_STR_var then throwP (TranslatableError (tk_pos f) ERROR_MISPLACED_VARDEF [])
     else if tk_type f = TOKEN_STR_onevent then parseOnEvent
     else if tk_type f = TOKEN_STR_sub then parseSubDecl
     else self NT_Block))"

definition parseProgram :: "(grammar_call \<Rightarrow> node parser) \<Rightarrow> node parser" where
  "parseProgram self =
     bindP front (\<lambda>f.
     bindP (while_front (\<lambda>f. tk_type f = TOKEN_STR_const) (\<lambda>_. parseConstDef self) ()) (\<lambda>_.
     bindP (while_front (\<lambda>f. tk_type f = TOKEN_STR_var) (\<lambda>cs. bindP (parseVarDef self) (\<lambda>n.
       returnP (case n of None \<Rightarrow> cs | Some c \<Rightarrow> cs @ [c]))) []) (\<lambda>cs.
     bindP (while_front (\<lambda>f. tk_type f \<noteq> TOKEN_END_OF_STREAM) (\<lambda>cs. bindP (parseStatement self) (\<lambda>n. returnP (cs @ [n]))) cs) (\<lambda>cs'.
     returnP (ProgramNode (tk_pos f) cs')))))"

end
