(* ===== verification/Pass_Ends.thy ===== *)
theory Pass_Ends
  imports Tree_Expand
begin

text \<open>
  The passes over the tree that the parser runs on constant expressions end: the failure \<open>Diverges\<close> comes only from
  the fuel of the expansion of assignments, and the trees of expressions hold no assignment.
\<close>

section \<open>Results that are not the end of the fuel\<close>

named_theorems ends \<open>rules for results other than the end of the fuel\<close>

definition returns :: "failure + 'a \<Rightarrow> bool" where
  "returns r \<longleftrightarrow> r \<noteq> Inl Diverges"

lemma returns_simps [simp]:
  "returns (Inr x)"
  "returns (Inl e) \<longleftrightarrow> e \<noteq> Diverges"
  by (simp_all add: returns_def)

lemma returns_bind [ends]:
  assumes "returns m" and "\<And>x. m = Inr x \<Longrightarrow> returns (f x)"
  shows "returns (bindR m f)"
  using assms by (cases m) auto

lemma returns_guard [ends, simp]: "returns (guardR b e) \<longleftrightarrow> b \<or> e \<noteq> Diverges"
  by (cases b) simp_all

lemma returns_mapR [ends]: "(\<And>x. x \<in> set xs \<Longrightarrow> returns (f x)) \<Longrightarrow> returns (mapR f xs)"
  by (induction xs) (auto intro!: returns_bind)

lemma returns_foldR [ends]: "(\<And>x s. x \<in> set xs \<Longrightarrow> returns (f x s)) \<Longrightarrow> returns (foldR f xs s)"
  by (induction xs arbitrary: s) (auto intro!: returns_bind)

lemma returns_mapS [ends]: "(\<And>x s. x \<in> set xs \<Longrightarrow> returns (f x s)) \<Longrightarrow> returns (mapS f xs s)"
  by (induction xs arbitrary: s) (auto intro!: returns_bind)

lemma returns_optR [ends]: "(\<And>x. o' = Some x \<Longrightarrow> returns (f x)) \<Longrightarrow> returns (optR f o')"
  by (cases o') (auto intro!: returns_bind)

lemma returns_required [ends]: "returns m \<Longrightarrow> returns (required m)"
  unfolding required_def by (intro ends) (simp_all split: option.splits)

section \<open>Sizes and addresses\<close>

lemma c_int_returns [ends]: "returns (c_int v)"
  by (simp add: c_int_def)

lemma nth_immediate_returns [ends]: "returns (nth_immediate cs n k)"
  by (simp add: nth_immediate_def split: option.splits)

lemma same_size_returns [ends]: "returns (same_size p s k)"
  by (simp add: same_size_def)

lemma getVectorSize_returns [ends]: "returns (getVectorSize n)"
proof (induction n rule: getVectorSize.induct)
  case (8 p a s n w i)
  show ?case
  proof (cases i)
    case (TupleVectorNode q cs)
    have k: "returns (getVectorSize i)" using 8 TupleVectorNode by simp
    show ?thesis
      unfolding getVectorSize.simps(8) using TupleVectorNode
      by (simp del: getVectorSize.simps, intro returns_bind k [unfolded TupleVectorNode])
        (auto intro!: ends simp: out_of_bound_def simp del: getVectorSize.simps)
  qed simp_all
qed (auto intro!: ends split: option.splits)

lemma getImmediateValue_returns [ends]: "returns (getImmediateValue p cs k)"
  unfolding getImmediateValue_def by (intro ends)

lemma getVectorAddr_returns [ends]: "returns (getVectorAddr n)"
  by (induction n rule: getVectorAddr.induct)
    (auto intro!: ends simp: out_of_bound_def split: node.splits)

lemma memory_element_returns [ends]: "returns (memory_element n i)"
  unfolding memory_element_def
  by (cases n) (auto intro!: ends simp: out_of_bound_def Let_def)

lemma tuple_child_returns [ends]: "returns (tuple_child cs i t)"
  by (induction cs i t rule: tuple_child.induct) (auto intro!: ends)

lemma expandAbstractNodes_returns [ends]: "returns (expandAbstractNodes n)"
  by (induction n rule: expandAbstractNodes.induct) (auto intro!: ends)

section \<open>Optimization\<close>

lemma fold_binary_returns [ends]: "returns (fold_binary op p a b)"
  by (cases op) (auto intro!: ends simp: shift_left_def shift_right_def)

lemma fold_unary_returns [ends]: "returns (fold_unary op p v)"
  by (cases op) (auto intro!: ends)

lemma pot_shift_returns [ends]: "returns (pot_shift p op l r)"
  by (cases r) (simp_all add: pot_shift_def)

lemma optimize_binary_returns [ends]: "returns (optimize_binary p op l r)"
  unfolding optimize_binary_def by (auto intro!: ends split: option.splits)

lemma deMorganNotRemoval_returns [ends]: "returns (deMorganNotRemoval n)"
  by (induction n rule: deMorganNotRemoval.induct) (auto intro!: ends split: option.splits)

lemma optimize_unary_returns [ends]: "returns (optimize_unary p op c)"
  by (cases c) (auto intro!: ends simp: optimize_unary_def simp del: deMorganNotRemoval.simps)

lemma optimize_access_returns [ends]:
  "returns (optimize_read p a s n i)"
  "returns (optimize_write p a s n i)"
  by (auto simp: optimize_read_def optimize_write_def Let_def split: option.splits)

lemma optimize_if_returns [ends]: "returns (optimize_if p e el c t f)"
  by (cases c) (auto simp: optimize_if_def)

lemma optimize_while_returns [ends]: "returns (optimize_while p c b)"
  by (cases c) (auto simp: optimize_while_def split: option.splits)

lemma optimize_returns [ends]: "returns (optimize n)"
  by (induction n rule: optimize.induct) (auto intro!: ends)

section \<open>Expressions\<close>

fun expression_tree :: "node \<Rightarrow> bool" where
  "expression_tree (ImmediateNode p v) \<longleftrightarrow> True"
| "expression_tree (TupleVectorNode p cs) \<longleftrightarrow> list_all expression_tree cs"
| "expression_tree (MemoryVectorNode p a s n w i) \<longleftrightarrow> (case i of None \<Rightarrow> True | Some x \<Rightarrow> expression_tree x)"
| "expression_tree (BinaryArithmeticNode p op l r) \<longleftrightarrow> expression_tree l \<and> expression_tree r"
| "expression_tree (UnaryArithmeticNode p op c) \<longleftrightarrow> expression_tree c"
| "expression_tree _ \<longleftrightarrow> False"

lemma expandAbstractNodes_expression: "expression_tree n \<Longrightarrow> expandAbstractNodes n = Inr n"
  by (induction n rule: expression_tree.induct) simp_all

lemma expand_expression_returns: "expression_tree n \<Longrightarrow> returns (expandVectorialNodes fuel n i st)"
proof (induction fuel n i st rule: expandVectorialNodes.induct)
  case (3 fuel p cs index st)
  then have "returns (expandVectorialNodes fuel c j st)" if "tuple_child cs (unat index) 0 = Inr (c, j)" for c j
    using that tuple_child_mem [OF that] by (simp add: list_all_iff)
  then show ?case by (auto intro!: ends)
next
  case (4 fuel p a s n w i index st)
  then show ?case
    by (auto intro!: ends simp del: getVectorSize.simps split: option.splits)
qed (auto intro!: ends)

end
