(* ===== verification/Parser_Progress.thy ===== *)
theory Parser_Progress
  imports Parser Pass_Ends
begin

text \<open>
  The parser ends. A judgement on parsers says that, from a list of tokens that ends with the end of the stream and is
  not longer than a bound, a parser does not run out of fuel, never reads past the end of the stream, and leaves
  such a list, a shorter one if the judgement is strict. It has one rule for each building block of the parser;
  the functions of the parser follow from the rules.
\<close>

section \<open>The judgement\<close>

named_theorems progress \<open>rules of the progress judgement\<close>

definition stream_ok :: "token list \<Rightarrow> bool" where
  "stream_ok ts \<longleftrightarrow> ts \<noteq> [] \<and> tk_type (last ts) = TOKEN_END_OF_STREAM"

definition progress_from :: "(token \<Rightarrow> bool) \<Rightarrow> nat \<Rightarrow> bool \<Rightarrow> 'a parser \<Rightarrow> bool" where
  "progress_from P n strict p \<longleftrightarrow>
     (\<forall>st. stream_ok (toks st) \<longrightarrow> P (hd (toks st)) \<longrightarrow> length (toks st) \<le> n \<longrightarrow>
       (case p st of
          Inl e \<Rightarrow> e \<noteq> Diverges
        | Inr (x, st') \<Rightarrow> stream_ok (toks st') \<and> length (toks st') + of_bool strict \<le> length (toks st)))"

abbreviation progresses :: "nat \<Rightarrow> bool \<Rightarrow> 'a parser \<Rightarrow> bool" where
  "progresses n strict p \<equiv> progress_from (\<lambda>t. True) n strict p"

lemma progress_fromI:
  assumes "\<And>st :: parser_state. stream_ok (toks st) \<Longrightarrow> P (hd (toks st)) \<Longrightarrow> length (toks st) \<le> n \<Longrightarrow>
    (case p st of Inl e \<Rightarrow> e \<noteq> Diverges
     | Inr (x, st') \<Rightarrow> stream_ok (toks st') \<and> length (toks st') + of_bool strict \<le> length (toks st))"
  shows "progress_from P n strict p"
  using assms by (simp add: progress_from_def)

lemma progress_fromD:
  assumes "progress_from P n strict p" and "stream_ok (toks st)" and "P (hd (toks st))" and "length (toks st) \<le> n"
  shows progress_no_loop: "p st \<noteq> Inl Diverges"
    and progress_result: "p st = Inr (x, st') \<Longrightarrow> stream_ok (toks st') \<and> length (toks st') + of_bool strict \<le> length (toks st)"
proof -
  have *: "case p st of Inl e \<Rightarrow> e \<noteq> Diverges
    | Inr (x, st') \<Rightarrow> stream_ok (toks st') \<and> length (toks st') + of_bool strict \<le> length (toks st)"
    using assms unfolding progress_from_def by simp
  show "p st \<noteq> Inl Diverges" using * by auto
  show "p st = Inr (x, st') \<Longrightarrow> stream_ok (toks st') \<and> length (toks st') + of_bool strict \<le> length (toks st)"
    using * by simp
qed

lemma progress_weaken:
  assumes "progress_from P n s p" and "\<And>t. Q t \<Longrightarrow> P t" and "m \<le> n" and "s' \<longrightarrow> s"
  shows "progress_from Q m s' p"
proof (rule progress_fromI)
  fix st :: parser_state assume "stream_ok (toks st)" "Q (hd (toks st))" "length (toks st) \<le> m"
  with assms progress_fromD [OF assms(1), of st]
  show "case p st of Inl e \<Rightarrow> e \<noteq> Diverges
      | Inr (x, st') \<Rightarrow> stream_ok (toks st') \<and> length (toks st') + of_bool s' \<le> length (toks st)"
    by (fastforce split: sum.splits)
qed

lemma progress_nonstrict: "progress_from P n True p \<Longrightarrow> progress_from P n False p"
  by (rule progress_weaken [of P n True p]) auto

lemma progress_any: "progresses n s p \<Longrightarrow> progress_from P n s p"
  by (rule progress_weaken [of "\<lambda>t. True" n s p]) auto

lemma stream_ok_tl: "stream_ok ts \<Longrightarrow> tk_type (hd ts) \<noteq> TOKEN_END_OF_STREAM \<Longrightarrow> stream_ok (tl ts)"
  by (cases ts) (auto simp: stream_ok_def split: if_splits)

section \<open>Rules\<close>

lemma progress_bind:
  assumes "progress_from P n s m" and "\<And>x. progresses (n - of_bool s) s' (k x)"
  shows "progress_from P n (s \<or> s') (bindP m k)"
proof (rule progress_fromI)
  fix st :: parser_state assume st: "stream_ok (toks st)" "P (hd (toks st))" "length (toks st) \<le> n"
  show "case bindP m k st of Inl e \<Rightarrow> e \<noteq> Diverges
      | Inr (x, st') \<Rightarrow> stream_ok (toks st') \<and> length (toks st') + of_bool (s \<or> s') \<le> length (toks st)"
  proof (cases "m st")
    case (Inl e)
    with progress_fromD(1) [OF assms(1) st] show ?thesis by (simp add: bindP_def)
  next
    case (Inr r)
    obtain x st1 where r: "r = (x, st1)" by (rule prod.exhaust)
    then have st1: "stream_ok (toks st1)" "length (toks st1) + of_bool s \<le> length (toks st)"
      using progress_fromD(2) [OF assms(1) st] Inr by auto
    have "length (toks st1) \<le> n - of_bool s" using st1 st(3) by linarith
    with st1 progress_fromD [OF assms(2), of st1] Inr r show ?thesis
      by (fastforce simp: bindP_def split: sum.splits)
  qed
qed

lemma progress_strict_bind:
  assumes "progress_from P n True m" and "\<And>x. progresses (n - 1) False (k x)"
  shows "progress_from P n True (bindP m k)"
  using progress_bind [of P n True m False k] assms by simp

lemma progress_lax_bind:
  assumes "progress_from P n False m" and "\<And>x. progresses n s (k x)"
  shows "progress_from P n s (bindP m k)"
  using progress_bind [of P n False m s k] assms by simp

lemma progress_return [progress]: "progress_from P n False (returnP x)"
  by (rule progress_fromI) (simp add: returnP_def)

lemma progress_throw [progress]: "e \<noteq> Diverges \<Longrightarrow> progress_from P n s (throwP e)"
  by (rule progress_fromI) (simp add: throwP_def)

lemma progress_front [progress]:
  assumes "\<And>f. P f \<Longrightarrow> progress_from (\<lambda>t. t = f) n s (k f)"
  shows "progress_from P n s (bindP front k)"
proof (rule progress_fromI)
  fix st :: parser_state assume st: "stream_ok (toks st)" "P (hd (toks st))" "length (toks st) \<le> n"
  then obtain f ts where f: "toks st = f # ts" by (cases "toks st") (auto simp: stream_ok_def)
  with st progress_fromD [OF assms, of f st]
  show "case bindP front k st of Inl e \<Rightarrow> e \<noteq> Diverges
      | Inr (x, st') \<Rightarrow> stream_ok (toks st') \<and> length (toks st') + of_bool s \<le> length (toks st)"
    by (fastforce simp: bindP_def front_def split: sum.splits)
qed

lemma progress_pop_front:
  assumes "\<And>t. P t \<Longrightarrow> tk_type t \<noteq> TOKEN_END_OF_STREAM"
  shows "progress_from P n True pop_front"
proof (rule progress_fromI)
  fix st :: parser_state assume st: "stream_ok (toks st)" "P (hd (toks st))" "length (toks st) \<le> n"
  then show "case pop_front st of Inl e \<Rightarrow> e \<noteq> Diverges
      | Inr (x, st') \<Rightarrow> stream_ok (toks st') \<and> length (toks st') + of_bool True \<le> length (toks st)"
    using stream_ok_tl [OF st(1)] assms [OF st(2)] by (cases "toks st") (auto simp: pop_front_def stream_ok_def)
qed

lemma progress_guard [progress]:
  assumes "e \<noteq> Diverges" and "b \<Longrightarrow> progress_from P n s (k ())"
  shows "progress_from P n s (bindP (guardP b e) k)"
  using assms by (cases b) (auto simp: progress_from_def bindP_def guardP_def liftP_def)

lemma progress_lift [progress]:
  assumes "returns r" and "\<And>x. r = Inr x \<Longrightarrow> progress_from P n s (k x)"
  shows "progress_from P n s (bindP (liftP r) k)"
  using assms by (cases r) (auto simp: progress_from_def bindP_def liftP_def)

lemma progress_getC [progress]:
  assumes "\<And>c. progress_from P n s (k c)"
  shows "progress_from P n s (bindP getC k)"
  using assms unfolding progress_from_def bindP_def getC_def by (auto split: sum.splits)

lemma progress_setC [progress]:
  assumes "progress_from P n s (k ())"
  shows "progress_from P n s (bindP (setC c) k)"
proof (rule progress_fromI)
  fix st :: parser_state assume "stream_ok (toks st)" "P (hd (toks st))" "length (toks st) \<le> n"
  with progress_fromD [OF assms, of "st\<lparr>comp := c\<rparr>"]
  show "case bindP (setC c) k st of Inl e \<Rightarrow> e \<noteq> Diverges
      | Inr (x, st') \<Rightarrow> stream_ok (toks st') \<and> length (toks st') + of_bool s \<le> length (toks st)"
    by (fastforce simp: bindP_def setC_def split: sum.splits)
qed

lemma progress_last_setC [progress]: "progress_from P n False (setC c)"
  by (simp add: progress_from_def setC_def)

lemma progress_expect [progress]:
  assumes "progress_from (\<lambda>f. P f \<and> tk_type f = t) n s (k ())"
  shows "progress_from P n s (bindP (expect t) k)"
proof (rule progress_fromI)
  fix st :: parser_state assume st: "stream_ok (toks st)" "P (hd (toks st))" "length (toks st) \<le> n"
  then obtain f ts where "toks st = f # ts" by (cases "toks st") (auto simp: stream_ok_def)
  with st progress_fromD [OF assms, of st]
  show "case bindP (expect t) k st of Inl e \<Rightarrow> e \<noteq> Diverges
      | Inr (x, st') \<Rightarrow> stream_ok (toks st') \<and> length (toks st') + of_bool s \<le> length (toks st)"
    by (cases "tk_type f = t") (fastforce simp: expect_def bindP_def front_def guardP_def liftP_def split: sum.splits)+
qed

lemma progress_if [progress]:
  assumes "b \<Longrightarrow> progress_from P n s p" and "\<not> b \<Longrightarrow> progress_from P n s q"
  shows "progress_from P n s (if b then p else q)"
  using assms by simp

lemma progress_turns:
  assumes "\<And>x m. m \<le> n \<Longrightarrow> progress_from c m True (body x)"
  shows "m \<le> n \<Longrightarrow> m < k \<Longrightarrow> progresses m False (turns k c body x)"
proof (induction k arbitrary: m x)
  case (Suc k)
  show ?case
  proof (cases m)
    case 0
    then show ?thesis by (auto simp: progress_from_def stream_ok_def)
  next
    case (Suc m')
    have "progresses m False (bindP front (\<lambda>t. if c t then bindP (body x) (turns k c body) else returnP x))"
    proof (intro progress_front progress_if)
      fix f assume "c f"
      have "progress_from c m True (bindP (body x) (turns k c body))"
        using Suc Suc.prems Suc.IH [of m'] assms [of m] by (intro progress_strict_bind) auto
      then show "progress_from (\<lambda>t. t = f) m False (bindP (body x) (turns k c body))"
        by (rule progress_weaken) (use \<open>c f\<close> in auto)
    qed (rule progress_return)
    then show ?thesis by simp
  qed
qed simp

lemma progress_while [progress]:
  assumes "\<And>x. progress_from c n True (body x)"
  shows "progress_from P n False (while_front c body x)"
proof (rule progress_any, rule progress_fromI)
  fix st :: parser_state assume st: "stream_ok (toks st)" "True" "length (toks st) \<le> n"
  have "progress_from c m True (body x)" if "m \<le> n" for x m
    using that by (intro progress_weaken [OF assms]) auto
  then have "progresses (length (toks st)) False (turns (Suc (length (toks st))) c body x)"
    using progress_turns [of n c body "length (toks st)" "Suc (length (toks st))" x] st(3) by simp
  from progress_fromD [OF this st(1)]
  show "case while_front c body x st of Inl e \<Rightarrow> e \<noteq> Diverges
      | Inr (x, st') \<Rightarrow> stream_ok (toks st') \<and> length (toks st') + of_bool False \<le> length (toks st)"
    by (fastforce simp: while_front_def split: sum.splits)
qed

text \<open>After a loop the front token ends it.\<close>

lemma turns_exit: "turns k c body x st = Inr (y, st') \<Longrightarrow> \<exists>f ts. toks st' = f # ts \<and> \<not> c f"
proof (induction k arbitrary: x st)
  case (Suc k)
  then show ?case
    by (auto simp: bindP_def front_def returnP_def split: list.splits if_splits)
qed (simp add: throwP_def)

lemma while_exit: "while_front c body x st = Inr (y, st') \<Longrightarrow> \<exists>f ts. toks st' = f # ts \<and> \<not> c f"
  unfolding while_front_def by (rule turns_exit)

lemma progress_while_then:
  assumes "\<And>x. progress_from c n True (body x)" and "\<And>x. progress_from (\<lambda>f. \<not> c f) n False (k x)"
  shows "progress_from P n False (bindP (while_front c body x) k)"
proof -
  let ?k = "\<lambda>y. bindP front (\<lambda>f. if c f then throwP Abort else k y)"
  have "bindP (while_front c body x) k st = bindP (while_front c body x) ?k st" for st
    unfolding bindP_def [of "while_front c body x"]
    by (rule bindR_cong) (auto simp: bindP_def front_def dest!: while_exit)
  then have "bindP (while_front c body x) k = bindP (while_front c body x) ?k" by blast
  moreover have "progress_from P n False (bindP (while_front c body x) ?k)"
    using assms(2) by (intro progress_lax_bind progress_while assms(1) progress_front progress_if progress_throw)
      (auto intro: progress_weaken)
  ultimately show ?thesis by simp
qed

lemma progress_pop_keep:
  assumes "\<And>t. P t \<Longrightarrow> tk_type t \<noteq> TOKEN_END_OF_STREAM" and "progresses n False (k ())"
  shows "progress_from P n s (bindP pop_front k)"
proof (cases n)
  case 0
  then show ?thesis by (auto simp: progress_from_def stream_ok_def)
next
  case (Suc m)
  have "progress_from P n True (bindP pop_front k)"
    using assms progress_weaken [OF assms(2), of "\<lambda>t. True" "n - 1" False]
    by (intro progress_strict_bind progress_pop_front) auto
  then show ?thesis by (rule progress_weaken) auto
qed

lemma progress_pop_lax [progress]:
  assumes "\<And>t. P t \<Longrightarrow> tk_type t \<noteq> TOKEN_END_OF_STREAM" and "progresses n False (k ())"
  shows "progress_from P n False (bindP pop_front k)"
  using assms by (rule progress_pop_keep)

lemma progress_pop_call [progress]:
  assumes "\<And>t. P t \<Longrightarrow> tk_type t \<noteq> TOKEN_END_OF_STREAM" and "progresses n False (k ())"
  shows "progress_from P (Suc n) True (bindP pop_front k)"
  using assms by (intro progress_strict_bind progress_pop_front) auto

lemma progress_last_pop [progress]:
  "(\<And>t. P t \<Longrightarrow> tk_type t \<noteq> TOKEN_END_OF_STREAM) \<Longrightarrow> progress_from P n s pop_front"
  by (cases s) (auto intro: progress_pop_front progress_nonstrict)

lemma progress_set_front [progress]:
  assumes "\<And>t. P t \<Longrightarrow> tk_type t = tk_type g" and "progress_from (\<lambda>t. t = g) n s (k ())"
  shows "progress_from P n s (bindP (set_front g) k)"
proof (rule progress_fromI)
  fix st :: parser_state assume st: "stream_ok (toks st)" "P (hd (toks st))" "length (toks st) \<le> n"
  then obtain f ts where f: "toks st = f # ts" by (cases "toks st") (auto simp: stream_ok_def)
  have "stream_ok (g # ts)" using st assms(1) f by (auto simp: stream_ok_def split: if_splits)
  with st f progress_fromD [OF assms(2), of "st\<lparr>toks := g # ts\<rparr>"]
  show "case bindP (set_front g) k st of Inl e \<Rightarrow> e \<noteq> Diverges
      | Inr (x, st') \<Rightarrow> stream_ok (toks st') \<and> length (toks st') + of_bool s \<le> length (toks st)"
    by (fastforce simp: bindP_def set_front_def split: sum.splits)
qed

lemma progress_cond [progress]:
  assumes "progress_from P n s p" and "progress_from P n s q"
  shows "progress_from P n s (\<lambda>st. if c st then p st else q st)"
  using assms by (simp add: progress_from_def)

lemma progress_Let [progress]: "progress_from P n s (f x) \<Longrightarrow> progress_from P n s (let y = x in f y)"
  by simp

end
