(* ===== verification/Parser_Ends.thy ===== *)
theory Parser_Ends
  imports Parser_Progress Lexer_Correct
begin

text \<open>
  The parser returns: the functions of the parser make progress if the calls they close a cycle with do (the locale
  \<open>parser_calls\<close>), so that \<open>parse\<close> with a unit of fuel for each token never runs out of it, and a
  program is parsed, or rejected with an error, for every text.
\<close>

section \<open>Sequences of parsers\<close>

lemma bindP_assoc: "bindP (bindP m f) g = bindP m (\<lambda>x. bindP (f x) g)"
  unfolding bindP_def by (auto simp: bindR_assoc intro!: bindR_cong)

lemma bindP_return: "bindP (returnP x) f = f x"
  by (simp add: bindP_def returnP_def)

lemma bindP_throw: "bindP (throwP e) f = throwP e"
  by (simp add: bindP_def throwP_def)

lemma bindP_if: "bindP (if b then p else q) k = (if b then bindP p k else bindP q k)"
  by simp

lemmas straight = bindP_assoc bindP_return bindP_throw bindP_if

section \<open>What a parser yields\<close>

definition yields :: "('a \<Rightarrow> bool) \<Rightarrow> 'a parser \<Rightarrow> bool" where
  "yields Q p \<longleftrightarrow> (\<forall>st x st'. p st = Inr (x, st') \<longrightarrow> Q x)"

named_theorems yield \<open>rules for the results of a parser\<close>

lemma yields_bind: "yields R m \<Longrightarrow> (\<And>x. R x \<Longrightarrow> yields Q (k x)) \<Longrightarrow> yields Q (bindP m k)"
  unfolding yields_def bindP_def by (auto simp: bindR_eq_Inr) blast

lemma yields_any [yield]: "(\<And>x. yields Q (k x)) \<Longrightarrow> yields Q (bindP m k)"
  by (rule yields_bind [of "\<lambda>x. True"]) (auto simp: yields_def)

lemma yields_return: "Q x \<Longrightarrow> yields Q (returnP x)"
  by (simp add: yields_def returnP_def)

lemma yields_throw [yield]: "yields Q (throwP e)"
  by (simp add: yields_def throwP_def)

lemma yields_if [yield]: "(b \<Longrightarrow> yields Q p) \<Longrightarrow> (\<not> b \<Longrightarrow> yields Q q) \<Longrightarrow> yields Q (if b then p else q)"
  by simp

lemma yields_cond [yield]: "yields Q p \<Longrightarrow> yields Q q \<Longrightarrow> yields Q (\<lambda>st. if c st then p st else q st)"
  by (simp add: yields_def)

lemma yields_turns: "(\<And>x. Q x \<Longrightarrow> yields Q (body x)) \<Longrightarrow> Q x \<Longrightarrow> yields Q (turns k c body x)"
proof (induction k arbitrary: x)
  case 0
  then show ?case by (simp add: yield)
next
  case (Suc k)
  then show ?case by (auto intro!: yields_any [of _ _ front] yields_bind [of Q "body x"] yields_return)
qed

lemma yields_while: "(\<And>x. Q x \<Longrightarrow> yields Q (body x)) \<Longrightarrow> Q x \<Longrightarrow> yields Q (while_front c body x)"
  using yields_turns [of Q body x] unfolding while_front_def yields_def by blast

lemma progress_yields:
  assumes "progress_from P n s m" and "yields Q m" and "\<And>x. Q x \<Longrightarrow> progresses n False (k x)"
  shows "progress_from P n s (bindP m k)"
proof -
  have "bindP m k st = bindP m (\<lambda>x. if Q x then k x else throwP Abort) st" for st
    using assms(2) unfolding yields_def bindP_def by (auto intro!: bindR_cong) blast
  then have "bindP m k = bindP m (\<lambda>x. if Q x then k x else throwP Abort)" by blast
  moreover have "progresses (n - of_bool s) False (if Q x then k x else throwP Abort)" for x
    using progress_weaken [OF assms(3), of x "\<lambda>t. True" "n - of_bool s" False] by (auto intro: progress)
  ultimately show ?thesis
    using progress_bind [OF assms(1), of False "\<lambda>x. if Q x then k x else throwP Abort"] by simp
qed

section \<open>Constant expressions\<close>

lemma expectConstantExpression_returns [ends]:
  assumes "expression_tree n"
  shows "returns (expectConstantExpression c p n)"
proof -
  let ?fake = "MemoryVectorNode p 0 1 (ws ''fake'') True None"
  have "returns (expandVectorialNodes 0 (AssignmentNode p (MemoryVectorNode p 0 1 (ws ''fake'') False None) n) 0 st)" for st
    using assms
    by (auto simp: Let_def needs_temporary_def intro!: ends expand_expression_returns split: if_splits)
  with assms show ?thesis
    unfolding expectConstantExpression_def
    by (auto simp: expandAbstractNodes_expression simp del: expandVectorialNodes.simps intro!: ends
      split: option.splits node.splits list.splits)
qed

lemmas lookup_defs = findConstant_def findVariable_def findFunction_def findGlobalEvent_def findAnyEvent_def

lemma findInTable_returns [ends]: "returns (findInTable m name pos e1 e2)"
  by (simp add: findInTable_def split: option.splits)

lemma lookups_return [ends]:
  "returns (findConstant c name p)" "returns (findVariable c name p)" "returns (findFunction c name p)"
  "returns (findAnyEvent c name p)"
  unfolding lookup_defs by (rule findInTable_returns)+

lemma findGlobalEvent_returns [ends]: "returns (findGlobalEvent c name p)"
  using findInTable_returns [of "globalEventsMap c" name p]
  by (auto simp: findGlobalEvent_def returns_def split: sum.splits)

text \<open>The allocation of temporary variables does not read tokens.\<close>

lemma allocateTemporary_returns [ends]:
  "returns (allocateTemporaryMemory p k c)"
  "returns (allocateTemporaryVariable p r st)"
  unfolding allocateTemporaryVariable_def by (auto simp: allocateTemporaryMemory_def Let_def intro!: ends)

lemma temporary_variable_then [progress]:
  assumes "\<And>x. progress_from P n s (k x)"
  shows "progress_from P n s (bindP (temporary_variable p r) k)"
proof (rule progress_fromI)
  fix st :: parser_state assume st: "stream_ok (toks st)" "P (hd (toks st))" "length (toks st) \<le> n"
  show "case bindP (temporary_variable p r) k st of Inl e \<Rightarrow> e \<noteq> Diverges
      | Inr (x, st') \<Rightarrow> stream_ok (toks st') \<and> length (toks st') + of_bool s \<le> length (toks st)"
  proof (cases "allocateTemporaryVariable p r (comp st, uid st)")
    case (Inl e)
    with allocateTemporary_returns(2) [of p r "(comp st, uid st)"] show ?thesis
      by (simp add: bindP_def temporary_variable_def)
  next
    case (Inr t)
    obtain l r' c u where t: "t = ((l, r'), c, u)" by (metis surj_pair)
    show ?thesis
      using st Inr t progress_fromD [OF assms, of "st\<lparr>comp := c, uid := u\<rparr>" "AssignmentNode p l r'"]
      by (fastforce simp: bindP_def temporary_variable_def split: sum.splits)
  qed
qed

lemma temporary_memory_then [progress]:
  "(\<And>x. progress_from P n s (k x)) \<Longrightarrow> progress_from P n s (bindP (temporary_memory p m) k)"
  unfolding temporary_memory_def straight by (auto intro!: progress ends simp: straight)

section \<open>The functions of the parser\<close>

abbreviation expression_calls :: "grammar_call set" where
  "expression_calls \<equiv> {NT_Or, NT_BinaryOr, NT_Unary, NT_Tuple}"

abbreviation in_stream :: "token \<Rightarrow> bool" where
  "in_stream t \<equiv> tk_type t \<noteq> TOKEN_END_OF_STREAM"

locale parser_calls =
  fixes self :: "grammar_call \<Rightarrow> node parser" and n :: nat
  assumes call_progress: "N \<noteq> NT_ElseIf \<Longrightarrow> progresses n True (self N)"
    and elseif_progress: "progress_from in_stream n True (self NT_ElseIf)"
    and call_expression: "N \<in> expression_calls \<Longrightarrow> yields expression_tree (self N)"
begin

lemma call_lax: "N \<noteq> NT_ElseIf \<Longrightarrow> progress_from P n False (self N)"
  by (rule progress_any, rule progress_nonstrict, rule call_progress)

lemma try_progress [THEN progress_lax_bind, progress]:
  "progress_from P n False (tryParsingConstantExpression self pos)"
  unfolding tryParsingConstantExpression_def
proof (rule progress_yields [OF call_lax call_expression])
  fix tree assume "expression_tree tree"
  then have "returns (expectConstantExpression c pos tree)" for c by (rule ends)
  then show "progresses n False (bindP getC (\<lambda>c. case expectConstantExpression c pos tree of
      Inl (TranslatableError p e as) \<Rightarrow> returnP (Inl tree) | Inl e \<Rightarrow> throwP e | Inr v \<Rightarrow> returnP (Inr v)))"
    by (intro progress) (auto intro!: progress simp: returns_def split: sum.splits failure.splits)
qed simp_all

lemma tuple_element_progress: "progress_from P n False (tuple_element self)"
  unfolding tuple_element_def by (intro progress call_lax) simp_all

lemma tuple_elements_progress [THEN progress_lax_bind, progress]: "progress_from P n False (tuple_elements self)"
  unfolding tuple_elements_def
  by (intro progress progress_pop_keep tuple_element_progress [THEN progress_lax_bind]) simp_all

lemma parseTupleVector_progress: "progress_from P (Suc n) True (parseTupleVector self)"
  unfolding parseTupleVector_def
  by (intro progress) simp_all

lemma parse_index_progress [THEN progress_lax_bind, progress]: "progress_from P n False (parse_index self pos)"
  unfolding parse_index_def
  by (intro progress) (auto intro!: progress split: sum.splits)

lemma parseVariable_progress [progress]: "progress_from P (Suc n) True (parseVariable self)"
  unfolding parseVariable_def expect_def straight
  by (intro progress) (auto intro!: progress ends)

lemma parseConstantAndVariable_progress: "progress_from P (Suc n) True (parseConstantAndVariable self)"
  unfolding parseConstantAndVariable_def expectConstant_def constant_in_def expect_def straight
  by (intro progress_front progress_guard progress_getC progress_if) (auto intro!: progress ends)

lemma unary_of_progress: "in_stream f \<Longrightarrow> progress_from (\<lambda>t. t = f) (Suc n) True (unary_of self op pos)"
  unfolding unary_of_def
  by (intro call_lax [THEN progress_lax_bind] progress) simp_all

lemma expectInt16Literal_progress:
  "tk_type f = TOKEN_INT_LITERAL \<Longrightarrow> (\<And>v. progresses m False (k v)) \<Longrightarrow>
    progress_from (\<lambda>t. t = f) m True (bindP expectInt16Literal (\<lambda>v. bindP pop_front (\<lambda>_. k v)))"
  unfolding expectInt16Literal_def negated_def expectAbsoluteInt16Literal_def literal_in_def expect_def straight
  by (intro progress_front) (auto intro!: progress_pop_keep progress)

lemma parseUnaryExpression_progress: "progress_from P (Suc n) True (parseUnaryExpression self)"
  unfolding parseUnaryExpression_def expectOneOf_def straight
proof (intro progress_front progress_guard progress_if)
  fix f g assume fg: "P f" "isOneOf acceptableTypes f" "g = f"
  show "progress_from (\<lambda>t. t = g) (Suc n) True (bindP pop_front (\<lambda>_. bindP (self NT_Or) (\<lambda>n.
      bindP (expect TOKEN_PAR_CLOSE) (\<lambda>_. bindP pop_front (\<lambda>_. returnP n)))))" if "tk_type g = TOKEN_PAR_OPEN"
    using that by (intro progress call_lax [THEN progress_lax_bind]) simp_all
  show "progress_from (\<lambda>t. t = g) (Suc n) True (parseTupleVector self)" by (rule parseTupleVector_progress)
  show "progress_from (\<lambda>t. t = g) (Suc n) True (\<lambda>st. if literal_ahead (toks st)
       then bindP pop_front (\<lambda>_. bindP front (\<lambda>g. bindP (set_front (g\<lparr>iValue := iValue g * -1, sValue := ws ''-'' @ sValue g\<rparr>))
         (\<lambda>_. self NT_Unary))) st else unary_of self ASEBA_UNARY_OP_SUB (tk_pos g) st)" if "tk_type g = TOKEN_OP_NEG"
    using that by (intro progress unary_of_progress call_lax) simp_all
  show "progress_from (\<lambda>t. t = g) (Suc n) True (bindP expectInt16Literal (\<lambda>v. bindP pop_front (\<lambda>_. returnP (TupleVectorNode (tk_pos g) [ImmediateNode (tk_pos g) v]))))" if "tk_type g = TOKEN_INT_LITERAL"
    using that by (intro expectInt16Literal_progress progress)
qed (auto intro!: progress unary_of_progress parseConstantAndVariable_progress)

lemma chain_progress:
  assumes "\<And>P. progress_from P m True operand" and "\<And>f. in_stream f \<or> map_of ops (tk_type f) = None"
  shows "progress_from P m True (binary_chain operand ops)"
proof -
  have "progresses m False (while_front (\<lambda>f. map_of ops (tk_type f) \<noteq> None) (\<lambda>n.
       bindP front (\<lambda>f. bindP pop_front (\<lambda>_. bindP operand (\<lambda>r.
       returnP (BinaryArithmeticNode (tk_pos f) (the (map_of ops (tk_type f))) n r))))) x)" for x
    using assms(2) by (intro progress progress_pop_keep progress_nonstrict [OF assms(1), THEN progress_lax_bind]) auto
  then show ?thesis
    unfolding binary_chain_def by (intro progress_strict_bind assms(1)) (rule progress_weaken, auto)
qed

lemma expressions_progress:
  shows parseBinaryOr_progress: "progress_from P (Suc n) True (parseBinaryOrExpression self)"
    and parseOr_progress: "progress_from P (Suc n) True (parseOr self)"
proof -
  have unary: "progress_from P (Suc n) True (parseUnaryExpression self)" for P
    by (rule parseUnaryExpression_progress)
  have binary_or: "progress_from P (Suc n) True (parseBinaryOrExpression self)" for P
    unfolding parseBinaryOrExpression_def parseBinaryXorExpression_def parseBinaryAndExpression_def
      parseShiftExpression_def parseAddExpression_def parseMultExpression_def
    by (intro chain_progress unary) (auto simp: shifts_def additions_def multiplications_def)
  have condition: "progress_from P (Suc n) True (parseCondition self)" for P
    unfolding parseCondition_def by (intro chain_progress binary_or) (auto simp: comparisons_def)
  have not_: "progress_from P (Suc n) True (parseNot self)" for P
    unfolding parseNot_def
    by (intro progress_front progress_lax_bind [of _ _ "while_front c body x" for c body x] progress_while)
      (auto intro!: progress_pop_keep progress_return progress_strict_bind [OF condition])
  show "progress_from P (Suc n) True (parseBinaryOrExpression self)" by (rule binary_or)
  show "progress_from P (Suc n) True (parseOr self)"
    unfolding parseOr_def parseAnd_def by (intro chain_progress not_) auto
qed

lemma progress_Suc: "progress_from P (Suc n) True p \<Longrightarrow> progress_from P n False p"
  by (rule progress_weaken [of P "Suc n" True p]) auto

lemmas expression_binds [progress] =
  parseBinaryOr_progress [THEN progress_Suc, THEN progress_lax_bind]
  parseOr_progress [THEN progress_Suc, THEN progress_lax_bind]
  parseVariable_progress [THEN progress_Suc, THEN progress_lax_bind]

lemma eat_bind [progress]:
  assumes "t \<noteq> TOKEN_END_OF_STREAM" and "progresses m False (k ())"
  shows "progress_from P m False (bindP (eat t) k)"
  unfolding eat_def straight using assms by (intro progress) auto

section \<open>Statements\<close>

lemma block_until_then [progress]:
  assumes "\<And>cs. progress_from (isOneOf types) n False (k cs)"
  shows "progress_from P n False (bindP (block_until self types cs) k)"
  unfolding block_until_def using assms
  by (intro progress_while_then progress_strict_bind [OF progress_any [OF call_progress]] progress_return) simp_all

lemma parseAssignment_progress: "progress_from P (Suc n) True (parseAssignment self)"
  unfolding parseAssignment_def
proof (intro progress_expect progress_strict_bind [OF parseBinaryOr_progress])
  show "progresses (Suc n - 1) False (bindP front (\<lambda>f.
     if tk_type f = TOKEN_ASSIGN then
       bindP pop_front (\<lambda>_. bindP (parseBinaryOrExpression self) (\<lambda>r. returnP (AssignmentNode (tk_pos f) lValue r)))
     else if tk_type f = TOKEN_OP_PLUS_PLUS \<or> tk_type f = TOKEN_OP_MINUS_MINUS then
       bindP pop_front (\<lambda>_. returnP (UnaryArithmeticAssignmentNode (tk_pos f)
         (if tk_type f = TOKEN_OP_PLUS_PLUS then ASEBA_OP_ADD else ASEBA_OP_SUB) lValue))
     else
       (case map_of operatorMap (tk_type f) of
          Some op \<Rightarrow>
            bindP pop_front (\<lambda>_. bindP (parseBinaryOrExpression self) (\<lambda>r.
            returnP (ArithmeticAssignmentNode (tk_pos f) op lValue r)))
        | None \<Rightarrow> throwP (TranslatableError (tk_pos f) ERROR_EXPECTING_ASSIGNMENT [Arg_token f]))))" for lValue
    by (auto intro!: progress simp: operatorMap_def split: option.splits)
qed

lemma elseif_call: "in_stream f \<Longrightarrow> progress_from (\<lambda>t. t = f) n False (self NT_ElseIf)"
  by (rule progress_weaken [OF elseif_progress]) auto

lemma parseIfWhen_progress: "progress_from in_stream (Suc n) True (parseIfWhen self edge)"
  unfolding parseIfWhen_def if_end_def Let_def
  by (intro progress) (auto intro!: progress elseif_call [THEN progress_lax_bind])

lemma parseWhile_progress: "progress_from in_stream (Suc n) True (parseWhile self)"
  unfolding parseWhile_def
  by (intro progress) (auto simp: isOneOf_def)

lemma expectInt16LiteralOrConstant_progress:
  "(\<And>f v. tk_type f = TOKEN_INT_LITERAL \<or> tk_type f = TOKEN_STRING_LITERAL \<Longrightarrow> progress_from (\<lambda>t. t = f) m False (k v)) \<Longrightarrow>
    progress_from P m False (bindP expectInt16LiteralOrConstant k)"
  unfolding expectInt16LiteralOrConstant_def expectInt16Literal_def expectConstant_def constant_in_def negated_def
    expectAbsoluteInt16Literal_def literal_in_def expect_def straight
  by (intro progress_front) (auto intro!: progress ends)

lemma range_bound_progress [THEN progress_lax_bind, progress]: "progress_from P m False range_bound"
  unfolding range_bound_def
  by (rule expectInt16LiteralOrConstant_progress) (auto intro!: progress)

lemma range_step_progress [THEN progress_lax_bind, progress]: "progress_from P m False range_step"
  unfolding range_step_def
  by (intro progress expectInt16LiteralOrConstant_progress) auto

lemma check_range_returns [ends]: "returns (check_range start p finish q step)"
  unfolding check_range_def by (auto intro!: ends)

lemma parseFor_progress: "progress_from in_stream (Suc n) True (parseFor self)"
  unfolding parseFor_def Let_def
  by (intro progress) (auto intro!: progress ends simp: isOneOf_def)

lemma parseOnEvent_progress: "progress_from in_stream m True parseOnEvent"
  unfolding parseOnEvent_def expectAnyEventId_def expect_def straight
  by (intro progress progress_pop_keep) (auto intro!: progress ends)

lemma parseSubDecl_progress: "progress_from in_stream m True parseSubDecl"
  unfolding parseSubDecl_def Let_def expect_def straight
  by (intro progress progress_pop_keep) (auto intro!: progress ends)

lemma parseCallSub_progress: "progress_from in_stream (Suc n) True parseCallSub"
  unfolding parseCallSub_def expect_def straight
  by (intro progress) (auto intro!: progress ends)

lemma parseReturn_progress: "progress_from in_stream (Suc n) True parseReturn"
  unfolding parseReturn_def
  by (intro progress) (auto intro!: progress ends)

section \<open>Calls with arguments\<close>

lemma parseEmit_progress: "progress_from in_stream (Suc n) True (parseEmit self shorter)"
  unfolding parseEmit_def expectGlobalEventId_def expect_def straight Let_def
  by (intro progress) (auto intro!: progress ends
    simp: event_named_def in_memory_def check_event_size_def split: node.splits)

lemma native_argument_then:
  "(\<And>c. progress_from P m s (k c)) \<Longrightarrow> progress_from P m s (bindP (native_argument pos varPos preNode varAddr) k)"
  unfolding native_argument_def
  by (cases preNode) (auto intro!: progress ends simp: straight split: option.splits)

lemma check_argument_returns [ends]: "returns (check_argument name i param p k ts)"
  unfolding check_argument_def by (auto simp: Let_def split: prod.splits)

lemma argument_end_then: "progresses m False (k ()) \<Longrightarrow> progress_from P m False (bindP (argument_end name count i) k)"
  unfolding argument_end_def expect_def straight by (intro progress) auto

lemma native_arguments_progress: "progress_from P n False (native_arguments self pos name count params i acc)"
proof (induction params arbitrary: P i acc)
  case (Cons param params)
  show ?case
    by (auto intro!: progress ends native_argument_then argument_end_then Cons.IH split: prod.splits)
qed (auto intro: progress)

lemma parseFunctionCall_progress: "progress_from in_stream (Suc n) True (parseFunctionCall self)"
  unfolding parseFunctionCall_def expect_def straight Let_def
  by (intro progress native_arguments_progress [THEN progress_lax_bind])
    (auto intro!: progress ends simp: native_named_def Let_def split: prod.splits)

lemma parseBlockStatement_progress: "progress_from P (Suc n) True (parseBlockStatement self)"
proof -
  have call: "progress_from (\<lambda>t. t = f) (Suc n) True p" if "progress_from in_stream (Suc n) True p" "in_stream f" for f p
    by (rule progress_weaken [OF that(1)]) (use that(2) in auto)
  note statements = parseIfWhen_progress parseFor_progress parseWhile_progress parseEmit_progress
    parseFunctionCall_progress parseCallSub_progress parseReturn_progress
  show ?thesis
    unfolding parseBlockStatement_def
    by (intro progress_front progress_if parseAssignment_progress statements [THEN call]) simp_all
qed

section \<open>Expressions are parsed to trees of expressions\<close>

lemma call_yields: "N \<in> expression_calls \<Longrightarrow> (\<And>t. expression_tree t \<Longrightarrow> yields Q (k t)) \<Longrightarrow> yields Q (bindP (self N) k)"
  by (rule yields_bind [OF call_expression])

lemma tuple_element_yields: "yields expression_tree (tuple_element self)"
  unfolding tuple_element_def by (intro yield call_expression) simp_all

lemma tuple_elements_yields: "yields (list_all expression_tree) (tuple_elements self)"
  unfolding tuple_elements_def
  by (intro yields_bind [OF tuple_element_yields] yields_while yields_any [of _ _ pop_front] yields_return) simp_all

lemma parseTupleVector_yields: "yields expression_tree (parseTupleVector self)"
  unfolding parseTupleVector_def expect_def straight
  by (intro yields_bind [OF tuple_elements_yields] yields_any [of _ _ front] yields_any [of _ _ pop_front]
    yields_any [of _ _ "guardP b e" for b e] yields_return) simp

lemma try_yields:
  "yields (\<lambda>r. case r of Inl t \<Rightarrow> expression_tree t | Inr v \<Rightarrow> True) (tryParsingConstantExpression self pos)"
  unfolding tryParsingConstantExpression_def
  by (rule call_yields) (auto intro!: yields_any [of _ _ getC] yields_return yields_throw split: sum.splits failure.splits)

lemma parse_index_yields: "yields expression_tree (parse_index self pos)"
  unfolding parse_index_def
  by (rule yields_bind [OF try_yields])
    (auto intro!: yields_any yields_return yields_throw split: sum.splits)

lemma parseVariable_yields: "yields expression_tree (parseVariable self)"
  unfolding parseVariable_def expect_def straight
  by (auto intro!: yields_bind [OF parse_index_yields] yields_any [of _ _ front] yields_any [of _ _ pop_front]
    yields_any [of _ _ getC] yields_any [of _ _ "guardP b e" for b e] yields_any [of _ _ "liftP r" for r] yields_return
    split: prod.splits)

lemma parseUnaryExpression_yields: "yields expression_tree (parseUnaryExpression self)"
  unfolding parseUnaryExpression_def parseConstantAndVariable_def unary_of_def expectOneOf_def expect_def straight
  by (intro yields_any [of _ _ front] yields_any [of _ _ pop_front] yields_any [of _ _ getC] yields_any [of _ _ expectConstant]
    yields_any [of _ _ expectInt16Literal] yields_any [of _ _ "guardP b e" for b e] yields_any [of _ _ "set_front t" for t]
    call_yields yields_if yields_cond parseTupleVector_yields parseVariable_yields yields_throw yields_return call_expression)
    simp_all

lemma chain_yields:
  assumes "yields expression_tree operand"
  shows "yields expression_tree (binary_chain operand ops)"
  unfolding binary_chain_def
  by (intro yields_bind [OF assms] yields_while yields_any [of _ _ front] yields_any [of _ _ pop_front] yields_return) simp_all

lemma expressions_yield:
  shows parseBinaryOr_yields: "yields expression_tree (parseBinaryOrExpression self)"
    and parseOr_yields: "yields expression_tree (parseOr self)"
proof -
  show binary_or: "yields expression_tree (parseBinaryOrExpression self)"
    unfolding parseBinaryOrExpression_def parseBinaryXorExpression_def parseBinaryAndExpression_def
      parseShiftExpression_def parseAddExpression_def parseMultExpression_def
    by (intro chain_yields parseUnaryExpression_yields)
  have not_: "yields expression_tree (parseNot self)"
    unfolding parseNot_def parseCondition_def
    by (rule yields_any, rule yields_any, rule yields_bind [OF chain_yields [OF binary_or]], rule yields_return) simp
  show "yields expression_tree (parseOr self)"
    unfolding parseOr_def parseAnd_def by (intro chain_yields not_)
qed

section \<open>Declarations and programs\<close>

lemma expect_identifier_then [progress]:
  "(\<And>x. progresses m False (k x)) \<Longrightarrow> progress_from P m False (bindP expect_identifier k)"
  unfolding expect_identifier_def straight by (intro progress) auto

lemma parseConstDef_progress: "progress_from in_stream n True (parseConstDef self)"
  unfolding parseConstDef_def
  by (intro progress_pop_keep progress)
    (auto intro!: progress progress_yields [OF call_lax call_expression] ends split: prod.splits)

lemma parseVariableDefSize_progress [THEN progress_lax_bind, progress]: "progress_from P n False (parseVariableDefSize self)"
  unfolding parseVariableDefSize_def
  by (intro progress progress_yields [OF call_lax call_expression]) (auto intro!: progress ends)

lemma parseOldStyleTuple_progress [THEN progress_lax_bind, progress]: "progress_from P n False (parseOldStyleTuple self)"
proof -
  have "parseOldStyleTuple self = (\<lambda>st. if old_style_ahead (toks st)
      then bindP front (\<lambda>f. bindP (tuple_elements self) (\<lambda>cs. returnP (Some (TupleVectorNode (tk_pos f) cs)))) st
      else returnP None st)"
    by (rule ext) (simp add: parseOldStyleTuple_def returnP_def)
  then show ?thesis by (simp only:) (intro progress)
qed

lemma parseVarDefInit_progress [THEN progress_lax_bind, progress]: "progress_from P n False (parseVarDefInit self p a k name)"
  unfolding parseVarDefInit_def
  by (auto intro!: progress call_lax [THEN progress_lax_bind] ends simp: straight split: option.splits)

lemma parseVarDef_progress: "progress_from in_stream n True (parseVarDef self)"
  unfolding parseVarDef_def
  by (intro progress_pop_keep progress) (auto intro!: progress simp: Let_def split: prod.splits)

lemma parseStatement_progress: "progress_from in_stream n True (parseStatement self)"
proof -
  have call: "progress_from (\<lambda>t. t = f) n True p" if "progress_from in_stream n True p" "in_stream f" for f p
    by (rule progress_weaken [OF that(1)]) (use that(2) in auto)
  show ?thesis
    unfolding parseStatement_def freeTemporaryMemory_def straight
    by (intro progress parseOnEvent_progress [THEN call] parseSubDecl_progress [THEN call] progress_any [OF call_progress]) simp_all
qed

lemma parseProgram_progress: "progress_from P n False (parseProgram self)"
proof -
  have loop: "progress_from c n True p" if "progress_from in_stream n True p" "\<And>f. c f \<Longrightarrow> in_stream f" for c p
    by (rule progress_weaken [OF that(1)]) (use that(2) in auto)
  have ret: "progress_from c n True (bindP p (\<lambda>x. returnP (h x)))" if "progress_from c n True p" for c p h
    by (intro progress_strict_bind that progress_return)
  show ?thesis
    unfolding parseProgram_def
    by (intro progress progress_lax_bind [of _ _ "while_front c body x" for c body x] ret
      parseConstDef_progress [THEN loop] parseVarDef_progress [THEN loop] parseStatement_progress [THEN loop]) simp_all
qed

end

section \<open>The parser\<close>

lemma parse_calls: "parser_calls (parse fuel) fuel"
proof (induction fuel)
  case 0
  show ?case
    by standard (auto simp: progress_from_def stream_ok_def yields_def throwP_def)
next
  case (Suc fuel)
  note progress' = parser_calls.parseOr_progress [OF Suc.IH] parser_calls.parseBinaryOr_progress [OF Suc.IH]
    parser_calls.parseUnaryExpression_progress [OF Suc.IH] parser_calls.parseTupleVector_progress [OF Suc.IH]
    parser_calls.parseBlockStatement_progress [OF Suc.IH]
  note yields' = parser_calls.parseOr_yields [OF Suc.IH] parser_calls.parseBinaryOr_yields [OF Suc.IH]
    parser_calls.parseUnaryExpression_yields [OF Suc.IH] parser_calls.parseTupleVector_yields [OF Suc.IH]
  show ?case
  proof
    fix N
    show "progresses (Suc fuel) True (parse (Suc fuel) N)" if "N \<noteq> NT_ElseIf"
      using that progress' by (cases N) simp_all
    show "progress_from in_stream (Suc fuel) True (parse (Suc fuel) NT_ElseIf)"
      using parser_calls.parseIfWhen_progress [OF Suc.IH] by simp
    show "yields expression_tree (parse (Suc fuel) N)" if "N \<in> expression_calls"
      using that yields' by auto
  qed
qed

interpretation tied: parser_calls "parse fuel" fuel for fuel
  by (rule parse_calls)

lemma tokenize_from_ends: "tokenize_from alnum p source = Inr ts \<Longrightarrow> stream_ok ts"
proof (induction alnum p source arbitrary: ts rule: tokenize_from.induct)
  case (2 alnum p c rest)
  from "2.prems" obtain us p' rest' vs where scanned: "scan alnum c (next_pos p) rest = Inr (us, p', rest')"
    and vs: "tokenize_from alnum p' rest' = Inr vs" and ts: "ts = us @ vs"
    by (auto elim!: bindR_InrE)
  from "2.IH" [OF scanned refl refl vs] show ?case unfolding ts by (simp add: stream_ok_def)
qed (auto simp: stream_ok_def plain_token_def)

text \<open>What is left after a program is the end of the stream.\<close>

lemma parseProgram_consumes:
  assumes "parseProgram self st = Inr (n, st')"
  shows "tk_type (hd (toks st')) = TOKEN_END_OF_STREAM"
  using assms unfolding parseProgram_def bindP_def [of front]
  by (auto simp: bindP_def returnP_def dest!: while_exit elim!: bindR_InrE)

text \<open>C17: The parser ends on every text: with one unit of fuel for each token of a tokenized source, parsing does not run out of
  fuel; it returns a program, after which only the end of the stream is left, or it fails with an error, a failed assertion or
  undefined arithmetic of the host.\<close>

theorem parse_source_ends:
  assumes "tokenize alnum source = Inr ts" and "length ts \<le> fuel"
  shows "case parseProgram (parse fuel) \<lparr>toks = ts, comp = c, uid = u\<rparr> of
      Inl e \<Rightarrow> e \<noteq> Diverges
    | Inr (program, st) \<Rightarrow> stream_ok (toks st) \<and> tk_type (hd (toks st)) = TOKEN_END_OF_STREAM"
proof -
  let ?st = "\<lparr>toks = ts, comp = c, uid = u\<rparr>"
  have ok: "stream_ok (toks ?st)" using assms(1) by (simp add: tokenize_def tokenize_from_ends)
  note result = progress_fromD [OF tied.parseProgram_progress [of "\<lambda>t. True" fuel], of ?st]
  show ?thesis
    using result ok assms(2) by (auto dest!: parseProgram_consumes split: sum.splits)
qed

theorem parse_source_ends_witness:
  "\<exists>ts. tokenize ascii_alnum [wc CHR ''x''] = Inr ts \<and>
    (case parseProgram (parse (length ts)) \<lparr>toks = ts, comp = sample_compiler, uid = 0\<rparr> of
       Inl e \<Rightarrow> e \<noteq> Diverges
     | Inr (program, st) \<Rightarrow> stream_ok (toks st) \<and> tk_type (hd (toks st)) = TOKEN_END_OF_STREAM)"
proof -
  obtain ts where "tokenize ascii_alnum [wc CHR ''x''] = Inr ts"
    by (simp add: tokenize_def scan_def simple_tokens_def lookahead_tokens_def scan_word_def word_token_def
      keyword_table_def ascii_alnum_def iswdigit_def wc_def ws_def Let_def)
  then show ?thesis using parse_source_ends [of ascii_alnum "[wc CHR ''x'']" ts "length ts"] by blast
qed

end
