(* ===== verification/Firmware_Hex.thy ===== *)
theory Firmware_Hex
  imports Ordered_Map
begin

text \<open>
  \<^verbatim>\<open>thymio-device-manager/thymio2_fwupgrade.cpp\<close>: the reader of Intel hex files and the cut of the firmware into
  pages for the bootloader. The string stream is the list of bytes not read yet with the flag \<open>good\<close>; a read past
  the end clears the flag and gives \<open>-1\<close>. A character that was never read (\<^verbatim>\<open>ifs >> c\<close> at the end of
  the stream leaves \<^verbatim>\<open>c\<close> indeterminate) is \<open>Indeterminate\<close>. The operands of \<^verbatim>\<open>|\<close> in \<^verbatim>\<open>get_uint8\<close> are evaluated from
  left to right, an order that C++ leaves open.
\<close>

section \<open>Reading\<close>

datatype hex_file_parse_error = file_error | invalid_record | wrong_checksum | unknown_record | file_truncated

datatype hex_failure = Parse_error hex_file_parse_error | Indeterminate

record hex_stream =
  unread :: "u8 list"
  good :: bool

definition stream_get :: "hex_stream \<Rightarrow> int \<times> hex_stream" where
  "stream_get s =
     (case unread s of
        c # cs \<Rightarrow> if good s then (uint c, s\<lparr>unread := cs\<rparr>) else (-1, s)
      | [] \<Rightarrow> (-1, s\<lparr>good := False\<rparr>))"

definition get_uint4 :: "hex_stream \<Rightarrow> u32 \<times> hex_stream" where
  "get_uint4 s =
     (case stream_get s of (c, s') \<Rightarrow>
        (if c \<le> 57 then word_of_int (c - 48) else if c \<le> 70 then word_of_int (c - 65 + 10) else word_of_int (c - 97 + 10), s'))"

definition get_uint8 :: "hex_stream \<Rightarrow> u32 \<times> hex_stream" where
  "get_uint8 s = (case get_uint4 s of (h, s1) \<Rightarrow> case get_uint4 s1 of (l, s2) \<Rightarrow> (push_bit 4 h OR l, s2))"

definition get_uint16 :: "hex_stream \<Rightarrow> u32 \<times> hex_stream" where
  "get_uint16 s = (case get_uint8 s of (h, s1) \<Rightarrow> case get_uint8 s1 of (l, s2) \<Rightarrow> (push_bit 8 h OR l, s2))"

text \<open>The results are stored in variables of 8 and 16 bits.\<close>

definition read_u8 :: "hex_stream \<Rightarrow> u8 \<times> hex_stream" where
  "read_u8 s = apfst ucast (get_uint8 s)"

definition read_u16 :: "hex_stream \<Rightarrow> u16 \<times> hex_stream" where
  "read_u16 s = apfst ucast (get_uint16 s)"

text \<open>\<^verbatim>\<open>ifs >> c\<close>: white space is skipped.\<close>

definition isspace :: "u8 \<Rightarrow> bool" where
  "isspace c \<longleftrightarrow> c = 32 \<or> (9 \<le> c \<and> c \<le> 13)"

definition read_char :: "hex_stream \<Rightarrow> u8 option \<times> hex_stream" where
  "read_char s =
     (case dropWhile isspace (unread s) of
        [] \<Rightarrow> (None, s\<lparr>unread := [], good := False\<rparr>)
      | c # cs \<Rightarrow> (Some c, s\<lparr>unread := cs\<rparr>))"

section \<open>Records\<close>

type_synonym chunks = "(u32, u8 list) std_map"

primrec read_data :: "nat \<Rightarrow> u8 \<Rightarrow> hex_stream \<Rightarrow> u8 list \<times> u8 \<times> hex_stream" where
  "read_data 0 check s = ([], check, s)"
| "read_data (Suc n) check s =
     (case read_u8 s of (d, s1) \<Rightarrow> case read_data n (check + d) s1 of (ds, check', s2) \<Rightarrow> (d # ds, check', s2))"

definition word_sum :: "u16 \<Rightarrow> u8" where
  "word_sum w = ucast w + ucast (drop_bit 8 w)"

definition verify_checksum :: "hex_file_parse_error \<Rightarrow> u8 \<Rightarrow> hex_stream \<Rightarrow> hex_failure + hex_stream" where
  "verify_checksum e check s =
     (case read_u8 s of (checkSum, s') \<Rightarrow>
        if checkSum \<noteq> 1 + NOT check then Inl (Parse_error e) else Inr s')"

text \<open>The chunk a data record is joined to: the first one that ends at its address or starts at its end. A chunk that
  grows at its head keeps its key.\<close>

fun fuse :: "u32 \<Rightarrow> u8 list \<Rightarrow> chunks \<Rightarrow> chunks option" where
  "fuse address recordData [] = None"
| "fuse address recordData ((k, v) # cs) =
     (if unat address = unat k + length v then Some ((k, v @ recordData) # cs)
      else if unat address + length recordData = unat k then Some ((k, recordData @ v) # cs)
      else map_option (Cons (k, v)) (fuse address recordData cs))"

definition add_record :: "u32 \<Rightarrow> u8 list \<Rightarrow> chunks \<Rightarrow> chunks" where
  "add_record address recordData cs =
     (case fuse address recordData cs of Some cs' \<Rightarrow> cs' | None \<Rightarrow> map_set address recordData cs)"

text \<open>A record after its colon: the end of the file, or the loop goes on with the base address, the chunks and the
  stream.\<close>

definition base_record :: "nat \<Rightarrow> hex_file_parse_error \<Rightarrow> u8 \<Rightarrow> u8 \<Rightarrow> chunks \<Rightarrow> hex_stream \<Rightarrow>
    hex_failure + u32 \<times> chunks \<times> hex_stream" where
  "base_record shift e dataLength check cs s =
     bindR (guardR (dataLength = 2) (Parse_error invalid_record)) (\<lambda>_.
     case read_u16 s of (highAddress, s1) \<Rightarrow>
     bindR (verify_checksum e (check + word_sum highAddress) s1) (\<lambda>s2.
     Inr (push_bit shift (ucast highAddress), cs, s2)))"

definition read_record :: "u32 \<Rightarrow> chunks \<Rightarrow> hex_stream \<Rightarrow> hex_failure + (u32 \<times> chunks \<times> hex_stream) option" where
  "read_record baseAddress cs s0 =
     (case read_u8 s0 of (dataLength, s1) \<Rightarrow> case read_u16 s1 of (lowAddress, s2) \<Rightarrow> case read_u8 s2 of (recordType, s) \<Rightarrow>
      let check = dataLength + word_sum lowAddress + recordType in
      if recordType = 0 then
        (case read_data (unat dataLength) check s of (recordData, check', s3) \<Rightarrow>
           bindR (verify_checksum wrong_checksum check' s3) (\<lambda>s4.
           Inr (Some (baseAddress, add_record (ucast lowAddress + baseAddress) recordData cs, s4))))
      else if recordType = 1 then Inr None
      else if recordType = 2 then bindR (base_record 4 invalid_record dataLength check cs s) (\<lambda>r. Inr (Some r))
      else if recordType = 4 then bindR (base_record 16 wrong_checksum dataLength check cs s) (\<lambda>r. Inr (Some r))
      else if recordType = 5 then
        (case read_data 4 check s of (ds, check', s3) \<Rightarrow>
           bindR (verify_checksum wrong_checksum check' s3) (\<lambda>s4. Inr (Some (baseAddress, cs, s4))))
      else Inl (Parse_error unknown_record))"

section \<open>The file\<close>

text \<open>No read gives characters back.\<close>

definition remaining :: "hex_stream \<Rightarrow> nat" where
  "remaining s = length (unread s)"

lemma stream_get_remaining: "remaining (snd (stream_get s)) \<le> remaining s"
  by (simp add: stream_get_def remaining_def split: list.splits)

lemma get_uint4_remaining: "remaining (snd (get_uint4 s)) \<le> remaining s"
  using stream_get_remaining [of s] by (auto simp: get_uint4_def split: prod.splits)

lemma get_uint8_remaining: "remaining (snd (get_uint8 s)) \<le> remaining s"
  using get_uint4_remaining [of s] get_uint4_remaining [of "snd (get_uint4 s)"]
  by (auto simp: get_uint8_def split: prod.splits)

lemma get_uint16_remaining: "remaining (snd (get_uint16 s)) \<le> remaining s"
  using get_uint8_remaining [of s] get_uint8_remaining [of "snd (get_uint8 s)"]
  by (auto simp: get_uint16_def split: prod.splits)

lemma read_remaining:
  "remaining (snd (read_u8 s)) \<le> remaining s"
  "remaining (snd (read_u16 s)) \<le> remaining s"
  using get_uint8_remaining [of s] get_uint16_remaining [of s] by (simp_all add: read_u8_def read_u16_def)

lemma read_data_remaining: "read_data n check s = (ds, check', s') \<Longrightarrow> remaining s' \<le> remaining s"
proof (induction n arbitrary: check s ds)
  case (Suc n)
  then show ?case
    using read_remaining(1) [of s] by (fastforce split: prod.splits)
qed simp

lemma verify_checksum_remaining: "verify_checksum e check s = Inr s' \<Longrightarrow> remaining s' \<le> remaining s"
  using read_remaining(1) [of s] by (auto simp: verify_checksum_def split: prod.splits if_splits)

lemma base_record_remaining: "base_record k e n check cs s = Inr (b, cs', s') \<Longrightarrow> remaining s' \<le> remaining s"
  using read_remaining(2) [of s]
  by (auto simp: base_record_def split: prod.splits dest!: verify_checksum_remaining)

lemma read_record_remaining:
  assumes "read_record b cs s = Inr (Some (b', cs', s'))"
  shows "remaining s' \<le> remaining s"
proof -
  obtain dataLength s1 where l: "read_u8 s = (dataLength, s1)" by (rule prod.exhaust)
  obtain lowAddress s2 where a: "read_u16 s1 = (lowAddress, s2)" by (rule prod.exhaust)
  obtain recordType s3 where t: "read_u8 s2 = (recordType, s3)" by (rule prod.exhaust)
  have "remaining s3 \<le> remaining s"
    using read_remaining(1) [of s] read_remaining(2) [of s1] read_remaining(1) [of s2] l a t by simp
  moreover have "remaining s' \<le> remaining s3"
    using assms l a t
    by (fastforce simp: read_record_def Let_def split: if_splits prod.splits
      dest!: read_data_remaining verify_checksum_remaining base_record_remaining)
  ultimately show ?thesis by simp
qed

lemma read_char_remaining: "read_char s = (Some c, s') \<Longrightarrow> remaining s' < remaining s"
  using length_dropWhile_le [of isspace "unread s"]
  by (auto simp: read_char_def remaining_def split: list.splits)

function read_records :: "u32 \<Rightarrow> chunks \<Rightarrow> hex_stream \<Rightarrow> hex_failure + chunks" where
  "read_records baseAddress cs s =
     (if \<not> good s then Inl (Parse_error file_truncated)
      else
        (case read_char s of
           (None, s1) \<Rightarrow> Inl Indeterminate
         | (Some c, s1) \<Rightarrow>
             if c \<noteq> 58 then Inl (Parse_error invalid_record)
             else bindR (read_record baseAddress cs s1) (\<lambda>r.
               case r of None \<Rightarrow> Inr cs | Some (b, cs', s') \<Rightarrow> read_records b cs' s')))"
  by auto
termination
  by (relation "measure (\<lambda>(b, cs, s). remaining s)") (auto dest!: read_char_remaining [OF sym] read_record_remaining)

declare read_records.simps [simp del]

definition read_hex_file :: "u8 list \<Rightarrow> hex_failure + chunks" where
  "read_hex_file hex_data = read_records 0 [] \<lparr>unread = hex_data, good = True\<rparr>"

section \<open>Pages\<close>

definition page_size :: nat where "page_size = 2048"

definition overwrite :: "nat \<Rightarrow> 'a list \<Rightarrow> 'a list \<Rightarrow> 'a list" where
  "overwrite i ys xs = take i xs @ ys @ drop (i + length ys) xs"

definition page_of :: "chunks \<Rightarrow> u32 \<Rightarrow> u8 list" where
  "page_of pages p = (case map_find pages p of Some v \<Rightarrow> v | None \<Rightarrow> replicate page_size 0)"

function fill_pages :: "u32 \<Rightarrow> u8 list \<Rightarrow> chunks \<Rightarrow> chunks" where
  "fill_pages at rest pages =
     (let pageIndex = word_of_nat (unat at div page_size); byteIndex = unat at mod page_size;
          n = min (page_size - byteIndex) (length rest);
          pages' = map_set pageIndex (overwrite byteIndex (take n rest) (page_of pages pageIndex)) pages
      in if n < length rest then fill_pages (at + word_of_nat n) (drop n rest) pages' else pages')"
  by auto
termination
  by (relation "measure (\<lambda>(a, rest, pages). length rest)") (auto simp: page_size_def)

declare fill_pages.simps [simp del]

definition extract_pages_from_hex :: "u8 list \<Rightarrow> hex_failure + chunks" where
  "extract_pages_from_hex hex_data =
     bindR (read_hex_file hex_data) (\<lambda>chunks. Inr (foldl (\<lambda>pages (address, data). fill_pages address data pages) [] chunks))"

end
