(* ===== verification/Firmware_Correct.thy ===== *)
theory Firmware_Correct
  imports Firmware_Hex
begin

text \<open>
  What the firmware reader promises: the text of records at ascending addresses is read, and every byte of a record is found at
  its address in the pages. Records that go down in memory are joined to a chunk whose address is not moved: their
  bytes end up at wrong addresses.
\<close>

section \<open>The text of a hex file\<close>

abbreviation at_text :: "u8 list \<Rightarrow> hex_stream" where
  "at_text cs \<equiv> \<lparr>unread = cs, good = True\<rparr>"

definition hex_digit :: "u8 \<Rightarrow> u8" where
  "hex_digit n = (if n < 10 then 48 + n else 55 + n)"

definition text_u8 :: "u8 \<Rightarrow> u8 list" where
  "text_u8 b = [hex_digit (drop_bit 4 b), hex_digit (b AND 15)]"

definition text_u16 :: "u16 \<Rightarrow> u8 list" where
  "text_u16 w = text_u8 (ucast (drop_bit 8 w)) @ text_u8 (ucast w)"

datatype hex_line = Data_line u16 "u8 list" | Linear_line u16

text \<open>A line without its colon and its checksum, and the line.\<close>

fun line_body :: "hex_line \<Rightarrow> u8 list" where
  "line_body (Data_line low ds) = text_u8 (word_of_nat (length ds)) @ text_u16 low @ text_u8 0 @ concat (map text_u8 ds)"
| "line_body (Linear_line high) = text_u8 2 @ text_u16 0 @ text_u8 4 @ text_u16 high"

fun line_sum :: "hex_line \<Rightarrow> u8" where
  "line_sum (Data_line low ds) = word_of_nat (length ds) + word_sum low + sum_list ds"
| "line_sum (Linear_line high) = 2 + 4 + word_sum high"

definition line_text :: "hex_line \<Rightarrow> u8 list" where
  "line_text l = 58 # line_body l @ text_u8 (1 + NOT (line_sum l)) @ [10]"

definition file_text :: "hex_line list \<Rightarrow> u8 list" where
  "file_text ls = concat (map line_text ls) @ 58 # text_u8 0 @ text_u16 0 @ text_u8 1 @ text_u8 255"

fun records_of :: "u32 \<Rightarrow> hex_line list \<Rightarrow> (u32 \<times> u8 list) list" where
  "records_of b [] = []"
| "records_of b (Data_line low ds # ls) = (ucast low + b, ds) # records_of b ls"
| "records_of b (Linear_line high # ls) = records_of (push_bit 16 (ucast high)) ls"

definition short_lines :: "hex_line list \<Rightarrow> bool" where
  "short_lines ls \<longleftrightarrow> (\<forall>low ds. Data_line low ds \<in> set ls \<longrightarrow> length ds < 256)"

section \<open>Reading the text\<close>

lemma nibbles: "(n :: u8) < 16 \<Longrightarrow> n \<in> {0, 1, 2, 3, 4, 5, 6, 7, 8, 9, 10, 11, 12, 13, 14, 15}"
proof -
  assume "n < 16"
  then have "unat n \<in> set [0..<16]" by (simp add: word_less_nat_alt)
  then have "word_of_nat (unat n) \<in> (word_of_nat ` set [0..<16] :: u8 set)" by blast
  then show ?thesis by (simp add: upt_rec)
qed

lemma get_uint4_digit: "n < 16 \<Longrightarrow> get_uint4 (at_text (hex_digit n # cs)) = (ucast n, at_text cs)"
  by (drule nibbles) (auto simp: get_uint4_def stream_get_def hex_digit_def)

lemma high_nibble: "drop_bit 4 (b :: u8) < 16"
proof -
  have "unat b < 256" using unsigned_less [of b] by simp
  then show ?thesis by (simp only: word_less_nat_alt unat_drop_bit_eq) (simp add: drop_bit_eq_div)
qed

lemma low_nibble: "b AND 15 < (16 :: u8)"
proof -
  have "b AND 15 \<le> 15" by (rule word_and_le1)
  then show ?thesis by (rule order.strict_trans1) simp
qed

lemma join_nibbles: "push_bit 4 (ucast (drop_bit 4 b)) OR ucast (b AND 15) = (ucast (b :: u8) :: u32)"
proof -
  have low: "bit (15 :: u8) n \<longleftrightarrow> n < 4" if "n < 8" for n
  proof -
    have "bit (mask 4 :: u8) n \<longleftrightarrow> n < 4" using that by (simp add: bit_mask_iff)
    then show ?thesis by (simp add: mask_eq_decr_exp)
  qed
  show ?thesis
  proof (rule bit_eqI)
    fix n
    show "bit (push_bit 4 (ucast (drop_bit 4 b)) OR ucast (b AND 15) :: u32) n = bit (ucast b :: u32) n"
      using low [of n] bit_imp_le_length [of b n] by (cases "n < 4") (auto simp: bit_simps)
  qed
qed

lemma cast_back: "ucast (ucast b :: u32) = (b :: u8)" "ucast (ucast w :: u32) = (w :: u16)"
  by (intro bit_eqI; auto simp: bit_simps)+

lemma get_uint8_text: "get_uint8 (at_text (text_u8 b @ cs)) = (ucast b, at_text cs)"
  by (simp add: text_u8_def get_uint8_def get_uint4_digit high_nibble low_nibble join_nibbles)

lemma read_u8_text [simp]: "read_u8 (at_text (text_u8 b @ cs)) = (b, at_text cs)"
  by (simp add: read_u8_def get_uint8_text cast_back)

lemma join_bytes: "push_bit 8 (ucast (ucast (drop_bit 8 w) :: u8)) OR ucast (ucast w :: u8) = (ucast (w :: u16) :: u32)"
  by (intro bit_eqI) (auto simp: bit_simps dest: bit_imp_le_length)

lemma read_u16_text [simp]: "read_u16 (at_text (text_u16 w @ cs)) = (w, at_text cs)"
  by (simp add: read_u16_def get_uint16_def text_u16_def get_uint8_text join_bytes cast_back)

lemma read_data_text [simp]:
  "read_data (length ds) c (at_text (concat (map text_u8 ds) @ cs)) = (ds, c + sum_list ds, at_text cs)"
  by (induction ds arbitrary: c) (simp_all add: add.assoc)

lemma checksum_text [simp]: "verify_checksum e c (at_text (text_u8 (1 + NOT c) @ cs)) = Inr (at_text cs)"
  by (simp add: verify_checksum_def)

lemma read_line:
  assumes "short_lines [l]"
  shows "read_record b cs (at_text (line_body l @ text_u8 (1 + NOT (line_sum l)) @ rest)) =
    Inr (Some (case l of
        Data_line low ds \<Rightarrow> (b, add_record (ucast low + b) ds cs, at_text rest)
      | Linear_line high \<Rightarrow> (push_bit 16 (ucast high), cs, at_text rest)))"
proof (cases l)
  case (Data_line low ds)
  with assms have "length ds < 256" by (simp add: short_lines_def)
  then have "unat (word_of_nat (length ds) :: u8) = length ds" by (simp add: unat_of_nat)
  with Data_line show ?thesis
    by (simp add: read_record_def Let_def add.assoc)
next
  case (Linear_line high)
  then show ?thesis
    by (simp add: read_record_def base_record_def Let_def word_sum_def)
qed

lemma read_char_colon [simp]: "read_char (at_text (58 # cs)) = (Some 58, at_text cs)"
  by (simp add: read_char_def isspace_def)

lemma read_char_newline [simp]: "read_char (at_text (10 # cs)) = read_char (at_text cs)"
proof -
  have "isspace 10" by (simp add: isspace_def)
  then show ?thesis by (cases "dropWhile isspace cs") (simp_all add: read_char_def del: dropWhile_eq_Nil_conv)
qed

lemma read_records_newline: "read_records b cs (at_text (10 # rest)) = read_records b cs (at_text rest)"
  by (subst (1 2) read_records.simps) simp

lemma read_records_text:
  "short_lines ls \<Longrightarrow> read_records b cs (at_text (file_text ls)) =
    Inr (foldl (\<lambda>cs (a, ds). add_record a ds cs) cs (records_of b ls))"
proof (induction ls arbitrary: b cs)
  case Nil
  show ?case
    by (subst read_records.simps) (simp add: file_text_def read_record_def Let_def)
next
  case (Cons l ls)
  then have short: "short_lines [l]" "short_lines ls" by (auto simp: short_lines_def)
  have split: "file_text (l # ls) = 58 # line_body l @ text_u8 (1 + NOT (line_sum l)) @ 10 # file_text ls"
    by (simp add: file_text_def line_text_def)
  show ?case
    unfolding split using read_line [OF short(1)] Cons.IH [OF short(2)]
    by (subst read_records.simps, cases l) (simp_all add: read_records_newline)
qed

section \<open>Records at ascending addresses\<close>

fun ascending :: "nat \<Rightarrow> (u32 \<times> u8 list) list \<Rightarrow> bool" where
  "ascending lo [] \<longleftrightarrow> lo \<le> 2 ^ 32"
| "ascending lo ((a, ds) # rs) \<longleftrightarrow> lo \<le> unat a \<and> ds \<noteq> [] \<and> ascending (unat a + length ds) rs"

text \<open>The bytes of chunks with their addresses.\<close>

definition bytes_at :: "(u32 \<times> u8 list) set \<Rightarrow> (nat \<times> u8) set" where
  "bytes_at cs = {(unat k + i, v ! i) | k v i. (k, v) \<in> cs \<and> i < length v}"

lemma bytes_at_Un: "bytes_at (A \<union> B) = bytes_at A \<union> bytes_at B"
  unfolding bytes_at_def by blast

lemma bytes_atI: "(k, v) \<in> cs \<Longrightarrow> i < length v \<Longrightarrow> (unat k + i, v ! i) \<in> bytes_at cs"
  by (auto simp: bytes_at_def)

lemma bytes_at_single: "x \<in> bytes_at {(k, v)} \<longleftrightarrow> (\<exists>i<length v. x = (unat k + i, v ! i))"
  by (auto simp: bytes_at_def)

lemma bytes_at_append:
  assumes "unat a = unat k + length v"
  shows "bytes_at {(k, v @ ds)} = bytes_at {(k, v)} \<union> bytes_at {(a, ds)}"
proof (intro set_eqI iffI)
  fix x assume "x \<in> bytes_at {(k, v @ ds)}"
  then obtain i where i: "i < length v + length ds" "x = (unat k + i, (v @ ds) ! i)" by (auto simp: bytes_at_single)
  show "x \<in> bytes_at {(k, v)} \<union> bytes_at {(a, ds)}"
  proof (cases "i < length v")
    case True
    with i show ?thesis by (auto simp: bytes_at_single nth_append)
  next
    case False
    with i assms have "i - length v < length ds" "x = (unat a + (i - length v), ds ! (i - length v))"
      by (auto simp: nth_append)
    then show ?thesis by (auto simp: bytes_at_single)
  qed
next
  fix x assume "x \<in> bytes_at {(k, v)} \<union> bytes_at {(a, ds)}"
  then consider i where "i < length v" "x = (unat k + i, v ! i)" | i where "i < length ds" "x = (unat a + i, ds ! i)"
    by (auto simp: bytes_at_single)
  then show "x \<in> bytes_at {(k, v @ ds)}"
  proof cases
    case (1 i)
    then show ?thesis by (auto simp: bytes_at_single nth_append intro!: exI [of _ i])
  next
    case (2 i)
    with assms show ?thesis by (auto simp: bytes_at_single nth_append intro!: exI [of _ "length v + i"])
  qed
qed

definition below :: "nat \<Rightarrow> chunks \<Rightarrow> bool" where
  "below lo cs \<longleftrightarrow> (\<forall>(k, v)\<in>set cs. v \<noteq> [] \<and> unat k + length v \<le> lo) \<and>
     sorted_wrt (\<lambda>(k, v) (k', v'). unat k + length v \<le> unat k') cs"

lemma belowD: "below lo cs \<Longrightarrow> (k, v) \<in> set cs \<Longrightarrow> v \<noteq> [] \<and> unat k + length v \<le> lo"
  by (auto simp: below_def)

lemma below_mono: "below lo cs \<Longrightarrow> lo \<le> hi \<Longrightarrow> below hi cs"
  unfolding below_def by (auto dest: le_trans)

lemma below_snoc:
  assumes "\<And>k' v'. (k', v') \<in> set cs \<Longrightarrow> unat k' + length v' \<le> unat k" and "below lo cs" and "v \<noteq> []"
    and "lo \<le> unat k + length v"
  shows "below (unat k + length v) (cs @ [(k, v)])"
  using assms below_mono [OF assms(2,4)] unfolding below_def by (auto simp: sorted_wrt_append)

lemma fuse_below:
  assumes "below (unat a) cs" and "ds \<noteq> []"
  shows "fuse a ds cs = (if cs \<noteq> [] \<and> unat a = unat (fst (last cs)) + length (snd (last cs))
    then Some (butlast cs @ [(fst (last cs), snd (last cs) @ ds)]) else None)"
  using assms(1)
proof (induction cs)
  case (Cons c cs)
  obtain k v where c: "c = (k, v)" by (rule prod.exhaust)
  have below: "below (unat a) cs" using Cons.prems by (auto simp: below_def)
  have kv: "v \<noteq> []" "unat k + length v \<le> unat a" using Cons.prems c by (auto simp: below_def)
  show ?case
  proof (cases cs)
    case Nil
    with kv c assms(2) show ?thesis by auto
  next
    case (Cons d ds')
    have "unat k + length v \<le> unat (fst d)" "snd d \<noteq> []" "unat (fst d) + length (snd d) \<le> unat a"
      using Cons.prems c Cons by (auto simp: below_def split: prod.splits)
    moreover from this(2) have "0 < length (snd d)" by simp
    ultimately have "unat a \<noteq> unat k + length v" by linarith
    moreover have "0 < length v" using kv by simp
    then have "unat a + length ds \<noteq> unat k" using kv by linarith
    ultimately show ?thesis using Cons.IH [OF below] Cons c by simp
  qed
qed simp

lemma map_set_last: "(\<And>k v. (k, v) \<in> set cs \<Longrightarrow> k < a) \<Longrightarrow> map_set a ds cs = cs @ [(a, ds)]"
  by (induction a ds cs rule: map_set.induct) fastforce+

lemma add_record_below:
  assumes "below lo cs" and "lo \<le> unat a" and "ds \<noteq> []"
  shows "below (unat a + length ds) (add_record a ds cs)"
    and "bytes_at (set (add_record a ds cs)) = bytes_at (set cs) \<union> bytes_at {(a, ds)}"
proof -
  have cs: "below (unat a) cs" using assms(1,2) by (rule below_mono)
  note fuse = fuse_below [OF cs assms(3)]
  have "below (unat a + length ds) (add_record a ds cs) \<and>
    bytes_at (set (add_record a ds cs)) = bytes_at (set cs) \<union> bytes_at {(a, ds)}"
  proof (cases "cs \<noteq> [] \<and> unat a = unat (fst (last cs)) + length (snd (last cs))")
    case True
    then obtain cs' k v where split: "cs = cs' @ [(k, v)]" by (metis append_butlast_last_id surj_pair)
    then have at_end: "unat a = unat k + length v" using True by simp
    have "add_record a ds cs = cs' @ [(k, v @ ds)]" using True fuse split by (simp add: add_record_def)
    moreover have "below (unat a + length ds) (cs' @ [(k, v @ ds)])"
    proof -
      have cs': "below (unat a) cs'" "\<And>k' v'. (k', v') \<in> set cs' \<Longrightarrow> unat k' + length v' \<le> unat k"
        using cs split unfolding below_def by (auto simp: sorted_wrt_append)
      show ?thesis using below_snoc [OF cs'(2,1), of "v @ ds"] at_end assms(3) by (simp add: add.assoc)
    qed
    moreover have "bytes_at (set (cs' @ [(k, v @ ds)])) = bytes_at (set cs') \<union> bytes_at {(k, v)} \<union> bytes_at {(a, ds)}"
      using bytes_at_append [OF at_end] bytes_at_Un [of "set cs'" "{(k, v @ ds)}"] by (simp add: Un_assoc)
    ultimately show ?thesis using split bytes_at_Un [of "set cs'" "{(k, v)}"] by simp
  next
    case False
    have "k < a" if "(k, v) \<in> set cs" for k v
    proof -
      have "0 < length v" "unat k + length v \<le> unat a" using belowD [OF cs that] by auto
      then have "unat k < unat a" by linarith
      then show ?thesis by (simp add: word_less_nat_alt)
    qed
    then have "add_record a ds cs = cs @ [(a, ds)]" using False fuse map_set_last [of cs a ds] by (auto simp: add_record_def)
    moreover have "below (unat a + length ds) (cs @ [(a, ds)])"
      using below_snoc [OF _ cs assms(3)] belowD [OF cs] by simp
    ultimately show ?thesis using bytes_at_Un [of "set cs" "{(a, ds)}"] by simp
  qed
  then show "below (unat a + length ds) (add_record a ds cs)"
    "bytes_at (set (add_record a ds cs)) = bytes_at (set cs) \<union> bytes_at {(a, ds)}" by auto
qed

lemma add_records:
  "below lo cs \<Longrightarrow> ascending lo rs \<Longrightarrow>
    below (2 ^ 32) (foldl (\<lambda>cs (a, ds). add_record a ds cs) cs rs) \<and>
    bytes_at (set (foldl (\<lambda>cs (a, ds). add_record a ds cs) cs rs)) = bytes_at (set cs) \<union> bytes_at (set rs)"
proof (induction lo rs arbitrary: cs rule: ascending.induct)
  case (1 lo)
  then have "below (2 ^ 32) cs" by (auto intro: below_mono)
  then show ?case by (simp add: bytes_at_def)
next
  case (2 lo a ds rs)
  note step = add_record_below [OF "2.prems"(1), of a ds]
  have "below (2 ^ 32) (foldl (\<lambda>cs (a, ds). add_record a ds cs) (add_record a ds cs) rs) \<and>
    bytes_at (set (foldl (\<lambda>cs (a, ds). add_record a ds cs) (add_record a ds cs) rs)) =
      bytes_at (set (add_record a ds cs)) \<union> bytes_at (set rs)"
    using "2.IH" [OF step(1)] "2.prems"(2) by simp
  moreover have "bytes_at (set ((a, ds) # rs)) = bytes_at {(a, ds)} \<union> bytes_at (set rs)"
    using bytes_at_Un [of "{(a, ds)}" "set rs"] by simp
  ultimately show ?case using step(2) "2.prems"(2) by (simp add: Un_assoc)
qed

section \<open>Pages\<close>

definition page_byte :: "chunks \<Rightarrow> nat \<Rightarrow> u8" where
  "page_byte pages a = page_of pages (word_of_nat (a div page_size)) ! (a mod page_size)"

definition whole_pages :: "chunks \<Rightarrow> bool" where
  "whole_pages pages \<longleftrightarrow> (\<forall>p v. map_find pages p = Some v \<longrightarrow> length v = page_size)"

lemma length_page_of: "whole_pages pages \<Longrightarrow> length (page_of pages p) = page_size"
  by (auto simp: page_of_def whole_pages_def split: option.splits)

lemma page_of_set: "page_of (map_set p v pages) q = (if q = p then v else page_of pages q)"
  by (simp add: page_of_def omap.find_put)

lemma length_overwrite: "i + length ys \<le> length xs \<Longrightarrow> length (overwrite i ys xs) = length xs"
  by (simp add: overwrite_def)

lemma nth_overwrite:
  "i + length ys \<le> length xs \<Longrightarrow> overwrite i ys xs ! j = (if i \<le> j \<and> j < i + length ys then ys ! (j - i) else xs ! j)"
  by (auto simp: overwrite_def nth_append)

lemma page_index_inj:
  assumes "a < 2 ^ 32" "b < 2 ^ 32"
  shows "(word_of_nat (a div page_size) :: u32) = word_of_nat (b div page_size) \<longleftrightarrow> a div page_size = b div page_size"
proof -
  have "a div page_size < 2 ^ 32" "b div page_size < 2 ^ 32"
    using assms div_le_dividend [of a page_size] div_le_dividend [of b page_size] by linarith+
  then show ?thesis by (simp add: word_of_nat_eq_iff take_bit_nat_eq_self)
qed

text \<open>One turn of the loop changes the bytes from its address to the end of the page or of the data.\<close>

lemma write_page:
  assumes "whole_pages pages" and "b < 2 ^ 32" and "a < 2 ^ 32" and "n \<le> page_size - a mod page_size" and "n \<le> length ds"
  shows "page_byte (map_set (word_of_nat (a div page_size))
      (overwrite (a mod page_size) (take n ds) (page_of pages (word_of_nat (a div page_size)))) pages) b =
    (if a \<le> b \<and> b < a + n then ds ! (b - a) else page_byte pages b)"
proof (cases "b div page_size = a div page_size")
  case True
  let ?i = "a mod page_size" and ?j = "b mod page_size"
  have ab: "a = page_size * (a div page_size) + ?i" "b = page_size * (a div page_size) + ?j"
    using True by (metis mult_div_mod_eq)+
  then have "a \<le> b \<and> b < a + n \<longleftrightarrow> ?i \<le> ?j \<and> ?j < ?i + n" "b - a = ?j - ?i" by linarith+
  moreover have "?i + length (take n ds) \<le> page_size" using assms(4) by (simp add: page_size_def)
  ultimately show ?thesis
    using True assms(5) nth_overwrite [of ?i "take n ds" "page_of pages (word_of_nat (a div page_size))" ?j]
      length_page_of [OF assms(1)]
    by (auto simp: page_byte_def page_of_set)
next
  case False
  have "\<not> (a \<le> b \<and> b < a + n)"
  proof
    assume ab: "a \<le> b \<and> b < a + n"
    have high: "a + n \<le> page_size * (a div page_size) + page_size"
      using assms(4) mult_div_mod_eq [of 2048 a] mod_less_divisor [of 2048 a] unfolding page_size_def by linarith
    have low: "page_size * (a div page_size) \<le> a" by (rule times_div_less_eq_dividend)
    have "page_size * (a div page_size) \<le> b" using ab low by linarith
    moreover have "b < page_size * Suc (a div page_size)" using ab high by simp
    ultimately have "b div page_size = a div page_size" by (intro div_nat_eqI) (simp_all add: mult.commute)
    with False show False by simp
  qed
  moreover have "word_of_nat (b div page_size) \<noteq> (word_of_nat (a div page_size) :: u32)"
    using False page_index_inj [OF assms(2,3)] by simp
  ultimately show ?thesis by (auto simp: page_byte_def page_of_set)
qed

lemma whole_pages_set: "whole_pages pages \<Longrightarrow> length v = page_size \<Longrightarrow> whole_pages (map_set p v pages)"
  by (simp add: whole_pages_def omap.find_put)

lemma fill_pages_bytes:
  assumes "whole_pages pages" and "unat at + length rest \<le> 2 ^ 32"
  shows "whole_pages (fill_pages at rest pages) \<and> (\<forall>b<2 ^ 32. page_byte (fill_pages at rest pages) b =
    (if unat at \<le> b \<and> b < unat at + length rest then rest ! (b - unat at) else page_byte pages b))"
  using assms
proof (induction at rest pages rule: fill_pages.induct)
  case (1 at rest pages)
  let ?p = "word_of_nat (unat at div page_size) :: u32" and ?i = "unat at mod page_size"
  define n where "n = min (page_size - ?i) (length rest)"
  define pages' where "pages' = map_set ?p (overwrite ?i (take n rest) (page_of pages ?p)) pages"
  have unfold: "fill_pages at rest pages =
      (if n < length rest then fill_pages (at + word_of_nat n) (drop n rest) pages' else pages')"
    by (subst fill_pages.simps) (simp add: Let_def n_def pages'_def)
  have whole: "whole_pages pages'"
    unfolding pages'_def using "1.prems"(1)
    by (intro whole_pages_set) (simp_all add: length_overwrite length_page_of n_def page_size_def)
  have at32: "unat at < 2 ^ 32" using unsigned_less [of at] by simp
  have turn: "page_byte pages' b = (if unat at \<le> b \<and> b < unat at + n then rest ! (b - unat at) else page_byte pages b)"
    if "b < 2 ^ 32" for b
    unfolding pages'_def using write_page [OF "1.prems"(1) that at32, of n rest] by (simp add: n_def)
  show ?case
  proof (cases "n < length rest")
    case True
    have next': "unat (at + word_of_nat n) = unat at + n"
      using True "1.prems"(2) by (simp add: unat_word_ariths unat_of_nat)
    have "whole_pages (fill_pages (at + word_of_nat n) (drop n rest) pages') \<and>
      (\<forall>b<2 ^ 32. page_byte (fill_pages (at + word_of_nat n) (drop n rest) pages') b =
        (if unat at + n \<le> b \<and> b < unat at + length rest then rest ! (b - unat at) else page_byte pages' b))"
      using "1.IH" [of ?p ?i n pages'] True whole next' "1.prems"(2)
      by (simp add: n_def pages'_def)
    then show ?thesis using unfold True turn by auto
  next
    case False
    then have "n = length rest" by (simp add: n_def)
    then show ?thesis using unfold whole turn by simp
  qed
qed

lemma fill_all_pages:
  assumes "whole_pages pages" and "below (2 ^ 32) cs"
  defines "pages' \<equiv> foldl (\<lambda>pages (address, data). fill_pages address data pages) pages cs"
  shows "whole_pages pages' \<and> (\<forall>b<2 ^ 32.
    (\<forall>x. (b, x) \<in> bytes_at (set cs) \<longrightarrow> page_byte pages' b = x) \<and>
    (b \<notin> fst ` bytes_at (set cs) \<longrightarrow> page_byte pages' b = page_byte pages b))"
  using assms(2) unfolding pages'_def
proof (induction cs rule: rev_induct)
  case Nil
  show ?case using assms(1) by (simp add: bytes_at_def)
next
  case (snoc c cs)
  obtain k v where c: "c = (k, v)" by (rule prod.exhaust)
  have cs: "below (2 ^ 32) cs" and kv: "unat k + length v \<le> 2 ^ 32"
    and apart: "\<And>k' v'. (k', v') \<in> set cs \<Longrightarrow> unat k' + length v' \<le> unat k"
    using snoc.prems c by (auto simp: below_def sorted_wrt_append)
  note IH = snoc.IH [OF cs]
  note fill = fill_pages_bytes [OF conjunct1 [OF IH] kv]
  have split: "bytes_at (set (cs @ [c])) = bytes_at (set cs) \<union> bytes_at {(k, v)}"
    using bytes_at_Un [of "set cs" "{(k, v)}"] c by simp
  have earlier: "b < unat k" if "(b, x) \<in> bytes_at (set cs)" for b x
    using that apart by (fastforce simp: bytes_at_def)
  have last: "unat k \<le> b \<and> b < unat k + length v \<and> x = v ! (b - unat k)" if "(b, x) \<in> bytes_at {(k, v)}" for b x
    using that by (auto simp: bytes_at_single)
  have outside: "\<not> (unat k \<le> b \<and> b < unat k + length v)" if "b \<notin> fst ` bytes_at {(k, v)}" for b
  proof
    assume "unat k \<le> b \<and> b < unat k + length v"
    then have "(b, v ! (b - unat k)) \<in> bytes_at {(k, v)}"
      by (auto simp: bytes_at_single intro!: exI [of _ "b - unat k"])
    with that show False by force
  qed
  let ?old = "foldl (\<lambda>pages (address, data). fill_pages address data pages) pages cs"
  have result: "page_byte (fill_pages k v ?old) b = x" if "b < 2 ^ 32" "(b, x) \<in> bytes_at (set cs) \<union> bytes_at {(k, v)}" for b x
    using that(2)
  proof
    assume "(b, x) \<in> bytes_at (set cs)"
    with that(1) earlier [OF this] fill IH show ?thesis by simp
  next
    assume "(b, x) \<in> bytes_at {(k, v)}"
    with that(1) last [OF this] fill show ?thesis by simp
  qed
  have rest: "page_byte (fill_pages k v ?old) b = page_byte pages b"
    if "b < 2 ^ 32" "b \<notin> fst ` bytes_at (set cs)" "b \<notin> fst ` bytes_at {(k, v)}" for b
    using that(1,2) outside [OF that(3)] fill IH by auto
  have whole: "whole_pages (fill_pages k v ?old)" using fill by blast
  have fold: "foldl (\<lambda>pages (address, data). fill_pages address data pages) pages (cs @ [c]) = fill_pages k v ?old"
    using c by simp
  show ?case
    unfolding split fold image_Un
  proof (intro conjI whole allI impI)
    fix b :: nat assume b: "b < 2 ^ 32"
    show "page_byte (fill_pages k v ?old) b = x" if "(b, x) \<in> bytes_at (set cs) \<union> bytes_at {(k, v)}" for x
      using result [OF b that] .
    show "page_byte (fill_pages k v ?old) b = page_byte pages b"
      if "b \<notin> fst ` bytes_at (set cs) \<union> fst ` bytes_at {(k, v)}"
      using rest [OF b] that by blast
  qed
qed

text \<open>C18: Every byte of the firmware is flashed at its address: the text of data records at ascending addresses (with lines
  that set the upper half of the address) is read and cut into pages of 2048 bytes that hold each byte of each
  record at its address, and zeros elsewhere.\<close>

theorem firmware_pages:
  assumes "short_lines ls" and "ascending 0 (records_of 0 ls)"
  shows "\<exists>pages. extract_pages_from_hex (file_text ls) = Inr pages \<and> whole_pages pages \<and> (\<forall>b<2 ^ 32.
    (\<forall>x. (b, x) \<in> bytes_at (set (records_of 0 ls)) \<longrightarrow> page_byte pages b = x) \<and>
    (b \<notin> fst ` bytes_at (set (records_of 0 ls)) \<longrightarrow> page_byte pages b = 0))"
proof -
  let ?cs = "foldl (\<lambda>cs (a, ds). add_record a ds cs) [] (records_of 0 ls)"
  have empty: "below 0 []" "whole_pages []" by (simp_all add: below_def whole_pages_def)
  have zero: "page_byte [] b = 0" for b by (simp add: page_byte_def page_of_def page_size_def)
  have cs: "below (2 ^ 32) ?cs" "bytes_at (set ?cs) = bytes_at (set (records_of 0 ls))"
    using add_records [OF empty(1) assms(2)] by (simp_all add: bytes_at_def)
  have "extract_pages_from_hex (file_text ls) =
      Inr (foldl (\<lambda>pages (address, data). fill_pages address data pages) [] ?cs)"
    by (simp add: extract_pages_from_hex_def read_hex_file_def read_records_text [OF assms(1)])
  then show ?thesis using fill_all_pages [OF empty(2) cs(1)] cs(2) zero by auto
qed

definition sample_lines :: "hex_line list" where
  "sample_lines = [Linear_line 1, Data_line 0 [1, 2, 3], Data_line 3 [4]]"

theorem firmware_pages_witness:
  "\<exists>pages. extract_pages_from_hex (file_text sample_lines) = Inr pages \<and> whole_pages pages \<and>
    page_byte pages 0x10003 = 4 \<and> page_byte pages 0x10004 = 0"
proof -
  have lines: "short_lines sample_lines" "ascending 0 (records_of 0 sample_lines)"
    by (simp_all add: short_lines_def sample_lines_def)
  have "(0x10003, [4]) \<in> set (records_of 0 sample_lines)" by (simp add: sample_lines_def)
  from bytes_atI [OF this, of 0] have bytes: "(0x10003, 4) \<in> bytes_at (set (records_of 0 sample_lines))" by simp
  have none: "0x10004 \<notin> fst ` bytes_at (set (records_of 0 sample_lines))"
    by (auto simp: bytes_at_def sample_lines_def)
  from firmware_pages [OF lines] bytes none show ?thesis by fastforce
qed

text \<open>A record just below a chunk is flashed at a wrong address: it is put in front of the bytes of the chunk, whose
  address stays, so that its bytes appear at the address of the chunk and those of the chunk are shifted.\<close>

theorem head_record_misplaced:
  "\<exists>pages. extract_pages_from_hex (file_text [Data_line 16 [1], Data_line 15 [2]]) = Inr pages \<and>
    page_byte pages 15 = 0 \<and> page_byte pages 16 = 2 \<and> page_byte pages 17 = 1"
proof -
  have "read_hex_file (file_text [Data_line 16 [1], Data_line 15 [2]]) = Inr [(16, [2, 1])]"
    by (simp add: read_hex_file_def read_records_text short_lines_def add_record_def)
  then have pages: "extract_pages_from_hex (file_text [Data_line 16 [1], Data_line 15 [2]]) = Inr (fill_pages 16 [2, 1] [])"
    by (simp add: extract_pages_from_hex_def)
  have zero: "page_byte [] b = 0" for b by (simp add: page_byte_def page_of_def page_size_def)
  have "whole_pages []" by (simp add: whole_pages_def)
  from fill_pages_bytes [OF this, of 16 "[2, 1]"] zero show ?thesis unfolding pages by simp
qed

end
