(* ===== verification/Wire_Frame.thy ===== *)
theory Wire_Frame
  imports Message_Roundtrip
begin

text \<open>
  Messages on a stream: \<^verbatim>\<open>aseba_message_writer.h\<close> and \<^verbatim>\<open>aseba_message_parser.h\<close> of \<^verbatim>\<open>thymio-device-manager\<close>. A frame is
  the size of the payload, the source and the type, as little-endian words, and the payload. The streams are
  lists of bytes: a read of fewer bytes than requested is an error of the stream.
\<close>

section \<open>Writing\<close>

text \<open>The size is computed as an \<^verbatim>\<open>int\<close>, and the four bytes of the \<^verbatim>\<open>int\<close> are copied over the start of the buffer.\<close>

definition little_int :: "int \<Rightarrow> u8 list" where
  "little_int n = map (\<lambda>k. word_of_int (n div 2 ^ (8 * k))) [0..<4]"

definition write_aseba_message :: "message \<Rightarrow> run_failure + u8 list" where
  "write_aseba_message m =
     bindR (add_all [add_u16 0, add_u16 (source m), add_u16 (mtype m), serializeSpecific (mbody m)] empty_buffer) (\<lambda>b.
     Inr (little_int (uint (word_of_nat (length (rawData b)) :: u16) - 6) @ drop 4 (rawData b)))"

section \<open>Reading\<close>

datatype read_result = Stream_error | Received "message option" "u8 list"

definition little_u16 :: "u8 list \<Rightarrow> nat \<Rightarrow> u16" where
  "little_u16 bs i = ucast (bs ! i) OR push_bit 8 (ucast (bs ! (i + 1)))"

definition read_aseba_message :: "u16 \<Rightarrow> u8 list \<Rightarrow> run_failure + read_result" where
  "read_aseba_message junk stream =
     (if length stream < 6 then Inr Stream_error
      else
        let size_of = unat (little_u16 stream 0); src = little_u16 stream 2; ty = little_u16 stream 4; rest = drop 6 stream
        in if length rest < size_of then Inr Stream_error
           else bindR (create junk src ty (input_at [] (take size_of rest))) (\<lambda>m. Inr (Received m (drop size_of rest))))"

section \<open>A written frame is read back\<close>

lemma little_int_u16:
  assumes "n < 65536"
  shows "little_int (int n) = enc_u16 (word_of_nat n) @ [0, 0]"
proof -
  have "int n div 65536 = 0" "int n div 16777216 = 0" using assms by auto
  moreover have "(word_of_nat n :: u8) = ucast (word_of_nat n :: u16)"
    by (rule bit_word_eqI) (simp add: bit_simps)
  moreover have "(word_of_int (int n div 256) :: u8) = ucast (drop_bit 8 (word_of_nat n :: u16))"
  proof -
    have "int n div 256 = drop_bit 8 (int n)" by (simp add: drop_bit_eq_div)
    then show ?thesis by (intro bit_word_eqI) (auto simp: bit_simps)
  qed
  ultimately show ?thesis by (simp add: little_int_def enc_u16_def upt_rec)
qed

lemma little_u16_enc:
  "little_u16 (enc_u16 a @ enc_u16 b @ enc_u16 c @ rest) 0 = a"
  "little_u16 (enc_u16 a @ enc_u16 b @ enc_u16 c @ rest) 2 = b"
  "little_u16 (enc_u16 a @ enc_u16 b @ enc_u16 c @ rest) 4 = c"
  by (simp_all add: little_u16_def enc_u16_def u16_bytes)

lemma header_enc:
  "length (enc_u16 a) = 2"
  "drop 6 (enc_u16 a @ enc_u16 b @ enc_u16 c @ rest) = rest"
  "drop 4 (enc_u16 a @ enc_u16 b @ rest) = rest"
  by (simp_all add: enc_u16_def)

lemma write_frame:
  assumes "carried junk (mbody m)" and "length (enc_body (mbody m)) < 65530"
  shows "write_aseba_message m =
    Inr (enc_u16 (word_of_nat (length (enc_body (mbody m)))) @ enc_u16 0 @ enc_u16 (mtype m) @ enc_body (mbody m))"
proof -
  let ?n = "length (enc_body (mbody m))"
  let ?bs = "enc_u16 0 @ enc_u16 (source m) @ enc_u16 (mtype m) @ enc_body (mbody m)"
  have bs: "add_all [add_u16 0, add_u16 (source m), add_u16 (mtype m), serializeSpecific (mbody m)] empty_buffer =
      Inr \<lparr>rawData = ?bs, readPos = 0\<rparr>"
    by (simp add: serializeSpecific_enc [OF assms(1)] add_u16_def append_bytes_def empty_buffer_def enc_u16_def)
  have "length ?bs = 6 + ?n" by (simp add: header_enc)
  moreover have "uint (word_of_nat (6 + ?n) :: u16) - 6 = int ?n"
    unfolding unsigned_of_nat using assms(2) by (simp add: take_bit_nat_eq_self)
  ultimately have "little_int (uint (word_of_nat (length ?bs) :: u16) - 6) = enc_u16 (word_of_nat ?n) @ [0, 0]"
    using little_int_u16 [of ?n] assms(2) by (simp only:)
  then show ?thesis
    by (simp only: write_aseba_message_def bs bindR_Inr buffer.simps header_enc) (simp add: enc_u16_def)
qed

text \<open>C19: A frame that is written to a stream is read back from it as the message with its type and content,
  and the bytes after it are left for the next message, for the messages of the table that the protocol carries
  without loss (\<open>carried\<close>: every class that \<^verbatim>\<open>Message::create\<close> knows except \<^verbatim>\<open>ChangedVariables\<close>, with members that fit the
  wire; not \<^verbatim>\<open>SetDeviceInfo\<close>, \<^verbatim>\<open>GetDeviceInfo\<close> and \<^verbatim>\<open>GetNodeDescriptionFragment\<close>, which \<^verbatim>\<open>Message::create\<close> does not know) and contents of
  less than 65530 bytes. The source is always read as 0: the bytes of the size are those of an \<^verbatim>\<open>int\<close>, which
  overwrite the source.\<close>

theorem frame_roundtrip:
  assumes "carried junk (mbody m)" and "has_type m" and "length (enc_body (mbody m)) < 65530"
  shows "bindR (write_aseba_message m) (\<lambda>bs. read_aseba_message junk (bs @ rest)) =
    Inr (Received (Some (m\<lparr>source := 0\<rparr>)) rest)"
proof -
  let ?n = "length (enc_body (mbody m))"
  have "unat (word_of_nat ?n :: u16) = ?n" using assms(3) by (simp add: unat_of_nat)
  moreover have "create junk 0 (mtype m) (input_at [] (enc_body (mbody m))) = Inr (Some (m\<lparr>source := 0\<rparr>))"
    using deserializeSpecific_enc [OF assms(1,2)] by (simp add: create_def input_at_end)
  ultimately show ?thesis
    by (simp add: write_frame [OF assms(1,3)] read_aseba_message_def little_u16_enc header_enc Let_def)
qed

theorem frame_roundtrip_witness:
  "bindR (write_aseba_message sample_message) (\<lambda>bs. read_aseba_message 0 (bs @ [1, 2])) =
    Inr (Received (Some (sample_message\<lparr>source := 0\<rparr>)) [1, 2])"
proof -
  have "length (enc_body (mbody sample_message)) < 65530"
    by (simp add: sample_message_def enc_u16_def enc_string_def ws_def WStringToUTF8_def enc_wchar_def)
  with frame_roundtrip [of 0 sample_message "[1, 2]"] sample_message_carried show ?thesis by blast
qed

end
