(* ===== verification/Serial_Writer.thy ===== *)
theory Serial_Writer
  imports Aseba_Prelude
begin

text \<open>
  The contract of a queue in front of a device that takes one write at a time, shared by the queue of an endpoint
  (\<^verbatim>\<open>aseba_endpoint.h\<close>) and that of an application (\<^verbatim>\<open>app_endpoint.h\<close>): a message that is submitted while no other is queued is written
  at once, and the end of a write starts the next one. The front of the queue is the message being written.
\<close>

locale serial_writer =
  fixes queued :: "'s \<Rightarrow> 'm list" and written :: "'s \<Rightarrow> 'm list" and open_for_writes :: "'s \<Rightarrow> bool"
    and submit :: "'m \<Rightarrow> 's \<Rightarrow> 's" and complete :: "'s \<Rightarrow> 's"
  assumes submit_busy: "queued s \<noteq> [] \<Longrightarrow> open_for_writes s \<Longrightarrow> queued (submit m s) = queued s @ [m] \<and> written (submit m s) = written s"
    and submit_idle: "queued s = [] \<Longrightarrow> open_for_writes s \<Longrightarrow> queued (submit m s) = [m] \<and> written (submit m s) = written s @ [m]"
    and completed: "queued s = m # ms \<Longrightarrow> open_for_writes s \<Longrightarrow> queued (complete s) = ms \<and> written (complete s) = written s @ take 1 ms"
    and submit_open: "open_for_writes (submit m s) = open_for_writes s"
    and complete_open: "open_for_writes (complete s) = open_for_writes s"
begin

text \<open>Runs from an idle state, with the messages submitted and the number of completed writes. A write completes only when
  one is under way.\<close>

inductive writer_run :: "'m list \<Rightarrow> nat \<Rightarrow> 's \<Rightarrow> bool" where
  idle: "queued s = [] \<Longrightarrow> written s = [] \<Longrightarrow> open_for_writes s \<Longrightarrow> writer_run [] 0 s"
| submitted: "writer_run sent c s \<Longrightarrow> writer_run (sent @ [m]) c (submit m s)"
| ended: "writer_run sent c s \<Longrightarrow> queued s \<noteq> [] \<Longrightarrow> writer_run sent (Suc c) (complete s)"

lemma drop_Cons_nth: "drop c sent = m # ms \<Longrightarrow> c < length sent \<and> sent ! c = m \<and> drop (Suc c) sent = ms"
  by (metis Cons_nth_drop_Suc drop_all leI list.distinct(1) list.inject)

theorem run_in_order:
  assumes "writer_run sent c s"
  shows "open_for_writes s \<and> c \<le> length sent \<and> queued s = drop c sent \<and> written s = take (Suc c) sent"
  using assms
proof (induction rule: writer_run.induct)
  case (submitted sent c s m)
  show ?case
  proof (cases "queued s = []")
    case True
    then have "c = length sent" using submitted.IH by simp
    with submit_idle [OF True, of m] submitted.IH show ?thesis by (simp add: submit_open)
  next
    case False
    then have "c < length sent" using submitted.IH by simp
    with submit_busy [OF False, of m] submitted.IH show ?thesis by (simp add: submit_open)
  qed
next
  case (ended sent c s)
  obtain m ms where q: "queued s = m # ms" using ended.hyps(2) by (cases "queued s") auto
  have front: "c < length sent" "drop (Suc c) sent = ms" using drop_Cons_nth [of c sent m ms] ended.IH q by simp_all
  have "take (Suc (Suc c)) sent = take (Suc c) sent @ take 1 ms"
    using take_add [of "Suc c" 1 sent] front(2) by simp
  with completed [OF q] front ended.IH show ?case by (simp add: complete_open)
qed simp

text \<open>At most one write is under way: those started and not completed.\<close>

corollary one_at_a_time: "writer_run sent c s \<Longrightarrow> length (written s) - c \<le> 1"
  using run_in_order [of sent c s] by simp

end

end
