(* ===== verification/Endpoint_Queue.thy ===== *)
theory Endpoint_Queue
  imports Messages Serial_Writer
begin

text \<open>
  The outgoing queue of \<^verbatim>\<open>aseba_endpoint\<close> (\<^verbatim>\<open>thymio-device-manager/aseba_endpoint.h\<close>) and the removal of a node of an
  endpoint. What the endpoint asks of \<^verbatim>\<open>boost::asio\<close> is the log \<open>out\<close>: an asynchronous write of a message, a callback
  that is posted. A completed write calls \<open>handle_write\<close>. Callbacks are numbers. The mutex of the queue is
  not modelled: the operations are atomic steps.
\<close>

section \<open>Operations\<close>

datatype asio_call = Async_write message | Post_callback nat

record endpoint_queue =
  msg_queue :: "(message \<times> nat option) list"
  upgrading_firmware :: bool
  rebooting :: bool
  out :: "asio_call list"

definition call_asio :: "asio_call \<Rightarrow> endpoint_queue \<Rightarrow> endpoint_queue" where
  "call_asio a ep = ep\<lparr>out := out ep @ [a]\<rparr>"

definition is_rebooting :: "endpoint_queue \<Rightarrow> bool" where
  "is_rebooting ep \<longleftrightarrow> upgrading_firmware ep \<or> rebooting ep"

definition write_next :: "endpoint_queue \<Rightarrow> endpoint_queue" where
  "write_next ep =
     (if is_rebooting ep \<and> msg_queue ep = [] then ep
      else if msg_queue ep \<noteq> [] \<and> \<not> upgrading_firmware ep then call_asio (Async_write (fst (hd (msg_queue ep)))) ep
      else ep)"

definition handle_write :: "bool \<Rightarrow> endpoint_queue \<Rightarrow> endpoint_queue" where
  "handle_write ec ep =
     (case msg_queue ep of
        [] \<Rightarrow> ep
      | (m, cb) # rest \<Rightarrow>
          if ec then ep\<lparr>msg_queue := []\<rparr>
          else
            let posted = (case cb of None \<Rightarrow> ep | Some c \<Rightarrow> call_asio (Post_callback c) ep)
            in write_next (posted\<lparr>msg_queue := rest\<rparr>))"

text \<open>The position of the new messages: the search backwards over requests of low priority stops at the end of the queue,
  where it starts.\<close>

definition low_priority :: "message \<Rightarrow> bool" where
  "low_priority m \<longleftrightarrow>
     mtype m \<in> {message_code ASEBA_MESSAGE_LIST_NODES, message_code ASEBA_MESSAGE_GET_EXECUTION_STATE,
                message_code ASEBA_MESSAGE_GET_CHANGED_VARIABLES}"

fun insert_position :: "(message \<times> nat option) list \<Rightarrow> nat \<Rightarrow> nat" where
  "insert_position q 0 = 0"
| "insert_position q (Suc it) =
     (if Suc it = length q then Suc it
      else if \<not> low_priority (fst (q ! Suc it)) then Suc it
      else insert_position q it)"

text \<open>\<^verbatim>\<open>insert\<close> returns the position of the inserted element, before which the next one goes.\<close>

primrec insert_batch :: "message list \<Rightarrow> nat \<Rightarrow> (message \<times> nat option) list \<Rightarrow> (message \<times> nat option) list" where
  "insert_batch [] it q = q"
| "insert_batch (m # ms) it q = insert_batch ms it (take it q @ (m, None) # drop it q)"

definition write_messages :: "message list \<Rightarrow> nat option \<Rightarrow> endpoint_queue \<Rightarrow> endpoint_queue" where
  "write_messages messages cb ep =
     (if messages = [] then ep
      else
        let it = insert_position (msg_queue ep) (length (msg_queue ep));
            q = insert_batch messages it (msg_queue ep);
            q' = (case cb of None \<Rightarrow> q | Some c \<Rightarrow> q[it := (fst (q ! it), Some c)]);
            ep' = ep\<lparr>msg_queue := q'\<rparr>
        in if length q' > length messages then ep' else write_next ep')"

text \<open>The removal of the node with the given identifier: the iterator does not move past a node that does not match.\<close>

partial_function (option) remove_node :: "'u \<Rightarrow> ('n \<times> 'u) list \<Rightarrow> ('n option \<times> ('n \<times> 'u) list) option" where
  "remove_node n nodes =
     (case nodes of
        [] \<Rightarrow> Some (None, [])
      | (node, uuid) # rest \<Rightarrow> if uuid = n then Some (Some node, rest) else remove_node n nodes)"

section \<open>The queue\<close>

lemma insert_position_end: "insert_position q (length q) = length q"
  by (cases q) simp_all

lemma insert_batch_end: "insert_batch ms (length q) (q @ r) = q @ map (\<lambda>m. (m, None)) (rev ms) @ r"
  by (induction ms arbitrary: r) simp_all

lemma write_messages_queue:
  assumes "ms \<noteq> []"
  shows "write_messages ms cb ep =
    (let ep' = ep\<lparr>msg_queue := msg_queue ep @ (last ms, cb) # map (\<lambda>m. (m, None)) (rev (butlast ms))\<rparr>
     in if msg_queue ep = [] then write_next ep' else ep')"
proof -
  have rev: "rev ms = last ms # rev (butlast ms)" using assms by (metis append_butlast_last_id rev_eq_Cons_iff rev_rev_ident)
  have "insert_batch ms (length (msg_queue ep)) (msg_queue ep) =
      msg_queue ep @ (last ms, None) # map (\<lambda>m. (m, None)) (rev (butlast ms))"
    using insert_batch_end [of ms "msg_queue ep" "[]"] rev by simp
  moreover have "length ms = Suc (length (butlast ms))" using assms by simp
  ultimately show ?thesis
    using assms unfolding write_messages_def insert_position_end Let_def
    by (auto simp: nth_append list_update_append split: option.split)
qed

section \<open>Runs\<close>

datatype queue_event = Submit "message list" "nat option" | Written | Write_failed

text \<open>The writes that were started; those that were not completed are under way.\<close>

definition writes :: "endpoint_queue \<Rightarrow> message list" where
  "writes ep = concat (map (\<lambda>a. case a of Async_write m \<Rightarrow> [m] | Post_callback c \<Rightarrow> []) (out ep))"

text \<open>Runs of the queue of an endpoint that is not being upgraded, with the number of completed writes.\<close>

inductive queue_run :: "queue_event list \<Rightarrow> endpoint_queue \<Rightarrow> nat \<Rightarrow> bool" where
  start: "queue_run [] \<lparr>msg_queue = [], upgrading_firmware = False, rebooting = False, out = []\<rparr> 0"
| submit: "queue_run es ep k \<Longrightarrow> queue_run (es @ [Submit ms cb]) (write_messages ms cb ep) k"
| written: "queue_run es ep k \<Longrightarrow> k < length (writes ep) \<Longrightarrow>
    queue_run (es @ [Written]) (handle_write False ep) (Suc k)"
| write_failed: "queue_run es ep k \<Longrightarrow> k < length (writes ep) \<Longrightarrow>
    queue_run (es @ [Write_failed]) (handle_write True ep) (Suc k)"

definition batches :: "queue_event list \<Rightarrow> message list list" where
  "batches es = concat (map (\<lambda>e. case e of Submit ms cb \<Rightarrow> [ms] | _ \<Rightarrow> []) es)"

lemma writes_simps [simp]:
  "writes (call_asio (Async_write m) ep) = writes ep @ [m]"
  "writes (call_asio (Post_callback c) ep) = writes ep"
  "writes (ep\<lparr>msg_queue := q\<rparr>) = writes ep"
  by (simp_all add: writes_def call_asio_def)

lemma call_asio_fields [simp]:
  "msg_queue (call_asio a ep) = msg_queue ep"
  "upgrading_firmware (call_asio a ep) = upgrading_firmware ep"
  by (simp_all add: call_asio_def)

lemma write_next_fields [simp]:
  "msg_queue (write_next ep) = msg_queue ep"
  "upgrading_firmware (write_next ep) = upgrading_firmware ep"
  by (simp_all add: write_next_def)

lemma writes_write_next:
  "\<not> upgrading_firmware ep \<Longrightarrow> writes (write_next ep) = writes ep @ map fst (take 1 (msg_queue ep))"
  by (cases "msg_queue ep") (auto simp: write_next_def)

lemma write_messages_effect:
  assumes "\<not> upgrading_firmware ep"
  shows "map fst (msg_queue (write_messages ms cb ep)) = map fst (msg_queue ep) @ rev ms"
    and "writes (write_messages ms cb ep) = writes ep @ (if msg_queue ep = [] then take 1 (rev ms) else [])"
    and "upgrading_firmware (write_messages ms cb ep) = upgrading_firmware ep"
proof -
  have rev: "rev ms = last ms # rev (butlast ms)" if "ms \<noteq> []"
    using that by (metis append_butlast_last_id rev_eq_Cons_iff rev_rev_ident)
  have none: "write_messages [] cb ep = ep" by (simp add: write_messages_def)
  show "map fst (msg_queue (write_messages ms cb ep)) = map fst (msg_queue ep) @ rev ms"
    by (cases "ms = []") (simp_all add: none write_messages_queue rev Let_def comp_def)
  show "writes (write_messages ms cb ep) = writes ep @ (if msg_queue ep = [] then take 1 (rev ms) else [])"
    using assms by (cases "ms = []") (auto simp: none write_messages_queue rev Let_def writes_write_next)
  show "upgrading_firmware (write_messages ms cb ep) = upgrading_firmware ep"
    by (cases "ms = []") (auto simp: none write_messages_queue Let_def)
qed

lemma handle_write_effect:
  assumes "\<not> upgrading_firmware ep"
  shows "msg_queue (handle_write ec ep) = (if ec then [] else tl (msg_queue ep))"
    and "writes (handle_write ec ep) = writes ep @ (if ec then [] else map fst (take 1 (tl (msg_queue ep))))"
    and "upgrading_firmware (handle_write ec ep) = upgrading_firmware ep"
  using assms
  by (auto simp: handle_write_def Let_def writes_write_next split: list.split option.split)

lemmas queue_effects = write_messages_effect handle_write_effect

text \<open>Submitted one by one, messages are written in order.\<close>

interpretation endpoint_writer: serial_writer "\<lambda>ep. map fst (msg_queue ep)" writes "\<lambda>ep. \<not> upgrading_firmware ep"
  "\<lambda>m. write_messages [m] None" "handle_write False"
proof
  show "\<not> upgrading_firmware (write_messages [m] None ep) \<longleftrightarrow> \<not> upgrading_firmware ep" for m ep
    by (simp add: write_messages_queue Let_def)
  show "\<not> upgrading_firmware (handle_write False ep) \<longleftrightarrow> \<not> upgrading_firmware ep" for ep
    by (auto simp: handle_write_def Let_def split: list.split option.split)
qed (auto simp: queue_effects map_tl take_map)

text \<open>In every run a write is under way exactly when the queue is not empty, and it is the write of its front.\<close>

lemma queue_run_invariant:
  assumes "queue_run es ep k"
  shows "\<not> upgrading_firmware ep \<and> length (writes ep) = k + (if msg_queue ep = [] then 0 else 1) \<and>
    (msg_queue ep \<noteq> [] \<longrightarrow> last (writes ep) = fst (hd (msg_queue ep)))"
  using assms
proof (induction rule: queue_run.induct)
  case start
  show ?case by (simp add: writes_def)
next
  case (submit es ep k ms cb)
  note inv = submit.IH
  have "map fst (msg_queue (write_messages ms cb ep)) = map fst (msg_queue ep) @ rev ms"
    using inv by (simp add: write_messages_effect)
  then have empty: "msg_queue (write_messages ms cb ep) = [] \<longleftrightarrow> msg_queue ep = [] \<and> ms = []"
    and front: "msg_queue (write_messages ms cb ep) \<noteq> [] \<Longrightarrow>
      fst (hd (msg_queue (write_messages ms cb ep))) = hd (map fst (msg_queue ep) @ rev ms)"
    by (auto simp: hd_map [symmetric] simp del: map_append)
  show ?case
    using inv empty front
    by (cases "rev ms") (auto simp: write_messages_effect hd_append hd_map)
next
  case (written es ep k)
  then show ?case
    by (cases "msg_queue ep"; cases "tl (msg_queue ep)") (auto simp: handle_write_effect split: if_splits)
next
  case (write_failed es ep k)
  then show ?case
    by (cases "msg_queue ep") (auto simp: handle_write_effect split: if_splits)
qed

text \<open>While an endpoint is not being upgraded, at most one asynchronous write is under way at any moment: in every
  sequence of submitted batches, completed writes and failed writes the writes that were started are the completed ones
  and one more exactly while the queue is not empty, and that one is the message at the front of the queue.\<close>

theorem one_write_under_way:
  assumes "queue_run es ep k"
  shows "length (writes ep) = k + (if msg_queue ep = [] then 0 else 1) \<and>
    (msg_queue ep \<noteq> [] \<longrightarrow> last (writes ep) = fst (hd (msg_queue ep)))"
  using queue_run_invariant [OF assms] by simp

lemma batches_sent:
  assumes "queue_run es ep k" and "Write_failed \<notin> set es"
  shows "writes ep @ map fst (tl (msg_queue ep)) = concat (map rev (batches es))"
  using assms
proof (induction rule: queue_run.induct)
  case start
  show ?case by (simp add: writes_def batches_def)
next
  case (submit es ep k ms cb)
  note eff = write_messages_effect [of ep ms cb]
  have up: "\<not> upgrading_firmware ep" using queue_run_invariant [OF submit.hyps(1)] by simp
  have "map fst (tl (msg_queue (write_messages ms cb ep))) = tl (map fst (msg_queue ep) @ rev ms)"
    using eff(1) [OF up] by (metis map_tl)
  then show ?case
    using submit.IH submit.prems eff(2) [OF up]
    by (cases "msg_queue ep"; cases "rev ms") (auto simp: batches_def)
next
  case (written es ep k)
  have up: "\<not> upgrading_firmware ep" using queue_run_invariant [OF written.hyps(1)] by simp
  show ?case
    using written.IH written.prems
    by (cases "tl (msg_queue ep)") (auto simp: handle_write_effect [OF up] batches_def)
next
  case (write_failed es ep k)
  then show ?case by simp
qed

lemma batches_written [simp]: "batches (es @ replicate n Written) = batches es"
  by (induction n) (simp_all add: batches_def)

lemma queue_run_drain:
  assumes "queue_run es ep k"
  shows "queue_run (es @ replicate (length (msg_queue ep)) Written) ((handle_write False ^^ length (msg_queue ep)) ep)
      (k + length (msg_queue ep)) \<and>
    msg_queue ((handle_write False ^^ length (msg_queue ep)) ep) = []"
  using assms
proof (induction "msg_queue ep" arbitrary: es ep k)
  case Nil
  then show ?case by simp
next
  case (Cons m q)
  note inv = queue_run_invariant [OF Cons.prems]
  have "k < length (writes ep)" using inv Cons.hyps(2) [symmetric] by simp
  then have run: "queue_run (es @ [Written]) (handle_write False ep) (Suc k)" using Cons.prems by (rule queue_run.written [rotated])
  have q: "msg_queue (handle_write False ep) = q" using inv Cons.hyps(2) [symmetric] by (simp add: handle_write_effect)
  show ?case
    using Cons.hyps(1) [OF q [symmetric] run] Cons.hyps(2) [symmetric] q
    by (simp add: funpow_swap1 replicate_append_same [symmetric] del: replicate_append_same)
qed

text \<open>C20: Every submitted message is written in the end, as long as no write fails and the firmware is not being upgraded: after any sequence of submitted batches
  and completed writes, as many further completions as there are messages in the queue empty it, and then the messages
  were written in the order of the batches, each batch in reverse order.\<close>

theorem queue_drains:
  assumes "queue_run es ep k" and "Write_failed \<notin> set es"
  shows "msg_queue ((handle_write False ^^ length (msg_queue ep)) ep) = [] \<and>
    writes ((handle_write False ^^ length (msg_queue ep)) ep) = concat (map rev (batches es))"
proof -
  note drain = queue_run_drain [OF assms(1)]
  then show ?thesis
    using batches_sent [OF drain [THEN conjunct1]] assms(2) by simp
qed

text \<open>The callback of a batch is posted when its last message, the first one written, has been written: with an empty
  queue and a batch of several messages all others are still unsent at that moment.\<close>

theorem callback_after_first_write:
  assumes "queue_run es ep k" and "msg_queue ep = []" and "ms \<noteq> []"
  shows "Post_callback c \<in> set (out (handle_write False (write_messages ms (Some c) ep))) \<and>
    map fst (msg_queue (handle_write False (write_messages ms (Some c) ep))) = rev (butlast ms)"
proof -
  have up: "\<not> upgrading_firmware ep" using queue_run_invariant [OF assms(1)] by simp
  have rev: "rev ms = last ms # rev (butlast ms)"
    using assms(3) by (metis append_butlast_last_id rev_eq_Cons_iff rev_rev_ident)
  show ?thesis
    using assms(2,3) up
    by (auto simp: write_messages_queue Let_def handle_write_def write_next_def call_asio_def comp_def)
qed

section \<open>Removal of a node\<close>

text \<open>Removing a node from an endpoint never returns when the first node it looks at is another one: the iterator
  of the loop is never advanced.\<close>

theorem remove_node_diverges:
  assumes "uuid \<noteq> n"
  shows "remove_node n ((node, uuid) # rest) = None"
proof (rule ccontr)
  assume "remove_node n ((node, uuid) # rest) \<noteq> None"
  then obtain r where "remove_node n ((node, uuid) # rest) = Some r" by blast
  then have "((node, uuid) # rest) = [] \<or> snd (hd ((node, uuid) # rest)) = n"
    by (rule remove_node.raw_induct [rotated, where P = "\<lambda>n nodes r. nodes = [] \<or> snd (hd nodes) = n"])
      (fastforce split: list.splits if_splits prod.splits)
  with assms show False by simp
qed

section \<open>Witnesses\<close>

definition example_message :: "nat \<Rightarrow> message" where
  "example_message n = \<lparr>source = of_nat n, mtype = message_code ASEBA_MESSAGE_LIST_NODES, mbody = ListNodes 0\<rparr>"

abbreviation (input) example_start :: endpoint_queue where
  "example_start \<equiv> \<lparr>msg_queue = [], upgrading_firmware = False, rebooting = False, out = []\<rparr>"

lemma example_run:
  "queue_run [Submit [example_message 1, example_message 2] None, Written]
     (handle_write False (write_messages [example_message 1, example_message 2] None example_start)) 1"
proof -
  have "queue_run [Submit [example_message 1, example_message 2] None]
      (write_messages [example_message 1, example_message 2] None example_start) 0"
    using queue_run.submit [OF queue_run.start] by simp
  from queue_run.written [OF this] show ?thesis
    by (simp add: write_messages_effect)
qed

theorem queue_drains_witness:
  "writes (handle_write False (handle_write False (write_messages [example_message 1, example_message 2] None example_start))) =
     [example_message 2, example_message 1]"
proof -
  have "Write_failed \<notin> set [Submit [example_message 1, example_message 2] None, Written]" by simp
  from queue_drains [OF example_run this] show ?thesis
    by (simp add: write_messages_queue Let_def handle_write_def write_next_def batches_def)
qed

end
