(* ===== verification/Compile.thy ===== *)
theory Compile
  imports Parser Linker Stack_Analysis Tree_Typecheck
begin

text \<open>
  The compiler as a whole: \<^verbatim>\<open>Compiler::compile\<close> (\<^verbatim>\<open>compiler/compiler.cpp\<close>). The passes up to the optimization run in
  \<^verbatim>\<open>try\<close> blocks that all turn a thrown error into the result \<^verbatim>\<open>false\<close>; the generation of the code runs outside
  of them. The bytecode that the caller finds after a failure is part of the result: the code that was too big, or none.
  The calls of the parser have one unit of fuel for each token; the expansion of vectors has two more
  than the nodes of the program (\<open>Compile_Ends\<close> shows that both are enough).
\<close>

section \<open>Passes\<close>

definition first_pass :: "(wchar \<Rightarrow> bool) \<Rightarrow> compiler \<Rightarrow> u32 \<Rightarrow> wstring \<Rightarrow> failure + node \<times> expand_state" where
  "first_pass alnum c u source =
     bindR (tokenize alnum source) (\<lambda>ts.
     bindR (parseProgram (parse (length ts)) \<lparr>toks = ts, comp = c, uid = u\<rparr>) (\<lambda>(program, st).
     bindR (checkVectorSize program) (\<lambda>_.
     bindR (expandAbstractNodes program) (\<lambda>p1. Inr (p1, (comp st, uid st))))))"

definition front_end :: "(wchar \<Rightarrow> bool) \<Rightarrow> compiler \<Rightarrow> u32 \<Rightarrow> wstring \<Rightarrow> failure + node \<times> expand_state" where
  "front_end alnum c u source =
     bindR (first_pass alnum c u source) (\<lambda>(p1, st). expandVectorialNodes (size p1 + 2) p1 0 st)"

definition middle_end :: "compiler \<Rightarrow> node \<Rightarrow> failure + node" where
  "middle_end c program =
     bindR (typeCheck c program) (\<lambda>(t, p3).
     bindR (optimize p3) (\<lambda>p4. case p4 of None \<Rightarrow> Inl Abort | Some p5 \<Rightarrow> Inr p5))"

section \<open>Results\<close>

datatype compile_outcome =
    Compiled "bytecode_element list" u32 compiler
  | Compile_error source_pos error_code "error_arg list" "bytecode_element list"

definition back_end :: "compiler \<Rightarrow> node \<Rightarrow> failure + compile_outcome" where
  "back_end c program =
     bindR (emit program PreLinkBytecode) (\<lambda>pre.
     bindR (fixup (subroutineTable c) pre) (\<lambda>pre1.
     bindR (verifyStackCalls c pre1) (\<lambda>checked.
     case checked of
       None \<Rightarrow> Inr (Compile_error no_pos ASEBA_ERROR_STACK_OVERFLOW [] [])
     | Some pre2 \<Rightarrow>
         bindR (link c pre2) (\<lambda>(fits, bs, c').
         Inr (if fits then Compiled bs (freeVariableIndex c) c'
              else Compile_error no_pos ERROR_SCRIPT_TOO_BIG [] bs)))))"

definition compile :: "(wchar \<Rightarrow> bool) \<Rightarrow> compiler \<Rightarrow> u32 \<Rightarrow> wstring \<Rightarrow> failure + compile_outcome" where
  "compile alnum c0 u source =
     (let c = buildMaps c0 in
      if freeVariableIndex c > variablesSize (targetDescription c)
      then Inr (Compile_error no_pos ERROR_BROKEN_TARGET [] [])
      else
        case bindR (front_end alnum c u source) (\<lambda>(p2, (c1, u1)). bindR (middle_end c1 p2) (\<lambda>p. Inr (c1, p))) of
          Inl (TranslatableError p e as) \<Rightarrow> Inr (Compile_error p e as [])
        | Inl f \<Rightarrow> Inl f
        | Inr (c1, p) \<Rightarrow> back_end c1 p)"

end
