(* ===== verification/Parser_Shape.thy ===== *)
theory Parser_Shape
  imports Parser_Ends
begin

text \<open>
  What the parser returns and what it keeps: every assignment of a parsed program is between expressions, and the variables
  that are allocated fit the memory of the target, which the parser leaves as it is. Both are a judgement
  on parsers with one rule for each building block.
\<close>

section \<open>Shape of programs\<close>

fun flat :: "node \<Rightarrow> bool" where
  "flat (BlockNode p cs) \<longleftrightarrow> list_all flat cs"
| "flat (ProgramNode p cs) \<longleftrightarrow> list_all flat cs"
| "flat (AssignmentNode p l r) \<longleftrightarrow> expression_tree l \<and> expression_tree r"
| "flat (ArithmeticAssignmentNode p op l r) \<longleftrightarrow> expression_tree l \<and> expression_tree r"
| "flat (UnaryArithmeticAssignmentNode p op m) \<longleftrightarrow> expression_tree m"
| "flat (IfWhenNode p e el c t f) \<longleftrightarrow> expression_tree c \<and> flat t \<and> (case f of None \<Rightarrow> True | Some b \<Rightarrow> flat b)"
| "flat (WhileNode p c b) \<longleftrightarrow> expression_tree c \<and> flat b"
| "flat (EmitNode p i a s cs) \<longleftrightarrow> list_all flat cs"
| "flat (CallNode p f ts cs) \<longleftrightarrow> list_all flat cs"
| "flat (LoadNativeArgNode p t a s n i) \<longleftrightarrow> expression_tree i"
| "flat (EventDeclNode p i) \<longleftrightarrow> True"
| "flat (SubDeclNode p i) \<longleftrightarrow> True"
| "flat (CallSubNode p n i) \<longleftrightarrow> True"
| "flat (ReturnNode p) \<longleftrightarrow> True"
| "flat (ImmediateNode p v) \<longleftrightarrow> True"
| "flat _ \<longleftrightarrow> False"

section \<open>The judgement\<close>

definition fits_target :: "target_description \<Rightarrow> compiler \<Rightarrow> bool" where
  "fits_target td c \<longleftrightarrow> targetDescription c = td \<and> freeVariableIndex c \<le> variablesSize td"

definition keeps :: "target_description \<Rightarrow> ('a \<Rightarrow> bool) \<Rightarrow> 'a parser \<Rightarrow> bool" where
  "keeps td Q p \<longleftrightarrow>
     (\<forall>st x st'. fits_target td (comp st) \<longrightarrow> p st = Inr (x, st') \<longrightarrow> fits_target td (comp st') \<and> Q x)"

lemma keepsI:
  assumes "\<And>(st :: parser_state) x st'. fits_target td (comp st) \<Longrightarrow> p st = Inr (x, st') \<Longrightarrow> fits_target td (comp st') \<and> Q x"
  shows "keeps td Q p"
  using assms unfolding keeps_def by simp

lemma keepsD:
  "keeps td Q p \<Longrightarrow> fits_target td (comp st) \<Longrightarrow> p st = Inr (x, st') \<Longrightarrow> fits_target td (comp st') \<and> Q x"
  unfolding keeps_def by simp

named_theorems keep \<open>rules for what a parser keeps and yields\<close>

lemma keeps_bind: "keeps td R m \<Longrightarrow> (\<And>x. R x \<Longrightarrow> keeps td Q (k x)) \<Longrightarrow> keeps td Q (bindP m k)"
proof (rule keepsI)
  fix st :: parser_state and x st'
  assume m: "keeps td R m" and k: "\<And>x. R x \<Longrightarrow> keeps td Q (k x)" and st: "fits_target td (comp st)"
    and "bindP m k st = Inr (x, st')"
  then obtain y st1 where "m st = Inr (y, st1)" "k y st1 = Inr (x, st')"
    unfolding bindP_def by (auto elim!: bindR_InrE)
  with keepsD [OF m st] keepsD [OF k, of y st1] show "fits_target td (comp st') \<and> Q x" by blast
qed

lemma keeps_weaken: "keeps td R p \<Longrightarrow> (\<And>x. R x \<Longrightarrow> Q x) \<Longrightarrow> keeps td Q p"
  unfolding keeps_def by blast

abbreviation anything :: "'a \<Rightarrow> bool" where
  "anything \<equiv> \<lambda>x. True"

lemma keeps_anything: "keeps td anything p \<Longrightarrow> (\<And>x. keeps td Q (k x)) \<Longrightarrow> keeps td Q (bindP p k)"
  by (rule keeps_bind)

lemma keeps_return [keep]: "Q x \<Longrightarrow> keeps td Q (returnP x)"
  by (rule keepsI) (simp add: returnP_def)

lemma keeps_throw [keep]: "keeps td Q (throwP e)"
  by (simp add: keeps_def throwP_def)

lemma keeps_if [keep]: "(b \<Longrightarrow> keeps td Q p) \<Longrightarrow> (\<not> b \<Longrightarrow> keeps td Q q) \<Longrightarrow> keeps td Q (if b then p else q)"
  by simp

lemma keeps_cond [keep]: "keeps td Q p \<Longrightarrow> keeps td Q q \<Longrightarrow> keeps td Q (\<lambda>st. if c st then p st else q st)"
  by (rule keepsI) (auto dest: keepsD split: if_splits)

lemma keeps_front [keep]: "(\<And>f. keeps td Q (k f)) \<Longrightarrow> keeps td Q (bindP front k)"
proof (rule keeps_anything)
  show "keeps td anything front" by (rule keepsI) (auto simp: front_def split: list.splits)
qed

lemma keeps_pop_front_last [keep]: "Q () \<Longrightarrow> keeps td Q pop_front"
  by (rule keepsI) (auto simp: pop_front_def split: list.splits)

lemma keeps_pop_front [keep]: "keeps td Q (k ()) \<Longrightarrow> keeps td Q (bindP pop_front k)"
  by (rule keeps_anything [OF keeps_pop_front_last]) simp_all

lemma keeps_set_front [keep]: "keeps td Q (k ()) \<Longrightarrow> keeps td Q (bindP (set_front t) k)"
proof (rule keeps_anything)
  show "keeps td anything (set_front t)" by (rule keepsI) (auto simp: set_front_def split: list.splits)
qed simp

lemma keeps_lift [keep]: "(\<And>x. r = Inr x \<Longrightarrow> keeps td Q (k x)) \<Longrightarrow> keeps td Q (bindP (liftP r) k)"
  by (rule keepsI) (auto simp: bindP_def liftP_def bindR_assoc elim!: bindR_InrE dest: keepsD)

lemma keeps_guard [keep]: "(b \<Longrightarrow> keeps td Q (k ())) \<Longrightarrow> keeps td Q (bindP (guardP b e) k)"
  unfolding guardP_def by (rule keep) simp

lemma keeps_lift_last [keep]: "(\<And>x. r = Inr x \<Longrightarrow> Q x) \<Longrightarrow> keeps td Q (liftP r)"
  by (rule keepsI) (auto simp: liftP_def elim!: bindR_InrE)

lemma keeps_expect [keep]: "keeps td Q (k ()) \<Longrightarrow> keeps td Q (bindP (expect t) k)"
  unfolding expect_def straight by (intro keep)

lemma keeps_getC [keep]: "(\<And>c. fits_target td c \<Longrightarrow> keeps td Q (k c)) \<Longrightarrow> keeps td Q (bindP getC k)"
  by (rule keepsI) (auto simp: bindP_def getC_def dest: keepsD)

lemma keeps_setC [keep]: "fits_target td c \<Longrightarrow> keeps td Q (k ()) \<Longrightarrow> keeps td Q (bindP (setC c) k)"
  using keepsD [of td Q "k ()" "st\<lparr>comp := c\<rparr>" for st] by (intro keepsI) (simp add: bindP_def setC_def)

lemma keeps_setC_last [keep]: "fits_target td c \<Longrightarrow> Q () \<Longrightarrow> keeps td Q (setC c)"
  by (rule keepsI) (auto simp: setC_def)

lemma keeps_Let [keep]: "keeps td Q (f x) \<Longrightarrow> keeps td Q (let y = x in f y)"
  by simp

lemma keeps_turns: "(\<And>x. Q x \<Longrightarrow> keeps td Q (body x)) \<Longrightarrow> Q x \<Longrightarrow> keeps td Q (turns k c body x)"
proof (induction k arbitrary: x)
  case 0
  then show ?case by (simp add: keep)
next
  case (Suc k)
  then show ?case by (auto intro!: keeps_front keeps_if keeps_bind [of td Q "body x"] keeps_return)
qed

lemma keeps_while: "(\<And>x. Q x \<Longrightarrow> keeps td Q (body x)) \<Longrightarrow> Q x \<Longrightarrow> keeps td Q (while_front c body x)"
  using keeps_turns [of Q td body x] unfolding while_front_def keeps_def by blast

section \<open>Expectations and temporary memory\<close>

lemma fits_target_end [simp]: "fits_target td (c\<lparr>endVariableIndex := e\<rparr>) = fits_target td c"
  by (simp add: fits_target_def)

lemma fits_target_tables [simp]:
  "fits_target td (c\<lparr>subroutineTable := a, subroutineReverseTable := b\<rparr>) = fits_target td c"
  "fits_target td (c\<lparr>constantsMap := d\<rparr>) = fits_target td c"
  "fits_target td (c\<lparr>implementedEvents := ev\<rparr>) = fits_target td c"
  by (simp_all add: fits_target_def)

lemma allocateTemporaryMemory_fits:
  "allocateTemporaryMemory p k c = Inr (a, c') \<Longrightarrow> fits_target td c' = fits_target td c"
  by (auto simp: allocateTemporaryMemory_def Let_def split: if_splits)

lemma keeps_temporary_memory [keep]: "(\<And>a. keeps td Q (k a)) \<Longrightarrow> keeps td Q (bindP (temporary_memory p n) k)"
  unfolding temporary_memory_def straight
  by (intro keeps_getC keeps_lift) (auto intro!: keep simp: straight allocateTemporaryMemory_fits split: prod.splits)

lemma keeps_temporary_variable:
  assumes "expression_tree r"
  shows "keeps td flat (temporary_variable p r)"
  using assms
  by (auto simp: keeps_def temporary_variable_def allocateTemporaryVariable_def allocateTemporaryMemory_fits
    elim!: bindR_InrE)

lemmas literal_defs = expectInt16LiteralOrConstant_def expectInt16Literal_def expectConstant_def constant_in_def negated_def
  expectAbsoluteInt16Literal_def literal_in_def

lemma keeps_literals [keep]:
  "(\<And>v. keeps td Q (k v)) \<Longrightarrow> keeps td Q (bindP expectInt16Literal k)"
  "(\<And>v. keeps td Q (k v)) \<Longrightarrow> keeps td Q (bindP expectConstant k)"
  "(\<And>v. keeps td Q (k v)) \<Longrightarrow> keeps td Q (bindP expectInt16LiteralOrConstant k)"
  unfolding literal_defs straight by (intro keep; simp)+

lemma keeps_eat [keep]: "keeps td Q (k ()) \<Longrightarrow> keeps td Q (bindP (eat t) k)"
  unfolding eat_def straight by (intro keep)

lemma keeps_ranges [keep]:
  "(\<And>x. keeps td Q (k x)) \<Longrightarrow> keeps td Q (bindP range_bound k)"
  "(\<And>v. keeps td Q (h v)) \<Longrightarrow> keeps td Q (bindP range_step h)"
  unfolding range_bound_def range_step_def straight by (intro keep; simp)+

lemma keeps_event_ids [keep]:
  "(\<And>v. keeps td Q (k v)) \<Longrightarrow> keeps td Q (bindP expectGlobalEventId k)"
  "(\<And>v. keeps td Q (k v)) \<Longrightarrow> keeps td Q (bindP expectAnyEventId k)"
  unfolding expectGlobalEventId_def expectAnyEventId_def straight by (intro keep; simp)+

section \<open>The functions of the parser\<close>

locale parser_shape =
  fixes self :: "grammar_call \<Rightarrow> node parser" and td :: target_description
  assumes expression_call: "N \<in> expression_calls \<Longrightarrow> keeps td expression_tree (self N)"
    and statement_call: "N \<in> {NT_Block, NT_ElseIf} \<Longrightarrow> keeps td flat (self N)"
begin

lemma expression_then [keep]:
  "(\<And>t. expression_tree t \<Longrightarrow> keeps td Q (k t)) \<Longrightarrow> keeps td Q (bindP (self NT_BinaryOr) k)"
  "(\<And>t. expression_tree t \<Longrightarrow> keeps td Q (k t)) \<Longrightarrow> keeps td Q (bindP (self NT_Unary) k)"
  "(\<And>t. expression_tree t \<Longrightarrow> keeps td Q (k t)) \<Longrightarrow> keeps td Q (bindP (self NT_Or) k)"
  by (rule keeps_bind [OF expression_call]; simp)+

lemma statement_then [keep]:
  "(\<And>t. flat t \<Longrightarrow> keeps td Q (k t)) \<Longrightarrow> keeps td Q (bindP (self NT_Block) k)"
  "(\<And>t. flat t \<Longrightarrow> keeps td Q (k t)) \<Longrightarrow> keeps td Q (bindP (self NT_ElseIf) k)"
  by (rule keeps_bind [OF statement_call]; simp)+

lemma keeps_tuple_element: "keeps td expression_tree (tuple_element self)"
  unfolding tuple_element_def by (intro keep expression_call) simp_all

lemma keeps_tuple_elements: "keeps td (list_all expression_tree) (tuple_elements self)"
  unfolding tuple_elements_def
  by (intro keeps_bind [OF keeps_tuple_element] keeps_while keep) simp_all

lemma keeps_parseTupleVector: "keeps td expression_tree (parseTupleVector self)"
  unfolding parseTupleVector_def by (intro keep keeps_bind [OF keeps_tuple_elements]) simp

lemma keeps_try:
  "keeps td (\<lambda>r. case r of Inl t \<Rightarrow> expression_tree t | Inr v \<Rightarrow> True) (tryParsingConstantExpression self pos)"
  unfolding tryParsingConstantExpression_def
  by (intro keep) (auto intro!: keep split: sum.splits failure.splits)

lemma keeps_parse_index: "keeps td expression_tree (parse_index self pos)"
  unfolding parse_index_def
  by (rule keeps_bind [OF keeps_try]) (auto intro!: keep keeps_bind [OF keeps_try] split: sum.splits)

lemma keeps_parseVariable: "keeps td expression_tree (parseVariable self)"
  unfolding parseVariable_def
  by (intro keep) (auto intro!: keep keeps_bind [OF keeps_parse_index] split: prod.splits)

lemma keeps_parseUnaryExpression: "keeps td expression_tree (parseUnaryExpression self)"
  unfolding parseUnaryExpression_def parseConstantAndVariable_def unary_of_def expectOneOf_def straight
  by (intro keep keeps_parseTupleVector keeps_parseVariable expression_call) simp_all

lemma keeps_chain:
  assumes "keeps td expression_tree operand"
  shows "keeps td expression_tree (binary_chain operand ops)"
  unfolding binary_chain_def
  by (intro keeps_bind [OF assms] keeps_while keeps_front keeps_pop_front keeps_return) simp_all

lemma keeps_parseBinaryOr: "keeps td expression_tree (parseBinaryOrExpression self)"
  unfolding parseBinaryOrExpression_def parseBinaryXorExpression_def parseBinaryAndExpression_def
    parseShiftExpression_def parseAddExpression_def parseMultExpression_def
  by (intro keeps_chain keeps_parseUnaryExpression)

lemma keeps_parseOr: "keeps td expression_tree (parseOr self)"
proof -
  have "keeps td anything (while_front (\<lambda>f. tk_type f = TOKEN_OP_NOT) (\<lambda>odd. bindP pop_front (\<lambda>_. returnP (\<not> odd))) False)"
    by (intro keeps_while keep) simp_all
  then have "keeps td expression_tree (parseNot self)"
    unfolding parseNot_def parseCondition_def
    by (intro keep keeps_anything [of td "while_front c body x" for c body x] keeps_bind [OF keeps_chain [OF keeps_parseBinaryOr]]) simp_all
  then show ?thesis unfolding parseOr_def parseAnd_def by (intro keeps_chain)
qed

lemmas expression_results = keeps_parseBinaryOr [THEN keeps_bind] keeps_parseOr [THEN keeps_bind]
  keeps_parseVariable [THEN keeps_bind]

section \<open>Statements\<close>

lemma keeps_block_until:
  "list_all flat cs \<Longrightarrow> keeps td (list_all flat) (block_until self types cs)"
  unfolding block_until_def by (intro keeps_while keep) simp_all

lemma block_until_then:
  "list_all flat cs \<Longrightarrow> (\<And>ds. list_all flat ds \<Longrightarrow> keeps td Q (k ds)) \<Longrightarrow> keeps td Q (bindP (block_until self types cs) k)"
  by (rule keeps_bind [OF keeps_block_until])

lemma keeps_parseAssignment: "keeps td flat (parseAssignment self)"
  unfolding parseAssignment_def
  by (intro keep expression_results) (auto intro!: keep expression_results split: option.splits)

lemma keeps_parseIfWhen: "keeps td flat (parseIfWhen self edge)"
  unfolding parseIfWhen_def if_end_def
  by (intro keep expression_results block_until_then) simp_all

lemma keeps_parseWhile: "keeps td flat (parseWhile self)"
  unfolding parseWhile_def by (intro keep expression_results block_until_then) simp_all

lemma keeps_parseFor: "keeps td flat (parseFor self)"
  unfolding parseFor_def
  by (intro keep expression_results) (auto intro!: keep block_until_then simp: constant_vector_def for_loop_def Let_def)

lemma keeps_emitted:
  "expression_tree r \<Longrightarrow> keeps td (\<lambda>n. b \<or> flat n) (if b then returnP r else temporary_variable p r)"
  using keeps_weaken [OF keeps_temporary_variable] by (auto intro!: keep)

lemma keeps_parseEmit: "keeps td flat (parseEmit self shorter)"
  unfolding parseEmit_def
  by (intro keep expression_results keeps_bind [OF keeps_emitted]) auto

lemma keeps_native_argument: "expression_tree n \<Longrightarrow> keeps td flat (native_argument pos varPos n a)"
  unfolding native_argument_def
  by (cases n) (auto intro!: keep keeps_bind [OF keeps_temporary_variable] split: option.splits)

lemma keeps_argument_end [keep]: "keeps td Q (k ()) \<Longrightarrow> keeps td Q (bindP (argument_end name count i) k)"
  unfolding argument_end_def straight by (intro keep)

lemma keeps_native_arguments:
  "list_all flat (fst acc) \<Longrightarrow> keeps td (\<lambda>r. list_all flat (fst r)) (native_arguments self pos name count params i acc)"
proof (induction params arbitrary: i acc)
  case (Cons param params)
  then show ?case
    by (auto intro!: keep expression_results keeps_bind [OF keeps_native_argument] split: prod.splits)
qed (auto intro: keep)

lemma keeps_parseFunctionCall: "keeps td flat (parseFunctionCall self)"
  unfolding parseFunctionCall_def
  by (intro keep keeps_bind [OF keeps_native_arguments]) (auto intro!: keep split: prod.splits)

lemma keeps_plain_statements:
  "keeps td flat parseCallSub" "keeps td flat parseReturn" "keeps td flat parseOnEvent" "keeps td flat parseSubDecl"
  unfolding parseCallSub_def parseReturn_def parseOnEvent_def parseSubDecl_def by (intro keep; simp)+

lemma keeps_parseBlockStatement: "keeps td flat (parseBlockStatement self)"
  unfolding parseBlockStatement_def
  by (intro keep keeps_parseIfWhen keeps_parseFor keeps_parseWhile keeps_parseEmit keeps_parseFunctionCall
    keeps_plain_statements keeps_parseAssignment)

section \<open>Declarations and programs\<close>

lemma keeps_expect_identifier [keep]: "(\<And>x. keeps td Q (k x)) \<Longrightarrow> keeps td Q (bindP expect_identifier k)"
  unfolding expect_identifier_def straight by (intro keep)

lemma keeps_parseConstDef: "keeps td anything (parseConstDef self)"
  unfolding parseConstDef_def by (intro keep) (auto intro!: keep split: prod.splits)

lemma keeps_parseVariableDefSize [keep]:
  "(\<And>x. keeps td Q (k x)) \<Longrightarrow> keeps td Q (bindP (parseVariableDefSize self) k)"
  unfolding parseVariableDefSize_def straight by (intro keep)

lemma keeps_parseOldStyleTuple:
  "keeps td (\<lambda>n. case n of None \<Rightarrow> True | Some t \<Rightarrow> expression_tree t) (parseOldStyleTuple self)"
proof -
  have "parseOldStyleTuple self = (\<lambda>st. if old_style_ahead (toks st)
      then bindP front (\<lambda>f. bindP (tuple_elements self) (\<lambda>cs. returnP (Some (TupleVectorNode (tk_pos f) cs)))) st
      else returnP None st)"
    by (rule ext) (simp add: parseOldStyleTuple_def returnP_def)
  then show ?thesis by (simp only:) (intro keep keeps_bind [OF keeps_tuple_elements], simp_all)
qed

lemma keeps_parseVarDefInit:
  "keeps td (\<lambda>r. case r of None \<Rightarrow> True | Some (n, k) \<Rightarrow> flat n) (parseVarDefInit self p a k name)"
  unfolding parseVarDefInit_def
  by (intro keep keeps_bind [OF keeps_parseOldStyleTuple]) (auto intro!: keep simp: straight split: option.splits)

lemma keeps_parseVarDef: "keeps td (\<lambda>n. case n of None \<Rightarrow> True | Some t \<Rightarrow> flat t) (parseVarDef self)"
  unfolding parseVarDef_def
  by (intro keep, clarsimp, intro keep keeps_bind [OF keeps_parseVarDefInit])
    (auto simp: fits_target_def split: option.splits prod.splits)

lemma keeps_parseStatement: "keeps td flat (parseStatement self)"
  unfolding parseStatement_def freeTemporaryMemory_def straight
  by (intro keep keeps_plain_statements statement_call) simp_all

lemma keeps_parseProgram: "keeps td flat (parseProgram self)"
proof -
  have const_loop: "keeps td anything (while_front c (\<lambda>_. parseConstDef self) ())" for c
    by (intro keeps_while keeps_parseConstDef) simp
  have vars: "keeps td (list_all flat) (while_front c (\<lambda>cs. bindP (parseVarDef self) (\<lambda>n.
       returnP (case n of None \<Rightarrow> cs | Some c \<Rightarrow> cs @ [c]))) [])" for c
    by (intro keeps_while keeps_bind [OF keeps_parseVarDef] keep) (auto split: option.splits)
  have statements: "keeps td (list_all flat) (while_front c (\<lambda>cs. bindP (parseStatement self) (\<lambda>n. returnP (cs @ [n]))) cs)"
    if "list_all flat cs" for c cs
    using that by (intro keeps_while keeps_bind [OF keeps_parseStatement] keep) simp_all
  show ?thesis
    unfolding parseProgram_def
    by (intro keep keeps_bind [OF const_loop] keeps_bind [OF vars] keeps_bind [OF statements]) simp_all
qed

end

section \<open>The parser\<close>

lemma parse_shape: "parser_shape (parse fuel) td"
proof (induction fuel)
  case 0
  show ?case by standard (simp_all add: keeps_throw)
next
  case (Suc fuel)
  note shapes = parser_shape.keeps_parseOr [OF Suc.IH] parser_shape.keeps_parseBinaryOr [OF Suc.IH]
    parser_shape.keeps_parseUnaryExpression [OF Suc.IH] parser_shape.keeps_parseTupleVector [OF Suc.IH]
    parser_shape.keeps_parseBlockStatement [OF Suc.IH] parser_shape.keeps_parseIfWhen [OF Suc.IH]
  show ?case by standard (use shapes in auto)
qed

interpretation shaped: parser_shape "parse fuel" td for fuel td
  by (rule parse_shape)

end
