(* ===== verification/Compile_Ends.thy ===== *)
theory Compile_Ends
  imports Compile Parser_Shape
begin

text \<open>
  The compiler ends on every text, and what it accepts fits the target. The expansion of vectors is the only pass whose
  recursion is not bounded by its tree: an assignment that reads its own array is replaced by two assignments through a
  temporary variable, whose name may again occur in the program. The temporary names are distinct, so that
  this happens at most once for each name that occurs on the right.
\<close>

section \<open>Names of temporary variables\<close>

definition temp_name :: "u32 \<Rightarrow> wstring" where
  "temp_name u = ws ''temp'' @ decimal (unat u)"

definition digits_value :: "wstring \<Rightarrow> nat" where
  "digits_value s = foldl (\<lambda>v d. v * 10 + (unat d - 48)) 0 s"

lemma digits_value_decimal: "digits_value (decimal n) = n"
proof (induction n rule: decimal.induct)
  case (1 n)
  have digit: "unat (word_of_nat (48 + n mod 10) :: wchar) = 48 + n mod 10"
    by (simp add: unat_word_ariths unat_of_nat)
  show ?case
  proof (cases "n < 10")
    case True
    with digit show ?thesis by (simp add: decimal.simps digits_value_def)
  next
    case False
    with 1 digit show ?thesis by (simp add: decimal.simps [of n] digits_value_def)
  qed
qed

lemma temp_name_inject: "temp_name u = temp_name v \<longleftrightarrow> u = v"
proof
  assume "temp_name u = temp_name v"
  then have "digits_value (decimal (unat u)) = digits_value (decimal (unat v))" by (simp add: temp_name_def)
  then have "unat u = unat v" by (simp add: digits_value_decimal)
  then show "u = v" by (rule unsigned_word_eqI)
qed simp

lemma temp_name_shift: "k \<noteq> 0 \<Longrightarrow> k < 2 ^ 32 \<Longrightarrow> temp_name (u + word_of_nat k) \<noteq> temp_name u"
  by (auto simp: temp_name_inject word_of_nat_eq_0_iff dest: nat_dvd_not_less)

section \<open>Names that occur in a tree\<close>

definition names :: "node \<Rightarrow> wstring set" where
  "names n = {name. matchNameInMemoryVector n name}"

lemma names_node:
  "names n = (case n of MemoryVectorNode p a s nm w i \<Rightarrow> {nm} | _ \<Rightarrow> {}) \<union> (\<Union>c\<in>set (children n). names c)"
proof (rule set_eqI)
  fix name
  show "name \<in> names n \<longleftrightarrow>
      name \<in> (case n of MemoryVectorNode p a s nm w i \<Rightarrow> {nm} | _ \<Rightarrow> {}) \<union> (\<Union>c\<in>set (children n). names c)"
    unfolding names_def mem_Collect_eq matchNameInMemoryVector.simps [of n]
    by (cases n) (auto simp: list_ex_iff)
qed

lemma names_Memory [simp]: "names (MemoryVectorNode p a s nm w None) = {nm}"
  by (subst names_node) simp

lemma children_total_size:
  "sum_list (map size (children n)) + (case n of MemoryVectorNode p a s nm w i \<Rightarrow> 1 | _ \<Rightarrow> 0) \<le> size n"
  by (cases n) (auto simp: size_list_conv_sum_list split: option.splits)

lemma card_names_le: "finite (names n) \<and> card (names n) \<le> size n"
proof (induction n rule: measure_induct_rule [where f = size])
  case (less n)
  have IH: "finite (names c)" "card (names c) \<le> size c" if "c \<in> set (children n)" for c
    using less.IH [of c] children_size [OF that] by auto
  have "card (\<Union>c\<in>set cs. names c) \<le> sum_list (map size cs)" if "set cs \<subseteq> set (children n)" for cs
    using that
  proof (induction cs)
    case (Cons c cs)
    have "card (\<Union>c\<in>set (c # cs). names c) \<le> card (names c) + card (\<Union>c\<in>set cs. names c)"
      by (simp add: card_Un_le)
    with Cons IH(2) [of c] show ?case by simp
  qed simp
  then have below: "card (\<Union>c\<in>set (children n). names c) \<le> sum_list (map size (children n))" by blast
  have "card (names n) \<le> (case n of MemoryVectorNode p a s nm w i \<Rightarrow> 1 | _ \<Rightarrow> 0) + card (\<Union>c\<in>set (children n). names c)"
    by (subst names_node, rule order_trans [OF card_Un_le]) (simp split: node.splits)
  with below children_total_size [of n] have "card (names n) \<le> size n" by linarith
  moreover have "finite (names n)" by (subst names_node) (auto simp: IH(1) split: node.splits)
  ultimately show ?case by blast
qed

section \<open>The expansion of vectors\<close>

lemma mapS_state:
  assumes "\<And>x s y s'. x \<in> set xs \<Longrightarrow> f x s = Inr (y, s') \<Longrightarrow> s' = s"
  shows "mapS f xs s = Inr (ys, s') \<Longrightarrow> s' = s"
  using assms
proof (induction xs arbitrary: s ys)
  case (Cons x xs)
  from Cons.prems(1) obtain y s1 zs where "f x s = Inr (y, s1)" "mapS f xs s1 = Inr (zs, s')" by auto
  moreover have "s1 = s" by (rule Cons.prems(2) [OF _ \<open>f x s = Inr (y, s1)\<close>]) simp
  ultimately show ?case using Cons.IH [of s zs] Cons.prems(2) by (metis list.set_intros(2))
qed simp

lemma expand_expression_state:
  "expression_tree n \<Longrightarrow> expandVectorialNodes fuel n i st = Inr (n', st') \<Longrightarrow> st' = st"
proof (induction n arbitrary: i st n' st' rule: expression_tree.induct)
  case (2 p cs)
  from "2.prems"(2) obtain c j where c: "tuple_child cs (unat i) 0 = Inr (c, j)"
      "expandVectorialNodes fuel c j st = Inr (n', st')"
    by auto
  have "expression_tree c" using "2.prems"(1) tuple_child_mem [OF c(1)] by (simp add: list_all_iff)
  with "2.IH" [OF tuple_child_mem [OF c(1)]] c(2) show ?case by blast
next
  case (3 p a s n w x)
  show ?case
  proof (cases "direct_access x")
    case True
    with "3.prems"(2) show ?thesis by (auto simp del: getVectorSize.simps)
  next
    case False
    then obtain y where "x = Some y" by (cases x) (simp_all add: direct_access_def)
    moreover from this "3.prems"(2) False obtain y' where "expandVectorialNodes fuel y i st = Inr (y', st')"
      by (auto simp del: getVectorSize.simps)
    ultimately show ?thesis using "3.IH" "3.prems"(1) by simp
  qed
next
  case (4 p op l r)
  from "4.prems"(2) obtain l' r' st1 where "expandVectorialNodes fuel l i st = Inr (l', st1)"
      "expandVectorialNodes fuel r i st1 = Inr (r', st')"
    by auto
  with "4.IH" "4.prems"(1) show ?case by simp blast
qed auto

text \<open>An assignment that does not need a temporary variable ends and keeps the state.\<close>

lemma plain_assignment:
  assumes "expression_tree r" and "case i of None \<Rightarrow> True | Some x \<Rightarrow> expression_tree x"
    and "needs_temporary (MemoryVectorNode q a s nm True i) nm r = Inr False"
  shows "returns (expandVectorialNodes fuel (AssignmentNode p (MemoryVectorNode q a s nm w i) r) idx st)"
    and "expandVectorialNodes fuel (AssignmentNode p (MemoryVectorNode q a s nm w i) r) idx st = Inr (n', st') \<Longrightarrow> st' = st"
proof -
  let ?left = "MemoryVectorNode q a s nm True i"
  let ?f = "\<lambda>j st. bindR (expandVectorialNodes fuel ?left (word_of_nat j) st) (\<lambda>(l, st1).
            bindR (expandVectorialNodes fuel r (word_of_nat j) st1) (\<lambda>(r, st2). Inr (AssignmentNode p l r, st2)))"
  have eq: "expandVectorialNodes fuel (AssignmentNode p (MemoryVectorNode q a s nm w i) r) idx st =
      bindR (getVectorSize ?left) (\<lambda>k. bindR (mapS ?f [0..<unat k] st) (\<lambda>(cs, st'). Inr (BlockNode p cs, st')))"
    using assms(3) by (simp add: Let_def del: getVectorSize.simps)
  have left: "expression_tree ?left" using assms(2) by simp
  note ret = expand_expression_returns [OF left] expand_expression_returns [OF assms(1)]
  show "returns (expandVectorialNodes fuel (AssignmentNode p (MemoryVectorNode q a s nm w i) r) idx st)"
    unfolding eq
    by (intro returns_bind getVectorSize_returns returns_mapS ret; auto intro!: returns_bind ret
      simp del: expandVectorialNodes.simps)
  show "st' = st" if "expandVectorialNodes fuel (AssignmentNode p (MemoryVectorNode q a s nm w i) r) idx st = Inr (n', st')"
  proof -
    from that obtain k :: u32 and cs where "mapS ?f [0..<unat k] st = Inr (cs, st')"
      unfolding eq by (auto simp del: expandVectorialNodes.simps getVectorSize.simps)
    then show ?thesis
      by (rule mapS_state [rotated])
        (auto dest!: expand_expression_state [OF left] expand_expression_state [OF assms(1)]
          simp del: expandVectorialNodes.simps)
  qed
qed

text \<open>The first temporary name from a number on that does not occur on the right.\<close>

definition clashes :: "node \<Rightarrow> u32 \<Rightarrow> nat \<Rightarrow> bool" where
  "clashes r u j \<longleftrightarrow> (\<forall>i<j. temp_name (u + word_of_nat i) \<in> names r) \<and> temp_name (u + word_of_nat j) \<notin> names r"

lemma clashes_Suc: "clashes r u (Suc j) \<Longrightarrow> clashes r (u + 1) j"
  unfolding clashes_def by (auto simp: add.assoc)

lemma temp_names_inject: "i < 2 ^ 32 \<Longrightarrow> j < 2 ^ 32 \<Longrightarrow> temp_name (u + word_of_nat i) = temp_name (u + word_of_nat j) \<Longrightarrow> i = j"
  by (simp add: temp_name_inject word_of_nat_eq_iff take_bit_nat_eq_self)

lemma clashes_exists:
  assumes "size r < 2 ^ 32"
  obtains j where "clashes r u j" "j \<le> size r"
proof -
  let ?t = "\<lambda>i. temp_name (u + word_of_nat i)"
  have "\<exists>i. i \<le> size r \<and> ?t i \<notin> names r"
  proof (rule ccontr)
    assume "\<not> (\<exists>i. i \<le> size r \<and> ?t i \<notin> names r)"
    then have "?t ` {..size r} \<subseteq> names r" by auto
    then have "card (?t ` {..size r}) \<le> card (names r)" using card_names_le [of r] by (intro card_mono) auto
    moreover have "inj_on ?t {..size r}"
      using assms by (intro inj_onI) (auto dest!: temp_names_inject [rotated 2])
    ultimately show False using card_names_le [of r] by (simp add: card_image)
  qed
  then obtain i where i: "i \<le> size r" "?t i \<notin> names r" by blast
  let ?j = "LEAST i. ?t i \<notin> names r"
  have "clashes r u ?j" unfolding clashes_def using LeastI [of "\<lambda>i. ?t i \<notin> names r", OF i(2)] not_less_Least by blast
  moreover have "?j \<le> size r" using Least_le [of "\<lambda>i. ?t i \<notin> names r", OF i(2)] i(1) by linarith
  ultimately show ?thesis by (rule that)
qed

abbreviation assign_to :: "source_pos \<Rightarrow> source_pos \<Rightarrow> u32 \<Rightarrow> u32 \<Rightarrow> wstring \<Rightarrow> bool \<Rightarrow> node option \<Rightarrow> node \<Rightarrow> node" where
  "assign_to p q a s nm w i r \<equiv> AssignmentNode p (MemoryVectorNode q a s nm w i) r"

abbreviation index_ok :: "node option \<Rightarrow> bool" where
  "index_ok i \<equiv> (case i of None \<Rightarrow> True | Some x \<Rightarrow> expression_tree x)"

lemma needs_temporary_returns [ends]: "returns (needs_temporary left nm r)"
  unfolding needs_temporary_def by (auto intro!: ends)

text \<open>An assignment whose name does not occur on the right.\<close>

lemma unclashing_assignment:
  assumes "expression_tree r" and "index_ok i" and "nm \<notin> names r"
  shows "returns (expandVectorialNodes fuel (assign_to p q a s nm w i r) idx st)"
    and "expandVectorialNodes fuel (assign_to p q a s nm w i r) idx st = Inr (n', st') \<Longrightarrow> st' = st"
proof -
  have "needs_temporary (MemoryVectorNode q a s nm True i) nm r = Inr False"
    using assms(3) by (simp add: needs_temporary_def names_def)
  note plain = plain_assignment [OF assms(1,2) this]
  show "returns (expandVectorialNodes fuel (assign_to p q a s nm w i r) idx st)" by (rule plain)
  show "expandVectorialNodes fuel (assign_to p q a s nm w i r) idx st = Inr (n', st') \<Longrightarrow> st' = st" by (rule plain)
qed

lemma block_of_two:
  "expandVectorialNodes fuel (BlockNode p [x, y]) idx st =
    bindR (expandVectorialNodes fuel x idx st) (\<lambda>(n1, st2). bindR (expandVectorialNodes fuel y idx st2) (\<lambda>(n2, st3).
    Inr (BlockNode p [n1, n2], st3)))"
  by (auto simp: bindR_assoc intro!: bindR_cong split: prod.splits)

text \<open>One step through a temporary variable: what is left are the two assignments.\<close>

lemma temporary_step:
  assumes "needs_temporary (MemoryVectorNode q a s nm True i) nm r = Inr True"
  shows "expandVectorialNodes (Suc fuel) (assign_to p q a s nm w i r) idx st =
    bindR (allocateTemporaryVariable p r st) (\<lambda>((t, r'), st1).
    bindR (expandVectorialNodes fuel (AssignmentNode p t r') 0 st1) (\<lambda>(n1, st2).
    bindR (expandVectorialNodes fuel (AssignmentNode p (MemoryVectorNode q a s nm True i) t) 0 st2) (\<lambda>(n2, st3).
    Inr (BlockNode p [n1, n2], st3))))"
proof -
  have "expandVectorialNodes (Suc fuel) (assign_to p q a s nm w i r) idx st =
      bindR (allocateTemporaryVariable p r st) (\<lambda>((t, r'), st1).
      expandVectorialNodes fuel (BlockNode p [AssignmentNode p t r', AssignmentNode p (MemoryVectorNode q a s nm True i) t]) 0 st1)"
    unfolding expandVectorialNodes.simps(1) using assms by (simp add: Let_def del: expandVectorialNodes.simps)
  then show ?thesis by (simp only: block_of_two)
qed

lemma temporary_of:
  assumes "allocateTemporaryVariable p r st = Inr ((t, r'), st1)"
  obtains addr k where "t = MemoryVectorNode p addr k (temp_name (snd st)) False None" "r' = r" "snd st1 = snd st + 1"
  using assms by (auto simp: allocateTemporaryVariable_def temp_name_def elim!: bindR_InrE)

text \<open>What the two assignments keep is kept by the step.\<close>

lemma temporary_step_ends:
  assumes "needs_temporary (MemoryVectorNode q a s nm True i) nm r = Inr True"
    and first: "\<And>addr k st1. snd st1 = snd st + 1 \<Longrightarrow>
      returns (expandVectorialNodes fuel (assign_to p p addr k (temp_name (snd st)) False None r) 0 st1)"
    and second: "\<And>addr k st1 n st2. snd st1 = snd st + 1 \<Longrightarrow>
      expandVectorialNodes fuel (assign_to p p addr k (temp_name (snd st)) False None r) 0 st1 = Inr (n, st2) \<Longrightarrow>
      returns (expandVectorialNodes fuel
        (assign_to p q a s nm True i (MemoryVectorNode p addr k (temp_name (snd st)) False None)) 0 st2) \<and>
      (\<forall>n' st'. expandVectorialNodes fuel
        (assign_to p q a s nm True i (MemoryVectorNode p addr k (temp_name (snd st)) False None)) 0 st2 = Inr (n', st') \<longrightarrow>
        P st')"
  shows "returns (expandVectorialNodes (Suc fuel) (assign_to p q a s nm w i r) idx st) \<and>
    (\<forall>n' st'. expandVectorialNodes (Suc fuel) (assign_to p q a s nm w i r) idx st = Inr (n', st') \<longrightarrow> P st')"
proof (cases "allocateTemporaryVariable p r st")
  case (Inl e)
  then show ?thesis
    using temporary_step [OF assms(1)] allocateTemporary_returns(2) [of p r st]
    by (simp del: expandVectorialNodes.simps)
next
  case (Inr x)
  obtain t r' st1 where x: "x = ((t, r'), st1)" by (metis surj_pair)
  with Inr obtain addr k where t: "t = MemoryVectorNode p addr k (temp_name (snd st)) False None" "r' = r"
      and st1: "snd st1 = snd st + 1"
    using temporary_of [of p r st t r' st1] by metis
  let ?one = "expandVectorialNodes fuel (AssignmentNode p t r) 0 st1"
  have "returns ?one" using first [OF st1] unfolding t .
  then show ?thesis
    using second [OF st1, of addr k, folded t] Inr x t(2)
    unfolding temporary_step [OF assms(1)]
    by (cases ?one) (auto simp del: expandVectorialNodes.simps intro!: returns_bind)
qed

lemma unchanged_uid:
  assumes "returns e" and "\<And>n' st'. e = Inr (n', st') \<Longrightarrow> st' = st" and "snd st = u + 1"
  shows "returns e \<and> (\<forall>n' (st' :: expand_state). e = Inr (n', st') \<longrightarrow> (\<exists>m. 1 \<le> m \<and> m \<le> Suc j \<and> snd st' = u + word_of_nat m))"
proof (intro conjI allI impI)
  fix n' st' assume "e = Inr (n', st')"
  with assms(2,3) have "snd st' = u + word_of_nat 1" by simp
  then show "\<exists>m. 1 \<le> m \<and> m \<le> Suc j \<and> snd st' = u + word_of_nat m" by (intro exI [of _ 1]) simp
qed (rule assms(1))

text \<open>A temporary variable is assigned: its name may occur on the right, and then the names of the next ones.\<close>

lemma temporary_assignment:
  assumes "expression_tree r"
  shows "clashes r u j \<Longrightarrow> j \<le> fuel \<Longrightarrow> j < 2 ^ 32 \<Longrightarrow> snd st = u + 1 \<Longrightarrow>
    returns (expandVectorialNodes fuel (assign_to p q a s (temp_name u) w None r) idx st) \<and>
    (\<forall>n' st'. expandVectorialNodes fuel (assign_to p q a s (temp_name u) w None r) idx st = Inr (n', st') \<longrightarrow>
      (\<exists>m. 1 \<le> m \<and> m \<le> Suc j \<and> snd st' = u + word_of_nat m))"
proof (induction j arbitrary: u fuel st p q a s w idx)
  case 0
  then have "temp_name u \<notin> names r" by (simp add: clashes_def)
  note plain = unclashing_assignment [OF assms _ this, of None fuel p q a s w idx st]
  show ?case
    by (rule unchanged_uid [of _ st]) (use plain "0.prems"(4) in simp_all)
next
  case (Suc j)
  note next_clashes = clashes_Suc [OF Suc.prems(1)]
  let ?left = "MemoryVectorNode q a s (temp_name u) True None"
  obtain f where f: "fuel = Suc f" "j \<le> f" using Suc.prems(2) by (cases fuel) auto
  show ?case
  proof (cases "needs_temporary ?left (temp_name u) r")
    case (Inl e)
    with needs_temporary_returns [of ?left "temp_name u" r] show ?thesis by (simp add: Let_def)
  next
    case (Inr b)
    show ?thesis
    proof (cases b)
      case False
      with Inr have "needs_temporary ?left (temp_name u) r = Inr False" by simp
      note plain = plain_assignment [OF assms _ this, of fuel p w idx st]
      show ?thesis
        by (rule unchanged_uid [of _ st]) (use plain Suc.prems(4) in simp_all)
    next
      case True
      have apart: "temp_name u \<noteq> temp_name (u + 1)" using temp_name_shift [of 1 u] by simp
      show ?thesis
        unfolding f(1)
      proof (rule temporary_step_ends)
        show "needs_temporary ?left (temp_name u) r = Inr True" using Inr True by simp
      next
        fix addr k and st1 :: expand_state assume st1: "snd st1 = snd st + 1"
        note IH = Suc.IH [OF next_clashes f(2), of st1 p p addr k False 0] Suc.prems(3,4) st1
        show "returns (expandVectorialNodes f (assign_to p p addr k (temp_name (snd st)) False None r) 0 st1)"
          using IH by (simp del: expandVectorialNodes.simps)
        fix n st2 assume two: "expandVectorialNodes f (assign_to p p addr k (temp_name (snd st)) False None r) 0 st1 = Inr (n, st2)"
        then obtain m where "1 \<le> m" "m \<le> Suc j" "snd st2 = u + 1 + word_of_nat m"
          using IH by (cases st2) (auto simp del: expandVectorialNodes.simps)
        then have m: "1 \<le> Suc m \<and> Suc m \<le> Suc (Suc j) \<and> snd st2 = u + word_of_nat (Suc m)" by (simp add: add.assoc)
        have "temp_name u \<notin> names (MemoryVectorNode p addr k (temp_name (snd st)) False None)"
          using apart Suc.prems(4) by simp
        with unclashing_assignment [of "MemoryVectorNode p addr k (temp_name (snd st)) False None" None "temp_name u" f p q a s True 0 st2]
        show "returns (expandVectorialNodes f
            (assign_to p q a s (temp_name u) True None (MemoryVectorNode p addr k (temp_name (snd st)) False None)) 0 st2) \<and>
          (\<forall>n' st'. expandVectorialNodes f
            (assign_to p q a s (temp_name u) True None (MemoryVectorNode p addr k (temp_name (snd st)) False None)) 0 st2 = Inr (n', st') \<longrightarrow>
            (\<exists>m. 1 \<le> m \<and> m \<le> Suc (Suc j) \<and> snd st' = u + word_of_nat m))"
          using m by (metis expression_tree.simps(3) option.simps(4))
      qed
    qed
  qed
qed

text \<open>The second assignment, from the temporary variable.\<close>

lemma second_assignment:
  assumes "index_ok i" and "temp_name (snd st) \<noteq> t"
  shows "returns (expandVectorialNodes (Suc fuel) (assign_to p q a s nm True i (MemoryVectorNode p' addr k t False None)) 0 st)"
proof -
  let ?r = "MemoryVectorNode p' addr k t False None"
  let ?left = "MemoryVectorNode q a s nm True i"
  have r: "expression_tree ?r" by simp
  show ?thesis
  proof (cases "needs_temporary ?left nm ?r = Inr True")
    case False
    with needs_temporary_returns [of ?left nm ?r] plain_assignment(1) [OF r assms(1), of q a s nm]
    show ?thesis by (cases "needs_temporary ?left nm ?r") (auto simp: Let_def)
  next
    case True
    then have nm: "nm = t" using names_Memory [of p' addr k t False] by (auto simp: needs_temporary_def names_def split: if_splits)
    note plain = unclashing_assignment(1) [OF r, of None "temp_name (snd st)"]
      unclashing_assignment(1) [of "MemoryVectorNode p a' k' (temp_name (snd st)) False None" i nm for a' k']
    have "returns (expandVectorialNodes (Suc fuel) (assign_to p q a s nm True i ?r) 0 st) \<and>
      (\<forall>n' st'. expandVectorialNodes (Suc fuel) (assign_to p q a s nm True i ?r) 0 st = Inr (n', st') \<longrightarrow> True)"
      by (rule temporary_step_ends [OF True]) (use plain assms nm in \<open>auto simp del: expandVectorialNodes.simps\<close>)
    then show ?thesis by blast
  qed
qed

text \<open>Any assignment ends with one unit of fuel more than there are clashing names, and one more for its own.\<close>

lemma assignment_ends:
  assumes "expression_tree r" and "index_ok i" and "size r + 2 \<le> fuel" and "size r < 2 ^ 32 - 2"
  shows "returns (expandVectorialNodes fuel (assign_to p q a s nm w i r) idx st)"
proof -
  let ?left = "MemoryVectorNode q a s nm True i"
  define u where "u = snd st"
  obtain j where j: "clashes r u j" "j \<le> size r" using clashes_exists [of r u] assms(4) by auto
  obtain f where f: "fuel = Suc (Suc f)" "j \<le> f" using assms(3) j(2) by (cases fuel; cases "fuel - 1") auto
  show ?thesis
  proof (cases "needs_temporary ?left nm r = Inr True")
    case False
    with needs_temporary_returns [of ?left nm r] plain_assignment(1) [OF assms(1,2), of q a s nm]
    show ?thesis by (cases "needs_temporary ?left nm r") (auto simp: Let_def)
  next
    case True
    have "returns (expandVectorialNodes (Suc (Suc f)) (assign_to p q a s nm w i r) idx st) \<and>
      (\<forall>n' st'. expandVectorialNodes (Suc (Suc f)) (assign_to p q a s nm w i r) idx st = Inr (n', st') \<longrightarrow> True)"
    proof (rule temporary_step_ends [OF True])
      fix addr k and st1 :: expand_state assume st1: "snd st1 = snd st + 1"
      have first: "returns (expandVectorialNodes (Suc f) (assign_to p p addr k (temp_name u) False None r) 0 st1) \<and>
        (\<forall>n' st'. expandVectorialNodes (Suc f) (assign_to p p addr k (temp_name u) False None r) 0 st1 = Inr (n', st') \<longrightarrow>
          (\<exists>m. 1 \<le> m \<and> m \<le> Suc j \<and> snd st' = u + word_of_nat m))"
        using temporary_assignment [OF assms(1) j(1), of "Suc f" st1 p p addr k False 0] f(2) j(2) assms(4) st1
        by (simp add: u_def del: expandVectorialNodes.simps)
      then show "returns (expandVectorialNodes (Suc f) (assign_to p p addr k (temp_name (snd st)) False None r) 0 st1)"
        by (simp add: u_def del: expandVectorialNodes.simps)
      fix n and st2 :: expand_state
      assume "expandVectorialNodes (Suc f) (assign_to p p addr k (temp_name (snd st)) False None r) 0 st1 = Inr (n, st2)"
      with first obtain m where m: "1 \<le> m" "m \<le> Suc j" "snd st2 = u + word_of_nat m"
        unfolding u_def by blast
      have apart: "temp_name (snd st2) \<noteq> temp_name u" using temp_name_shift [of m u] m j(2) assms(4) by simp
      show "returns (expandVectorialNodes (Suc f) (assign_to p q a s nm True i
          (MemoryVectorNode p addr k (temp_name (snd st)) False None)) 0 st2) \<and> (\<forall>n' st'. expandVectorialNodes (Suc f)
          (assign_to p q a s nm True i (MemoryVectorNode p addr k (temp_name (snd st)) False None)) 0 st2 = Inr (n', st') \<longrightarrow> True)"
        using second_assignment [of i st2 "temp_name u" f p q a s nm p addr k] apart assms(2) by (simp add: u_def del: expandVectorialNodes.simps)
    qed
    then show ?thesis unfolding f(1) by blast
  qed
qed

section \<open>Programs\<close>

lemma flat_children:
  assumes "\<And>c d. c \<in> set cs \<Longrightarrow> flat c \<Longrightarrow> expandAbstractNodes c = Inr d \<Longrightarrow> flat d" and "list_all flat cs"
    and "mapR expandAbstractNodes cs = Inr ds"
  shows "list_all flat ds"
  using mapR_set [OF assms(3)] assms(1,2) by (fastforce simp: list_all_iff)

lemma expandAbstractNodes_flat: "flat n \<Longrightarrow> expandAbstractNodes n = Inr n' \<Longrightarrow> flat n'"
proof (induction n arbitrary: n' rule: flat.induct)
  case (1 p cs)
  then show ?case using flat_children [OF "1.IH"] by auto
next
  case (2 p cs)
  then show ?case using flat_children [OF "2.IH"] by auto
next
  case (8 p i a s cs)
  then show ?case using flat_children [OF "8.IH"] by auto
next
  case (9 p f ts cs)
  then show ?case using flat_children [OF "9.IH"] by auto
qed (auto simp: expandAbstractNodes_expression list_all_iff optR_eq_Inr split: option.splits elim!: bindR_InrE)

lemma expand_flat_returns:
  "flat n \<Longrightarrow> size n + 2 \<le> fuel \<Longrightarrow> size n < 2 ^ 32 - 2 \<Longrightarrow> returns (expandVectorialNodes fuel n idx st)"
proof (induction n arbitrary: idx st rule: flat.induct)
  case (1 p cs)
  have "returns (expandVectorialNodes fuel c idx st)" if "c \<in> set cs" for c st
    using that "1.IH" [OF that, of idx st] "1.prems" children_size [of c "BlockNode p cs"] by (simp add: list_all_iff)
  then show ?case by (auto intro!: ends)
next
  case (2 p cs)
  have "returns (expandVectorialNodes fuel c idx st)" if "c \<in> set cs" for c st
    using that "2.IH" [OF that, of idx st] "2.prems" children_size [of c "ProgramNode p cs"] by (simp add: list_all_iff)
  then show ?case by (auto intro!: ends)
next
  case (3 p l r)
  then show ?case
    by (cases l) (auto intro!: assignment_ends simp del: expandVectorialNodes.simps(1))
next
  case (8 p i a s cs)
  have "returns (expandVectorialNodes fuel c idx st)" if "c \<in> set cs" for c st
    using that "8.IH" [OF that, of idx st] "8.prems" children_size [of c "EmitNode p i a s cs"] by (simp add: list_all_iff)
  then show ?case by (auto intro!: ends)
next
  case (9 p f ts cs)
  have "returns (expandVectorialNodes fuel c idx st)" if "c \<in> set cs" for c st
    using that "9.IH" [OF that, of idx st] "9.prems" children_size [of c "CallNode p f ts cs"] by (simp add: list_all_iff)
  then show ?case by (auto intro!: ends)
qed (auto intro!: ends simp: expand_expression_returns split: option.splits)

section \<open>The memory of the target\<close>

definition stays_in :: "target_description \<Rightarrow> failure + 'a \<times> expand_state \<Rightarrow> bool" where
  "stays_in td r \<longleftrightarrow> (\<forall>x st. r = Inr (x, st) \<longrightarrow> fits_target td (fst st))"

lemma stays_in_simps [simp]: "stays_in td (Inr (x, st)) \<longleftrightarrow> fits_target td (fst st)" "stays_in td (Inl e)"
  by (cases st, simp add: stays_in_def) (simp add: stays_in_def)

lemma stays_in_bind:
  assumes "stays_in td m" and "\<And>x st. m = Inr (x, st) \<Longrightarrow> fits_target td (fst st) \<Longrightarrow> stays_in td (f (x, st))"
  shows "stays_in td (bindR m f)"
  using assms by (cases m) (auto simp: stays_in_def)

lemma stays_in_pure:
  fixes m :: "failure + 'b"
  shows "(\<And>x. m = Inr x \<Longrightarrow> stays_in td (f x)) \<Longrightarrow> stays_in td (bindR m f)"
  by (cases m) auto

lemmas stays_in_binds = stays_in_bind stays_in_pure [where 'b = u32] stays_in_pure [where 'b = bool]
  stays_in_pure [where 'b = unit] stays_in_pure [where 'b = node] stays_in_pure [where 'b = "node \<times> u32"]

lemma stays_in_mapS:
  "(\<And>x st. x \<in> set xs \<Longrightarrow> fits_target td (fst st) \<Longrightarrow> stays_in td (f x st)) \<Longrightarrow> fits_target td (fst st) \<Longrightarrow> stays_in td (mapS f xs st)"
proof (induction xs arbitrary: st)
  case (Cons x xs)
  show ?case
    unfolding mapS.simps
  proof (rule stays_in_bind)
    show "stays_in td (f x st)" using Cons.prems by simp
    fix y st1 assume "f x st = Inr (y, st1)" and st1: "fits_target td (fst st1)"
    have "stays_in td (mapS f xs st1)" using Cons st1 by simp
    then show "stays_in td (case (y, st1) of (y, s1) \<Rightarrow> bindR (mapS f xs s1) (\<lambda>(ys, s2). Inr (y # ys, s2)))"
      by (auto intro!: stays_in_bind)
  qed
qed simp

lemma allocateTemporaryVariable_stays:
  "fits_target td (fst st) \<Longrightarrow> stays_in td (allocateTemporaryVariable p r st)"
  by (auto simp: stays_in_def allocateTemporaryVariable_def allocateTemporaryMemory_fits elim!: bindR_InrE)

lemma expand_stays_in: "fits_target td (fst st) \<Longrightarrow> stays_in td (expandVectorialNodes fuel n i st)"
proof (induction fuel n i st rule: expandVectorialNodes.induct)
  case (1 fuel p q a s name w i right index st)
  let ?left = "MemoryVectorNode q a s name True i"
  show ?case
    unfolding expandVectorialNodes.simps(1) Let_def
  proof (rule stays_in_pure)
    fix b assume b: "needs_temporary ?left name right = Inr b"
    note IH = "1.IH" [OF refl b]
    show "stays_in td (if b then case fuel of 0 \<Rightarrow> Inl Diverges
        | Suc fuel' \<Rightarrow> bindR (allocateTemporaryVariable p right st) (\<lambda>((tempVar, rValue), st1).
            expandVectorialNodes fuel' (BlockNode p [AssignmentNode p tempVar rValue, AssignmentNode p ?left tempVar]) 0 st1)
      else bindR (getVectorSize ?left) (\<lambda>k. bindR (mapS (\<lambda>j st.
            bindR (expandVectorialNodes fuel ?left (word_of_nat j) st) (\<lambda>(l, st1).
            bindR (expandVectorialNodes fuel right (word_of_nat j) st1) (\<lambda>(r, st2).
            Inr (AssignmentNode p l r, st2)))) [0..<unat k] st) (\<lambda>(cs, st'). Inr (BlockNode p cs, st'))))"
    proof (cases b)
      case True
      with IH(1) "1.prems" show ?thesis
        by (auto intro!: stays_in_bind allocateTemporaryVariable_stays simp del: expandVectorialNodes.simps split: nat.split)
    next
      case False
      with IH(2,3) "1.prems" show ?thesis
        by (auto intro!: stays_in_binds stays_in_mapS simp del: expandVectorialNodes.simps getVectorSize.simps)
    qed
  qed
qed (auto intro!: stays_in_binds stays_in_mapS simp del: getVectorSize.simps split: option.splits)

section \<open>The other passes\<close>

lemma block_comment_returns [ends]: "returns (block_comment k c b p rest)"
  by (induction k c b p rest rule: block_comment.induct) simp_all

lemma literal_value_returns [ends]: "returns (literal_value p s)"
  unfolding literal_value_def Let_def by (simp split: prod.split)

lemma check_number_returns [ends]: "returns (check_number p s)"
  unfolding check_number_def by simp

lemma scan_word_returns [ends]: "returns (scan_word alnum c p rest)"
proof -
  have token: "returns (word_token q s)" for q s
    unfolding word_token_def int_token_def by (auto intro!: returns_bind check_number_returns literal_value_returns)
  show ?thesis unfolding scan_word_def Let_def by (auto intro!: returns_bind token)
qed

lemma operator_token_returns [ends]: "returns (operator_token nexts alone p rest)"
  by (simp add: operator_token_def split: option.split)

lemma scan_returns [ends]: "returns (scan alnum c p rest)"
  unfolding scan_def shift_token_def comment_def by (auto intro!: ends split: option.splits list.splits)

lemma tokenize_returns [ends]: "returns (tokenize alnum source)"
proof -
  have "returns (tokenize_from alnum p source)" for p
    by (induction alnum p source rule: tokenize_from.induct) (auto intro!: ends)
  then show ?thesis by (simp add: tokenize_def)
qed

lemma checkVectorSize_returns [ends]: "returns (checkVectorSize n)"
  by (induction n rule: checkVectorSize.induct)
    (auto intro!: ends simp: same_sides_def scalar_condition_def scalar_conditions_def split: option.splits)

lemma typeCheck_returns [ends]: "returns (typeCheck c n)"
proof -
  have checked: "returns (checked p t m)" if "returns m" for p t m
    using that unfolding checked_def expectType_def by (auto intro!: ends split: prod.splits)
  have condition: "returns (expectCondition n)" for n by (simp add: expectCondition_def)
  have lookup: "returns (findSubroutine c name p)" for c name p unfolding findSubroutine_def by (rule ends)
  show ?thesis
    by (induction n rule: typeCheck.induct) (auto intro!: ends checked condition lookup)
qed

lemma pushImmediate_returns [ends]: "returns (pushImmediate v p st)"
  unfolding pushImmediate_def addImmediateToBytecodes_def by (auto intro!: ends)

lemma in_temp_returns [ends]: "(\<And>st. returns (f st)) \<Longrightarrow> returns (in_temp f st)"
  unfolding in_temp_def Let_def by (auto intro!: ends)

lemma getStackDepth_returns [ends]: "returns (getStackDepth n)"
  by (induction n rule: getStackDepth.induct) (auto intro!: ends)

lemma analyze_depth_returns [ends]: "returns (analyze_depth cs cur d st)"
  by (induction cs cur d st rule: analyze_depth.induct)
    (auto intro!: ends simp del: getStackDepth.simps split: node.split)

lemma emit_returns [ends]: "returns (emit n st)"
  by (induction n st rule: emit.induct) (auto intro!: ends simp: declare_event_def declare_sub_def split: option.split)

lemma fixup_returns [ends]: "returns (fixup table pre)"
  unfolding fixup_def close_sub_def by (auto intro!: ends simp: Let_def)

lemma verifyStackCalls_returns [ends]: "returns (verifyStackCalls c pre)"
proof -
  have mark: "returns (mark_called is subs)" for "is" subs
    by (induction "is" subs rule: mark_called.induct) simp_all
  have events: "returns (check_events m es subs)" for m es subs
    by (induction m es subs rule: check_events.induct) (auto intro!: ends mark)
  have raise: "returns (raise_calls d is s)" for d "is" s
    by (induction d "is" s rule: raise_calls.induct) (auto split: option.split)
  have pass: "returns (sub_pass m ks s)" for m ks s
    by (induction m ks s rule: sub_pass.induct) (auto intro!: ends raise simp: Let_def)
  have subs: "returns (check_subs m subs)" for m subs
  proof (induction m subs rule: check_subs.induct)
    case (1 m subs)
    then show ?case
      by (subst check_subs.simps) (auto intro!: ends pass split: option.split)
  qed
  show ?thesis unfolding verifyStackCalls_def by (auto intro!: ends events subs split: option.split)
qed

lemma link_returns [ends]: "returns (link c pre)"
proof -
  have place: "returns (place_subroutines ss bs table)" for ss bs table
    by (induction ss bs table rule: place_subroutines.induct) simp_all
  have rewrite: "returns (rewriteR (resolve table) es)" for table es
    by (induction "resolve table" es rule: rewriteR.induct) (auto intro!: ends simp: Let_def resolve_def)
  show ?thesis unfolding link_def by (auto intro!: ends place rewrite)
qed

lemma first_pass_result:
  assumes "first_pass alnum c u source = Inr (p, st)" and "fits_target td c"
  shows "flat p" and "fits_target td (fst st)"
proof -
  from assms(1) obtain ts program st' where
    parsed: "parseProgram (parse (length ts)) \<lparr>toks = ts, comp = c, uid = u\<rparr> = Inr (program, st')"
    and p: "expandAbstractNodes program = Inr p" "st = (comp st', uid st')"
    by (auto simp: first_pass_def elim!: bindR_InrE)
  have "fits_target td (comp st') \<and> flat program"
    by (rule keepsD [OF shaped.keeps_parseProgram _ parsed]) (simp add: assms(2))
  with p expandAbstractNodes_flat [of program p] show "flat p" "fits_target td (fst st)" by auto
qed

lemma first_pass_returns [ends]: "returns (first_pass alnum c u source)"
  unfolding first_pass_def
proof (intro returns_bind tokenize_returns)
  fix ts assume ts: "tokenize alnum source = Inr ts"
  then have "stream_ok ts" by (simp add: tokenize_def tokenize_from_ends)
  then show "returns (parseProgram (parse (length ts)) \<lparr>toks = ts, comp = c, uid = u\<rparr>)"
    using progress_fromD(1) [OF tied.parseProgram_progress [of "\<lambda>t. True" "length ts"], of "\<lparr>toks = ts, comp = c, uid = u\<rparr>"]
    by (simp add: returns_def)
qed (auto intro!: ends)

section \<open>The compiler\<close>

lemma middle_end_returns [ends]: "returns (middle_end c n)"
  unfolding middle_end_def by (auto intro!: ends simp del: typeCheck.simps optimize.simps split: option.split)

lemma back_end_returns [ends]: "returns (back_end c n)"
  unfolding back_end_def by (auto intro!: ends simp del: emit.simps split: option.split)

lemma fits_built:
  "\<not> freeVariableIndex (buildMaps c) > variablesSize (targetDescription (buildMaps c)) \<Longrightarrow>
    fits_target (targetDescription c) (buildMaps c)"
  by (simp add: fits_target_def buildMaps_def Let_def not_less split: prod.splits)

lemma front_end_returns:
  assumes "fits_target td c" and "\<And>p st. first_pass alnum c u source = Inr (p, st) \<Longrightarrow> size p < 2 ^ 32 - 2"
  shows "returns (front_end alnum c u source)"
  unfolding front_end_def
proof (rule returns_bind [OF first_pass_returns])
  fix x assume x: "first_pass alnum c u source = Inr x"
  obtain p st where "x = (p, st)" by (rule prod.exhaust)
  with x assms(2) first_pass_result(1) [OF _ assms(1), of alnum u source p st]
  show "returns (case x of (p1, st) \<Rightarrow> expandVectorialNodes (size p1 + 2) p1 0 st)"
    by (auto intro!: expand_flat_returns simp del: expandVectorialNodes.simps)
qed

lemma front_end_fits:
  assumes "fits_target td c" and "front_end alnum c u source = Inr (p, st)"
  shows "fits_target td (fst st)"
proof -
  from assms(2) obtain p1 st1 where one: "first_pass alnum c u source = Inr (p1, st1)"
    and two: "expandVectorialNodes (size p1 + 2) p1 0 st1 = Inr (p, st)"
    unfolding front_end_def by (auto simp del: expandVectorialNodes.simps)
  have "stays_in td (expandVectorialNodes (size p1 + 2) p1 0 st1)"
    by (rule expand_stays_in) (rule first_pass_result(2) [OF one assms(1)])
  with two show ?thesis unfolding stays_in_def by blast
qed

text \<open>C21: Compilation ends for every target and every source text: no loop and no recursion of the compiler runs forever, and
  the fuel of the parser and of the expansion of vectors is never used up. The theorem is about ending only: the outcome can be
  bytecode, a reported error, a failed assertion (as for native arguments at a constant index) or undefined arithmetic of the host. The
  one condition is on size: when parsing succeeds, the program has fewer nodes than there are names of temporary variables
  (\<open>2 ^ 32 - 2\<close>).\<close>

theorem compile_ends:
  assumes "\<And>p st. first_pass alnum (buildMaps c) u source = Inr (p, st) \<Longrightarrow> size p < 2 ^ 32 - 2"
  shows "compile alnum c u source \<noteq> Inl Diverges"
proof (cases "freeVariableIndex (buildMaps c) > variablesSize (targetDescription (buildMaps c))")
  case True
  then show ?thesis by (simp add: compile_def)
next
  case False
  have "returns (bindR (front_end alnum (buildMaps c) u source) (\<lambda>(p2, (c1, u1)). bindR (middle_end c1 p2) (\<lambda>p. Inr (c1, p))))"
    using front_end_returns [OF fits_built [OF False] assms] by (auto intro!: ends)
  with False back_end_returns show ?thesis
    by (auto simp: compile_def Let_def returns_def split: sum.splits failure.splits)
qed

text \<open>C22: A program that is accepted fits the target: its bytecode is not longer than the bytecode memory, and
  the variables it allocates, with those of the target itself, fit the variable memory.\<close>

theorem compiled_fits_target:
  assumes "compile alnum c u source = Inr (Compiled bs allocated c')"
  shows "length bs \<le> unat (bytecodeSize (targetDescription c)) \<and> allocated \<le> variablesSize (targetDescription c)"
proof -
  let ?td = "targetDescription c"
  from assms have small: "\<not> freeVariableIndex (buildMaps c) > variablesSize (targetDescription (buildMaps c))"
    by (auto simp: compile_def Let_def split: if_splits)
  with assms obtain c1 p p2 u1 where front: "front_end alnum (buildMaps c) u source = Inr (p2, (c1, u1))"
    and generated: "back_end c1 p = Inr (Compiled bs allocated c')"
    by (auto simp: compile_def Let_def split: if_splits sum.splits failure.splits elim!: bindR_InrE)
  have fits: "fits_target ?td c1" using front_end_fits [OF fits_built [OF small] front] by simp
  from generated have "allocated = freeVariableIndex c1" "length bs \<le> unat (bytecodeSize (targetDescription c1))"
    by (auto simp: back_end_def link_def split: option.splits if_splits elim!: bindR_InrE)
  with fits show ?thesis by (simp add: fits_target_def)
qed

section \<open>Witnesses\<close>

lemma empty_first_pass:
  "case first_pass ascii_alnum (buildMaps sample_compiler) 0 [] of Inr (ProgramNode p [], st) \<Rightarrow> True | _ \<Rightarrow> False"
  by code_simp

theorem compile_ends_witness: "compile ascii_alnum sample_compiler 0 [] \<noteq> Inl Diverges"
proof (rule compile_ends)
  fix p st assume "first_pass ascii_alnum (buildMaps sample_compiler) 0 [] = Inr (p, st)"
  then show "size p < 2 ^ 32 - 2" using empty_first_pass by (auto split: node.splits list.splits)
qed

lemma empty_compiled:
  "compile ascii_alnum sample_compiler 0 [] = Inr (Compiled [plain 1] 33 (buildMaps sample_compiler))"
  by code_simp

theorem compiled_fits_target_witness:
  "length [plain 1] \<le> unat (bytecodeSize (targetDescription sample_compiler)) \<and>
   (33 :: u32) \<le> variablesSize (targetDescription sample_compiler)"
  by (rule compiled_fits_target [OF empty_compiled])

end
