(* ===== verification/Aseba_Property.thy ===== *)
theory Aseba_Property
  imports Aseba_Prelude
begin

text \<open>
  Values of variables as applications see them: \<^verbatim>\<open>property.h\<close>, \<^verbatim>\<open>aseba_property.h\<close> and \<^verbatim>\<open>numeric_cast\<close> of
  \<^verbatim>\<open>utils.h\<close> (\<^verbatim>\<open>thymio-device-manager\<close>). A \<^verbatim>\<open>std::string\<close> is the list of its bytes, a double its bits, an object the list of
  its entries by ascending keys.
\<close>

section \<open>Properties\<close>

type_synonym bytes = "u8 list"

datatype (plugins only: size code) property =
    Null
  | Boolean bool
  | Integral "64 word"
  | Floating "64 word"
  | Text bytes
  | Array "property list"
  | Object "(bytes \<times> property) list"

text \<open>The errors of the device manager (\<^verbatim>\<open>error.h\<close>), and the cancellation of an operation.\<close>

datatype tdm_error = invalid_object | no_such_variable | incompatible_variable_type | invalid_aesl | unsupported_language
  | operation_canceled

definition is_null :: "property \<Rightarrow> bool" where
  "is_null p \<longleftrightarrow> (case p of Null \<Rightarrow> True | _ \<Rightarrow> False)"

definition is_integral :: "property \<Rightarrow> bool" where
  "is_integral p \<longleftrightarrow> (case p of Integral _ \<Rightarrow> True | _ \<Rightarrow> False)"

definition property_size :: "property \<Rightarrow> nat" where
  "property_size p = (case p of Text s \<Rightarrow> length s | Array ps \<Rightarrow> length ps | Object m \<Rightarrow> length m | _ \<Rightarrow> 0)"

text \<open>\<^verbatim>\<open>numeric_cast\<close> from 64-bit to 16-bit signed integers: \<open>None\<close> is the error of a narrowing.\<close>

definition numeric_cast :: "64 word \<Rightarrow> i16 option" where
  "numeric_cast v = (if sint v < - 32768 then None else if 32767 < sint v then None else Some (ucast v))"

definition integral_value :: "property \<Rightarrow> tdm_error + i16" where
  "integral_value p =
     (case p of
        Integral v \<Rightarrow> (case numeric_cast v of Some n \<Rightarrow> Inr n | None \<Rightarrow> Inl incompatible_variable_type)
      | _ \<Rightarrow> Inl incompatible_variable_type)"

definition to_aseba_variable :: "property \<Rightarrow> u16 \<Rightarrow> tdm_error + i16 list" where
  "to_aseba_variable p size_of =
     (if is_null p \<and> size_of = 0 then Inr []
      else if size_of = 1 \<and> is_integral p then bindR (integral_value p) (\<lambda>n. Inr [n])
      else case p of
          Array ps \<Rightarrow>
            if unat size_of = length ps then mapR integral_value ps else Inl incompatible_variable_type
        | _ \<Rightarrow> Inl incompatible_variable_type)"

definition property_of_i16 :: "i16 \<Rightarrow> property" where
  "property_of_i16 v = Integral (scast v)"

definition aseba_variable_from_range :: "i16 list \<Rightarrow> property" where
  "aseba_variable_from_range vs = (if vs = [] then Null else Array (map property_of_i16 vs))"

section \<open>Conversion\<close>

lemma numeric_cast_i16: "numeric_cast (scast (v :: i16)) = Some v"
proof -
  have range: "- 32768 \<le> sint v \<and> sint v \<le> 32767" using sint_range_size [of v] by (simp add: word_size)
  then have "sint (scast v :: 64 word) = sint v"
    by (simp add: signed_scast_eq signed_take_bit_int_eq_self)
  moreover note range
  moreover have "ucast (scast v :: 64 word) = v" by (rule bit_word_eqI) (simp add: bit_simps)
  ultimately show ?thesis by (simp add: numeric_cast_def)
qed

lemma integral_value_of_i16: "integral_value (property_of_i16 v) = Inr v"
  by (simp add: integral_value_def property_of_i16_def numeric_cast_i16)

text \<open>The value that an application reads of a variable and writes back is the same data.\<close>

lemma variable_roundtrip:
  assumes "length vs < 2 ^ 16"
  shows "to_aseba_variable (aseba_variable_from_range vs) (word_of_nat (length vs)) = Inr vs"
proof (cases vs)
  case Nil
  then show ?thesis by (simp add: to_aseba_variable_def aseba_variable_from_range_def is_null_def)
next
  case (Cons v ws)
  have "mapR integral_value (map property_of_i16 vs) = Inr vs"
    by (simp add: mapR_eq_Inr_iff list_all2_conv_all_nth integral_value_of_i16)
  moreover have "unat (word_of_nat (length vs) :: u16) = length vs" using assms by (simp add: unat_of_nat)
  moreover have "vs \<noteq> []" using Cons by simp
  ultimately show ?thesis
    by (simp add: to_aseba_variable_def aseba_variable_from_range_def is_null_def is_integral_def del: unat_of_nat)
qed

lemma to_aseba_variable_length: "to_aseba_variable p n = Inr vs \<Longrightarrow> length vs = unat n"
  by (auto simp: to_aseba_variable_def dest!: mapR_length split: if_splits property.splits)

lemma to_aseba_variable_values:
  assumes "to_aseba_variable p n = Inr vs"
  shows "p = Null \<and> vs = [] \<or> (\<exists>v. p = Integral v \<and> - 32768 \<le> sint v \<and> sint v \<le> 32767 \<and> vs = [ucast v]) \<or>
    (\<exists>ws. p = Array (map Integral ws) \<and> vs = map ucast ws \<and> (\<forall>w\<in>set ws. - 32768 \<le> sint w \<and> sint w \<le> 32767))"
proof (cases p)
  case (Array ps)
  with assms have "mapR integral_value ps = Inr vs"
    by (auto simp: to_aseba_variable_def is_null_def is_integral_def split: if_splits)
  then have all: "list_all2 (\<lambda>q v. integral_value q = Inr v) ps vs" by (simp add: mapR_eq_Inr_iff)
  then have "\<exists>ws. ps = map Integral ws \<and> vs = map ucast ws \<and> (\<forall>w\<in>set ws. - 32768 \<le> sint w \<and> sint w \<le> 32767)"
  proof (induction ps vs rule: list_all2_induct)
    case Nil
    then show ?case by (intro exI [of _ "[]"]) simp
  next
    case (Cons q qs v us)
    then obtain ws where "qs = map Integral ws" "us = map ucast ws" "\<forall>w\<in>set ws. - 32768 \<le> sint w \<and> sint w \<le> 32767" by blast
    moreover from Cons.hyps(1) obtain w where "q = Integral w" "v = ucast w" "- 32768 \<le> sint w" "sint w \<le> 32767"
      by (auto simp: integral_value_def numeric_cast_def split: property.splits option.splits if_splits)
    ultimately show ?case by (intro exI [of _ "w # ws"]) simp
  qed
  with Array show ?thesis by blast
qed (use assms in \<open>auto simp: to_aseba_variable_def is_null_def is_integral_def integral_value_def numeric_cast_def
  split: if_splits\<close>)

end
