(* ===== verification/Aseba_Node.thy ===== *)
theory Aseba_Node
  imports Aseba_Property Compile Message_Codec "HOL-Library.AList"
begin

text \<open>
  A connected robot as the device manager sees it: \<^verbatim>\<open>aseba_node\<close> (\<^verbatim>\<open>thymio-device-manager/aseba_node.h\<close> and
  \<^verbatim>\<open>aseba_node.cpp\<close>). The members are the record \<open>node_state\<close>; what an operation asks of other components (messages to the
  endpoint, calls of the registry, signals, posted callbacks, timers) is appended to \<open>effects\<close> in the
  order of the code. The endpoint is what the node reads of it, or \<open>None\<close> once it is gone; the registry
  is in \<open>Node_Registry\<close>. Callbacks of applications are numbers; a request that is pending has a number that identifies it,
  which is what a weak pointer to it holds. An unordered map is the list of its entries in the order of iteration, an
  unordered set the list of its elements.
\<close>

section \<open>State\<close>

type_synonym node_id = "u8 list"

definition nil_uuid :: node_id where
  "nil_uuid = replicate 16 0"

datatype status = connected | available | busy | ready | disconnected | upgrading

datatype VMExecutionState = Stopped | Running | Paused
datatype VMExecutionError = NoError | Killed | OutOfBoundAccess | DivisionByZeroError | GenericError
datatype VMExecutionStateCommand = Cmd_Stop | Cmd_Run | Cmd_Step | Cmd_StepToNextLine | Cmd_Pause | Cmd_Reset | Cmd_Reboot
  | Cmd_Suspend | Cmd_WriteProgramToDeviceMemory
datatype node_type = Thymio2 | Thymio2Wireless | SimulatedThymio2 | DummyNode | UnknownType
datatype endpoint_type = EP_unknown | EP_thymio | EP_simulated_thymio | EP_simulated_dummy_node
datatype programming_language = Aseba | Aesl

record vm_execution_state =
  es_state :: VMExecutionState
  es_line :: u32
  es_error :: VMExecutionError
  es_message :: "bytes option"

datatype compilation_result =
    Compilation_error u32 u32 u32 error_code "error_arg list"
  | Compilation_data nat u32 u32 u32
  | No_result

type_synonym properties_map = "(bytes \<times> property) list"

datatype node_callback = No_callback | App_callback nat | Step_written nat | Breakpoints_written nat
  | Program_written nat compilation_result

datatype node_timer = Variables_timer | Status_timer | Resend_timer

datatype node_effect =
    Send "body list" node_callback
  | Registry_add | Registry_remove | Registry_status status | Registry_uuid_change
  | Post_assign_scratchpads
  | Variables_changed properties_map
  | Events_received properties_map
  | Vm_state_changed vm_execution_state
  | Post_step_callback nat "tdm_error option"
  | Post_breakpoints_callback nat "tdm_error option" "u32 list"
  | Call_compilation_callback nat "tdm_error option" compilation_result
  | Post_compilation_callback nat "tdm_error option" compilation_result
  | Post_callback_pending nat compilation_result
  | Start_timer node_timer nat | Cancel_timer node_timer
  | Endpoint_upgrade u16

record endpoint_view =
  ep_wireless :: bool
  ep_type :: endpoint_type
  ep_name :: bytes
  ep_definitions :: common_definitions

record vm_variable =
  var_name :: bytes
  var_start :: u16
  var_size :: u16
  var_value :: "i16 list"

record step_request =
  sr_id :: nat
  sr_line :: u16
  sr_error :: "tdm_error option"
  sr_cb :: "nat option"

record breakpoint_request =
  br_id :: nat
  br_pending :: "(u32 \<times> u32) list"
  br_set :: "u32 list"
  br_error :: "tdm_error option"
  br_cb :: "nat option"

record node_state =
  m_id :: u16
  m_uuid :: node_id
  m_uuid_received :: bool
  m_friendly_name :: bytes
  m_status :: status
  m_firmware_version :: int
  m_available_firmware_version :: int
  m_protocol_version :: u16
  m_connected_app :: nat
  m_endpoint :: "endpoint_view option"
  m_description :: target_description
  counter_variables :: u16
  counter_events :: u16
  counter_functions :: u16
  m_bytecode :: "bytecode_element list"
  m_breakpoints :: "u32 list"
  vm_pc :: int
  vm_flags :: int
  vm_line :: u32
  vm_state :: VMExecutionState
  m_rf_settings :: "u16 \<times> u16 \<times> u16"
  m_variables :: "vm_variable list"
  m_resend_all_variables :: bool
  m_pending_breakpoint_request :: "breakpoint_request option"
  m_callbacks_pending :: "(nat \<times> compilation_result) list"
  m_pending_step_request :: "step_request option"
  request_count :: nat
  effects :: "node_effect list"

definition effect :: "node_effect \<Rightarrow> node_state \<Rightarrow> node_state" where
  "effect e n = n\<lparr>effects := effects n @ [e]\<rparr>"

definition write_messages_to :: "body list \<Rightarrow> node_callback \<Rightarrow> node_state \<Rightarrow> node_state" where
  "write_messages_to messages cb n = (if m_endpoint n = None then n else effect (Send messages cb) n)"

definition write_message :: "body \<Rightarrow> node_callback \<Rightarrow> node_state \<Rightarrow> node_state" where
  "write_message b cb n = write_messages_to [b] cb n"

definition set_status :: "status \<Rightarrow> node_state \<Rightarrow> node_state" where
  "set_status s n =
     effect Post_assign_scratchpads (effect
       (case s of connected \<Rightarrow> Registry_add | disconnected \<Rightarrow> Registry_remove | _ \<Rightarrow> Registry_status s) (n\<lparr>m_status := s\<rparr>))"

text \<open>The range test of the code is never true.\<close>

definition status_to_string :: "status \<Rightarrow> bytes" where
  "status_to_string s = WStringToUTF8 (ws (case s of connected \<Rightarrow> ''connected'' | available \<Rightarrow> ''available'' | busy \<Rightarrow> ''busy''
     | ready \<Rightarrow> ''ready'' | disconnected \<Rightarrow> ''disconnected'' | upgrading \<Rightarrow> ''upgrading''))"

section \<open>Creation and exclusive use\<close>

definition aseba_node :: "u16 \<Rightarrow> u16 \<Rightarrow> node_id \<Rightarrow> endpoint_view option \<Rightarrow> node_state" where
  "aseba_node id' version uuid ep =
     \<lparr>m_id = id', m_uuid = uuid, m_uuid_received = False, m_friendly_name = [], m_status = disconnected,
      m_firmware_version = 0, m_available_firmware_version = 0, m_protocol_version = version, m_connected_app = 0, m_endpoint = ep,
      m_description = blank_target, counter_variables = 0, counter_events = 0, counter_functions = 0, m_bytecode = [],
      m_breakpoints = [], vm_pc = 0, vm_flags = 0, vm_line = 0, vm_state = Stopped, m_rf_settings = (0, 0, 0),
      m_variables = [], m_resend_all_variables = True, m_pending_breakpoint_request = None,
      m_callbacks_pending = [], m_pending_step_request = None, request_count = 0, effects = []\<rparr>"

definition create_node :: "u16 \<Rightarrow> u16 \<Rightarrow> node_id \<Rightarrow> endpoint_view option \<Rightarrow> node_state" where
  "create_node id' version uuid ep = set_status connected (aseba_node id' version uuid ep)"

definition set_available_firmware_version :: "int \<Rightarrow> node_state \<Rightarrow> node_state" where
  "set_available_firmware_version version n = n\<lparr>m_available_firmware_version := version\<rparr>"

text \<open>Applications are addresses, 0 is the null pointer.\<close>

definition lock :: "nat \<Rightarrow> node_state \<Rightarrow> bool \<times> node_state" where
  "lock app n =
     (if m_connected_app n = app then (True, n)
      else if m_connected_app n \<noteq> 0 \<or> m_status n \<noteq> available then (False, n)
      else (True, set_status busy (n\<lparr>m_connected_app := app\<rparr>)))"

definition unlock :: "nat \<Rightarrow> node_state \<Rightarrow> bool \<times> node_state" where
  "unlock app n =
     (if m_connected_app n \<noteq> app then (False, n)
      else (True, set_status available (n\<lparr>m_connected_app := 0\<rparr>)))"

definition is_wirelessly_connected :: "node_state \<Rightarrow> bool" where
  "is_wirelessly_connected n = (case m_endpoint n of None \<Rightarrow> False | Some ep \<Rightarrow> ep_wireless ep)"

definition node_type_of :: "node_state \<Rightarrow> node_type" where
  "node_type_of n =
     (case m_endpoint n of
        None \<Rightarrow> UnknownType
      | Some ep \<Rightarrow>
          (case ep_type ep of
             EP_thymio \<Rightarrow> if is_wirelessly_connected n then Thymio2Wireless else Thymio2
           | EP_simulated_thymio \<Rightarrow> SimulatedThymio2
           | EP_simulated_dummy_node \<Rightarrow> DummyNode
           | EP_unknown \<Rightarrow> UnknownType))"

definition friendly_name :: "node_state \<Rightarrow> bytes" where
  "friendly_name n =
     (if m_friendly_name n = [] then (case m_endpoint n of Some ep \<Rightarrow> ep_name ep | None \<Rightarrow> []) else m_friendly_name n)"

definition upgrade_firmware :: "node_state \<Rightarrow> bool \<times> node_state" where
  "upgrade_firmware n =
     (if is_wirelessly_connected n \<or> m_status n \<noteq> available then (False, n)
      else
        let n' = set_status upgrading n in
        if m_endpoint n = None then (False, n') else (True, effect (Endpoint_upgrade (m_id n)) n'))"

definition can_be_renamed :: "node_state \<Rightarrow> bool" where
  "can_be_renamed n \<longleftrightarrow>
     (case m_endpoint n of None \<Rightarrow> False | Some ep \<Rightarrow> ep_type ep = EP_thymio \<and> 6 \<le> protocolVersion (m_description n))"

section \<open>Pending requests\<close>

definition cancel_pending_step_request :: "node_state \<Rightarrow> node_state" where
  "cancel_pending_step_request n =
     (case m_pending_step_request n of
        None \<Rightarrow> n
      | Some r \<Rightarrow>
          (case sr_cb r of
             None \<Rightarrow> n\<lparr>m_pending_step_request := None\<rparr>
           | Some cb \<Rightarrow>
               effect (Post_step_callback cb (if sr_error r = None then Some operation_canceled else sr_error r))
                 (n\<lparr>m_pending_step_request := None\<rparr>)))"

definition cancel_pending_breakpoint_request :: "node_state \<Rightarrow> node_state" where
  "cancel_pending_breakpoint_request n =
     (case m_pending_breakpoint_request n of
        None \<Rightarrow> n
      | Some r \<Rightarrow>
          (case br_cb r of
             None \<Rightarrow> n\<lparr>m_pending_breakpoint_request := None\<rparr>
           | Some cb \<Rightarrow> effect (Post_breakpoints_callback cb (Some operation_canceled) []) (n\<lparr>m_pending_breakpoint_request := None\<rparr>)))"

definition disconnect :: "node_state \<Rightarrow> node_state" where
  "disconnect n = set_status disconnected (cancel_pending_breakpoint_request (cancel_pending_step_request n))"

section \<open>Variables\<close>

text \<open>The properties of an unordered map keep the first value of a name.\<close>

definition insert_property :: "bytes \<Rightarrow> property \<Rightarrow> properties_map \<Rightarrow> properties_map" where
  "insert_property nm p m = (if map_of m nm = None then m @ [(nm, p)] else m)"

text \<open>The variables by ascending addresses; the first variable of an address is kept. An address of the map has 32 bits, of
  which the variable keeps 16. The search is a binary one, which finds the first variable that is not below the address as
  long as the variables are sorted.\<close>

fun insert_variable :: "u32 \<Rightarrow> vm_variable \<Rightarrow> vm_variable list \<Rightarrow> vm_variable list option" where
  "insert_variable start v [] = Some [v]"
| "insert_variable start v (w # us) =
     (if ucast (var_start w) < start then map_option (Cons w) (insert_variable start v us)
      else if ucast (var_start w) = start then None
      else Some (v # w # us))"

definition known_variable :: "wstring \<times> u32 \<times> u32 \<Rightarrow> vm_variable" where
  "known_variable e = (case e of (name, start, sz) \<Rightarrow>
     \<lparr>var_name = WStringToUTF8 name, var_start = ucast start, var_size = ucast sz, var_value = []\<rparr>)"

fun known_variables ::
  "variables_map \<Rightarrow> vm_variable list \<Rightarrow> properties_map \<Rightarrow> vm_variable list \<times> properties_map" where
  "known_variables [] vs removed = (vs, removed)"
| "known_variables (e # es) vs removed =
     (case insert_variable (fst (snd e)) (known_variable e) vs of
        None \<Rightarrow> known_variables es vs removed
      | Some vs' \<Rightarrow> known_variables es vs' (filter (\<lambda>(nm, p). nm \<noteq> var_name (known_variable e)) removed))"

definition reset_known_variables :: "variables_map \<Rightarrow> node_state \<Rightarrow> node_state" where
  "reset_known_variables variables n =
     (case known_variables variables [] (foldl (\<lambda>m v. insert_property (var_name v) Null m) [] (m_variables n)) of
        (vs, removed) \<Rightarrow> (effect (Variables_changed removed) (n\<lparr>m_variables := vs\<rparr>))\<lparr>m_resend_all_variables := True\<rparr>)"

text \<open>The values of a message: the index of the variable that holds the address is searched from the last one on.\<close>

definition holds_address :: "u16 \<Rightarrow> vm_variable \<Rightarrow> bool" where
  "holds_address start v \<longleftrightarrow> var_start v \<le> start \<and> unat start < unat (var_start v) + unat (var_size v)"

definition resized :: "vm_variable \<Rightarrow> i16 list" where
  "resized v = take (unat (var_size v)) (var_value v @ replicate (unat (var_size v)) 0)"

definition fwversion :: bytes where
  "fwversion = WStringToUTF8 (ws ''_fwversion'')"

text \<open>The data for one variable: the new variable, and whether it changed.\<close>

definition assign_values :: "vm_variable \<Rightarrow> nat \<Rightarrow> i16 list \<Rightarrow> vm_variable \<times> bool" where
  "assign_values v offset vals =
     (let old = resized v; forced = (unat (var_size v) \<noteq> length (var_value v)) in
      if forced \<or> take (length vals) (drop offset old) \<noteq> vals
      then (v\<lparr>var_value := take offset old @ vals @ drop (offset + length vals) old\<rparr>, True)
      else (v\<lparr>var_value := old\<rparr>, False))"

definition firmware_change :: "vm_variable \<Rightarrow> node_state \<Rightarrow> node_state" where
  "firmware_change v n =
     (if var_name v = fwversion \<and> m_firmware_version n \<noteq> sint (var_value v ! 0)
      then set_status (m_status n) (n\<lparr>m_firmware_version := sint (var_value v ! 0)\<rparr>) else n)"

text \<open>A turn without data for the variable would repeat forever; the address is always inside the variable, so that
  every turn consumes data.\<close>

function set_variables :: "u16 \<Rightarrow> i16 list \<Rightarrow> nat \<Rightarrow> properties_map \<Rightarrow> node_state \<Rightarrow> properties_map \<times> node_state" where
  "set_variables start data it changed n =
     (if data = [] then (changed, n)
      else
        case find (\<lambda>k. holds_address start (m_variables n ! k)) [it..<length (m_variables n)] of
          None \<Rightarrow> (changed, n)
        | Some k \<Rightarrow>
            let v = m_variables n ! k; offset = unat start - unat (var_start v);
                count = min (unat (var_size v) - offset) (length data);
                (v', isNew) = assign_values v offset (take count data);
                n' = n\<lparr>m_variables := (m_variables n)[k := v']\<rparr>;
                changed' = (if isNew then insert_property (var_name v) (aseba_variable_from_range (var_value v')) changed else changed);
                n'' = (if isNew then firmware_change v' n' else n')
            in set_variables (start + word_of_nat count) (drop count data) k changed' n'')"
  by pat_completeness auto
termination
proof (relation "measure (\<lambda>(start, data, it, changed, n). length data)")
  fix start and data :: "i16 list" and it changed n k v offset count x v' isNew n' changed' n''
  assume "data \<noteq> []" and k: "find (\<lambda>k. holds_address start (m_variables n ! k)) [it..<length (m_variables n)] = Some k"
    and "v = m_variables n ! k" "offset = unat start - unat (var_start v)"
    and "count = min (unat (var_size v) - offset) (length data)"
  moreover from k have "holds_address start (m_variables n ! k)" by (auto simp: find_Some_iff)
  ultimately have "0 < count" by (auto simp: holds_address_def word_le_nat_alt)
  with \<open>data \<noteq> []\<close> show "((start + word_of_nat count, drop count data, k, changed', n''), start, data, it, changed, n)
      \<in> measure (\<lambda>(start, data, it, changed, n). length data)"
    by simp
qed simp

declare set_variables.simps [simp del]

definition variables_of :: "node_state \<Rightarrow> properties_map" where
  "variables_of n = foldl (\<lambda>m v. insert_property (var_name v) (aseba_variable_from_range (var_value v)) m) [] (m_variables n)"

definition schedule_variables_update :: "nat \<Rightarrow> node_state \<Rightarrow> node_state" where
  "schedule_variables_update delay n = effect (Start_timer Variables_timer delay) n"

definition on_variables_message :: "(u16 \<times> i16 list) list \<Rightarrow> node_state \<Rightarrow> node_state" where
  "on_variables_message areas n =
     (case fold (\<lambda>(start, data) (changed, n). set_variables start data 0 changed n) areas ([], n) of
        (changed, n') \<Rightarrow> schedule_variables_update 100 (effect (Variables_changed changed) n'))"

definition connect_to_variables_changes :: "node_state \<Rightarrow> node_state" where
  "connect_to_variables_changes n = schedule_variables_update 100 (n\<lparr>m_resend_all_variables := True\<rparr>)"

definition on_event_received :: "properties_map \<Rightarrow> node_state \<Rightarrow> node_state" where
  "on_event_received m n = effect (Events_received m) n"

text \<open>The requests for all variables, cut at variable boundaries.\<close>

fun variable_requests :: "u16 \<Rightarrow> vm_variable list \<Rightarrow> u16 \<Rightarrow> u16 \<Rightarrow> body list" where
  "variable_requests dest [] start sz = (if 0 < sz then [GetVariables dest start sz] else [])"
| "variable_requests dest (v # vs) start sz =
     (if unat sz + unat (var_size v) > ASEBA_MAX_EVENT_ARG_COUNT - 2
      then GetVariables dest start sz # variable_requests dest vs (start + sz) (var_size v)
      else variable_requests dest vs start (sz + var_size v))"

definition request_variables :: "node_state \<Rightarrow> node_state" where
  "request_variables n =
     (if \<not> m_resend_all_variables n \<and> 100 \<le> protocolVersion (m_description n)
      then write_messages_to [GetChangedVariables (m_id n)] No_callback n
      else write_messages_to (variable_requests (m_id n) (m_variables n) 0 0) No_callback (n\<lparr>m_resend_all_variables := False\<rparr>))"

text \<open>The messages that set variables, or the error of the first one that cannot be set.\<close>

definition variable_message :: "node_state \<Rightarrow> bytes \<times> property \<Rightarrow> tdm_error + body" where
  "variable_message n e =
     (case find (\<lambda>v. var_name v = fst e) (m_variables n) of
        None \<Rightarrow> Inl no_such_variable
      | Some v \<Rightarrow> bindR (to_aseba_variable (snd e) (var_size v)) (\<lambda>vals. Inr (SetVariables (m_id n) (var_start v) vals)))"

definition set_node_variables :: "properties_map \<Rightarrow> node_callback \<Rightarrow> node_state \<Rightarrow> tdm_error option \<times> node_state" where
  "set_node_variables m cb n =
     (case mapR (variable_message n) m of
        Inl e \<Rightarrow> (Some e, n)
      | Inr messages \<Rightarrow> (None, write_messages_to messages cb n))"

definition on_variables_timer :: "bool \<Rightarrow> node_state \<Rightarrow> node_state" where
  "on_variables_timer watched n =
     (if m_status n = disconnected then n
      else schedule_variables_update 1000 (if watched then request_variables n else n))"

section \<open>Execution and steps\<close>

definition request_execution_state :: "node_state \<Rightarrow> node_state" where
  "request_execution_state n = write_message (GetExecutionState (m_id n)) No_callback n"

definition schedule_execution_state_update :: "node_state \<Rightarrow> node_state" where
  "schedule_execution_state_update n = effect (Start_timer Status_timer 1000) (request_execution_state n)"

definition on_status_timer :: "node_state \<Rightarrow> node_state" where
  "on_status_timer n = (if m_status n = disconnected then n else schedule_execution_state_update n)"

definition line_from_pc :: "node_state \<Rightarrow> u32 \<Rightarrow> u32" where
  "line_from_pc n pc =
     (if 5 \<le> pc \<and> unat pc < length (m_bytecode n) then ucast (line (m_bytecode n ! unat pc)) + 1 else 0)"

definition handle_step_request :: "node_state \<Rightarrow> node_state" where
  "handle_step_request n =
     (case m_pending_step_request n of
        None \<Rightarrow> n
      | Some r \<Rightarrow>
          if vm_state n \<noteq> Paused then cancel_pending_step_request n
          else if vm_line n \<noteq> ucast (sr_line r)
          then (case sr_cb r of None \<Rightarrow> n | Some cb \<Rightarrow> effect (Post_step_callback cb (sr_error r)) n)\<lparr>m_pending_step_request := None\<rparr>
          else write_message (Step (m_id n)) (Step_written (sr_id r)) n)"

definition step_to_next_line :: "nat option \<Rightarrow> node_state \<Rightarrow> node_state" where
  "step_to_next_line cb n =
     (let n' = cancel_pending_step_request n in
      handle_step_request (n'\<lparr>request_count := Suc (request_count n'),
        m_pending_step_request := Some \<lparr>sr_id = request_count n', sr_line = ucast (vm_line n'), sr_error = None, sr_cb = cb\<rparr>\<rparr>))"

definition step_written :: "nat \<Rightarrow> tdm_error option \<Rightarrow> node_state \<Rightarrow> node_state" where
  "step_written i ec n =
     (case ec of
        None \<Rightarrow> n
      | Some e \<Rightarrow>
          (case m_pending_step_request n of
             Some r \<Rightarrow>
               if sr_id r = i then cancel_pending_step_request (n\<lparr>m_pending_step_request := Some (r\<lparr>sr_error := Some e\<rparr>)\<rparr>) else n
           | None \<Rightarrow> n))"

definition ASEBA_VM_EVENT_ACTIVE_MASK :: u16 where "ASEBA_VM_EVENT_ACTIVE_MASK = 1"
definition ASEBA_VM_STEP_BY_STEP_MASK :: u16 where "ASEBA_VM_STEP_BY_STEP_MASK = 2"

definition state_of_flags :: "u16 \<Rightarrow> VMExecutionState" where
  "state_of_flags flags =
     (if flags AND ASEBA_VM_STEP_BY_STEP_MASK \<noteq> 0
      then if flags AND ASEBA_VM_EVENT_ACTIVE_MASK \<noteq> 0 then Paused else Stopped
      else Running)"

definition on_execution_state_message :: "u16 \<Rightarrow> u16 \<Rightarrow> node_state \<Rightarrow> node_state" where
  "on_execution_state_message pc flags n =
     (let n1 = fold (\<lambda>(cb, r). effect (Post_callback_pending cb r)) (m_callbacks_pending n) n;
          n2 = n1\<lparr>m_callbacks_pending := [], vm_pc := uint pc, vm_line := line_from_pc n (ucast pc), vm_flags := uint flags,
                  vm_state := state_of_flags flags\<rparr>;
          n3 = handle_step_request n2
      in if m_pending_step_request n3 \<noteq> None then n3
         else effect (Vm_state_changed \<lparr>es_state = vm_state n2, es_line = vm_line n2, es_error = NoError, es_message = None\<rparr>) n3)"

definition execution_state :: "node_state \<Rightarrow> vm_execution_state" where
  "execution_state n = \<lparr>es_state = vm_state n, es_line = vm_line n, es_error = NoError, es_message = None\<rparr>"

definition runtime_error :: "body \<Rightarrow> (VMExecutionError \<times> bytes \<times> u16) option" where
  "runtime_error b =
     (case b of
        ArrayAccessOutOfBounds pc _ _ \<Rightarrow> Some (OutOfBoundAccess, WStringToUTF8 (ws ''Out of bound access''), pc)
      | DivisionByZero pc \<Rightarrow> Some (DivisionByZeroError, WStringToUTF8 (ws ''Division by 0''), pc)
      | EventExecutionKilled pc \<Rightarrow> Some (Killed, WStringToUTF8 (ws ''VM Execution killed''), pc)
      | NodeSpecificError pc message \<Rightarrow> Some (GenericError, WStringToUTF8 message, pc)
      | _ \<Rightarrow> None)"

definition on_vm_runtime_error :: "body \<Rightarrow> node_state \<Rightarrow> node_state" where
  "on_vm_runtime_error b n =
     (case runtime_error b of
        None \<Rightarrow> n
      | Some (err, text', pc) \<Rightarrow>
          let n1 = cancel_pending_step_request n;
              n2 = n1\<lparr>vm_pc := uint pc, vm_state := Stopped, vm_line := line_from_pc n1 (ucast pc)\<rparr>
          in effect (Vm_state_changed \<lparr>es_state = vm_state n2, es_line = vm_line n2, es_error = err, es_message = Some text'\<rparr>) n2)"

section \<open>Breakpoints\<close>

text \<open>The first word of a line: lines of the program count from 1, those of the code from 0.\<close>

definition pc_from_line :: "node_state \<Rightarrow> u32 \<Rightarrow> u32 option" where
  "pc_from_line n l =
     map_option word_of_nat (find (\<lambda>i. uint (line (m_bytecode n ! i)) = sint l - 1) [0..<length (m_bytecode n)])"

definition insert_line :: "u32 \<Rightarrow> u32 list \<Rightarrow> u32 list" where
  "insert_line b bs = (if b \<in> set bs then bs else bs @ [b])"

definition set_line :: "node_state \<Rightarrow> u32 \<Rightarrow> body list \<times> breakpoint_request \<Rightarrow> body list \<times> breakpoint_request" where
  "set_line n b s =
     (case s of (messages, r) \<Rightarrow>
        if b \<in> set (m_breakpoints n) then (messages, r\<lparr>br_set := insert_line b (br_set r)\<rparr>)
        else
          case pc_from_line n b of
            None \<Rightarrow> (messages, r)
          | Some pc \<Rightarrow>
              (messages @ [BreakpointSet (m_id n) (ucast pc)],
               r\<lparr>br_pending := AList.update pc b (br_pending r)\<rparr>))"

definition clear_line :: "node_state \<Rightarrow> u32 list \<Rightarrow> u32 \<Rightarrow> body list" where
  "clear_line n breakpoints b =
     (case pc_from_line n b of
        None \<Rightarrow> []
      | Some pc \<Rightarrow> if b \<in> set breakpoints then [] else [BreakpointClear (m_id n) (ucast pc)])"

definition breakpoint_messages :: "u32 list \<Rightarrow> node_state \<Rightarrow> breakpoint_request \<Rightarrow> body list \<times> breakpoint_request" where
  "breakpoint_messages breakpoints n r =
     (if breakpoints = [] then ([BreakpointClearAll (m_id n)], r)
      else
        case fold (set_line n) breakpoints ([], r) of
          (messages, r') \<Rightarrow> (messages @ concat (map (clear_line n breakpoints) (m_breakpoints n)), r'))"

definition post_breakpoints :: "breakpoint_request \<Rightarrow> node_state \<Rightarrow> node_state" where
  "post_breakpoints r n = (case br_cb r of None \<Rightarrow> n | Some cb \<Rightarrow> effect (Post_breakpoints_callback cb (br_error r) (br_set r)) n)"

text \<open>An empty callback is posted where the code does not test it; calling it throws in the event loop, which the model
  leaves out.\<close>

definition set_breakpoints :: "u32 list \<Rightarrow> nat option \<Rightarrow> node_state \<Rightarrow> node_state" where
  "set_breakpoints breakpoints cb n =
     (let i = request_count n;
          (messages, r) = breakpoint_messages breakpoints n
            \<lparr>br_id = i, br_pending = [], br_set = [], br_error = None, br_cb = cb\<rparr>;
          n1 = cancel_pending_breakpoint_request (n\<lparr>request_count := Suc i, m_breakpoints := fold insert_line breakpoints []\<rparr>);
          n2 = (if cb = None then n1 else n1\<lparr>m_pending_breakpoint_request := Some r\<rparr>);
          n3 = (if messages = [] then post_breakpoints r (n2\<lparr>m_breakpoints := br_set r, m_pending_breakpoint_request := None\<rparr>) else n2)
      in write_messages_to messages (Breakpoints_written i) n3)"

definition breakpoints_written :: "nat \<Rightarrow> tdm_error option \<Rightarrow> node_state \<Rightarrow> node_state" where
  "breakpoints_written i ec n =
     (case m_pending_breakpoint_request n of
        None \<Rightarrow> n
      | Some r \<Rightarrow>
          if br_id r \<noteq> i then n
          else
            let r' = r\<lparr>br_error := ec\<rparr> in
            if ec \<noteq> None \<or> br_pending r = []
            then post_breakpoints r' (n\<lparr>m_breakpoints := br_set r, m_pending_breakpoint_request := None\<rparr>)
            else n\<lparr>m_pending_breakpoint_request := Some r'\<rparr>)"

definition on_breakpoint_set_result :: "u16 \<Rightarrow> u16 \<Rightarrow> node_state \<Rightarrow> node_state" where
  "on_breakpoint_set_result pc success n =
     (case m_pending_breakpoint_request n of
        None \<Rightarrow> n
      | Some r \<Rightarrow>
          (case map_of (br_pending r) (ucast pc) of
             None \<Rightarrow> n
           | Some b \<Rightarrow>
               let r' = r\<lparr>br_set := (if success \<noteq> 0 then insert_line b (br_set r) else br_set r),
                          br_pending := AList.delete (ucast pc) (br_pending r)\<rparr>
               in if br_pending r' = []
                  then post_breakpoints r' (n\<lparr>m_breakpoints := br_set r', m_pending_breakpoint_request := None\<rparr>)
                  else n\<lparr>m_pending_breakpoint_request := Some r'\<rparr>))"

section \<open>Identity of the device\<close>

definition DEVICE_INFO_UUID :: u32 where "DEVICE_INFO_UUID = 1"
definition DEVICE_INFO_NAME :: u32 where "DEVICE_INFO_NAME = 2"
definition DEVICE_INFO_THYMIO2_RF_SETTINGS :: u32 where "DEVICE_INFO_THYMIO2_RF_SETTINGS = 3"
definition MAX_FRIENDLY_NAME_SIZE :: nat where "MAX_FRIENDLY_NAME_SIZE = 30"

definition request_device_info :: "node_state \<Rightarrow> node_state" where
  "request_device_info n =
     (if m_uuid_received n \<or> protocolVersion (m_description n) < 6 then n
      else
        let n1 = write_message (GetDeviceInfo (m_id n) DEVICE_INFO_NAME) No_callback n;
            n2 = (if 9 \<le> protocolVersion (m_description n)
                  then write_message (GetDeviceInfo (m_id n) DEVICE_INFO_THYMIO2_RF_SETTINGS) No_callback n1 else n1);
            n3 = write_message (GetDeviceInfo (m_id n) DEVICE_INFO_UUID) No_callback n2
        in effect (Start_timer Resend_timer 1000) n3)"

text \<open>Words of the settings are little-endian, as on the machine. The random identifier is an argument.\<close>

definition rf_word :: "u8 list \<Rightarrow> nat \<Rightarrow> u16" where
  "rf_word bs i = ucast (bs ! (2 * i)) OR push_bit 8 (ucast (bs ! (2 * i + 1)))"

definition on_device_info :: "node_id \<Rightarrow> u32 \<Rightarrow> u8 list \<Rightarrow> node_state \<Rightarrow> node_state" where
  "on_device_info fresh info data n =
     (if info = DEVICE_INFO_UUID then
        let n1 = effect (Cancel_timer Resend_timer) n;
            u1 = (if length data = 16 then data else m_uuid n);
            save = (u1 = nil_uuid \<or> length data \<noteq> 16);
            u2 = (if u1 = nil_uuid then fresh else u1);
            n2 = n1\<lparr>m_uuid := u2\<rparr>;
            n3 = (if save then write_message (SetDeviceInfo (m_id n) DEVICE_INFO_UUID u2) No_callback n2 else n2)
        in set_status available (effect Registry_uuid_change n3)
      else if info = DEVICE_INFO_NAME then set_status (m_status n) (n\<lparr>m_friendly_name := data\<rparr>)
      else if info = DEVICE_INFO_THYMIO2_RF_SETTINGS then
        if length data \<noteq> 6 then n else n\<lparr>m_rf_settings := (rf_word data 0, rf_word data 1, rf_word data 2)\<rparr>
      else n)"

definition set_friendly_name :: "bytes \<Rightarrow> node_state \<Rightarrow> node_state" where
  "set_friendly_name str n =
     (if str = [] \<or> length str > MAX_FRIENDLY_NAME_SIZE then n
      else (write_message (SetDeviceInfo (m_id n) DEVICE_INFO_NAME str) No_callback n)\<lparr>m_friendly_name := str\<rparr>)"

definition rename :: "bytes \<Rightarrow> node_state \<Rightarrow> node_state" where
  "rename str n = write_message (GetDeviceInfo (m_id n) DEVICE_INFO_NAME) No_callback (set_friendly_name str n)"

definition rf_bytes :: "u16 \<Rightarrow> u8 list" where
  "rf_bytes w = [ucast w, ucast (drop_bit 8 w)]"

definition set_rf_settings :: "u16 \<Rightarrow> u16 \<Rightarrow> u8 \<Rightarrow> node_state \<Rightarrow> bool \<times> node_state" where
  "set_rf_settings network node' channel n =
     (if protocolVersion (m_description n) < 9 then (False, n)
      else
        let node'' = (if node' = 0 then m_id n else node');
            data = rf_bytes network @ rf_bytes node'' @ rf_bytes (ucast channel);
            reboot = write_message (Reboot (m_id n)) No_callback
        in (True, reboot (reboot (write_message (SetDeviceInfo (m_id n) DEVICE_INFO_THYMIO2_RF_SETTINGS data) No_callback n))))"

section \<open>Reception of the description\<close>

text \<open>A version is converted to a request for the fragment that follows the received ones.\<close>

definition request_next_description_fragment :: "node_state \<Rightarrow> node_state" where
  "request_next_description_fragment n =
     (let fragment = (if 0 < protocolVersion (m_description n)
                      then counter_variables n + counter_functions n + counter_events n else - 1)
      in effect (Start_timer Resend_timer 1000)
           (write_message (GetNodeDescriptionFragment (m_id n) ASEBA_PROTOCOL_VERSION fragment) No_callback n))"

definition get_description :: "node_state \<Rightarrow> node_state" where
  "get_description n =
     (if 8 \<le> m_protocol_version n then request_next_description_fragment n
      else write_message (GetNodeDescription (m_id n) ASEBA_PROTOCOL_VERSION) No_callback n)"

definition safe_description_update :: "('a \<Rightarrow> wstring) \<Rightarrow> 'a \<Rightarrow> 'a list \<Rightarrow> u16 \<Rightarrow> 'a list \<times> u16" where
  "safe_description_update name_of d xs counter =
     (if unat counter \<ge> length xs then (xs, counter)
      else if list_ex (\<lambda>x. name_of x = name_of d) xs then (xs, counter)
      else (xs[unat counter := d], counter + 1))"

definition on_description_received :: "node_state \<Rightarrow> node_state" where
  "on_description_received n =
     (let n1 = reset_known_variables (fst (getVariablesMap (m_description n))) n;
          n2 = schedule_execution_state_update (schedule_variables_update 100 n1);
          n3 = (case find (\<lambda>v. var_name v = fwversion) (m_variables n2) of
                  None \<Rightarrow> n2
                | Some v \<Rightarrow> write_message (GetVariables (m_id n2) (var_start v) (var_size v)) No_callback n2)
      in if 6 \<le> protocolVersion (m_description n3) \<and> node_type_of n3 \<in> {Thymio2, Thymio2Wireless}
         then request_device_info n3
         else set_status available n3)"

definition description_ready :: "node_state \<Rightarrow> bool" where
  "description_ready n \<longleftrightarrow>
     td_name (m_description n) \<noteq> [] \<and>
     unat (counter_variables n) = length (namedVariables (m_description n)) \<and>
     unat (counter_events n) = length (localEvents (m_description n)) \<and>
     unat (counter_functions n) = length (nativeFunctions (m_description n))"

definition receive_fragment :: "body \<Rightarrow> node_state \<Rightarrow> node_state" where
  "receive_fragment b n =
     (let d = m_description n in
      case b of
        Description d' \<Rightarrow> n\<lparr>m_description := d'\<rparr>
      | NamedVariableDescription v \<Rightarrow>
          (case safe_description_update nv_name v (namedVariables d) (counter_variables n) of
             (vs, k) \<Rightarrow> n\<lparr>m_description := d\<lparr>namedVariables := vs\<rparr>, counter_variables := k\<rparr>)
      | LocalEventDescription e \<Rightarrow>
          (case safe_description_update le_name e (localEvents d) (counter_events n) of
             (es, k) \<Rightarrow> n\<lparr>m_description := d\<lparr>localEvents := es\<rparr>, counter_events := k\<rparr>)
      | NativeFunctionDescription f \<Rightarrow>
          (case safe_description_update nf_name f (nativeFunctions d) (counter_functions n) of
             (fs, k) \<Rightarrow> n\<lparr>m_description := d\<lparr>nativeFunctions := fs\<rparr>, counter_functions := k\<rparr>)
      | _ \<Rightarrow> n)"

definition handle_description_messages :: "body \<Rightarrow> node_state \<Rightarrow> node_state" where
  "handle_description_messages b n =
     (let n1 = effect (Cancel_timer Resend_timer) (receive_fragment b n) in
      if description_ready n1 then on_description_received n1
      else if 8 \<le> m_protocol_version n1 then request_next_description_fragment n1
      else n1)"

definition on_message :: "node_id \<Rightarrow> body \<Rightarrow> node_state \<Rightarrow> node_state" where
  "on_message fresh b n =
     (case b of
        DeviceInfo info data \<Rightarrow> on_device_info fresh info data n
      | Variables start vs \<Rightarrow> on_variables_message [(start, vs)] n
      | ChangedVariables areas \<Rightarrow> on_variables_message areas n
      | ExecutionStateChanged pc flags \<Rightarrow> on_execution_state_message pc flags n
      | ArrayAccessOutOfBounds _ _ _ \<Rightarrow> on_vm_runtime_error b n
      | DivisionByZero _ \<Rightarrow> on_vm_runtime_error b n
      | EventExecutionKilled _ \<Rightarrow> on_vm_runtime_error b n
      | NodeSpecificError _ _ \<Rightarrow> on_vm_runtime_error b n
      | BreakpointSetResult pc success \<Rightarrow> on_breakpoint_set_result pc success n
      | Description _ \<Rightarrow> handle_description_messages b n
      | NamedVariableDescription _ \<Rightarrow> handle_description_messages b n
      | LocalEventDescription _ \<Rightarrow> handle_description_messages b n
      | NativeFunctionDescription _ \<Rightarrow> handle_description_messages b n
      | _ \<Rightarrow> n)"

section \<open>Programs\<close>

text \<open>The compiler of a node: the definitions of its endpoint, its description. A program is compiled to its outcome, the
  bytecode it leaves, and the variables the compiler knows; after an error these are the ones it knew when the error
  was thrown, which are an argument.\<close>

definition compiler_of :: "target_description \<Rightarrow> common_definitions \<Rightarrow> compiler" where
  "compiler_of d defs =
     \<lparr>variablesMap = [], implementedEvents = {}, functionsMap = [], constantsMap = [], globalEventsMap = [],
      allEventsMap = [], subroutineTable = [], subroutineReverseTable = [], freeVariableIndex = 0, endVariableIndex = 0,
      targetDescription = d, commonDefinitions = defs\<rparr>"

definition do_compile_program ::
  "(wchar \<Rightarrow> bool) \<Rightarrow> u32 \<Rightarrow> variables_map \<Rightarrow> programming_language \<Rightarrow> bytes \<Rightarrow> compiler \<Rightarrow> bytecode_element list \<Rightarrow>
    failure + (tdm_error + compilation_result) \<times> bytecode_element list \<times> variables_map" where
  "do_compile_program alnum u known language program c bytecode' =
     (if language = Aesl then Inr (Inl unsupported_language, bytecode', [])
      else
        case UTF8ToWString program of
          Inl _ \<Rightarrow> Inl Undefined
        | Inr text' \<Rightarrow>
            bindR (compile alnum c u text') (\<lambda>outcome.
            Inr (case outcome of
                Compiled bs count c' \<Rightarrow>
                  (Inr (Compilation_data (length bs) count (bytecodeSize (targetDescription c)) (variablesSize (targetDescription c))),
                   bs, variablesMap c')
              | Compile_error p e as bs \<Rightarrow>
                  (Inr (Compilation_error (character p) (row p) (column p) e as), bs, known))))"

definition with_compiler :: "(compiler \<Rightarrow> node_state \<Rightarrow> failure + 'a) \<Rightarrow> node_state \<Rightarrow> failure + 'a" where
  "with_compiler f n =
     (case m_endpoint n of None \<Rightarrow> Inl Undefined | Some ep \<Rightarrow> f (compiler_of (m_description n) (ep_definitions ep)) n)"

definition forget_requests :: "node_state \<Rightarrow> node_state" where
  "forget_requests n = cancel_pending_breakpoint_request (cancel_pending_step_request (n\<lparr>m_breakpoints := []\<rparr>))"

definition compile_and_send_program ::
  "(wchar \<Rightarrow> bool) \<Rightarrow> u32 \<Rightarrow> variables_map \<Rightarrow> programming_language \<Rightarrow> bytes \<Rightarrow> nat \<Rightarrow> node_state \<Rightarrow> failure + node_state" where
  "compile_and_send_program alnum u known language program cb n0 =
     with_compiler (\<lambda>c n.
       bindR (do_compile_program alnum u known language program c (m_bytecode n)) (\<lambda>(result, bs, vars).
       case result of
         Inl e \<Rightarrow> Inr (effect (Call_compilation_callback cb (Some e) No_result) (n\<lparr>m_bytecode := bs\<rparr>))
       | Inr r \<Rightarrow>
           let n1 = reset_known_variables vars (n\<lparr>m_bytecode := bs\<rparr>);
               n2 = write_messages_to (sendBytecode (m_id n) (map bytecode bs)) (Program_written cb r) n1
           in Inr (effect (Variables_changed (variables_of n2)) n2))) (forget_requests n0)"

definition program_written :: "nat \<Rightarrow> compilation_result \<Rightarrow> tdm_error option \<Rightarrow> node_state \<Rightarrow> node_state" where
  "program_written cb r ec n =
     (case ec of
        Some e \<Rightarrow> effect (Call_compilation_callback cb (Some e) r) n
      | None \<Rightarrow> n\<lparr>m_callbacks_pending := m_callbacks_pending n @ [(cb, r)]\<rparr>)"

definition compile_program ::
  "(wchar \<Rightarrow> bool) \<Rightarrow> u32 \<Rightarrow> programming_language \<Rightarrow> bytes \<Rightarrow> nat \<Rightarrow> node_state \<Rightarrow> failure + node_state" where
  "compile_program alnum u language program cb =
     with_compiler (\<lambda>c n.
       bindR (do_compile_program alnum u [] language program c []) (\<lambda>(result, bs, vars).
       Inr (case result of
              Inl e \<Rightarrow> effect (Post_compilation_callback cb (Some e) No_result) n
            | Inr r \<Rightarrow> effect (Post_compilation_callback cb None r) n)))"

definition compile_and_send_aseba_command :: "(wchar \<Rightarrow> bool) \<Rightarrow> u32 \<Rightarrow> bytes \<Rightarrow> node_state \<Rightarrow> failure + node_state" where
  "compile_and_send_aseba_command alnum u program =
     with_compiler (\<lambda>c n.
       bindR (do_compile_program alnum u [] Aseba program c []) (\<lambda>(result, bs, vars).
       Inr (write_messages_to (sendBytecode (m_id n) (map bytecode bs)) No_callback (n\<lparr>m_bytecode := bs\<rparr>))))"

definition stop_motors :: bytes where
  "stop_motors = WStringToUTF8 ([10] @ replicate 41 32 @ ws ''motor.left.target = 0'' @ [10] @
     replicate 41 32 @ ws ''motor.right.target = 0 '')"

text \<open>After a stop the callback was moved to the first message.\<close>

definition set_vm_execution_state ::
  "(wchar \<Rightarrow> bool) \<Rightarrow> u32 \<Rightarrow> VMExecutionStateCommand \<Rightarrow> nat option \<Rightarrow> node_state \<Rightarrow> failure + node_state" where
  "set_vm_execution_state alnum u command cb n =
     (let app = (case cb of None \<Rightarrow> No_callback | Some k \<Rightarrow> App_callback k); i = m_id n in
      case command of
        Cmd_Run \<Rightarrow> Inr (write_message (Run i) app n)
      | Cmd_Reset \<Rightarrow> Inr (write_message (Reset i) app n)
      | Cmd_Stop \<Rightarrow>
          bindR (compile_and_send_aseba_command alnum u stop_motors n) (\<lambda>n'.
          Inr (write_message (Stop i) No_callback (write_message (Run i) app n')))
      | Cmd_Pause \<Rightarrow> Inr (write_message (Pause i) app n)
      | Cmd_StepToNextLine \<Rightarrow> Inr (step_to_next_line cb n)
      | Cmd_Step \<Rightarrow> Inr (write_message (Step i) app n)
      | Cmd_Suspend \<Rightarrow> Inr (write_message (Sleep i) app n)
      | Cmd_Reboot \<Rightarrow> Inr (write_message (Reboot i) app n)
      | Cmd_WriteProgramToDeviceMemory \<Rightarrow> Inr (write_message (WriteBytecode i) app n))"

section \<open>Files of bytecode\<close>

definition swapByteOrder :: "u16 \<Rightarrow> u16" where
  "swapByteOrder us = drop_bit 8 us OR push_bit 8 us"

text \<open>The file: the letters of its type, the header, the code and its checksum. A firmware version without a value is read
  out of bounds.\<close>

definition abo_version :: "node_state \<Rightarrow> failure + u16 list" where
  "abo_version n =
     (case find (\<lambda>v. var_name v = fwversion) (m_variables n) of
        None \<Rightarrow> Inr []
      | Some v \<Rightarrow> (case var_value v of [] \<Rightarrow> Inl Undefined | w # _ \<Rightarrow> Inr [swapByteOrder w]))"

definition abo_file :: "u16 list \<Rightarrow> u16 list \<Rightarrow> node_state \<Rightarrow> u16 list" where
  "abo_file version data_buff n =
     (let d = m_description n in
      [65, 66, 79, 0, 0, swapByteOrder (ucast (protocolVersion d)), swapByteOrder 8] @ version @
      [swapByteOrder 1, swapByteOrder (crcXModem_wstring 0 (td_name d)), swapByteOrder (crc d),
       swapByteOrder (word_of_nat (length data_buff))] @
      map swapByteOrder data_buff @ [swapByteOrder (foldl crcXModem_u16 0 data_buff)])"

definition compile_and_save ::
  "(wchar \<Rightarrow> bool) \<Rightarrow> u32 \<Rightarrow> programming_language \<Rightarrow> bytes \<Rightarrow> nat \<Rightarrow> node_state \<Rightarrow> failure + u16 list \<times> node_state" where
  "compile_and_save alnum u language program cb n0 =
     with_compiler (\<lambda>c n.
       bindR (do_compile_program alnum u [] language program c (m_bytecode n)) (\<lambda>(result, bs, vars).
       let n1 = n\<lparr>m_bytecode := bs\<rparr>; data_buff = map bytecode bs in
       case result of
         Inl e \<Rightarrow> Inr (data_buff, effect (Call_compilation_callback cb (Some e) No_result) n1)
       | Inr r \<Rightarrow> bindR (abo_version n1) (\<lambda>version. Inr (abo_file version data_buff n1, n1)))) (forget_requests n0)"

end
