(* ===== verification/Node_Status.thy ===== *)
theory Node_Status
  imports Aseba_Node
begin

text \<open>
  Exclusive use of a node by an application, over all sequences of the operations of a node: requests of
  applications, messages of the robot, timers and completed writes.
\<close>

section \<open>What an operation leaves alone\<close>

text \<open>The operations other than the lock do not touch the application that holds it.\<close>

named_theorems kept_app \<open>operations that keep the application that uses a node\<close>

abbreviation app :: "node_state \<Rightarrow> nat" where
  "app n \<equiv> m_connected_app n"

lemma app_basics [kept_app]:
  "app (effect e n) = app n"
  "app (write_messages_to ms cb n) = app n"
  "app (write_message b cb n) = app n"
  "app (set_status s n) = app n"
  by (simp_all add: effect_def write_messages_to_def write_message_def set_status_def)

lemma app_requests [kept_app]:
  "app (cancel_pending_step_request n) = app n"
  "app (cancel_pending_breakpoint_request n) = app n"
  "app (disconnect n) = app n"
  "app (snd (upgrade_firmware n)) = app n"
  by (simp_all add: cancel_pending_step_request_def cancel_pending_breakpoint_request_def disconnect_def
    upgrade_firmware_def kept_app Let_def split: option.split)

lemma app_set_variables [kept_app]: "app (snd (set_variables start data it changed n)) = app n"
proof (induction start data it changed n rule: set_variables.induct)
  case (1 start data it changed n)
  then show ?case
    by (subst set_variables.simps) (auto simp: Let_def firmware_change_def kept_app split: option.splits prod.splits)
qed

lemma app_posted [kept_app]: "app (fold (\<lambda>(cb, r). effect (Post_callback_pending cb r)) cbs n) = app n"
  by (induction cbs arbitrary: n) (auto simp: kept_app)

lemma app_areas:
  "app (snd (fold (\<lambda>(start, data) (changed, n). set_variables start data 0 changed n) areas s)) = app (snd s)"
proof (induction areas arbitrary: s)
  case (Cons a areas)
  obtain start data changed n where "a = (start, data)" "s = (changed, n)" by (metis surj_pair)
  with Cons.IH [of "set_variables start data 0 changed n"] show ?case by (simp add: kept_app)
qed simp

lemma app_on_variables_message [kept_app]: "app (on_variables_message areas n) = app n"
  using app_areas [of areas "([], n)"]
  by (auto simp: on_variables_message_def schedule_variables_update_def kept_app split: prod.splits)

lemma app_variables [kept_app]:
  "app (reset_known_variables vs n) = app n"
  "app (request_variables n) = app n"
  "app (schedule_variables_update d n) = app n"
  "app (on_variables_timer w n) = app n"
  "app (connect_to_variables_changes n) = app n"
  "app (on_event_received m n) = app n"
  "app (set_available_firmware_version version n) = app n"
  "app (snd (set_node_variables m cb n)) = app n"
  by (simp_all add: connect_to_variables_changes_def on_event_received_def set_available_firmware_version_def
    reset_known_variables_def request_variables_def on_variables_timer_def set_node_variables_def
    schedule_variables_update_def kept_app split: prod.split sum.split)

lemma app_execution [kept_app]:
  "app (request_execution_state n) = app n"
  "app (schedule_execution_state_update n) = app n"
  "app (on_status_timer n) = app n"
  "app (handle_step_request n) = app n"
  "app (step_to_next_line cb n) = app n"
  "app (step_written i ec n) = app n"
  by (simp_all add: request_execution_state_def schedule_execution_state_update_def on_status_timer_def
    handle_step_request_def step_to_next_line_def step_written_def kept_app Let_def split: option.split)

lemma app_on_execution_state_message [kept_app]: "app (on_execution_state_message pc flags n) = app n"
  by (auto simp: on_execution_state_message_def kept_app Let_def)

lemma app_errors [kept_app]: "app (on_vm_runtime_error b n) = app n"
  by (simp add: on_vm_runtime_error_def kept_app Let_def split: option.split prod.split)

lemma app_breakpoints [kept_app]:
  "app (post_breakpoints r n) = app n"
  "app (set_breakpoints bs cb n) = app n"
  "app (breakpoints_written i ec n) = app n"
  "app (on_breakpoint_set_result pc ok n) = app n"
  by (auto simp: post_breakpoints_def set_breakpoints_def breakpoints_written_def on_breakpoint_set_result_def kept_app Let_def
    split: option.split prod.split)

lemma app_device [kept_app]:
  "app (request_device_info n) = app n"
  "app (on_device_info fresh info data n) = app n"
  "app (rename str n) = app n"
  "app (snd (set_rf_settings network node' channel n)) = app n"
  by (simp_all add: request_device_info_def on_device_info_def rename_def set_friendly_name_def set_rf_settings_def
    kept_app Let_def)

lemma app_description [kept_app]:
  "app (request_next_description_fragment n) = app n"
  "app (get_description n) = app n"
  "app (receive_fragment b n) = app n"
  "app (on_description_received n) = app n"
  "app (handle_description_messages b n) = app n"
  by (auto simp: request_next_description_fragment_def get_description_def receive_fragment_def on_description_received_def
    handle_description_messages_def kept_app Let_def split: body.split option.split prod.split)

lemma app_on_message [kept_app]: "app (on_message fresh b n) = app n"
  by (cases b) (simp_all add: on_message_def kept_app)

lemma app_programs:
  "compile_and_send_program alnum u known language program cb n = Inr n' \<Longrightarrow> app n' = app n"
  "compile_program alnum u language program cb n = Inr n' \<Longrightarrow> app n' = app n"
  "compile_and_save alnum u language program cb n = Inr (bs, n') \<Longrightarrow> app n' = app n"
  "set_vm_execution_state alnum u command cb' n = Inr n' \<Longrightarrow> app n' = app n"
  by (auto simp: compile_and_send_program_def compile_program_def compile_and_save_def set_vm_execution_state_def
    compile_and_send_aseba_command_def with_compiler_def forget_requests_def program_written_def kept_app Let_def
    split: option.splits sum.splits VMExecutionStateCommand.splits elim!: bindR_InrE)

section \<open>Runs of a node\<close>

datatype node_event =
    Ev_lock nat | Ev_unlock nat | Ev_upgrade | Ev_disconnect
  | Ev_message node_id body
  | Ev_variables_timer bool | Ev_status_timer | Ev_device_info_timer | Ev_fragment_timer
  | Ev_set_variables properties_map node_callback
  | Ev_set_breakpoints "u32 list" "nat option"
  | Ev_step_written nat "tdm_error option" | Ev_breakpoints_written nat "tdm_error option"
  | Ev_program_written nat compilation_result "tdm_error option"
  | Ev_execution VMExecutionStateCommand "nat option"
  | Ev_compile programming_language bytes nat | Ev_compile_and_send variables_map programming_language bytes nat
  | Ev_compile_and_save programming_language bytes nat
  | Ev_watch_variables | Ev_event properties_map | Ev_available_firmware int
  | Ev_rename bytes | Ev_rf_settings u16 u16 u8 | Ev_get_description

inductive node_step :: "(wchar \<Rightarrow> bool) \<Rightarrow> node_state \<Rightarrow> node_event \<Rightarrow> node_state \<Rightarrow> bool" for alnum where
  step_lock: "node_step alnum n (Ev_lock a) (snd (lock a n))"
| step_unlock: "node_step alnum n (Ev_unlock a) (snd (unlock a n))"
| step_upgrade: "node_step alnum n Ev_upgrade (snd (upgrade_firmware n))"
| step_disconnect: "node_step alnum n Ev_disconnect (disconnect n)"
| step_message: "node_step alnum n (Ev_message fresh b) (on_message fresh b n)"
| step_variables_timer: "node_step alnum n (Ev_variables_timer w) (on_variables_timer w n)"
| step_status_timer: "node_step alnum n Ev_status_timer (on_status_timer n)"
| step_device_info_timer: "node_step alnum n Ev_device_info_timer (request_device_info n)"
| step_fragment_timer: "node_step alnum n Ev_fragment_timer (request_next_description_fragment n)"
| step_set_variables: "node_step alnum n (Ev_set_variables m cb) (snd (set_node_variables m cb n))"
| step_set_breakpoints: "node_step alnum n (Ev_set_breakpoints bs cb') (set_breakpoints bs cb' n)"
| step_step_written: "node_step alnum n (Ev_step_written i ec) (step_written i ec n)"
| step_breakpoints_written: "node_step alnum n (Ev_breakpoints_written i ec) (breakpoints_written i ec n)"
| step_program_written: "node_step alnum n (Ev_program_written k r ec) (program_written k r ec n)"
| step_execution: "set_vm_execution_state alnum u command cb' n = Inr n' \<Longrightarrow> node_step alnum n (Ev_execution command cb') n'"
| step_compile: "compile_program alnum u language program k n = Inr n' \<Longrightarrow> node_step alnum n (Ev_compile language program k) n'"
| step_compile_and_send: "compile_and_send_program alnum u known language program k n = Inr n' \<Longrightarrow>
    node_step alnum n (Ev_compile_and_send known language program k) n'"
| step_compile_and_save: "compile_and_save alnum u language program k n = Inr (bs', n') \<Longrightarrow>
    node_step alnum n (Ev_compile_and_save language program k) n'"
| step_watch_variables: "node_step alnum n Ev_watch_variables (connect_to_variables_changes n)"
| step_event: "node_step alnum n (Ev_event m) (on_event_received m n)"
| step_available_firmware: "node_step alnum n (Ev_available_firmware version) (set_available_firmware_version version n)"
| step_rename: "node_step alnum n (Ev_rename str) (rename str n)"
| step_rf_settings: "node_step alnum n (Ev_rf_settings network node' channel) (snd (set_rf_settings network node' channel n))"
| step_get_description: "node_step alnum n Ev_get_description (get_description n)"

inductive node_run :: "(wchar \<Rightarrow> bool) \<Rightarrow> node_state \<Rightarrow> node_event list \<Rightarrow> node_state \<Rightarrow> bool" for alnum where
  run_none: "node_run alnum n [] n"
| run_step: "node_run alnum n es n1 \<Longrightarrow> node_step alnum n1 e n2 \<Longrightarrow> node_run alnum n (es @ [e]) n2"

lemma node_step_app:
  assumes "node_step alnum n e n'" and "\<forall>a. e \<noteq> Ev_lock a \<and> e \<noteq> Ev_unlock a"
  shows "app n' = app n"
  using assms by cases (auto simp: kept_app app_programs program_written_def split: option.split)

lemma node_step_exclusive:
  assumes "node_step alnum n e n'" and "app n = a" "a \<noteq> 0" "e \<noteq> Ev_unlock a"
  shows "app n' = a"
proof (cases "\<exists>b. e = Ev_lock b \<or> e = Ev_unlock b")
  case True
  with assms show ?thesis by (auto simp: lock_def unlock_def kept_app elim!: node_step.cases split: if_splits)
next
  case False
  with assms node_step_app show ?thesis by metis
qed

text \<open>C23: Once an application has locked a node, no other application gets it before the first one unlocks it, whatever
  the robot sends and whatever is requested in between: a lock of another application is refused and changes
  nothing, an unlock of another application is refused and changes nothing.\<close>

theorem lock_exclusive:
  assumes "node_run alnum n es n'" and "app n = a" "a \<noteq> 0" and "Ev_unlock a \<notin> set es" and "b \<noteq> a"
  shows "lock b n' = (False, n') \<and> unlock b n' = (False, n') \<and> fst (lock a n')"
proof -
  from assms(1-4) have "app n' = a"
  proof (induction rule: node_run.induct)
    case (run_step n es n1 e n2)
    then show ?case using node_step_exclusive [of alnum n1 e n2 a] by auto
  qed
  with assms(3,5) show ?thesis by (auto simp: lock_def unlock_def)
qed

text \<open>The status does not follow the lock: when the robot sends its identifier again while an application holds the
  node, the node becomes available, and its firmware can be upgraded although it is locked.\<close>

theorem locked_node_becomes_available:
  assumes "m_status n = available" and "m_connected_app n = 0" and "a \<noteq> 0" and "m_endpoint n = Some ep" and "\<not> ep_wireless ep"
  shows "fst (lock a n) \<and>
    m_status (on_message fresh (DeviceInfo DEVICE_INFO_UUID data) (snd (lock a n))) = available \<and>
    m_connected_app (on_message fresh (DeviceInfo DEVICE_INFO_UUID data) (snd (lock a n))) = a \<and>
    fst (upgrade_firmware (on_message fresh (DeviceInfo DEVICE_INFO_UUID data) (snd (lock a n))))"
proof -
  have ep: "m_endpoint (on_device_info fresh DEVICE_INFO_UUID data n') = m_endpoint n'"
    "m_status (on_device_info fresh DEVICE_INFO_UUID data n') = available" for n'
    by (simp_all add: on_device_info_def Let_def set_status_def effect_def write_message_def write_messages_to_def)
  have locked: "lock a n = (True, set_status busy (n\<lparr>m_connected_app := a\<rparr>))" using assms(1-3) by (simp add: lock_def)
  have "m_endpoint (set_status busy (n\<lparr>m_connected_app := a\<rparr>)) = Some ep"
    using assms(4) by (simp add: set_status_def effect_def)
  then show ?thesis
    using assms(5) by (simp add: locked on_message_def ep kept_app upgrade_firmware_def is_wirelessly_connected_def Let_def)
qed

section \<open>Witnesses\<close>

definition sample_endpoint :: endpoint_view where
  "sample_endpoint = \<lparr>ep_wireless = False, ep_type = EP_thymio, ep_name = [], ep_definitions = \<lparr>events = [], constants = []\<rparr>\<rparr>"

definition sample_node :: node_state where
  "sample_node = (create_node 5 9 (replicate 16 1) (Some sample_endpoint))\<lparr>m_status := available\<rparr>"

lemma sample_locked: "app (snd (lock 7 sample_node)) = 7"
  by (simp add: lock_def sample_node_def create_node_def aseba_node_def set_status_def effect_def)

theorem lock_exclusive_witness:
  "lock 8 (disconnect (snd (lock 7 sample_node))) = (False, disconnect (snd (lock 7 sample_node))) \<and>
   unlock 8 (disconnect (snd (lock 7 sample_node))) = (False, disconnect (snd (lock 7 sample_node))) \<and>
   fst (lock 7 (disconnect (snd (lock 7 sample_node))))"
proof (rule lock_exclusive)
  show "node_run ascii_alnum (snd (lock 7 sample_node)) [Ev_disconnect] (disconnect (snd (lock 7 sample_node)))"
    using run_step [OF run_none step_disconnect] by simp
  show "app (snd (lock 7 sample_node)) = 7" by (rule sample_locked)
qed simp_all

end
