(* ===== verification/Node_Description.thy ===== *)
theory Node_Description
  imports Node_Status
begin

text \<open>
  The description of a robot arrives as a message with the numbers of its variables, events and functions, followed by one
  message for each of them, which may be repeated. The node rebuilds the description from them.
\<close>

section \<open>What an operation leaves alone\<close>

text \<open>The description and the counters of its fragments.\<close>

definition received :: "node_state \<Rightarrow> target_description \<times> u16 \<times> u16 \<times> u16" where
  "received n = (m_description n, counter_variables n, counter_events n, counter_functions n)"

named_theorems kept_received \<open>operations that keep what was received of the description\<close>

lemma received_basics [kept_received]:
  "received (effect e n) = received n"
  "received (write_messages_to ms cb n) = received n"
  "received (write_message b cb n) = received n"
  "received (set_status s n) = received n"
  "received (n\<lparr>m_variables := vs\<rparr>) = received n"
  "received (n\<lparr>m_resend_all_variables := r\<rparr>) = received n"
  by (simp_all add: received_def effect_def write_messages_to_def write_message_def set_status_def)

lemma received_description [kept_received]:
  "received (reset_known_variables vs n) = received n"
  "received (schedule_variables_update d n) = received n"
  "received (schedule_execution_state_update n) = received n"
  "received (request_device_info n) = received n"
  "received (request_next_description_fragment n) = received n"
  by (simp_all add: reset_known_variables_def schedule_variables_update_def schedule_execution_state_update_def
    request_execution_state_def request_device_info_def request_next_description_fragment_def kept_received Let_def
    split: prod.split)

lemma received_on_description_received [kept_received]: "received (on_description_received n) = received n"
  by (auto simp: on_description_received_def kept_received Let_def split: option.split)

lemma received_handled: "received (handle_description_messages b n) = received (receive_fragment b n)"
  by (simp add: handle_description_messages_def kept_received Let_def)

lemma description_ready_received:
  "description_ready n \<longleftrightarrow> (case received n of (d, v, e, f) \<Rightarrow>
    td_name d \<noteq> [] \<and> unat v = length (namedVariables d) \<and> unat e = length (localEvents d) \<and> unat f = length (nativeFunctions d))"
  by (simp add: description_ready_def received_def)

section \<open>One table of the description\<close>

definition firsts :: "'a list \<Rightarrow> 'a list" where
  "firsts xs = rev (remdups (rev xs))"

lemma firsts_snoc: "firsts (xs @ [x]) = (if x \<in> set xs then firsts xs else firsts xs @ [x])"
  by (simp add: firsts_def)

lemma firsts_facts: "distinct (firsts xs)" "set (firsts xs) = set xs" "firsts [] = []"
  by (simp_all add: firsts_def)

text \<open>A table of which some entries were received: the others are blank.\<close>

definition partial_table :: "'a \<Rightarrow> 'a list \<Rightarrow> 'a list \<Rightarrow> 'a list" where
  "partial_table blank whole ys = firsts ys @ replicate (length whole - length (firsts ys)) blank"

lemma firsts_fit:
  assumes "set ys \<subseteq> set whole"
  shows "length (firsts ys) \<le> length whole"
proof -
  have "length (firsts ys) = card (set (firsts ys))" using firsts_facts(1) by (metis distinct_card)
  also have "\<dots> \<le> card (set whole)" using assms by (simp add: firsts_facts card_mono)
  also have "\<dots> \<le> length whole" by (rule card_length)
  finally show ?thesis .
qed

lemma table_update:
  assumes whole: "distinct (map name_of whole)" "name_of blank \<notin> name_of ` set whole" "length whole < 2 ^ 16"
    and ys: "set (ys @ [y]) \<subseteq> set whole"
  shows "safe_description_update name_of y (partial_table blank whole ys) (word_of_nat (length (firsts ys))) =
    (partial_table blank whole (ys @ [y]), word_of_nat (length (firsts (ys @ [y]))))"
proof -
  have fit: "length (firsts ys) \<le> length whole" "length (firsts (ys @ [y])) \<le> length whole"
    using ys firsts_fit [of ys whole] firsts_fit [OF ys] by auto
  then have counter: "unat (word_of_nat (length (firsts ys)) :: u16) = length (firsts ys)"
    using whole(3) by (simp add: unat_of_nat)
  have len: "length (partial_table blank whole ys) = length whole" using fit by (simp add: partial_table_def)
  have inj: "inj_on name_of (set whole)" using whole(1) by (simp add: distinct_map)
  have names: "name_of x = name_of y \<longleftrightarrow> x = y" if "x \<in> set (firsts ys)" for x
    using inj that ys by (auto simp: firsts_facts inj_on_def)
  have blank: "name_of blank \<noteq> name_of y" using whole(2) ys by auto
  have known: "list_ex (\<lambda>x. name_of x = name_of y) (partial_table blank whole ys) \<longleftrightarrow> y \<in> set ys"
    using blank names by (auto simp: partial_table_def list_ex_iff firsts_facts in_set_replicate)
  show ?thesis
  proof (cases "y \<in> set ys")
    case True
    with known show ?thesis by (simp add: safe_description_update_def partial_table_def firsts_snoc)
  next
    case False
    then have "Suc (length (firsts ys)) \<le> length whole" using fit(2) by (simp add: firsts_snoc)
    then have "(partial_table blank whole ys)[length (firsts ys) := y] = partial_table blank whole (ys @ [y])"
      using False by (cases "length whole - length (firsts ys)")
        (auto simp: partial_table_def firsts_snoc list_update_append Suc_diff_le)
    with known False counter len \<open>Suc (length (firsts ys)) \<le> length whole\<close> show ?thesis
      by (simp add: safe_description_update_def firsts_snoc)
  qed
qed

lemma whole_table: "firsts ys = whole \<Longrightarrow> partial_table blank whole ys = whole"
  by (simp add: partial_table_def)

section \<open>The whole description\<close>

definition fragment_variables :: "body list \<Rightarrow> named_variable list" where
  "fragment_variables fs = concat (map (\<lambda>b. case b of NamedVariableDescription v \<Rightarrow> [v] | _ \<Rightarrow> []) fs)"

definition fragment_events :: "body list \<Rightarrow> local_event list" where
  "fragment_events fs = concat (map (\<lambda>b. case b of LocalEventDescription e \<Rightarrow> [e] | _ \<Rightarrow> []) fs)"

definition fragment_functions :: "body list \<Rightarrow> native_function list" where
  "fragment_functions fs = concat (map (\<lambda>b. case b of NativeFunctionDescription f \<Rightarrow> [f] | _ \<Rightarrow> []) fs)"

lemmas fragment_defs = fragment_variables_def fragment_events_def fragment_functions_def

text \<open>The first message of a description: its tables have the right lengths and blank entries.\<close>

definition shell :: "target_description \<Rightarrow> target_description" where
  "shell d = d\<lparr>namedVariables := replicate (length (namedVariables d)) blank_variable,
     localEvents := replicate (length (localEvents d)) blank_event,
     nativeFunctions := replicate (length (nativeFunctions d)) blank_function\<rparr>"

definition is_fragment :: "target_description \<Rightarrow> body \<Rightarrow> bool" where
  "is_fragment d b =
     (case b of
        NamedVariableDescription v \<Rightarrow> v \<in> set (namedVariables d)
      | LocalEventDescription e \<Rightarrow> e \<in> set (localEvents d)
      | NativeFunctionDescription f \<Rightarrow> f \<in> set (nativeFunctions d)
      | _ \<Rightarrow> False)"

text \<open>A description whose entries can be told apart by their names.\<close>

definition well_named :: "target_description \<Rightarrow> bool" where
  "well_named d \<longleftrightarrow> td_name d \<noteq> [] \<and>
     distinct (map nv_name (namedVariables d)) \<and> [] \<notin> nv_name ` set (namedVariables d) \<and> length (namedVariables d) < 2 ^ 16 \<and>
     distinct (map le_name (localEvents d)) \<and> [] \<notin> le_name ` set (localEvents d) \<and> length (localEvents d) < 2 ^ 16 \<and>
     distinct (map nf_name (nativeFunctions d)) \<and> [] \<notin> nf_name ` set (nativeFunctions d) \<and> length (nativeFunctions d) < 2 ^ 16"

definition received_after :: "target_description \<Rightarrow> body list \<Rightarrow> target_description \<times> u16 \<times> u16 \<times> u16" where
  "received_after d fs =
     (d\<lparr>namedVariables := partial_table blank_variable (namedVariables d) (fragment_variables fs),
        localEvents := partial_table blank_event (localEvents d) (fragment_events fs),
        nativeFunctions := partial_table blank_function (nativeFunctions d) (fragment_functions fs)\<rparr>,
      word_of_nat (length (firsts (fragment_variables fs))), word_of_nat (length (firsts (fragment_events fs))),
      word_of_nat (length (firsts (fragment_functions fs))))"

lemma fragments_within:
  assumes "\<forall>b\<in>set fs. is_fragment d b"
  shows "set (fragment_variables fs) \<subseteq> set (namedVariables d)" "set (fragment_events fs) \<subseteq> set (localEvents d)"
    "set (fragment_functions fs) \<subseteq> set (nativeFunctions d)"
  using assms by (auto simp: fragment_defs is_fragment_def split: body.splits)

lemma receive_one:
  assumes "well_named d" and "\<forall>b\<in>set (fs @ [b]). is_fragment d b" and "received n = received_after d fs"
  shows "received (receive_fragment b n) = received_after d (fs @ [b])"
proof -
  note within = fragments_within [OF assms(2)]
  have n: "m_description n = fst (received_after d fs)" "counter_variables n = fst (snd (received_after d fs))"
    "counter_events n = fst (snd (snd (received_after d fs)))" "counter_functions n = snd (snd (snd (received_after d fs)))"
    by (simp_all add: assms(3) [symmetric] received_def)
  have blanks: "nv_name blank_variable = []" "le_name blank_event = []" "nf_name blank_function = []"
    by (simp_all add: blank_variable_def blank_event_def blank_function_def)
  have "is_fragment d b" using assms(2) by simp
  then consider v where "b = NamedVariableDescription v" | e where "b = LocalEventDescription e"
    | f where "b = NativeFunctionDescription f"
    by (auto simp: is_fragment_def split: body.splits)
  then show ?thesis
  proof cases
    case (1 v)
    have "safe_description_update nv_name v (partial_table blank_variable (namedVariables d) (fragment_variables fs))
        (word_of_nat (length (firsts (fragment_variables fs)))) =
      (partial_table blank_variable (namedVariables d) (fragment_variables fs @ [v]),
       word_of_nat (length (firsts (fragment_variables fs @ [v]))))"
      using assms(1) within(1) 1 by (intro table_update) (auto simp: well_named_def blanks fragment_defs)
    with 1 show ?thesis by (simp add: receive_fragment_def received_def n received_after_def fragment_defs)
  next
    case (2 e)
    have "safe_description_update le_name e (partial_table blank_event (localEvents d) (fragment_events fs))
        (word_of_nat (length (firsts (fragment_events fs)))) =
      (partial_table blank_event (localEvents d) (fragment_events fs @ [e]),
       word_of_nat (length (firsts (fragment_events fs @ [e]))))"
      using assms(1) within(2) 2 by (intro table_update) (auto simp: well_named_def blanks fragment_defs)
    with 2 show ?thesis by (simp add: receive_fragment_def received_def n received_after_def fragment_defs)
  next
    case (3 f)
    have "safe_description_update nf_name f (partial_table blank_function (nativeFunctions d) (fragment_functions fs))
        (word_of_nat (length (firsts (fragment_functions fs)))) =
      (partial_table blank_function (nativeFunctions d) (fragment_functions fs @ [f]),
       word_of_nat (length (firsts (fragment_functions fs @ [f]))))"
      using assms(1) within(3) 3 by (intro table_update) (auto simp: well_named_def blanks fragment_defs)
    with 3 show ?thesis by (simp add: receive_fragment_def received_def n received_after_def fragment_defs)
  qed
qed

definition receive_all :: "body list \<Rightarrow> node_state \<Rightarrow> node_state" where
  "receive_all bs n = fold handle_description_messages bs n"

lemma receive_all_fragments:
  assumes "well_named d" and "\<forall>b\<in>set fs. is_fragment d b"
    and "counter_variables n = 0" "counter_events n = 0" "counter_functions n = 0"
  shows "received (receive_all (Description (shell d) # fs) n) = received_after d fs"
  using assms(2)
proof (induction fs rule: rev_induct)
  case Nil
  show ?case
    using assms(3-5)
    by (simp add: receive_all_def received_handled)
      (simp add: receive_fragment_def received_def received_after_def shell_def partial_table_def firsts_facts fragment_defs)
next
  case (snoc b fs)
  have "received (receive_all (Description (shell d) # fs @ [b]) n) =
      received (receive_fragment b (receive_all (Description (shell d) # fs) n))"
    by (simp add: receive_all_def received_handled)
  also have "\<dots> = received_after d (fs @ [b])" using snoc by (intro receive_one assms(1)) auto
  finally show ?case by simp
qed

lemma received_whole:
  assumes "firsts (fragment_variables fs) = namedVariables d" "firsts (fragment_events fs) = localEvents d"
    "firsts (fragment_functions fs) = nativeFunctions d"
  shows "received_after d fs =
    (d, word_of_nat (length (namedVariables d)), word_of_nat (length (localEvents d)), word_of_nat (length (nativeFunctions d)))"
  by (simp add: received_after_def whole_table assms)

lemma received_version: "received n' = received n \<Longrightarrow> protocolVersion (m_description n') = protocolVersion (m_description n)"
  by (simp add: received_def)

lemma old_robot_available:
  assumes "protocolVersion (m_description n) < 6"
  shows "m_status (on_description_received n) = available"
proof -
  let ?n2 = "schedule_execution_state_update (schedule_variables_update 100
    (reset_known_variables (fst (getVariablesMap (m_description n))) n))"
  define n3 where "n3 = (case find (\<lambda>v. var_name v = fwversion) (m_variables ?n2) of
    None \<Rightarrow> ?n2 | Some v \<Rightarrow> write_message (GetVariables (m_id ?n2) (var_start v) (var_size v)) No_callback ?n2)"
  have "received n3 = received n" by (simp add: n3_def kept_received split: option.split)
  from received_version [OF this] have "\<not> 6 \<le> protocolVersion (m_description n3)" using assms by (simp add: not_le)
  then have "on_description_received n = set_status available n3"
    unfolding on_description_received_def Let_def n3_def by simp
  then show ?thesis by (simp add: set_status_def effect_def)
qed

lemma ready_available:
  assumes "description_ready (receive_fragment b n)" and "protocolVersion (m_description (receive_fragment b n)) < 6"
  shows "m_status (handle_description_messages b n) = available"
proof -
  let ?n1 = "effect (Cancel_timer Resend_timer) (receive_fragment b n)"
  have same: "received ?n1 = received (receive_fragment b n)" by (simp add: kept_received)
  then have "description_ready ?n1" using assms(1) by (simp add: description_ready_received)
  moreover have "protocolVersion (m_description ?n1) < 6" using assms(2) same by (simp add: received_def)
  ultimately show ?thesis by (simp add: handle_description_messages_def Let_def old_robot_available)
qed

text \<open>C24: The description of a robot is rebuilt from its messages: after the message with the sizes and fragments of which
  every entry of the three tables was received, each for the first time in the order of its table and repeated at will, the
  node, whose counters were zero, has the description that was sent; the names in it are distinct and not empty. A robot with an old protocol is available then.\<close>

theorem description_complete:
  assumes "well_named d" and "\<forall>b\<in>set (fs @ [b]). is_fragment d b"
    and "firsts (fragment_variables (fs @ [b])) = namedVariables d" "firsts (fragment_events (fs @ [b])) = localEvents d"
      "firsts (fragment_functions (fs @ [b])) = nativeFunctions d"
    and "counter_variables n = 0" "counter_events n = 0" "counter_functions n = 0"
  shows "m_description (receive_all (Description (shell d) # fs @ [b]) n) = d \<and>
    (protocolVersion d < 6 \<longrightarrow> m_status (receive_all (Description (shell d) # fs @ [b]) n) = available)"
proof -
  let ?all = "Description (shell d) # fs @ [b]" and ?before = "receive_all (Description (shell d) # fs) n"
  have all: "received (receive_all ?all n) = received_after d (fs @ [b])"
    using assms(1,2,6-8) by (rule receive_all_fragments)
  have last: "receive_all ?all n = handle_description_messages b ?before" by (simp add: receive_all_def)
  have whole: "received (receive_fragment b ?before) =
      (d, word_of_nat (length (namedVariables d)), word_of_nat (length (localEvents d)), word_of_nat (length (nativeFunctions d)))"
    using all received_whole [OF assms(3-5)] by (simp add: last received_handled)
  then have "description_ready (receive_fragment b ?before)"
    using assms(1) by (simp add: description_ready_received well_named_def unat_of_nat)
  moreover have "m_description (receive_fragment b ?before) = d" using whole by (simp add: received_def)
  moreover have "m_description (receive_all ?all n) = d" using all received_whole [OF assms(3-5)] by (simp add: received_def)
  ultimately show ?thesis using ready_available last by simp
qed

definition sample_robot :: target_description where
  "sample_robot = blank_target\<lparr>td_name := ws ''t'', protocolVersion := 5,
     namedVariables := [\<lparr>nv_name = ws ''a'', nv_size = 1\<rparr>, \<lparr>nv_name = ws ''b'', nv_size = 2\<rparr>]\<rparr>"

theorem description_complete_witness:
  "let a = NamedVariableDescription \<lparr>nv_name = ws ''a'', nv_size = 1\<rparr>; b = NamedVariableDescription \<lparr>nv_name = ws ''b'', nv_size = 2\<rparr>;
       n = receive_all [Description (shell sample_robot), a, a, b] (aseba_node 1 5 nil_uuid None)
   in m_description n = sample_robot \<and> m_status n = available"
  using description_complete [of sample_robot
      "[NamedVariableDescription \<lparr>nv_name = ws ''a'', nv_size = 1\<rparr>, NamedVariableDescription \<lparr>nv_name = ws ''a'', nv_size = 1\<rparr>]"
      "NamedVariableDescription \<lparr>nv_name = ws ''b'', nv_size = 2\<rparr>" "aseba_node 1 5 nil_uuid None"]
  by (simp add: Let_def sample_robot_def well_named_def is_fragment_def fragment_defs firsts_def blank_target_def aseba_node_def
    ws_def)

text \<open>A description that arrives again after it was completed replaces the tables by blank ones, but its fragments are
  counted as received: the node takes the blank description for a complete one.\<close>

theorem description_wiped:
  assumes "description_ready n" and "received n = (d, v, e, f)" and "td_name d \<noteq> []"
  shows "m_description (handle_description_messages (Description (shell d)) n) = shell d \<and>
    description_ready (handle_description_messages (Description (shell d)) n) \<and>
    (protocolVersion d < 6 \<longrightarrow> m_status (handle_description_messages (Description (shell d)) n) = available)"
proof -
  let ?n = "receive_fragment (Description (shell d)) n"
  have shell: "received ?n = (shell d, v, e, f)" using assms(2) by (simp add: receive_fragment_def received_def)
  then have handled: "received (handle_description_messages (Description (shell d)) n) = (shell d, v, e, f)"
    by (simp add: received_handled)
  have "description_ready ?n"
    using assms shell by (simp add: description_ready_received shell_def)
  moreover have "protocolVersion (m_description ?n) = protocolVersion d" using shell by (simp add: received_def shell_def)
  moreover have "description_ready (handle_description_messages (Description (shell d)) n)"
    using assms handled by (simp add: description_ready_received shell_def)
  ultimately show ?thesis using handled ready_available by (simp add: received_def)
qed

end
