(* ===== verification/Node_Variables.thy ===== *)
theory Node_Variables
  imports Node_Description
begin

text \<open>
  The variables of a node as an image of the memory of its robot: messages with variables write to the memory, and the
  requests for variables cover it.
\<close>

section \<open>The memory behind the variables\<close>

text \<open>Variables one after the other from an address on, within the address space.\<close>

primrec contiguous :: "nat \<Rightarrow> vm_variable list \<Rightarrow> bool" where
  "contiguous a [] \<longleftrightarrow> a \<le> 2 ^ 16"
| "contiguous a (v # vs) \<longleftrightarrow> unat (var_start v) = a \<and> contiguous (a + unat (var_size v)) vs"

definition memory :: "vm_variable list \<Rightarrow> i16 list" where
  "memory vs = concat (map resized vs)"

definition overwrite :: "nat \<Rightarrow> 'a list \<Rightarrow> 'a list \<Rightarrow> 'a list" where
  "overwrite i xs mem = take i mem @ xs @ drop (i + length xs) mem"

definition extent :: "vm_variable list \<Rightarrow> nat" where
  "extent vs = sum_list (map (\<lambda>v. unat (var_size v)) vs)"

lemma word_size_bound: "unat (w :: u16) < 2 ^ 16"
  by (rule order_less_le_trans [OF unsigned_less]) simp

text \<open>Addresses of 32 bits that fit 16.\<close>

lemma narrowed:
  "unat (ucast (w :: u16) :: u32) = unat w"
  "unat (x :: u32) < 2 ^ 16 \<Longrightarrow> unat (ucast x :: u16) = unat x"
  using word_size_bound [of w] by (simp_all add: unsigned_ucast_eq take_bit_nat_eq_self)

lemma resized_length: "length (resized v) = unat (var_size v)"
  by (simp add: resized_def)

lemma memory_length: "length (memory vs) = extent vs"
  by (induction vs) (simp_all add: memory_def extent_def resized_length)

lemma overwrite_length: "i + length xs \<le> length mem \<Longrightarrow> length (overwrite i xs mem) = length mem"
  by (simp add: overwrite_def)

lemma overwrite_append:
  assumes "i + length (xs @ ys) \<le> length mem"
  shows "overwrite (i + length xs) ys (overwrite i xs mem) = overwrite i (xs @ ys) mem"
  using assms by (simp add: overwrite_def add.commute add.left_commute)

lemma overwrite_inside:
  assumes "i + length xs \<le> length old"
  shows "pre @ overwrite i xs old @ post = overwrite (length pre + i) xs (pre @ old @ post)"
  using assms by (simp add: overwrite_def)

lemma memory_update:
  assumes "k < length vs" and "resized v' = overwrite i xs (resized (vs ! k))" and "i + length xs \<le> unat (var_size (vs ! k))"
  shows "memory (vs[k := v']) = overwrite (extent (take k vs) + i) xs (memory vs)"
proof -
  have "memory vs = memory (take k vs) @ resized (vs ! k) @ memory (drop (Suc k) vs)"
    using id_take_nth_drop [OF assms(1)] by (metis memory_def concat_append list.simps(9) map_append concat.simps(2))
  moreover have "memory (vs[k := v']) = memory (take k vs) @ resized v' @ memory (drop (Suc k) vs)"
    using assms(1) by (simp add: upd_conv_take_nth_drop memory_def)
  ultimately show ?thesis
    using assms(2,3) overwrite_inside [of i xs "resized (vs ! k)" "memory (take k vs)" "memory (drop (Suc k) vs)"]
    by (simp add: resized_length memory_length)
qed

lemma contiguous_nth:
  "contiguous a vs \<Longrightarrow> k < length vs \<Longrightarrow> unat (var_start (vs ! k)) = a + extent (take k vs)"
  by (induction vs arbitrary: a k) (auto simp: extent_def nth_Cons' take_Cons' split: if_splits)

lemma contiguous_total: "contiguous a vs \<Longrightarrow> a + extent vs \<le> 2 ^ 16"
proof (induction vs arbitrary: a)
  case (Cons v vs)
  then show ?case using Cons.IH [of "a + unat (var_size v)"] by (simp add: extent_def add.assoc)
qed (simp add: extent_def)

lemma contiguous_update:
  "contiguous a vs \<Longrightarrow> k < length vs \<Longrightarrow> var_start v' = var_start (vs ! k) \<Longrightarrow> var_size v' = var_size (vs ! k) \<Longrightarrow>
    contiguous a (vs[k := v'])"
  by (induction vs arbitrary: a k) (auto split: nat.splits)

lemma extent_prefix: "k < length vs \<Longrightarrow> extent (take (Suc k) vs) = extent (take k vs) + unat (var_size (vs ! k))"
  by (simp add: take_Suc_conv_app_nth extent_def)

lemma extent_mono: "j \<le> k \<Longrightarrow> extent (take j vs) \<le> extent (take k vs)"
proof -
  assume "j \<le> k"
  then have "take k vs = take j vs @ take (k - j) (drop j vs)" by (metis le_add_diff_inverse take_add)
  then show ?thesis by (simp add: extent_def)
qed

text \<open>An address below the end of the variables is in one of them.\<close>

lemma address_held:
  assumes "contiguous 0 vs" and "unat start < extent vs"
  obtains k where "k < length vs" "holds_address start (vs ! k)"
proof -
  have "\<exists>k<length vs. holds_address start (vs ! k)" if "contiguous a vs" "a \<le> unat start" "unat start < a + extent vs" for a
    using that
  proof (induction vs arbitrary: a)
    case (Cons v vs)
    show ?case
    proof (cases "unat start < a + unat (var_size v)")
      case True
      with Cons.prems have "holds_address start v" by (simp add: holds_address_def word_le_nat_alt)
      then show ?thesis by (intro exI [of _ 0]) simp
    next
      case False
      with Cons show ?thesis by (fastforce simp: extent_def)
    qed
  qed (simp add: extent_def)
  from this [of 0] assms that show thesis by auto
qed

section \<open>Messages with variables\<close>

lemma assign_values_facts:
  assumes "offset + length vals \<le> unat (var_size v)"
  shows "resized (fst (assign_values v offset vals)) = overwrite offset vals (resized v)"
    "var_start (fst (assign_values v offset vals)) = var_start v" "var_size (fst (assign_values v offset vals)) = var_size v"
    "var_name (fst (assign_values v offset vals)) = var_name v"
proof -
  have same: "overwrite offset vals (resized v) = resized v" if "take (length vals) (drop offset (resized v)) = vals"
    using that by (metis overwrite_def append_take_drop_id drop_drop add.commute)
  have full: "resized (v\<lparr>var_value := xs\<rparr>) = xs" if "length xs = unat (var_size v)" for xs
    using that by (simp add: resized_def)
  show "resized (fst (assign_values v offset vals)) = overwrite offset vals (resized v)"
    using same assms overwrite_length [of offset vals "resized v"]
    by (auto simp: assign_values_def Let_def full resized_length overwrite_def)
qed (auto simp: assign_values_def Let_def)

lemma firmware_change_variables [simp]: "m_variables (firmware_change v n) = m_variables n"
  by (simp add: firmware_change_def set_status_def effect_def)

text \<open>The variable found for an address, and what the address is relative to it.\<close>

lemma found_variable:
  assumes "contiguous 0 vs" and "unat start < extent vs" and "extent (take it vs) \<le> unat start"
  obtains k where "find (\<lambda>k. holds_address start (vs ! k)) [it..<length vs] = Some k" "k < length vs"
    "unat start = extent (take k vs) + (unat start - unat (var_start (vs ! k)))"
    "unat start - unat (var_start (vs ! k)) < unat (var_size (vs ! k))"
proof -
  let ?p = "\<lambda>k. holds_address start (vs ! k)"
  obtain j where j: "j < length vs" "?p j" using address_held assms(1,2) by blast
  have "it \<le> j"
  proof (rule ccontr)
    assume "\<not> it \<le> j"
    then have "extent (take (Suc j) vs) \<le> unat start" using extent_mono [of "Suc j" it vs] assms(3) by simp
    with j assms(1) show False by (simp add: extent_prefix holds_address_def contiguous_nth)
  qed
  with j have "find ?p [it..<length vs] \<noteq> None" by (auto simp: find_None_iff)
  then obtain k where k: "find ?p [it..<length vs] = Some k" by auto
  then have "k \<in> set [it..<length vs]" "?p k" by (auto simp: find_Some_iff)
  then show thesis
    using k assms(1) by (intro that [of k]) (auto simp: holds_address_def contiguous_nth word_le_nat_alt)
qed

text \<open>One turn of the loop writes a part of the data.\<close>

lemma set_variables_turn:
  assumes cont: "contiguous 0 (m_variables n)" and room: "unat start + length data \<le> extent (m_variables n)"
    and "data \<noteq> []" "extent (take it (m_variables n)) \<le> unat start"
  obtains k changed' n' count where
    "set_variables start data it changed n = set_variables (start + word_of_nat count) (drop count data) k changed' n'"
    "0 < count" "count \<le> length data" "contiguous 0 (m_variables n')" "extent (take k (m_variables n')) \<le> unat start"
    "memory (m_variables n') = overwrite (unat start) (take count data) (memory (m_variables n))"
proof -
  let ?vs = "m_variables n"
  have "0 < length data" using assms(3) by simp
  with room have "unat start < extent ?vs" by linarith
  then obtain k where k: "find (\<lambda>k. holds_address start (?vs ! k)) [it..<length ?vs] = Some k" "k < length ?vs"
    and at: "unat start = extent (take k ?vs) + (unat start - unat (var_start (?vs ! k)))"
      "unat start - unat (var_start (?vs ! k)) < unat (var_size (?vs ! k))"
    using found_variable cont assms(4) by blast
  define v offset count where "v = ?vs ! k" and "offset = unat start - unat (var_start v)"
    and "count = min (unat (var_size v) - offset) (length data)"
  obtain v' isNew where v': "assign_values v offset (take count data) = (v', isNew)" by fastforce
  define changed' n' where
    "changed' = (if isNew then insert_property (var_name v) (aseba_variable_from_range (var_value v')) changed else changed)"
    and "n' = (if isNew then firmware_change v' (n\<lparr>m_variables := ?vs[k := v']\<rparr>) else n\<lparr>m_variables := ?vs[k := v']\<rparr>)"
  have fits: "offset + length (take count data) \<le> unat (var_size v)" "length (take count data) = count" "count \<le> length data"
    "0 < count" using at assms(3) by (auto simp: count_def offset_def v_def)
  note facts = assign_values_facts [OF fits(1), unfolded v', simplified]
  have vars: "m_variables n' = ?vs[k := v']" by (simp add: n'_def)
  have "set_variables start data it changed n = set_variables (start + word_of_nat count) (drop count data) k changed' n'"
    by (subst set_variables.simps)
      (simp add: k assms(3) Let_def v_def [symmetric] offset_def [symmetric] count_def [symmetric] v' changed'_def n'_def)
  moreover have "contiguous 0 (m_variables n')" using cont k(2) facts by (simp add: vars contiguous_update v_def)
  moreover have "memory (m_variables n') = overwrite (unat start) (take count data) (memory ?vs)"
    using memory_update [OF k(2), of v' offset "take count data"] facts(1) fits at(1) [symmetric] by (simp add: vars v_def offset_def)
  moreover have "extent (take k (m_variables n')) \<le> unat start" using at(1) unfolding vars by simp
  ultimately show thesis using fits by (intro that)
qed

lemma set_variables_memory:
  assumes "contiguous 0 (m_variables n)" and "unat start + length data \<le> extent (m_variables n)"
    and "data \<noteq> [] \<Longrightarrow> extent (take it (m_variables n)) \<le> unat start"
  shows "memory (m_variables (snd (set_variables start data it changed n))) = overwrite (unat start) data (memory (m_variables n)) \<and>
    contiguous 0 (m_variables (snd (set_variables start data it changed n)))"
  using assms
proof (induction "length data" arbitrary: start data it changed n rule: less_induct)
  case less
  show ?case
  proof (cases "data = []")
    case True
    with less.prems(1) show ?thesis by (simp add: set_variables.simps overwrite_def)
  next
    case False
    obtain k changed' n' count where turn:
      "set_variables start data it changed n = set_variables (start + word_of_nat count) (drop count data) k changed' n'"
      "0 < count" "count \<le> length data" "contiguous 0 (m_variables n')" "extent (take k (m_variables n')) \<le> unat start"
      "memory (m_variables n') = overwrite (unat start) (take count data) (memory (m_variables n))"
      by (rule set_variables_turn [OF less.prems(1,2) False less.prems(3) [OF False]])
    have total: "extent (m_variables n') = extent (m_variables n)"
      using arg_cong [OF turn(6), of length] less.prems(2) turn(3) by (simp add: overwrite_length memory_length)
    show ?thesis
    proof (cases "count = length data")
      case True
      with turn show ?thesis by (simp add: set_variables.simps)
    next
      case more_data: False
      have "unat start + count < 2 ^ 16"
        using more_data turn(3) less.prems(2) contiguous_total [OF less.prems(1)] by simp
      then have after: "unat (start + word_of_nat count) = unat start + count"
        by (simp add: unat_word_ariths unat_of_nat)
      have "memory (m_variables (snd (set_variables start data it changed n))) =
          overwrite (unat start + length (take count data)) (drop count data)
            (overwrite (unat start) (take count data) (memory (m_variables n))) \<and>
        contiguous 0 (m_variables (snd (set_variables start data it changed n)))"
        using less.hyps [of "drop count data" n' "start + word_of_nat count" k changed'] turn less.prems(2) total after
        by simp
      then show ?thesis
        using overwrite_append [of "unat start" "take count data" "drop count data" "memory (m_variables n)"] less.prems(2)
        by (simp add: memory_length)
    qed
  qed
qed

text \<open>All areas of a message, one after the other.\<close>

definition write_areas :: "(u16 \<times> i16 list) list \<Rightarrow> i16 list \<Rightarrow> i16 list" where
  "write_areas areas mem = fold (\<lambda>(start, data). overwrite (unat start) data) areas mem"

lemma set_areas_memory:
  assumes "contiguous 0 (m_variables (snd s))"
    and "\<forall>(start, data)\<in>set areas. unat start + length data \<le> length (memory (m_variables (snd s)))"
  shows "memory (m_variables (snd (fold (\<lambda>(start, data) (changed, n). set_variables start data 0 changed n) areas s))) =
      write_areas areas (memory (m_variables (snd s))) \<and>
    contiguous 0 (m_variables (snd (fold (\<lambda>(start, data) (changed, n). set_variables start data 0 changed n) areas s)))"
  using assms
proof (induction areas arbitrary: s)
  case (Cons a areas)
  obtain start data changed n where a: "a = (start, data)" "s = (changed, n)" by (metis surj_pair)
  have step: "memory (m_variables (snd (set_variables start data 0 changed n))) = overwrite (unat start) data (memory (m_variables n))"
    "contiguous 0 (m_variables (snd (set_variables start data 0 changed n)))"
    using set_variables_memory [of n start data 0 changed] Cons.prems a by (simp_all add: memory_length extent_def)
  moreover have "length (overwrite (unat start) data (memory (m_variables n))) = length (memory (m_variables n))"
    using Cons.prems a by (simp add: overwrite_length)
  ultimately show ?case
    using Cons.IH [of "set_variables start data 0 changed n"] Cons.prems a by (simp add: write_areas_def)
qed (simp add: write_areas_def)

text \<open>C25: A message with values of variables refines a write to memory: the image of the memory of the robot after the message
  is the image before with all areas of the message written to their addresses, across the boundaries of variables; the
  variables stay where they are.\<close>

theorem variables_message_writes_memory:
  assumes "contiguous 0 (m_variables n)"
    and "\<forall>(start, data)\<in>set areas. unat start + length data \<le> length (memory (m_variables n))"
  shows "memory (m_variables (on_variables_message areas n)) = write_areas areas (memory (m_variables n)) \<and>
    contiguous 0 (m_variables (on_variables_message areas n))"
  using set_areas_memory [of "([], n)" areas] assms
  by (auto simp: on_variables_message_def schedule_variables_update_def effect_def split: prod.split)

definition two_variables :: "vm_variable list" where
  "two_variables = [\<lparr>var_name = [97], var_start = 0, var_size = 2, var_value = [1, 2]\<rparr>,
     \<lparr>var_name = [98], var_start = 2, var_size = 2, var_value = []\<rparr>]"

theorem variables_message_writes_memory_witness:
  "let n = (aseba_node 1 5 nil_uuid None)\<lparr>m_variables := two_variables\<rparr>
   in memory (m_variables (on_variables_message [(1, [7, 8]), (3, [9])] n)) = [1, 7, 8, 9]"
  using variables_message_writes_memory [of "(aseba_node 1 5 nil_uuid None)\<lparr>m_variables := two_variables\<rparr>" "[(1, [7, 8]), (3, [9])]"]
  by (simp add: two_variables_def memory_def resized_def write_areas_def overwrite_def)

lemma set_one_word:
  assumes "m_variables n = [v]" "holds_address start v" "assign_values v (unat start - unat (var_start v)) [x] = (v', isNew)"
    "var_name v \<noteq> fwversion" "var_name v' = var_name v"
  shows "set_variables start [x] 0 changed n =
    (if isNew then insert_property (var_name v) (aseba_variable_from_range (var_value v')) changed else changed, n\<lparr>m_variables := [v']\<rparr>)"
  using assms
  by (subst set_variables.simps)
    (auto simp: set_variables.simps holds_address_def word_le_nat_alt Let_def firmware_change_def min_def split: if_splits)

text \<open>Two areas of one message that change the same variable are both stored, but the applications are told the value of
  the variable between them.\<close>

theorem stale_value_reported:
  assumes "m_variables n = [v]" "var_size v = 2" "var_value v = [a, b]" "var_name v \<noteq> fwversion"
    and "unat (var_start v) + 2 \<le> 2 ^ 16" and "x \<noteq> a" "y \<noteq> b"
  shows "let n' = on_variables_message [(var_start v, [x]), (var_start v + 1, [y])] n
    in m_variables n' = [v\<lparr>var_value := [x, y]\<rparr>] \<and>
       effects n' = effects n @ [Variables_changed [(var_name v, aseba_variable_from_range [x, b])], Start_timer Variables_timer 100]"
proof -
  have first: "assign_values v 0 [x] = (v\<lparr>var_value := [x, b]\<rparr>, True)" "holds_address (var_start v) v"
    using assms(2,3,6) by (auto simp: assign_values_def resized_def Let_def holds_address_def)
  have start: "unat (var_start v + 1) = unat (var_start v) + 1" using assms(5) by (simp add: unat_word_ariths)
  have second: "assign_values (v\<lparr>var_value := [x, b]\<rparr>) 1 [y] = (v\<lparr>var_value := [x, y]\<rparr>, True)"
    "holds_address (var_start v + 1) (v\<lparr>var_value := [x, b]\<rparr>)"
    using assms(2,7) by (auto simp: assign_values_def resized_def Let_def holds_address_def start word_le_nat_alt)
  show ?thesis
    using first second assms(1,4) set_one_word [of n v "var_start v" x "v\<lparr>var_value := [x, b]\<rparr>" True]
      set_one_word [of "n\<lparr>m_variables := [v\<lparr>var_value := [x, b]\<rparr>]\<rparr>" "v\<lparr>var_value := [x, b]\<rparr>" "var_start v + 1" y
        "v\<lparr>var_value := [x, y]\<rparr>" True]
    by (simp add: start on_variables_message_def insert_property_def schedule_variables_update_def effect_def Let_def)
qed

lemma not_fwversion: "[97] \<noteq> fwversion"
  by code_simp

section \<open>The variables of a description\<close>

text \<open>The variables of a description from an address on, in the order of the description.\<close>

primrec laid_out :: "nat \<Rightarrow> named_variable list \<Rightarrow> vm_variable list" where
  "laid_out a [] = []"
| "laid_out a (v # vs) = known_variable (nv_name v, word_of_nat a, nv_size v) # laid_out (a + unat (nv_size v)) vs"

primrec layout_entries :: "nat \<Rightarrow> named_variable list \<Rightarrow> (wstring \<times> u32 \<times> u32) list" where
  "layout_entries a [] = []"
| "layout_entries a (v # vs) = (nv_name v, word_of_nat a, nv_size v) # layout_entries (a + unat (nv_size v)) vs"

definition fits_memory :: "nat \<Rightarrow> named_variable list \<Rightarrow> bool" where
  "fits_memory a vs \<longleftrightarrow> (\<forall>v\<in>set vs. nv_size v \<noteq> 0) \<and> a + sum_list (map (\<lambda>v. unat (nv_size v)) vs) < 2 ^ 16"

lemma fits_memory_Cons:
  assumes "fits_memory a (v # vs)"
  shows "fits_memory (a + unat (nv_size v)) vs" "a < 2 ^ 16" "0 < unat (nv_size v)" "unat (nv_size v) < 2 ^ 16"
  using assms by (auto simp: fits_memory_def unat_gt_0 add.assoc)

lemma laid_out_entries: "laid_out a vs = map known_variable (layout_entries a vs)"
  by (induction vs arbitrary: a) simp_all

lemma set_map_set: "k \<notin> fst ` set m \<Longrightarrow> set (map_set k v m) = insert (k, v) (set m)"
  by (induction k v m rule: map_set.induct) auto

lemma variables_map_entries:
  assumes "distinct (map nv_name vs)" and "nv_name ` set vs \<inter> fst ` set m = {}"
  shows "set (fst (variables_map_loop vs m (word_of_nat a))) = set m \<union> set (layout_entries a vs)"
  using assms
proof (induction vs arbitrary: m a)
  case (Cons v vs)
  have "nv_name ` set vs \<inter> fst ` set (map_set (nv_name v) (word_of_nat a, nv_size v) m) = {}"
    using Cons.prems by (auto simp: keys_map_set)
  then have "set (fst (variables_map_loop vs (map_set (nv_name v) (word_of_nat a, nv_size v) m) (word_of_nat (a + unat (nv_size v))))) =
      set (map_set (nv_name v) (word_of_nat a, nv_size v) m) \<union> set (layout_entries (a + unat (nv_size v)) vs)"
    using Cons.prems(1) by (intro Cons.IH) auto
  moreover have "set (map_set (nv_name v) (word_of_nat a, nv_size v) m) = insert (nv_name v, word_of_nat a, nv_size v) (set m)"
    using Cons.prems(2) by (intro set_map_set) auto
  ultimately show ?case by simp
qed simp

lemma variables_map_ordered: "ordered m \<Longrightarrow> ordered (fst (variables_map_loop vs m free))"
  by (induction vs arbitrary: m free) (simp_all add: ordered_map_set)

text \<open>Insertion of variables at different addresses sorts them.\<close>

definition by_start :: "vm_variable list \<Rightarrow> bool" where
  "by_start vs = sorted_wrt (\<lambda>v w. var_start v < var_start w) vs"

lemma insert_variable_sorts:
  assumes "by_start vs" and "unat start < 2 ^ 16" "var_start v = ucast start" and "var_start v \<notin> var_start ` set vs"
  shows "\<exists>vs'. insert_variable start v vs = Some vs' \<and> by_start vs' \<and> set vs' = insert v (set vs)"
  using assms
proof (induction vs)
  case (Cons w us)
  have less: "ucast (var_start w) < start \<longleftrightarrow> var_start w < var_start v"
    and same: "ucast (var_start w) = start \<longleftrightarrow> var_start w = var_start v"
    using word_size_bound [of "var_start w"] Cons.prems(2,3) by (auto simp: narrowed word_less_nat_alt word_unat_eq_iff)
  show ?case
    using Cons by (auto simp: less same by_start_def)
qed (simp add: by_start_def)

lemma by_start_unique:
  assumes "by_start vs" "by_start us" "set vs = set us"
  shows "vs = us"
  using assms
proof (induction vs arbitrary: us)
  case (Cons v vs)
  then obtain u us' where us: "us = u # us'" by (cases us) auto
  have "v = u" using Cons.prems unfolding us by_start_def by (metis insertE list.simps(15) order_less_asym sorted_wrt.simps(2) list.set_intros(1))
  moreover from this have "set vs = set us'" using Cons.prems unfolding us by_start_def by auto
  ultimately show ?case using Cons us by (auto simp: by_start_def)
qed simp

lemma known_variables_sorted:
  assumes "by_start vs" and "distinct (map (\<lambda>e. fst (snd e)) es)" and "\<forall>e\<in>set es. unat (fst (snd e)) < 2 ^ 16"
    and "var_start ` set vs \<inter> (\<lambda>e. ucast (fst (snd e))) ` set es = {}"
  shows "by_start (fst (known_variables es vs removed)) \<and>
    set (fst (known_variables es vs removed)) = set vs \<union> known_variable ` set es"
  using assms
proof (induction es arbitrary: vs removed)
  case (Cons e es)
  have start: "var_start (known_variable e) = ucast (fst (snd e))" by (simp add: known_variable_def split: prod.split)
  then obtain vs' where vs': "insert_variable (fst (snd e)) (known_variable e) vs = Some vs'" "by_start vs'"
      "set vs' = insert (known_variable e) (set vs)"
    using insert_variable_sorts [of vs "fst (snd e)" "known_variable e"] Cons.prems by auto
  have apart: "ucast (fst (snd e)) \<noteq> (ucast (fst (snd e')) :: u16)" if "e' \<in> set es" for e'
    using Cons.prems(2,3) that by (auto simp: word_unat_eq_iff narrowed(2))
  then have "var_start ` set vs' \<inter> (\<lambda>e. ucast (fst (snd e))) ` set es = {}"
    using Cons.prems(4) vs'(3) start by auto
  then show ?case using Cons.IH [of vs'] Cons.prems(2,3) vs' by simp
qed simp

lemma layout_entry_starts:
  assumes "fits_memory a vs" "e \<in> set (layout_entries a vs)"
  shows "a \<le> unat (fst (snd e)) \<and> unat (fst (snd e)) < 2 ^ 16"
  using assms
proof (induction vs arbitrary: a)
  case (Cons v vs)
  note fits = fits_memory_Cons [OF Cons.prems(1)]
  show ?case using Cons.IH [OF fits(1)] Cons.prems(2) fits(2) by (auto simp: unat_of_nat)
qed simp

lemma layout_entries_distinct: "fits_memory a vs \<Longrightarrow> distinct (map (\<lambda>e. fst (snd e)) (layout_entries a vs))"
proof (induction vs arbitrary: a)
  case (Cons v vs)
  note fits = fits_memory_Cons [OF Cons.prems]
  have "word_of_nat a \<noteq> fst (snd e)" if "e \<in> set (layout_entries (a + unat (nv_size v)) vs)" for e
  proof
    assume "word_of_nat a = fst (snd e)"
    moreover have "unat (word_of_nat a :: u32) = a" using fits(2) by (simp add: unat_of_nat)
    ultimately show False using layout_entry_starts [OF fits(1) that] fits(3) by simp
  qed
  with Cons.IH [OF fits(1)] show ?case by auto
qed simp

lemma laid_out_contiguous: "fits_memory a vs \<Longrightarrow> contiguous a (laid_out a vs)"
proof (induction vs arbitrary: a)
  case (Cons v vs)
  note fits = fits_memory_Cons [OF Cons.prems]
  with Cons.IH [OF fits(1)] show ?case by (simp add: known_variable_def narrowed unat_of_nat)
qed (simp add: fits_memory_def)

lemma laid_out_sorted: "fits_memory a vs \<Longrightarrow> by_start (laid_out a vs)"
proof (induction vs arbitrary: a)
  case (Cons v vs)
  note fits = fits_memory_Cons [OF Cons.prems]
  have "a < unat (var_start w)" if w: "w \<in> set (laid_out (a + unat (nv_size v)) vs)" for w
  proof -
    obtain e where e: "e \<in> set (layout_entries (a + unat (nv_size v)) vs)" "w = known_variable e"
      using w by (auto simp: laid_out_entries)
    with layout_entry_starts [OF fits(1) e(1)] fits(3) show ?thesis
      by (auto simp: known_variable_def narrowed split: prod.split)
  qed
  with Cons.IH [OF fits(1)] fits(2) show ?case
    by (auto simp: by_start_def known_variable_def word_less_nat_alt narrowed unat_of_nat)
qed (simp add: by_start_def)

lemma reset_known_variables_layout:
  assumes "distinct (map nv_name (namedVariables d))" and "fits_memory 0 (namedVariables d)"
  shows "m_variables (reset_known_variables (fst (getVariablesMap d)) n) = laid_out 0 (namedVariables d)"
proof -
  let ?es = "fst (getVariablesMap d)" and ?vs = "namedVariables d"
  have entries: "set ?es = set (layout_entries 0 ?vs)"
    using variables_map_entries [OF assms(1), of "[]" 0] by (simp add: getVariablesMap_def)
  have len: "distinct ?es" using ordered_distinct [OF variables_map_ordered, of "[]"] by (simp add: getVariablesMap_def ordered_def distinct_map)
  have "inj_on (\<lambda>e. fst (snd e)) (set (layout_entries 0 ?vs))"
    using layout_entries_distinct [OF assms(2)] by (simp add: distinct_map)
  then have "distinct (map (\<lambda>e. fst (snd e)) ?es)" using len entries by (simp add: distinct_map)
  moreover have "\<forall>e\<in>set ?es. unat (fst (snd e)) < 2 ^ 16" using layout_entry_starts [OF assms(2)] entries by auto
  ultimately have known: "by_start (fst (known_variables ?es [] removed))"
      "set (fst (known_variables ?es [] removed)) = set (laid_out 0 ?vs)" for removed
    using known_variables_sorted [of "[]" ?es removed] entries by (auto simp: by_start_def laid_out_entries)
  have "fst (known_variables ?es [] removed) = laid_out 0 ?vs" for removed
    using by_start_unique [OF known(1) laid_out_sorted [OF assms(2)] known(2)] .
  then show ?thesis by (simp add: reset_known_variables_def effect_def split: prod.split) (metis fst_conv)
qed

text \<open>After the description of a robot was received, the node knows the variables of the description one after the other
  from address 0 on, in the order of the description.\<close>

theorem description_lays_out_variables:
  assumes "distinct (map nv_name (namedVariables (m_description n)))" and "fits_memory 0 (namedVariables (m_description n))"
  shows "m_variables (on_description_received n) = laid_out 0 (namedVariables (m_description n)) \<and>
    contiguous 0 (m_variables (on_description_received n))"
proof -
  have kept: "m_variables (schedule_execution_state_update n') = m_variables n'" "m_variables (schedule_variables_update t n') = m_variables n'"
    "m_variables (write_message b cb n') = m_variables n'" "m_variables (set_status st n') = m_variables n'"
    "m_variables (request_device_info n') = m_variables n'" for n' t b cb st
    by (simp_all add: schedule_execution_state_update_def request_execution_state_def schedule_variables_update_def write_message_def
      write_messages_to_def effect_def set_status_def request_device_info_def Let_def)
  have "m_variables (on_description_received n) = m_variables (reset_known_variables (fst (getVariablesMap (m_description n))) n)"
    by (simp add: on_description_received_def kept Let_def split: option.split)
  then show ?thesis
    using reset_known_variables_layout [OF assms] laid_out_contiguous [OF assms(2)] by simp
qed

section \<open>Requests for variables\<close>

definition requested :: "body \<Rightarrow> nat list" where
  "requested b = (case b of GetVariables dest start len \<Rightarrow> [unat start..<unat start + unat len] | _ \<Rightarrow> [])"

lemma requested_get: "requested (GetVariables dest start len) = [unat start..<unat start + unat len]"
  by (simp add: requested_def)

lemma requests_cover:
  assumes "unat start + unat sz + extent vs < 2 ^ 16"
  shows "concat (map requested (variable_requests dest vs start sz)) = [unat start..<unat start + unat sz + extent vs]"
  using assms
proof (induction dest vs start sz rule: variable_requests.induct)
  case (1 dest start sz)
  then show ?case by (simp add: requested_get extent_def word_gt_0 unat_eq_0)
next
  case (2 dest v vs start sz)
  have total: "extent (v # vs) = unat (var_size v) + extent vs" by (simp add: extent_def)
  have no_wrap: "unat (start + sz) = unat start + unat sz" "unat (sz + var_size v) = unat sz + unat (var_size v)"
    using "2.prems" by (simp_all add: total unat_word_ariths)
  have "unat start + unat sz \<le> unat start + unat sz + extent (v # vs)" by simp
  then have split: "[unat start..<unat start + unat sz + extent (v # vs)] =
      [unat start..<unat start + unat sz] @ [unat start + unat sz..<unat start + unat sz + extent (v # vs)]"
    using upt_add_eq_append [of "unat start" "unat start + unat sz" "extent (v # vs)"] by simp
  show ?case
  proof (cases "unat sz + unat (var_size v) > ASEBA_MAX_EVENT_ARG_COUNT - 2")
    case True
    with 2 no_wrap show ?thesis unfolding split by (simp add: requested_get total add.assoc)
  next
    case False
    with 2 no_wrap show ?thesis by (simp add: total add.assoc)
  qed
qed

lemma requests_bounded:
  assumes "\<forall>v\<in>set vs. unat (var_size v) \<le> 256" and "unat sz \<le> 256" and "b \<in> set (variable_requests dest vs start sz)"
  shows "length (requested b) \<le> 256"
  using assms
proof (induction dest vs start sz rule: variable_requests.induct)
  case (1 dest start sz)
  then show ?case by (simp add: requested_get split: if_splits)
next
  case (2 dest v vs start sz)
  have "unat (sz + var_size v) \<le> unat sz + unat (var_size v)" by (simp add: unat_word_ariths)
  with 2 show ?case
    by (auto simp: requested_get ASEBA_MAX_EVENT_ARG_COUNT_def not_less split: if_splits)
qed

text \<open>The requests for all variables ask for every word of the memory of the variables exactly once and in order, and for at
  most 256 words at a time when no variable is larger.\<close>

theorem variable_requests_cover:
  assumes "contiguous 0 vs" and "extent vs < 2 ^ 16" and "\<forall>v\<in>set vs. unat (var_size v) \<le> 256"
  shows "concat (map requested (variable_requests dest vs 0 0)) = [0..<length (memory vs)] \<and>
    (\<forall>b\<in>set (variable_requests dest vs 0 0). length (requested b) \<le> 256)"
  using requests_cover [of 0 0 vs dest] requests_bounded [of vs 0 _ dest 0] assms by (simp add: memory_length)

section \<open>Variables set by applications\<close>

lemma variables_of_distinct:
  assumes "distinct (map var_name (m_variables n))"
  shows "variables_of n = map (\<lambda>v. (var_name v, aseba_variable_from_range (var_value v))) (m_variables n)"
proof -
  have "foldl (\<lambda>m v. insert_property (var_name v) (aseba_variable_from_range (var_value v)) m) m vs =
      m @ map (\<lambda>v. (var_name v, aseba_variable_from_range (var_value v))) vs"
    if "distinct (map fst m @ map var_name vs)" for m vs
    using that
  proof (induction vs arbitrary: m)
    case (Cons v vs)
    then have "map_of m (var_name v) = None" by (auto simp: map_of_eq_None_iff)
    with Cons show ?case by (simp add: insert_property_def)
  qed simp
  from this [of "[]" "m_variables n"] assms show ?thesis by (simp add: variables_of_def)
qed

lemma find_by_name:
  assumes "distinct (map f xs)" and "x \<in> set xs"
  shows "find (\<lambda>y. f y = f x) xs = Some x"
  using assms by (induction xs) auto

text \<open>Right after a program was loaded the variables have no values. An application is told null for them, and to write null back is
  refused: nothing is sent.\<close>

lemma null_not_written_back:
  assumes "v \<in> set (m_variables n)" "distinct (map var_name (m_variables n))" "var_value v = []" "var_size v \<noteq> 0"
  shows "\<exists>e. variable_message n (var_name v, aseba_variable_from_range (var_value v)) = Inl e"
  using assms find_by_name [OF assms(2,1)]
  by (auto simp: variable_message_def aseba_variable_from_range_def to_aseba_variable_def is_integral_def)

text \<open>C26: A node that has the values of all its variables accepts them back: when an application writes the variables as it
  read them, it is not refused, and the robot is sent exactly the values the node has, each to the address of its variable.
  The values of every variable are known in full (not those that are announced as null right after a program was
  loaded), the names of the variables are distinct and the node still has its endpoint.\<close>

theorem variables_written_back:
  assumes "distinct (map var_name (m_variables n))" and "\<forall>v\<in>set (m_variables n). length (var_value v) = unat (var_size v)"
    and "m_endpoint n \<noteq> None"
  shows "set_node_variables (variables_of n) cb n =
    (None, effect (Send (map (\<lambda>v. SetVariables (m_id n) (var_start v) (var_value v)) (m_variables n)) cb) n)"
proof -
  have one: "variable_message n (var_name v, aseba_variable_from_range (var_value v)) =
      Inr (SetVariables (m_id n) (var_start v) (var_value v))" if "v \<in> set (m_variables n)" for v
  proof -
    have len: "length (var_value v) = unat (var_size v)" using that assms(2) by blast
    then have "length (var_value v) < 2 ^ 16" "word_of_nat (length (var_value v)) = var_size v"
      using word_size_bound [of "var_size v"] by simp_all
    then show ?thesis
      using variable_roundtrip [of "var_value v"] find_by_name [OF assms(1) that] by (simp add: variable_message_def)
  qed
  then have "mapR (variable_message n) (variables_of n) =
      Inr (map (\<lambda>v. SetVariables (m_id n) (var_start v) (var_value v)) (m_variables n))"
    by (simp add: variables_of_distinct [OF assms(1)] mapR_eq_Inr_iff list_all2_conv_all_nth)
  then show ?thesis using assms(3) by (auto simp: set_node_variables_def write_messages_to_def)
qed

theorem variables_written_back_witness:
  "let n = (aseba_node 1 5 nil_uuid (Some \<lparr>ep_wireless = False, ep_type = EP_thymio, ep_name = [], ep_definitions = \<lparr>events = [], constants = []\<rparr>\<rparr>))
         \<lparr>m_variables := [\<lparr>var_name = [97], var_start = 3, var_size = 2, var_value = [1, 2]\<rparr>]\<rparr>
   in effects (snd (set_node_variables (variables_of n) No_callback n)) = [Send [SetVariables 1 3 [1, 2]] No_callback]"
  using variables_written_back [of "(aseba_node 1 5 nil_uuid (Some \<lparr>ep_wireless = False, ep_type = EP_thymio, ep_name = [], ep_definitions = \<lparr>events = [], constants = []\<rparr>\<rparr>))
         \<lparr>m_variables := [\<lparr>var_name = [97], var_start = 3, var_size = 2, var_value = [1, 2]\<rparr>]\<rparr>" No_callback]
  by (simp add: Let_def aseba_node_def effect_def)

end
