(* ===== verification/Endpoint_Events.thy ===== *)
theory Endpoint_Events
  imports Aseba_Node
begin

text \<open>
  The definitions an endpoint keeps for its compiler, and events that cross it
  (\<^verbatim>\<open>thymio-device-manager/aseba_endpoint.cpp\<close> and \<^verbatim>\<open>events.h\<close>): the table of events, the shared variables, events that
  applications emit and events that robots send. The type of an event has one value, so that the tests for it are always
  passed. An unordered map is the list of its entries in the order of iteration.
\<close>

section \<open>Operations\<close>

record event =
  ev_name :: bytes
  ev_size :: "64 word"

definition indexed :: "'a list \<Rightarrow> (nat \<times> 'a) list" where
  "indexed xs = zip [0..<length xs] xs"

definition get_event_named :: "common_definitions \<Rightarrow> bytes \<Rightarrow> run_failure + (named_value \<times> nat) option" where
  "get_event_named defs name =
     bindR (UTF8ToWString name) (\<lambda>wname.
     Inr (map_option (\<lambda>(i, e). (e, i)) (find (\<lambda>(i, e). nval_name e = wname) (indexed (events defs)))))"

definition get_event :: "common_definitions \<Rightarrow> u16 \<Rightarrow> (named_value \<times> nat) option" where
  "get_event defs i = (if length (events defs) \<le> unat i then None else Some (events defs ! unat i, unat i))"

text \<open>A size is converted to \<^verbatim>\<open>int\<close>.\<close>

definition event_description :: "event \<Rightarrow> run_failure + named_value" where
  "event_description e =
     bindR (UTF8ToWString (ev_name e)) (\<lambda>n. Inr \<lparr>nval_name = n, nval_value = sint (ucast (ev_size e) :: 32 word)\<rparr>)"

definition set_events_table :: "event list \<Rightarrow> common_definitions \<Rightarrow> run_failure + common_definitions" where
  "set_events_table es defs = bindR (mapR event_description es) (\<lambda>vs. Inr (defs\<lparr>events := vs\<rparr>))"

definition erase_first :: "('a \<Rightarrow> bool) \<Rightarrow> 'a list \<Rightarrow> 'a list" where
  "erase_first P xs = takeWhile (\<lambda>x. \<not> P x) xs @ drop 1 (dropWhile (\<lambda>x. \<not> P x) xs)"

definition shared_value :: "property \<Rightarrow> tdm_error + int option" where
  "shared_value p =
     (if is_null p then Inr None
      else
        case integral_value p of
          Inr v \<Rightarrow> Inr (Some (sint v))
        | Inl e \<Rightarrow> Inl e)"

fun set_shared_variables ::
  "properties_map \<Rightarrow> common_definitions \<Rightarrow> run_failure + tdm_error option \<times> common_definitions" where
  "set_shared_variables [] defs = Inr (None, defs)"
| "set_shared_variables ((name, p) # m) defs =
     bindR (UTF8ToWString name) (\<lambda>n.
     let defs' = defs\<lparr>constants := erase_first (\<lambda>v. n = nval_name v) (constants defs)\<rparr> in
     case shared_value p of
       Inl e \<Rightarrow> Inr (Some e, defs')
     | Inr None \<Rightarrow> set_shared_variables m defs'
     | Inr (Some v) \<Rightarrow> set_shared_variables m (defs'\<lparr>constants := constants defs' @ [\<lparr>nval_name = n, nval_value = v\<rparr>]\<rparr>))"

text \<open>Events are emitted all together, or the callback is called with the error of the first one that cannot be.\<close>

datatype emission = Emit_error "nat option" tdm_error | Emit_write "message list" "nat option"

definition event_message :: "common_definitions \<Rightarrow> bytes \<times> property \<Rightarrow> run_failure + tdm_error + message" where
  "event_message defs e =
     bindR (get_event_named defs (fst e)) (\<lambda>def.
     Inr (case def of
       None \<Rightarrow> Inl no_such_variable
     | Some (d, i) \<Rightarrow>
         bindR (to_aseba_variable (snd e) (word_of_int (nval_value d))) (\<lambda>vals.
         Inr \<lparr>source = 0, mtype = word_of_nat i, mbody = UserMessage vals\<rparr>)))"

fun event_messages :: "common_definitions \<Rightarrow> properties_map \<Rightarrow> message list \<Rightarrow> run_failure + tdm_error + message list" where
  "event_messages defs [] messages = Inr (Inr messages)"
| "event_messages defs (e # m) messages =
     bindR (event_message defs e) (\<lambda>r.
     case r of
       Inl err \<Rightarrow> Inr (Inl err)
     | Inr msg \<Rightarrow> event_messages defs m (messages @ [msg]))"

definition emit_events :: "common_definitions \<Rightarrow> properties_map \<Rightarrow> nat option \<Rightarrow> run_failure + emission" where
  "emit_events defs m cb =
     bindR (event_messages defs m []) (\<lambda>r.
     Inr (case r of Inl e \<Rightarrow> Emit_error cb e | Inr messages \<Rightarrow> Emit_write messages cb))"

text \<open>An event of a robot: the properties that are passed to the group and to the node, when the arguments have the size of
  the definition.\<close>

definition on_event :: "i16 list \<Rightarrow> named_value \<Rightarrow> properties_map option" where
  "on_event data def =
     (let p = aseba_variable_from_range data in
      if (is_integral p \<and> nval_value def \<noteq> 1) \<or> int (property_size p) \<noteq> uint (word_of_int (nval_value def) :: 64 word) then None
      else Some [(WStringToUTF8 (nval_name def), p)])"

section \<open>Events across endpoints\<close>

lemma property_size_range: "property_size (aseba_variable_from_range data) = length data"
  by (simp add: property_size_def aseba_variable_from_range_def)

lemma find_indexed:
  assumes "distinct (map f xs)" and "i < length xs"
  shows "find (\<lambda>(j, x). f x = f (xs ! i)) (indexed xs) = Some (i, xs ! i)"
proof -
  have "f x = f (xs ! i) \<longleftrightarrow> j = i" if "(j, x) \<in> set (indexed xs)" for j x
    using that assms by (auto simp: indexed_def in_set_zip distinct_conv_nth) blast
  have "find (\<lambda>(j, x). f x = f (xs ! i)) (indexed xs) = find (\<lambda>(j, x). j = i) (indexed xs)"
    using \<open>\<And>x j. (j, x) \<in> set (indexed xs) \<Longrightarrow> (f x = f (xs ! i)) = (j = i)\<close> by (intro find_cong) auto
  also have "\<dots> = Some (i, xs ! i)"
    unfolding find_Some_iff using assms(2) by (intro exI [of _ i]) (auto simp: indexed_def)
  finally show ?thesis .
qed

text \<open>The properties of an event of a robot, emitted by an endpoint with the same table of events, become a message with the
  number of the event and the arguments the robot sent.\<close>

lemma emitted_event_unchanged:
  assumes "distinct (map nval_name (events defs))" and "get_event defs i = Some (def, k)"
    and "list_all (\<lambda>c. c < 0xd800) (nval_name def)" and "0 \<le> nval_value def" "nval_value def < 2 ^ 15"
    and "on_event data def = Some m"
  shows "emit_events defs m None = Inr (Emit_write [\<lparr>source = 0, mtype = i, mbody = UserMessage data\<rparr>] None)"
proof -
  have def: "def = events defs ! unat i" "k = unat i" "unat i < length (events defs)"
    using assms(2) by (auto simp: get_event_def split: if_splits)
  have small: "uint (word_of_int (nval_value def) :: 64 word) = nval_value def"
    using assms(4,5) by (simp add: uint_word_of_int)
  have m: "m = [(WStringToUTF8 (nval_name def), aseba_variable_from_range data)]" and len: "int (length data) = nval_value def"
    using assms(6) small by (auto simp: on_event_def property_size_range Let_def split: if_splits)
  have "int (length data) < 2 ^ 16" using len assms(5) by simp
  then have "length data < 2 ^ 16" by simp
  then have vals: "to_aseba_variable (aseba_variable_from_range data) (word_of_int (nval_value def)) = Inr data"
    using variable_roundtrip [of data] len by (metis of_int_of_nat_eq)
  have "get_event_named defs (WStringToUTF8 (nval_name def)) = Inr (Some (def, unat i))"
    using find_indexed [OF assms(1) def(3)] utf8_roundtrip_bmp [OF assms(3)] def(1) by (simp add: get_event_named_def)
  then show ?thesis using vals by (simp add: emit_events_def m event_message_def)
qed

section \<open>Shared variables\<close>

definition constant_of :: "common_definitions \<Rightarrow> wstring \<Rightarrow> int option" where
  "constant_of defs w = map_option nval_value (find (\<lambda>v. w = nval_name v) (constants defs))"

definition encoded :: "(wstring \<times> property) list \<Rightarrow> properties_map" where
  "encoded es = map (\<lambda>(w, p). (WStringToUTF8 w, p)) es"

lemma find_erase_first:
  assumes "distinct (map f xs)"
  shows "find (\<lambda>x. w = f x) (erase_first (\<lambda>x. n = f x) xs) = (if w = n then None else find (\<lambda>x. w = f x) xs)"
  using assms
proof (induction xs)
  case (Cons x xs)
  have "find (\<lambda>x. f y = f x) xs = None" if "f y \<notin> f ` set xs" for y using that by (auto simp: find_None_iff)
  with Cons show ?case by (auto simp: erase_first_def)
qed (simp add: erase_first_def)

lemma erase_first_names:
  assumes "distinct (map f xs)"
  shows "distinct (map f (erase_first (\<lambda>x. n = f x) xs))" "n \<notin> f ` set (erase_first (\<lambda>x. n = f x) xs)"
proof -
  have "f ` set (erase_first (\<lambda>x. n = f x) xs) = f ` set xs - {n} \<and> distinct (map f (erase_first (\<lambda>x. n = f x) xs))"
    using assms by (induction xs) (auto simp: erase_first_def)
  then show "distinct (map f (erase_first (\<lambda>x. n = f x) xs))" "n \<notin> f ` set (erase_first (\<lambda>x. n = f x) xs)" by auto
qed

lemma find_append: "find P (xs @ ys) = (case find P xs of None \<Rightarrow> find P ys | Some x \<Rightarrow> Some x)"
  by (induction xs) auto

text \<open>Setting shared variables gives the constants of an endpoint the values of the variables and removes those that are set
  to null; all other constants keep their values.\<close>

theorem shared_variables_set:
  assumes "distinct (map nval_name (constants defs))" and "distinct (map fst es)"
    and "\<forall>(w, p)\<in>set es. list_all (\<lambda>c. c < 0xd800) w \<and> (\<exists>v. shared_value p = Inr v)"
  shows "\<exists>defs'. set_shared_variables (encoded es) defs = Inr (None, defs') \<and> distinct (map nval_name (constants defs')) \<and>
    (\<forall>w. constant_of defs' w = (case map_of es w of None \<Rightarrow> constant_of defs w | Some p \<Rightarrow> projr (shared_value p)))"
  using assms
proof (induction es arbitrary: defs)
  case (Cons e es)
  obtain w p where e: "e = (w, p)" by (cases e)
  define defs1 where "defs1 = defs\<lparr>constants := erase_first (\<lambda>v. w = nval_name v) (constants defs)\<rparr>"
  obtain v where v: "shared_value p = Inr v" using Cons.prems(3) e by auto
  define defs2 where "defs2 = (case v of None \<Rightarrow> defs1
    | Some x \<Rightarrow> defs1\<lparr>constants := constants defs1 @ [\<lparr>nval_name = w, nval_value = x\<rparr>]\<rparr>)"
  have step: "set_shared_variables (encoded (e # es)) defs = set_shared_variables (encoded es) defs2"
    using Cons.prems(3) v e by (simp add: encoded_def utf8_roundtrip_bmp defs2_def defs1_def Let_def split: option.split)
  have names: "distinct (map nval_name (constants defs2))"
    using erase_first_names [OF Cons.prems(1), of w] by (auto simp: defs2_def defs1_def split: option.split)
  have vals: "constant_of defs2 u = (if u = w then v else constant_of defs u)" for u
    using find_erase_first [OF Cons.prems(1), of u w]
    by (auto simp: constant_of_def defs2_def defs1_def find_append split: option.split)
  have "w \<notin> fst ` set es" using Cons.prems(2) e by simp
  then have "map_of es w = None" by (simp add: map_of_eq_None_iff)
  with Cons.IH [OF names] Cons.prems(2,3) step vals v e show ?case by (auto split: if_splits option.split)
qed (simp add: encoded_def)

end
