(* ===== verification/Scratchpads.thy ===== *)
theory Scratchpads
  imports Endpoint_Events
begin

text \<open>
  A group of endpoints and the scratchpads it assigns to its nodes (\<^verbatim>\<open>thymio-device-manager/group.h\<close> and \<^verbatim>\<open>group.cpp\<close>).
  The endpoints of a group are what it reads and writes of them; signals are appended to \<open>g_signals\<close>. Identifiers of
  scratchpads come from a generator and are arguments, as is the indeterminate node identifier of a new scratchpad.
\<close>

section \<open>State\<close>

record scratchpad =
  scratchpad_id :: node_id
  sp_language :: programming_language
  nodeid :: node_id
  preferred_node_id :: node_id
  sp_name :: bytes
  aseba_id :: u16
  sp_text :: bytes
  deleted :: bool

record group_endpoint =
  ge_key :: nat
  ge_defs :: common_definitions
  ge_nodes :: "node_state list"

datatype group_signal = Shared_variables_signal properties_map | Events_signal "event list" | Scratchpad_signal scratchpad

record group_state =
  g_uuid :: node_id
  g_endpoints :: "group_endpoint list"
  m_events_table :: "event list"
  m_shared_variables :: properties_map
  m_scratchpads :: "scratchpad list"
  g_signals :: "group_signal list"

definition signal :: "group_signal \<Rightarrow> group_state \<Rightarrow> group_state" where
  "signal s g = g\<lparr>g_signals := g_signals g @ [s]\<rparr>"

definition group_nodes :: "group_state \<Rightarrow> node_state list" where
  "group_nodes g = concat (map ge_nodes (g_endpoints g))"

definition has_state :: "group_state \<Rightarrow> bool" where
  "has_state g \<longleftrightarrow> length (g_endpoints g) > 1 \<or> m_events_table g \<noteq> [] \<or> m_shared_variables g \<noteq> []"

definition has_node :: "node_id \<Rightarrow> group_state \<Rightarrow> bool" where
  "has_node i g \<longleftrightarrow> list_ex (\<lambda>n. m_uuid n = i) (group_nodes g)"

section \<open>Assignment\<close>

definition connected_nodes :: "node_state list \<Rightarrow> node_state list" where
  "connected_nodes ns = filter (\<lambda>n. m_status n \<noteq> disconnected \<and> m_status n \<noteq> connected) ns"

definition used_ids :: "scratchpad list \<Rightarrow> node_id list" where
  "used_ids pads = filter (\<lambda>i. i \<noteq> nil_uuid) (map nodeid pads)"

definition free_nodes :: "node_state list \<Rightarrow> scratchpad list \<Rightarrow> node_state list" where
  "free_nodes ns pads = filter (\<lambda>n. m_uuid n \<notin> set (used_ids pads)) (connected_nodes ns)"

text \<open>Scratchpads with the positions of the modified ones, in ascending order.\<close>

type_synonym assignment = "scratchpad list \<times> nat list"

definition give :: "nat \<Rightarrow> node_id \<Rightarrow> assignment \<Rightarrow> assignment" where
  "give k i a = (case a of (pads, modified) \<Rightarrow> (pads[k := (pads ! k)\<lparr>nodeid := i\<rparr>], insort_insert k modified))"

definition release :: "node_state list \<Rightarrow> assignment \<Rightarrow> nat \<Rightarrow> assignment" where
  "release ns a k = (if nodeid (fst a ! k) \<in> set (map m_uuid (connected_nodes ns)) then a else give k nil_uuid a)"

definition assign_node :: "(node_state \<Rightarrow> scratchpad \<Rightarrow> bool) \<Rightarrow> assignment \<Rightarrow> node_state \<Rightarrow> assignment" where
  "assign_node predicate a n =
     (case find (\<lambda>k. nodeid (fst a ! k) = nil_uuid \<and> predicate n (fst a ! k)) [0..<length (fst a)] of
        None \<Rightarrow> a
      | Some k \<Rightarrow> give k (m_uuid n) a)"

definition assign_matching :: "node_state list \<Rightarrow> (node_state \<Rightarrow> scratchpad \<Rightarrow> bool) \<Rightarrow> assignment \<Rightarrow> assignment" where
  "assign_matching ns predicate a = foldl (assign_node predicate) a (free_nodes ns (fst a))"

text \<open>The remaining scratchpads; false when the nodes ran out, which ends the whole operation.\<close>

fun assign_rest :: "node_state list \<Rightarrow> nat list \<Rightarrow> assignment \<Rightarrow> bool \<times> assignment" where
  "assign_rest ns [] a = (True, a)"
| "assign_rest ns (k # ks) a =
     (if nodeid (fst a ! k) \<noteq> nil_uuid then assign_rest ns ks a
      else
        case free_nodes ns (fst a) of
          [] \<Rightarrow> (False, a)
        | n # _ \<Rightarrow> assign_rest ns ks (give k (m_uuid n) a))"

definition match_pads :: "node_state list \<Rightarrow> scratchpad list \<Rightarrow> assignment" where
  "match_pads ns pads =
     (let a0 = foldl (release ns) (pads, []) [0..<length pads];
          a1 = assign_matching ns (\<lambda>n s. nodeid s = m_uuid n) a0;
          a2 = assign_matching ns (\<lambda>n s. aseba_id s = m_id n) a1
      in assign_matching ns (\<lambda>n s. sp_name s = friendly_name n) a2)"

definition assign_scratchpads :: "group_state \<Rightarrow> group_state" where
  "assign_scratchpads g =
     (case assign_rest (group_nodes g) [0..<length (m_scratchpads g)] (match_pads (group_nodes g) (m_scratchpads g)) of
        (completed, pads, modified) \<Rightarrow>
          let g' = g\<lparr>m_scratchpads := pads\<rparr>
          in if completed then foldl (\<lambda>g k. signal (Scratchpad_signal (pads ! k)) g) g' modified else g')"

section \<open>Operations of a group\<close>

definition attach_to_endpoint :: "group_endpoint \<Rightarrow> group_state \<Rightarrow> run_failure + group_state" where
  "attach_to_endpoint ep g =
     bindR (set_events_table (m_events_table g) (ge_defs ep)) (\<lambda>defs.
     let ep' = ep\<lparr>ge_defs := defs, ge_nodes := map (\<lambda>n. set_status (m_status n) n) (ge_nodes ep)\<rparr>;
         eps = (if list_ex (\<lambda>e. ge_key e = ge_key ep) (g_endpoints g)
                then map (\<lambda>e. if ge_key e = ge_key ep then ep' else e) (g_endpoints g) else g_endpoints g @ [ep']);
         g1 = signal (Shared_variables_signal (m_shared_variables g)) (g\<lparr>g_endpoints := eps\<rparr>)
     in Inr (assign_scratchpads (signal (Events_signal (m_events_table g)) g1)))"

text \<open>The calls of the callback of emitted events: with the error of every endpoint that refuses them at once, and without an
  error when the last endpoint is done.\<close>

definition emission_errors :: "emission list \<Rightarrow> tdm_error list" where
  "emission_errors es = concat (map (\<lambda>e. case e of Emit_error _ err \<Rightarrow> [err] | Emit_write _ _ \<Rightarrow> []) es)"

definition group_emit_events :: "properties_map \<Rightarrow> nat \<Rightarrow> group_state \<Rightarrow> run_failure + emission list \<times> tdm_error option list" where
  "group_emit_events m cb g =
     bindR (mapR (\<lambda>ep. emit_events (ge_defs ep) m (Some cb)) (g_endpoints g)) (\<lambda>es.
     Inr (es, map Some (emission_errors es) @ [None]))"

text \<open>The broadcast of an event of a robot: what each of the other endpoints emits, with the endpoint.\<close>

definition group_on_event_received :: "nat \<Rightarrow> properties_map \<Rightarrow> group_state \<Rightarrow> run_failure + (nat \<times> emission) list" where
  "group_on_event_received source_ep m g =
     mapR (\<lambda>ep. bindR (emit_events (ge_defs ep) m None) (\<lambda>e. Inr (ge_key ep, e)))
       (filter (\<lambda>ep. ge_key ep \<noteq> source_ep) (g_endpoints g))"

text \<open>The error of an endpoint is ignored.\<close>

definition group_set_shared_variables :: "properties_map \<Rightarrow> group_state \<Rightarrow> run_failure + group_state" where
  "group_set_shared_variables m g =
     bindR (mapR (\<lambda>ep. bindR (set_shared_variables m (ge_defs ep)) (\<lambda>(e, defs). Inr (ep\<lparr>ge_defs := defs\<rparr>))) (g_endpoints g)) (\<lambda>eps.
     Inr (signal (Shared_variables_signal m) (g\<lparr>m_shared_variables := m, g_endpoints := eps\<rparr>)))"

definition group_set_events_table :: "event list \<Rightarrow> group_state \<Rightarrow> run_failure + group_state" where
  "group_set_events_table es g =
     bindR (mapR (\<lambda>ep. bindR (set_events_table es (ge_defs ep)) (\<lambda>defs. Inr (ep\<lparr>ge_defs := defs\<rparr>))) (g_endpoints g)) (\<lambda>eps.
     Inr (signal (Events_signal es) (g\<lparr>m_events_table := es, g_endpoints := eps\<rparr>)))"

text \<open>A new scratchpad; the members the code does not set have the values of \<open>junk\<close>.\<close>

definition create_scratchpad :: "node_id \<Rightarrow> scratchpad \<Rightarrow> scratchpad" where
  "create_scratchpad uuid junk =
     junk\<lparr>scratchpad_id := uuid, sp_name := [], aseba_id := - 1, sp_text := [], deleted := False\<rparr>"

definition pad_matches :: "node_id option \<Rightarrow> bytes option \<Rightarrow> u16 option \<Rightarrow> scratchpad \<Rightarrow> bool" where
  "pad_matches preferred name i s \<longleftrightarrow>
     preferred = Some (nodeid s) \<or> preferred = Some (preferred_node_id s) \<or> i = Some (aseba_id s) \<or> name = Some (sp_name s)"

text \<open>The scratchpads and the position of the one found or created.\<close>

definition find_or_create_scratch_pad ::
  "node_id option \<Rightarrow> bytes option \<Rightarrow> u16 option \<Rightarrow> scratchpad \<Rightarrow> scratchpad list \<Rightarrow> scratchpad list \<times> nat" where
  "find_or_create_scratch_pad preferred name i fresh pads =
     (case find (\<lambda>k. pad_matches preferred name i (pads ! k)) [0..<length pads] of
        Some k \<Rightarrow> (pads, k)
      | None \<Rightarrow>
          let s1 = (case preferred of None \<Rightarrow> fresh | Some p \<Rightarrow> fresh\<lparr>preferred_node_id := p\<rparr>);
              s2 = (case name of None \<Rightarrow> s1 | Some nm \<Rightarrow> s1\<lparr>sp_name := nm\<rparr>);
              s3 = (case i of None \<Rightarrow> s2 | Some x \<Rightarrow> s2\<lparr>aseba_id := x\<rparr>)
          in (pads @ [s3], length pads))"

definition find_or_create_scratch_pad_for_node :: "node_id \<Rightarrow> scratchpad \<Rightarrow> scratchpad list \<Rightarrow> scratchpad list \<times> nat" where
  "find_or_create_scratch_pad_for_node i fresh pads =
     (case find (\<lambda>k. nodeid (pads ! k) = i) [0..<length pads] of
        Some k \<Rightarrow> (pads, k)
      | None \<Rightarrow> (pads @ [fresh\<lparr>nodeid := i\<rparr>], length pads))"

definition set_node_scratchpad ::
  "node_id \<Rightarrow> bytes \<Rightarrow> programming_language \<Rightarrow> scratchpad \<Rightarrow> group_state \<Rightarrow> group_state" where
  "set_node_scratchpad i content language fresh g =
     (case find_or_create_scratch_pad_for_node i fresh (m_scratchpads g) of
        (pads, k) \<Rightarrow>
          let pads' = pads[k := (pads ! k)\<lparr>sp_text := content, sp_language := language\<rparr>]
          in signal (Scratchpad_signal (pads' ! k)) (g\<lparr>m_scratchpads := pads'\<rparr>))"

text \<open>A program in the format of Aseba Studio, parsed to constants, events and nodes, or not at all; a node has an
  identifier of the device, a number or none.\<close>

datatype pad_id = No_id | Uuid_id node_id | Native_id u16

record aesl_node =
  an_name :: "bytes option"
  an_id :: pad_id
  an_code :: bytes

type_synonym aesl = "(bytes \<times> property) list \<times> event list \<times> aesl_node list"

definition shared_constants :: "(bytes \<times> property) list \<Rightarrow> properties_map" where
  "shared_constants cs =
     foldl (\<lambda>m (name, p). case integral_value p of Inr v \<Rightarrow> insert_property name (property_of_i16 v) m | Inl _ \<Rightarrow> m) [] cs"

definition load_node :: "scratchpad list \<Rightarrow> aesl_node \<times> scratchpad \<Rightarrow> scratchpad list" where
  "load_node pads x =
     (case x of (node, fresh) \<Rightarrow>
        let (preferred, i) = (case an_id node of No_id \<Rightarrow> (None, None) | Uuid_id u \<Rightarrow> (Some u, None) | Native_id j \<Rightarrow> (None, Some j));
            (pads', k) = find_or_create_scratch_pad preferred (an_name node) i fresh pads
        in pads'[k := (pads' ! k)\<lparr>sp_text := an_code node, sp_language := Aesl\<rparr>])"

definition load_code ::
  "aesl option \<Rightarrow> programming_language \<Rightarrow> (nat \<Rightarrow> scratchpad) \<Rightarrow> group_state \<Rightarrow> run_failure + tdm_error option \<times> group_state" where
  "load_code parsed language fresh g =
     (if language \<noteq> Aesl then Inr (Some unsupported_language, g)
      else
        case parsed of
          None \<Rightarrow> Inr (Some invalid_aesl, g)
        | Some (constants', events', nodes') \<Rightarrow>
            let g1 = foldl (\<lambda>g s. signal (Scratchpad_signal (s\<lparr>deleted := True\<rparr>)) g) g (m_scratchpads g);
                pads = foldl load_node [] (zip nodes' (map fresh [0..<length nodes']))
            in bindR (group_set_shared_variables (shared_constants constants') (g1\<lparr>m_scratchpads := pads\<rparr>)) (\<lambda>g2.
               bindR (group_set_events_table events' g2) (\<lambda>g3.
               Inr (None, assign_scratchpads g3))))"

section \<open>What the assignment establishes\<close>

definition connected_ids :: "node_state list \<Rightarrow> node_id set" where
  "connected_ids ns = m_uuid ` set (connected_nodes ns)"

text \<open>Assignments without conflict: every identifier is that of a connected node and used by one scratchpad only, and what was
  assigned at the beginning is kept.\<close>

definition fair :: "node_state list \<Rightarrow> scratchpad list \<Rightarrow> scratchpad list \<Rightarrow> bool" where
  "fair ns pads0 pads \<longleftrightarrow> length pads = length pads0 \<and>
     (\<forall>i<length pads. nodeid (pads ! i) \<noteq> nil_uuid \<longrightarrow> nodeid (pads ! i) \<in> connected_ids ns) \<and>
     (\<forall>i<length pads. \<forall>j<length pads. i \<noteq> j \<longrightarrow> nodeid (pads ! i) \<noteq> nil_uuid \<longrightarrow> nodeid (pads ! i) \<noteq> nodeid (pads ! j)) \<and>
     (\<forall>i<length pads. nodeid (pads0 ! i) \<in> connected_ids ns \<longrightarrow> nodeid (pads ! i) = nodeid (pads0 ! i))"

lemma used_ids_iff: "i \<in> set (used_ids pads) \<longleftrightarrow> i \<noteq> nil_uuid \<and> (\<exists>k<length pads. nodeid (pads ! k) = i)"
  by (auto simp: used_ids_def in_set_conv_nth image_iff) (metis nth_mem)

lemma fair_give:
  assumes "fair ns pads0 (fst a)" and "k < length (fst a)" "nodeid (fst a ! k) = nil_uuid"
    and "i \<in> connected_ids ns" "i \<noteq> nil_uuid" "i \<notin> set (used_ids (fst a))" and "nil_uuid \<notin> connected_ids ns"
  shows "fair ns pads0 (fst (give k i a))"
proof -
  obtain pads modified where a: "a = (pads, modified)" by fastforce
  have new: "nodeid (pads ! j) \<noteq> i" if "j < length pads" for j
    using assms(5,6) that a by (auto simp: used_ids_iff)
  show ?thesis
    using assms(1-5,7) new unfolding a fair_def give_def by (auto simp: nth_list_update)
qed

lemma used_ids_give:
  assumes "k < length (fst a)" "nodeid (fst a ! k) = nil_uuid" "i \<noteq> nil_uuid"
  shows "set (used_ids (fst (give k i a))) = insert i (set (used_ids (fst a)))"
proof -
  obtain pads modified where a: "a = (pads, modified)" by fastforce
  show ?thesis
    unfolding a give_def set_eq_iff using assms a
    by (auto simp: used_ids_iff nth_list_update split: if_splits)
qed

lemma found_pad:
  assumes "find (\<lambda>k. nodeid (fst a ! k) = nil_uuid \<and> P k) [0..<length (fst a)] = Some k"
  shows "k < length (fst a)" "nodeid (fst a ! k) = nil_uuid"
  using assms by (auto simp: find_Some_iff)

lemma length_give [simp]: "length (fst (give k i a)) = length (fst a)"
  by (simp add: give_def split: prod.split)

text \<open>Nodes with different identifiers, none of which is used yet.\<close>

lemma fair_assign_nodes:
  assumes "fair ns pads0 (fst a)" and "nil_uuid \<notin> connected_ids ns"
    and "distinct (map m_uuid fs)" "\<forall>n\<in>set fs. m_uuid n \<in> connected_ids ns \<and> m_uuid n \<notin> set (used_ids (fst a))"
  shows "fair ns pads0 (fst (foldl (assign_node predicate) a fs))"
  using assms
proof (induction fs arbitrary: a)
  case (Cons n fs)
  have id: "m_uuid n \<in> connected_ids ns" "m_uuid n \<noteq> nil_uuid" "m_uuid n \<notin> set (used_ids (fst a))"
    using Cons.prems(2,4) by auto
  show ?case
  proof (cases "find (\<lambda>k. nodeid (fst a ! k) = nil_uuid \<and> predicate n (fst a ! k)) [0..<length (fst a)]")
    case None
    with Cons show ?thesis by (simp add: assign_node_def)
  next
    case (Some k)
    note pad = found_pad [OF Some]
    have "fair ns pads0 (fst (give k (m_uuid n) a))" using fair_give Cons.prems(1,2) pad id by blast
    moreover have "\<forall>n'\<in>set fs. m_uuid n' \<in> connected_ids ns \<and> m_uuid n' \<notin> set (used_ids (fst (give k (m_uuid n) a)))"
      using Cons.prems(3,4) pad id by (auto simp: used_ids_give image_iff)
    ultimately show ?thesis using Cons.IH [of "give k (m_uuid n) a"] Cons.prems(2,3) Some by (simp add: assign_node_def)
  qed
qed simp

lemma fair_assign_matching:
  assumes "fair ns pads0 (fst a)" and "nil_uuid \<notin> connected_ids ns" and "distinct (map m_uuid (connected_nodes ns))"
  shows "fair ns pads0 (fst (assign_matching ns predicate a))"
  unfolding assign_matching_def using assms
  by (intro fair_assign_nodes) (auto simp: free_nodes_def distinct_map_filter connected_ids_def)

text \<open>The first pass leaves the nodes that are connected.\<close>

lemma release_pads:
  assumes "k \<le> length pads"
  shows "fst (foldl (release ns) (pads, modified) [0..<k]) =
    map (\<lambda>s. if nodeid s \<in> connected_ids ns then s else s\<lparr>nodeid := nil_uuid\<rparr>) (take k pads) @ drop k pads"
  using assms
proof (induction k)
  case (Suc k)
  then have "pads = take k pads @ pads ! k # drop (Suc k) pads" by (simp add: id_take_nth_drop)
  with Suc show ?case
    by (auto simp: release_def give_def connected_ids_def nth_append list_update_append take_Suc_conv_app_nth
      Cons_nth_drop_Suc [symmetric] split: prod.splits)
qed simp

lemma distinct_filter_nth:
  assumes "distinct (filter P xs)" "i < length xs" "j < length xs" "P (xs ! i)" "xs ! i = xs ! j"
  shows "i = j"
  using assms
proof (induction xs arbitrary: i j)
  case (Cons x xs)
  then show ?case by (cases i; cases j) (auto simp: in_set_conv_nth split: if_splits)
qed simp

lemma fair_release:
  assumes "distinct (filter (\<lambda>i. i \<in> connected_ids ns) (map nodeid pads))" and "nil_uuid \<notin> connected_ids ns"
  shows "fair ns pads (fst (foldl (release ns) (pads, []) [0..<length pads]))"
proof -
  have "i = j" if "i < length pads" "j < length pads" "nodeid (pads ! i) \<in> connected_ids ns" "nodeid (pads ! i) = nodeid (pads ! j)" for i j
    using distinct_filter_nth [OF assms(1), of i j] that by simp
  then show ?thesis
    unfolding fair_def release_pads [OF order_refl] using assms(2) by auto
qed

lemma fair_match_pads:
  assumes "distinct (filter (\<lambda>i. i \<in> connected_ids ns) (map nodeid pads))" and "nil_uuid \<notin> connected_ids ns"
    and "distinct (map m_uuid (connected_nodes ns))"
  shows "fair ns pads (fst (match_pads ns pads))"
  unfolding match_pads_def Let_def using assms by (intro fair_assign_matching fair_release) auto

text \<open>The last pass: it ends early exactly when the nodes run out.\<close>

lemma assign_rest_fair:
  assumes "assign_rest ns ks a = (completed, a')" and "fair ns pads0 (fst a)" and "nil_uuid \<notin> connected_ids ns"
    and "\<forall>k\<in>set ks. k < length (fst a)"
  shows "fair ns pads0 (fst a') \<and> (completed \<longrightarrow> (\<forall>k\<in>set ks. nodeid (fst a' ! k) \<noteq> nil_uuid)) \<and>
    (\<not> completed \<longrightarrow> connected_ids ns \<subseteq> set (used_ids (fst a'))) \<and>
    (\<forall>k<length (fst a). nodeid (fst a ! k) \<noteq> nil_uuid \<longrightarrow> nodeid (fst a' ! k) = nodeid (fst a ! k))"
  using assms
proof (induction ks arbitrary: a)
  case (Cons k ks)
  show ?case
  proof (cases "nodeid (fst a ! k) = nil_uuid")
    case False
    with Cons.IH [of a] Cons.prems show ?thesis by auto
  next
    case nil: True
    show ?thesis
    proof (cases "free_nodes ns (fst a)")
      case Nil
      then have "connected_ids ns \<subseteq> set (used_ids (fst a))" by (auto simp: free_nodes_def connected_ids_def filter_empty_conv)
      with Nil nil Cons.prems show ?thesis by auto
    next
      case free: (Cons n more_nodes)
      then have "n \<in> set (free_nodes ns (fst a))" by simp
      then have n: "m_uuid n \<in> connected_ids ns" "m_uuid n \<notin> set (used_ids (fst a))" by (auto simp: free_nodes_def connected_ids_def)
      then have "m_uuid n \<noteq> nil_uuid" using Cons.prems(3) by metis
      let ?a = "give k (m_uuid n) a"
      have "fair ns pads0 (fst ?a)" using fair_give nil n \<open>m_uuid n \<noteq> nil_uuid\<close> Cons.prems by simp
      moreover have "nodeid (fst ?a ! j) = (if j = k then m_uuid n else nodeid (fst a ! j))" if "j < length (fst a)" for j
        using that by (cases a) (simp add: give_def nth_list_update)
      moreover have "assign_rest ns ks ?a = (completed, a')" using Cons.prems(1) nil free by simp
      ultimately show ?thesis using Cons.IH [of ?a] Cons.prems(3,4) nil \<open>m_uuid n \<noteq> nil_uuid\<close> by auto
    qed
  qed
qed simp

text \<open>Groups whose connected nodes have identifiers of their own, and whose scratchpads do not share a connected node.\<close>

definition well_identified :: "group_state \<Rightarrow> bool" where
  "well_identified g \<longleftrightarrow>
     (let ns = group_nodes g in
      nil_uuid \<notin> connected_ids ns \<and> distinct (map m_uuid (connected_nodes ns)) \<and>
      distinct (filter (\<lambda>i. i \<in> connected_ids ns) (map nodeid (m_scratchpads g))))"

lemma signals_pads [simp]:
  "m_scratchpads (foldl (\<lambda>g k. signal (Scratchpad_signal (pads ! k)) g) g ks) = m_scratchpads g"
  by (induction ks arbitrary: g) (simp_all add: signal_def)

lemma assigned:
  assumes "well_identified g"
  obtains completed pads modified where
    "m_scratchpads (assign_scratchpads g) = pads" "fair (group_nodes g) (m_scratchpads g) pads"
    "completed \<longrightarrow> (\<forall>k<length pads. nodeid (pads ! k) \<noteq> nil_uuid)"
    "\<not> completed \<longrightarrow> connected_ids (group_nodes g) \<subseteq> set (used_ids pads) \<and> g_signals (assign_scratchpads g) = g_signals g"
proof -
  let ?ns = "group_nodes g" and ?pads = "m_scratchpads g"
  obtain completed a' where rest: "assign_rest ?ns [0..<length ?pads] (match_pads ?ns ?pads) = (completed, a')" by (metis surj_pair)
  obtain pads modified where a': "a' = (pads, modified)" by fastforce
  have nil: "nil_uuid \<notin> connected_ids ?ns" using assms by (simp add: well_identified_def Let_def)
  have fair: "fair ?ns ?pads (fst (match_pads ?ns ?pads))"
    using assms by (intro fair_match_pads) (auto simp: well_identified_def Let_def)
  then have len: "length (fst (match_pads ?ns ?pads)) = length ?pads" by (simp add: fair_def)
  have rest_facts: "fair ?ns ?pads pads" "completed \<longrightarrow> (\<forall>k\<in>set [0..<length ?pads]. nodeid (pads ! k) \<noteq> nil_uuid)"
      "\<not> completed \<longrightarrow> connected_ids ?ns \<subseteq> set (used_ids pads)"
    using assign_rest_fair [OF rest fair nil] len by (simp_all add: a')
  have "length pads = length ?pads" using rest_facts(1) by (simp add: fair_def)
  with rest_facts rest show thesis
    by (intro that [of pads completed]) (auto simp: assign_scratchpads_def a' Let_def)
qed

text \<open>C28: Assigning the scratchpads of a group gives every node to at most one scratchpad and only nodes that are connected;
  a scratchpad keeps a node that is still connected; and no scratchpad is left without a node while a node is free.\<close>

theorem scratchpads_assigned:
  assumes "well_identified g"
  shows "let ns = group_nodes g; pads = m_scratchpads g; pads' = m_scratchpads (assign_scratchpads g) in
    length pads' = length pads \<and>
    (\<forall>i<length pads'. nodeid (pads' ! i) \<noteq> nil_uuid \<longrightarrow> nodeid (pads' ! i) \<in> connected_ids ns) \<and>
    (\<forall>i<length pads'. \<forall>j<length pads'. i \<noteq> j \<longrightarrow> nodeid (pads' ! i) \<noteq> nil_uuid \<longrightarrow> nodeid (pads' ! i) \<noteq> nodeid (pads' ! j)) \<and>
    (\<forall>i<length pads. nodeid (pads ! i) \<in> connected_ids ns \<longrightarrow> nodeid (pads' ! i) = nodeid (pads ! i)) \<and>
    ((\<forall>i<length pads'. nodeid (pads' ! i) \<noteq> nil_uuid) \<or> set (used_ids pads') = connected_ids ns)"
proof -
  obtain completed pads where a: "m_scratchpads (assign_scratchpads g) = pads" "fair (group_nodes g) (m_scratchpads g) pads"
    "completed \<longrightarrow> (\<forall>k<length pads. nodeid (pads ! k) \<noteq> nil_uuid)"
    "\<not> completed \<longrightarrow> connected_ids (group_nodes g) \<subseteq> set (used_ids pads)"
    using assigned [OF assms] by metis
  have "set (used_ids pads) \<subseteq> connected_ids (group_nodes g)" using a(2) by (auto simp: used_ids_iff fair_def)
  with a show ?thesis by (auto simp: Let_def fair_def)
qed

text \<open>When there are more scratchpads than nodes, the applications are not told of any scratchpad that changed.\<close>

theorem surplus_scratchpad_silences:
  assumes "well_identified g" and "nil_uuid \<in> nodeid ` set (m_scratchpads (assign_scratchpads g))"
  shows "g_signals (assign_scratchpads g) = g_signals g"
  using assigned [OF assms(1)] assms(2) by (metis image_iff in_set_conv_nth)

definition sample_pad :: "u8 \<Rightarrow> u16 \<Rightarrow> scratchpad" where
  "sample_pad i k = \<lparr>scratchpad_id = [i], sp_language = Aseba, nodeid = nil_uuid, preferred_node_id = nil_uuid, sp_name = [],
     aseba_id = k, sp_text = [], deleted = False\<rparr>"

definition sample_group :: "scratchpad list \<Rightarrow> group_state" where
  "sample_group pads = \<lparr>g_uuid = [9], g_endpoints = [\<lparr>ge_key = 0, ge_defs = \<lparr>events = [], constants = []\<rparr>,
     ge_nodes = [(aseba_node 7 5 [1] None)\<lparr>m_status := available\<rparr>]\<rparr>],
     m_events_table = [], m_shared_variables = [], m_scratchpads = pads, g_signals = []\<rparr>"

lemma sample_group_identified:
  assumes "list_all (\<lambda>s. nodeid s = nil_uuid) pads"
  shows "well_identified (sample_group pads)"
proof -
  have nil: "nil_uuid \<noteq> [1]" by (simp add: nil_uuid_def numeral_eq_Suc)
  have nodes: "connected_nodes (group_nodes (sample_group pads)) = [(aseba_node 7 5 [1] None)\<lparr>m_status := available\<rparr>]"
    by (simp add: sample_group_def group_nodes_def connected_nodes_def)
  then have ids: "connected_ids (group_nodes (sample_group pads)) = {[1]}" by (simp add: connected_ids_def aseba_node_def)
  have "filter (\<lambda>i. i \<in> {[1]}) (map nodeid pads) = []" using assms nil by (auto simp: filter_empty_conv list_all_iff)
  moreover have "m_scratchpads (sample_group pads) = pads" by (simp add: sample_group_def)
  ultimately show ?thesis using ids nodes nil by (simp add: well_identified_def Let_def)
qed

theorem scratchpads_assigned_witness:
  "nodeid (m_scratchpads (assign_scratchpads (sample_group [sample_pad 1 3, sample_pad 2 7])) ! 1) = [1] \<and>
   set (used_ids (m_scratchpads (assign_scratchpads (sample_group [sample_pad 1 3, sample_pad 2 7])))) = {[1]}"
proof -
  let ?g = "sample_group [sample_pad 1 3, sample_pad 2 7]"
  have pads: "map nodeid (m_scratchpads (assign_scratchpads ?g)) = [nil_uuid, [1]]" by code_simp
  have "connected_ids (group_nodes ?g) = {[1]}"
    by (simp add: sample_group_def group_nodes_def connected_ids_def connected_nodes_def aseba_node_def)
  moreover have "nodeid (m_scratchpads (assign_scratchpads ?g) ! 0) = nil_uuid" "length (m_scratchpads (assign_scratchpads ?g)) = 2"
    "nodeid (m_scratchpads (assign_scratchpads ?g) ! 1) = [1]"
    using pads by (auto simp: map_eq_Cons_conv)
  ultimately show ?thesis
    using scratchpads_assigned [OF sample_group_identified, of "[sample_pad 1 3, sample_pad 2 7]"]
    by (auto simp: Let_def sample_pad_def)
qed

section \<open>Events of robots in a group\<close>

text \<open>All endpoints of a group have the table of events of the group: an endpoint is given the table when it is attached, and
  a new table is given to all.\<close>

definition shares_table :: "group_state \<Rightarrow> bool" where
  "shares_table g \<longleftrightarrow> (\<forall>ep\<in>set (g_endpoints g). mapR event_description (m_events_table g) = Inr (events (ge_defs ep)))"

lemma signal_endpoints [simp]: "g_endpoints (signal s g) = g_endpoints g" "m_events_table (signal s g) = m_events_table g"
  by (simp_all add: signal_def)

lemma foldl_signal [simp]:
  "g_endpoints (foldl (\<lambda>g k. signal (f k) g) g ks) = g_endpoints g"
  "m_events_table (foldl (\<lambda>g k. signal (f k) g) g ks) = m_events_table g"
  by (induction ks arbitrary: g) simp_all

lemma assign_scratchpads_endpoints [simp]:
  "g_endpoints (assign_scratchpads g) = g_endpoints g" "m_events_table (assign_scratchpads g) = m_events_table g"
  by (simp_all add: assign_scratchpads_def Let_def split: prod.split)

lemma attach_shares_table:
  "attach_to_endpoint ep g = Inr g' \<Longrightarrow> shares_table g \<Longrightarrow> shares_table g'"
  by (auto simp: attach_to_endpoint_def shares_table_def set_events_table_def bindR_eq_Inr Let_def split: if_splits)

lemma set_events_shares_table: "group_set_events_table es g = Inr g' \<Longrightarrow> shares_table g'"
proof -
  assume "group_set_events_table es g = Inr g'"
  then obtain eps where eps: "mapR (\<lambda>ep. bindR (set_events_table es (ge_defs ep)) (\<lambda>defs. Inr (ep\<lparr>ge_defs := defs\<rparr>)))
      (g_endpoints g) = Inr eps" and g': "g_endpoints g' = eps" "m_events_table g' = es"
    by (auto simp: group_set_events_table_def bindR_eq_Inr)
  have "mapR event_description es = Inr (events (ge_defs ep))" if "ep \<in> set eps" for ep
    using mapR_set [OF eps that] by (auto simp: set_events_table_def bindR_eq_Inr)
  with g' show ?thesis by (simp add: shares_table_def)
qed

lemma mapR_const: "(\<And>x. x \<in> set xs \<Longrightarrow> f x = Inr (h x)) \<Longrightarrow> mapR f xs = Inr (map h xs)"
  by (induction xs) simp_all

text \<open>C27: An event of a robot is broadcast unchanged: every other endpoint of the group emits one message with the number of the
  event and the arguments that the robot sent, and the endpoint of the robot emits nothing. The endpoints have the table
  of events of the group, in which the names are distinct; the event is one of the table, its name has units below \<open>0xd800\<close>
  and its size is from 0 to 32767, and the robot sent as many arguments as the table says (other events are dropped).\<close>

theorem event_broadcast_unchanged:
  assumes "shares_table g" and "src \<in> set (g_endpoints g)"
    and "distinct (map nval_name (events (ge_defs src)))" and "get_event (ge_defs src) i = Some (def, k)"
    and "list_all (\<lambda>c. c < 0xd800) (nval_name def)" and "0 \<le> nval_value def" "nval_value def < 2 ^ 15"
    and "on_event data def = Some m"
  shows "group_on_event_received (ge_key src) m g =
    Inr (map (\<lambda>ep. (ge_key ep, Emit_write [\<lparr>source = 0, mtype = i, mbody = UserMessage data\<rparr>] None))
      (filter (\<lambda>ep. ge_key ep \<noteq> ge_key src) (g_endpoints g)))"
  unfolding group_on_event_received_def
proof (rule mapR_const)
  fix ep
  assume "ep \<in> set (filter (\<lambda>ep. ge_key ep \<noteq> ge_key src) (g_endpoints g))"
  then have "ep \<in> set (g_endpoints g)" by simp
  with assms(1,2) have "Inr (events (ge_defs ep)) = (Inr (events (ge_defs src)) :: run_failure + named_value list)"
    unfolding shares_table_def by metis
  then have same: "events (ge_defs ep) = events (ge_defs src)" by simp
  then have "get_event (ge_defs ep) i = get_event (ge_defs src) i" by (simp add: get_event_def)
  with assms(4) have "get_event (ge_defs ep) i = Some (def, k)" by simp
  from emitted_event_unchanged [OF _ this assms(5-8)] assms(3) same
  show "bindR (emit_events (ge_defs ep) m None) (\<lambda>e. Inr (ge_key ep, e)) =
      Inr (ge_key ep, Emit_write [\<lparr>source = 0, mtype = i, mbody = UserMessage data\<rparr>] None)" by simp
qed

definition sample_events :: common_definitions where
  "sample_events = \<lparr>events = [\<lparr>nval_name = ws ''ping'', nval_value = 2\<rparr>], constants = []\<rparr>"

definition sample_event_group :: group_state where
  "sample_event_group = \<lparr>g_uuid = nil_uuid,
     g_endpoints = [\<lparr>ge_key = 4, ge_defs = sample_events, ge_nodes = []\<rparr>, \<lparr>ge_key = 5, ge_defs = sample_events, ge_nodes = []\<rparr>],
     m_events_table = [\<lparr>ev_name = WStringToUTF8 (ws ''ping''), ev_size = 2\<rparr>], m_shared_variables = [],
     m_scratchpads = [], g_signals = []\<rparr>"

theorem event_broadcast_unchanged_witness:
  "group_on_event_received 4 [(WStringToUTF8 (ws ''ping''), aseba_variable_from_range [7, 8])] sample_event_group =
    Inr [(5, Emit_write [\<lparr>source = 0, mtype = 0, mbody = UserMessage [7, 8]\<rparr>] None)]"
proof -
  have "UTF8ToWString (WStringToUTF8 (ws ''ping'')) = Inr (ws ''ping'')"
    by (rule utf8_roundtrip_bmp) (simp add: ws_def)
  then have "shares_table sample_event_group"
    by (simp add: shares_table_def sample_event_group_def sample_events_def event_description_def)
  from event_broadcast_unchanged [OF this, of "\<lparr>ge_key = 4, ge_defs = sample_events, ge_nodes = []\<rparr>" 0
      "\<lparr>nval_name = ws ''ping'', nval_value = 2\<rparr>" 0 "[7, 8]" "[(WStringToUTF8 (ws ''ping''), aseba_variable_from_range [7, 8])]"]
  show ?thesis
    by (simp add: sample_event_group_def sample_events_def get_event_def on_event_def property_size_range is_integral_def
        aseba_variable_from_range_def ws_def property_size_def)
qed

end
