(* ===== verification/Node_Registry.thy ===== *)
theory Node_Registry
  imports Scratchpads
begin

text \<open>
  The registry of the nodes of all endpoints (\<^verbatim>\<open>thymio-device-manager/aseba_node_registery.h\<close> and
  \<^verbatim>\<open>aseba_node_registery.cpp\<close>). Nodes, endpoints and groups are objects named by numbers; \<open>r_objects\<close> are the nodes that
  are alive, with what the registry reads of them, so that a weak pointer to another node gives nothing. What the registry asks
  of other components is appended to \<open>r_calls\<close>: the signal of a status, the removal of a node from its endpoint (the node
  is no longer registered then, and its own report does nothing), and the move of an endpoint to a group. Whether a group has
  state is an argument.
\<close>

section \<open>Operations\<close>

record registry_node =
  rn_uuid :: node_id
  rn_native_id :: u16
  rn_endpoint :: "nat option"

record registry_endpoint =
  re_group :: "nat option"
  re_wireless :: bool

datatype registry_call = Status_signal nat node_id status | Endpoint_remove_node nat node_id | Attach_to_endpoint nat nat
  | Destroy_endpoint nat

record registry =
  r_objects :: "nat \<Rightarrow> registry_node option"
  r_eps :: "nat \<Rightarrow> registry_endpoint option"
  m_aseba_nodes :: "(node_id \<times> nat) list"
  m_ghost_groups :: "(node_id \<times> nat) list"
  m_endpoints :: "nat list"
  r_calls :: "registry_call list"

definition call :: "registry_call \<Rightarrow> registry \<Rightarrow> registry" where
  "call c r = r\<lparr>r_calls := r_calls r @ [c]\<rparr>"

definition alive :: "registry \<Rightarrow> nat \<Rightarrow> bool" where
  "alive r k \<longleftrightarrow> r_objects r k \<noteq> None"

definition uuid_of :: "registry \<Rightarrow> nat \<Rightarrow> node_id" where
  "uuid_of r k = (case r_objects r k of Some n \<Rightarrow> rn_uuid n | None \<Rightarrow> nil_uuid)"

definition endpoint_of :: "registry \<Rightarrow> nat \<Rightarrow> nat option" where
  "endpoint_of r k = (case r_objects r k of Some n \<Rightarrow> rn_endpoint n | None \<Rightarrow> None)"

definition group_of :: "registry \<Rightarrow> nat \<Rightarrow> nat option" where
  "group_of r k = (case endpoint_of r k of None \<Rightarrow> None | Some ep \<Rightarrow>
     (case r_eps r ep of None \<Rightarrow> None | Some e \<Rightarrow> re_group e))"

text \<open>The entry of a node that is alive.\<close>

definition find_node :: "registry \<Rightarrow> nat \<Rightarrow> (node_id \<times> nat) option" where
  "find_node r k = find (\<lambda>(i, x). alive r x \<and> x = k) (m_aseba_nodes r)"

definition find_from_native_id :: "registry \<Rightarrow> u16 \<Rightarrow> (node_id \<times> nat) option" where
  "find_from_native_id r native =
     find (\<lambda>(i, x). case r_objects r x of Some n \<Rightarrow> rn_native_id n = native | None \<Rightarrow> False) (m_aseba_nodes r)"

definition node_from_id :: "registry \<Rightarrow> node_id \<Rightarrow> nat option" where
  "node_from_id r i =
     (case map_of (m_aseba_nodes r) i of None \<Rightarrow> None | Some k \<Rightarrow> if alive r k then Some k else None)"

definition group_from_id :: "registry \<Rightarrow> (nat \<Rightarrow> node_id) \<Rightarrow> node_id \<Rightarrow> nat option" where
  "group_from_id r group_uuid i =
     (case find (\<lambda>(_, x). alive r x \<and> (uuid_of r x = i \<or> (case group_of r x of Some g \<Rightarrow> group_uuid g = i | None \<Rightarrow> False)))
         (m_aseba_nodes r) of
        None \<Rightarrow> None
      | Some (_, x) \<Rightarrow> group_of r x)"

definition erase_id :: "node_id \<Rightarrow> registry \<Rightarrow> registry" where
  "erase_id i r = r\<lparr>m_aseba_nodes := AList.delete i (m_aseba_nodes r)\<rparr>"

definition insert_node :: "node_id \<Rightarrow> nat \<Rightarrow> registry \<Rightarrow> registry" where
  "insert_node i k r =
     (if map_of (m_aseba_nodes r) i = None then r\<lparr>m_aseba_nodes := m_aseba_nodes r @ [(i, k)]\<rparr> else r)"

definition remove_duplicated_node :: "nat \<Rightarrow> registry \<Rightarrow> registry" where
  "remove_duplicated_node k r =
     (case map_of (m_aseba_nodes r) (uuid_of r k) of
        None \<Rightarrow> r
      | Some x \<Rightarrow>
          if alive r x \<and> x = k then r
          else
            let r' = erase_id (uuid_of r k) r in
            if alive r x
            then (case endpoint_of r x of None \<Rightarrow> r' | Some ep \<Rightarrow> call (Endpoint_remove_node ep (uuid_of r k)) r')
            else r')"

definition save_group_affiliation :: "nat \<Rightarrow> registry \<Rightarrow> registry" where
  "save_group_affiliation k r =
     (case group_of r k of
        None \<Rightarrow> r
      | Some g \<Rightarrow> r\<lparr>m_ghost_groups := AList.update (uuid_of r k) g (m_ghost_groups r)\<rparr>)"

definition attach :: "nat \<Rightarrow> nat \<Rightarrow> registry \<Rightarrow> registry" where
  "attach g ep r =
     (call (Attach_to_endpoint g ep) r)\<lparr>r_eps := (r_eps r)(ep := map_option (\<lambda>e. e\<lparr>re_group := Some g\<rparr>) (r_eps r ep))\<rparr>"

definition restore_group_affiliation :: "(nat \<Rightarrow> bool) \<Rightarrow> nat \<Rightarrow> registry \<Rightarrow> registry" where
  "restore_group_affiliation has_state' k r =
     (case map_of (m_ghost_groups r) (uuid_of r k) of
        None \<Rightarrow> r
      | Some g \<Rightarrow>
          let r' = (case endpoint_of r k of
                      None \<Rightarrow> r
                    | Some ep \<Rightarrow>
                        if group_of r k \<noteq> Some g \<and> (case group_of r k of None \<Rightarrow> True | Some g' \<Rightarrow> \<not> has_state' g')
                        then attach g ep r else r)
          in r'\<lparr>m_ghost_groups := AList.delete (uuid_of r k) (m_ghost_groups r')\<rparr>)"

definition add_node :: "(nat \<Rightarrow> bool) \<Rightarrow> node_id \<Rightarrow> nat \<Rightarrow> registry \<Rightarrow> registry" where
  "add_node has_state' fresh k r =
     (let r1 = remove_duplicated_node k r in
      if find_node r1 k \<noteq> None then r1
      else
        let i = (if uuid_of r1 k = nil_uuid then fresh else uuid_of r1 k)
        in call (Status_signal k i connected)
             (save_group_affiliation k (restore_group_affiliation has_state' k (insert_node i k r1))))"

definition delist_node :: "nat \<Rightarrow> registry \<Rightarrow> registry" where
  "delist_node k r =
     (case find_node r k of None \<Rightarrow> r | Some (i, _) \<Rightarrow> erase_id i (call (Status_signal k i disconnected) r))"

definition handle_node_uuid_change :: "(nat \<Rightarrow> bool) \<Rightarrow> nat \<Rightarrow> registry \<Rightarrow> registry" where
  "handle_node_uuid_change has_state' k r =
     (let r2 = remove_duplicated_node k (delist_node k r)
      in save_group_affiliation k (restore_group_affiliation has_state' k (insert_node (uuid_of r2 k) k r2)))"

definition registry_remove_node :: "nat \<Rightarrow> registry \<Rightarrow> registry" where
  "registry_remove_node k r =
     (case find_node r k of
        None \<Rightarrow> r
      | Some (i, _) \<Rightarrow> call (Status_signal k i disconnected) (erase_id i r))"

definition set_node_status :: "nat \<Rightarrow> status \<Rightarrow> registry \<Rightarrow> registry" where
  "set_node_status k s r =
     (case find_node r k of None \<Rightarrow> r | Some (i, _) \<Rightarrow> call (Status_signal k i s) r)"

definition register_endpoint :: "nat \<Rightarrow> registry \<Rightarrow> registry" where
  "register_endpoint ep r =
     (if list_ex (\<lambda>e. r_eps r e \<noteq> None \<and> e = ep) (m_endpoints r) then r else r\<lparr>m_endpoints := m_endpoints r @ [ep]\<rparr>)"

definition unregister_expired_endpoints :: "registry \<Rightarrow> registry" where
  "unregister_expired_endpoints r = r\<lparr>m_endpoints := filter (\<lambda>e. r_eps r e \<noteq> None) (m_endpoints r)\<rparr>"

definition disconnect_all_wireless_endpoints :: "registry \<Rightarrow> registry" where
  "disconnect_all_wireless_endpoints r =
     foldl (\<lambda>r e. case r_eps r e of Some x \<Rightarrow> if re_wireless x then call (Destroy_endpoint e) r else r | None \<Rightarrow> r) r (m_endpoints r)"

section \<open>The table of nodes\<close>

text \<open>One entry for an identifier, one entry for a node, and a node that is alive is listed under its identifier unless that is
  nil.\<close>

definition consistent :: "registry \<Rightarrow> bool" where
  "consistent r \<longleftrightarrow> distinct (map fst (m_aseba_nodes r)) \<and> distinct (map snd (m_aseba_nodes r)) \<and>
     (\<forall>(i, k)\<in>set (m_aseba_nodes r). alive r k \<longrightarrow> uuid_of r k = i \<or> uuid_of r k = nil_uuid)"

text \<open>What the operations on groups and the calls leave alone.\<close>

definition nodes_view :: "registry \<Rightarrow> (nat \<Rightarrow> registry_node option) \<times> (node_id \<times> nat) list" where
  "nodes_view r = (r_objects r, m_aseba_nodes r)"

lemma nodes_view_kept [simp]:
  "nodes_view (call c r) = nodes_view r"
  "nodes_view (save_group_affiliation k r) = nodes_view r"
  "nodes_view (restore_group_affiliation hs k r) = nodes_view r"
  by (simp_all add: nodes_view_def call_def save_group_affiliation_def restore_group_affiliation_def attach_def Let_def
    split: option.split)

lemma view_facts:
  assumes "nodes_view r = nodes_view r'"
  shows "r_objects r = r_objects r'" "m_aseba_nodes r = m_aseba_nodes r'"
    "consistent r = consistent r'" "uuid_of r = uuid_of r'" "alive r = alive r'" "find_node r = find_node r'"
    "node_from_id r = node_from_id r'"
proof -
  show same: "r_objects r = r_objects r'" "m_aseba_nodes r = m_aseba_nodes r'" using assms by (simp_all add: nodes_view_def)
  then show ids: "uuid_of r = uuid_of r'" "alive r = alive r'" by (simp_all add: uuid_of_def alive_def fun_eq_iff)
  show "consistent r = consistent r'" "find_node r = find_node r'" "node_from_id r = node_from_id r'"
    unfolding consistent_def find_node_def [abs_def] node_from_id_def [abs_def] same ids by (rule refl)+
qed

lemma table_ops [simp]:
  "uuid_of (erase_id i r) = uuid_of r" "alive (erase_id i r) = alive r" "r_objects (erase_id i r) = r_objects r"
  "uuid_of (insert_node i k r) = uuid_of r" "alive (insert_node i k r) = alive r" "r_objects (insert_node i k r) = r_objects r"
  "m_aseba_nodes (erase_id i r) = AList.delete i (m_aseba_nodes r)"
  by (simp_all add: erase_id_def insert_node_def uuid_of_def alive_def fun_eq_iff)

lemma consistent_erase: "consistent r \<Longrightarrow> consistent (erase_id i r)"
  by (auto simp: consistent_def AList.delete_eq distinct_map_filter)

lemma consistent_insert:
  assumes "consistent r" and "k \<notin> snd ` set (m_aseba_nodes r)" and "uuid_of r k = i \<or> uuid_of r k = nil_uuid"
  shows "consistent (insert_node i k r)"
proof (cases "map_of (m_aseba_nodes r) i = None")
  case True
  then have "i \<notin> fst ` set (m_aseba_nodes r)" by (simp add: map_of_eq_None_iff)
  with True assms show ?thesis by (auto simp: consistent_def) (auto simp: insert_node_def)
next
  case False
  with assms show ?thesis by (auto simp: insert_node_def)
qed

lemma remove_duplicated_view:
  "nodes_view (remove_duplicated_node k r) =
    nodes_view (if map_of (m_aseba_nodes r) (uuid_of r k) = None \<or> alive r k \<and> map_of (m_aseba_nodes r) (uuid_of r k) = Some k
      then r else erase_id (uuid_of r k) r)"
  by (auto simp: remove_duplicated_node_def Let_def split: option.split)

lemmas remove_duplicated_same = view_facts [OF remove_duplicated_view]

lemma remove_duplicated_facts:
  shows "consistent r \<Longrightarrow> consistent (remove_duplicated_node k r)"
    "uuid_of (remove_duplicated_node k r) = uuid_of r" "alive (remove_duplicated_node k r) = alive r"
    "set (m_aseba_nodes (remove_duplicated_node k r)) \<subseteq> set (m_aseba_nodes r)"
  by (simp_all add: remove_duplicated_same consistent_erase AList.delete_eq)

lemma remove_duplicated_lookup:
  assumes "k \<notin> snd ` set (m_aseba_nodes r)"
  shows "map_of (m_aseba_nodes (remove_duplicated_node k r)) = (map_of (m_aseba_nodes r))(uuid_of r k := None)"
proof -
  have "map_of (m_aseba_nodes r) (uuid_of r k) \<noteq> Some k" using assms by (auto dest!: map_of_SomeD simp: image_iff)
  then show ?thesis by (auto simp: remove_duplicated_same delete_conv fun_upd_idem)
qed

lemma find_node_None: "alive r k \<Longrightarrow> find_node r k = None \<longleftrightarrow> k \<notin> snd ` set (m_aseba_nodes r)"
  by (auto simp: find_node_def find_None_iff image_iff)

lemma find_node_Some: "find_node r k = Some (i, x) \<Longrightarrow> x = k \<and> (i, k) \<in> set (m_aseba_nodes r)"
  by (auto simp: find_node_def find_Some_iff dest: nth_mem)

section \<open>Runs of the registry\<close>

definition set_uuid :: "nat \<Rightarrow> node_id \<Rightarrow> registry \<Rightarrow> registry" where
  "set_uuid k u r = r\<lparr>r_objects := (r_objects r)(k := map_option (\<lambda>n. n\<lparr>rn_uuid := u\<rparr>) (r_objects r k))\<rparr>"

definition empty_registry :: registry where
  "empty_registry = \<lparr>r_objects = (\<lambda>_. None), r_eps = (\<lambda>_. None), m_aseba_nodes = [], m_ghost_groups = [], m_endpoints = [], r_calls = []\<rparr>"

text \<open>Nodes are created and destroyed, and report their status and their identifier as \<^verbatim>\<open>aseba_node\<close> does: the identifier changes
  just before it is reported and is not nil.\<close>

inductive registry_run :: "(nat \<Rightarrow> bool) \<Rightarrow> registry \<Rightarrow> bool" for has_state' where
  run_empty: "registry_run has_state' empty_registry"
| run_create: "registry_run has_state' r \<Longrightarrow> \<not> alive r k \<Longrightarrow> k \<notin> snd ` set (m_aseba_nodes r) \<Longrightarrow>
    registry_run has_state' (r\<lparr>r_objects := (r_objects r)(k \<mapsto> n)\<rparr>)"
| run_destroy: "registry_run has_state' r \<Longrightarrow> registry_run has_state' (r\<lparr>r_objects := (r_objects r)(k := None)\<rparr>)"
| run_add: "registry_run has_state' r \<Longrightarrow> alive r k \<Longrightarrow> registry_run has_state' (add_node has_state' fresh k r)"
| run_remove: "registry_run has_state' r \<Longrightarrow> alive r k \<Longrightarrow> registry_run has_state' (registry_remove_node k r)"
| run_status: "registry_run has_state' r \<Longrightarrow> alive r k \<Longrightarrow> registry_run has_state' (set_node_status k s r)"
| run_uuid: "registry_run has_state' r \<Longrightarrow> alive r k \<Longrightarrow> u \<noteq> nil_uuid \<Longrightarrow>
    registry_run has_state' (handle_node_uuid_change has_state' k (set_uuid k u r))"
| run_endpoints: "registry_run has_state' r \<Longrightarrow> registry_run has_state' (r\<lparr>r_eps := eps\<rparr>)"

lemma consistent_calls [simp]:
  "consistent (call c r) = consistent r"
  "consistent (save_group_affiliation k r) = consistent r"
  "consistent (restore_group_affiliation has_state' k r) = consistent r"
  by (rule view_facts(3), simp)+

lemma consistent_add:
  assumes "consistent r" "alive r k"
  shows "consistent (add_node has_state' fresh k r)"
proof -
  let ?r = "remove_duplicated_node k r"
  let ?i = "if uuid_of ?r k = nil_uuid then fresh else uuid_of ?r k"
  have r: "consistent ?r" "alive ?r k" using assms by (simp_all add: remove_duplicated_facts)
  show ?thesis
  proof (cases "find_node ?r k = None")
    case True
    then have "consistent (insert_node ?i k ?r)" using r by (intro consistent_insert) (auto simp: find_node_None)
    then show ?thesis
      using True by (simp add: add_node_def Let_def)
  next
    case False
    with r show ?thesis by (simp add: add_node_def Let_def)
  qed
qed

text \<open>The first half of a change: the old entry of the node is gone, the others are untouched.\<close>

lemma map_of_without:
  "distinct (map fst m) \<Longrightarrow> map_of (filter (\<lambda>(i, x). x \<noteq> k) m) i = (if map_of m i = Some k then None else map_of m i)"
proof (induction m)
  case (Cons e m)
  obtain j x where e: "e = (j, x)" by (cases e)
  then have "map_of m j = None" "map_of (filter (\<lambda>(i, x). x \<noteq> k) m) j = None"
    using Cons.prems by (auto simp: map_of_eq_None_iff)
  with Cons e show ?case by simp
qed simp

lemma delist_facts:
  assumes "consistent r" "alive r k"
  shows "consistent (delist_node k (set_uuid k u r))" "k \<notin> snd ` set (m_aseba_nodes (delist_node k (set_uuid k u r)))"
    "uuid_of (delist_node k (set_uuid k u r)) k = u" "alive (delist_node k (set_uuid k u r)) = alive r"
    "map_of (m_aseba_nodes (delist_node k (set_uuid k u r))) i =
      (if map_of (m_aseba_nodes r) i = Some k then None else map_of (m_aseba_nodes r) i)"
proof -
  let ?r = "set_uuid k u r"
  have same: "m_aseba_nodes ?r = m_aseba_nodes r" "alive ?r = alive r" "uuid_of ?r k = u" 
    "x \<noteq> k \<Longrightarrow> uuid_of ?r x = uuid_of r x" for x
    using assms(2) by (auto simp: set_uuid_def alive_def uuid_of_def fun_eq_iff)
  have found: "find_node ?r k = find_node r k" by (simp add: find_node_def same)
  have nodes: "nodes_view (delist_node k ?r) = (r_objects ?r, filter (\<lambda>(i, x). x \<noteq> k) (m_aseba_nodes r))"
  proof (cases "find_node r k")
    case None
    then have "filter (\<lambda>(i, x). x \<noteq> k) (m_aseba_nodes r) = m_aseba_nodes r"
      using assms(2) by (auto simp: find_node_None filter_id_conv image_iff)
    with None same show ?thesis by (simp add: delist_node_def nodes_view_def found)
  next
    case (Some e)
    then obtain j where j: "e = (j, k)" "(j, k) \<in> set (m_aseba_nodes r)" using find_node_Some [of r k "fst e" "snd e"] by (cases e) auto
    have "j' = j \<longleftrightarrow> x = k" if "(j', x) \<in> set (m_aseba_nodes r)" for j' x
    proof -
      have "inj_on fst (set (m_aseba_nodes r))" "inj_on snd (set (m_aseba_nodes r))"
        using assms(1) by (simp_all add: consistent_def distinct_map)
      from inj_onD [OF this(1) _ that j(2)] inj_onD [OF this(2) _ that j(2)] show ?thesis by auto
    qed
    then have "AList.delete j (m_aseba_nodes r) = filter (\<lambda>(i, x). x \<noteq> k) (m_aseba_nodes r)"
      by (auto simp: AList.delete_eq intro!: filter_cong)
    with Some j same show ?thesis by (simp add: delist_node_def nodes_view_def call_def found)
  qed
  then have entries: "m_aseba_nodes (delist_node k ?r) = filter (\<lambda>(i, x). x \<noteq> k) (m_aseba_nodes r)"
    and objects: "r_objects (delist_node k ?r) = r_objects ?r" by (simp_all add: nodes_view_def)
  have ids: "uuid_of (delist_node k ?r) = uuid_of ?r" "alive (delist_node k ?r) = alive ?r"
    using objects by (simp_all add: uuid_of_def alive_def fun_eq_iff)
  show "consistent (delist_node k ?r)"
    using assms(1) same(4) by (auto simp: consistent_def entries ids same(2) distinct_map_filter)
  show "k \<notin> snd ` set (m_aseba_nodes (delist_node k ?r))" "uuid_of (delist_node k ?r) k = u" "alive (delist_node k ?r) = alive r"
    using same by (auto simp: entries ids)
  show "map_of (m_aseba_nodes (delist_node k ?r)) i =
      (if map_of (m_aseba_nodes r) i = Some k then None else map_of (m_aseba_nodes r) i)"
    using assms(1) by (simp add: entries map_of_without consistent_def)
qed

lemma uuid_changed:
  assumes "consistent r" "alive r k" and r': "r' = handle_node_uuid_change has_state' k (set_uuid k u r)"
  shows "consistent r'" "alive r' = alive r"
    "map_of (m_aseba_nodes r') = (\<lambda>i. if i = u then Some k else if map_of (m_aseba_nodes r) i = Some k then None else map_of (m_aseba_nodes r) i)"
proof -
  let ?r1 = "delist_node k (set_uuid k u r)" and ?r2 = "remove_duplicated_node k (delist_node k (set_uuid k u r))"
  note d = delist_facts [OF assms(1,2), of u]
  have r2: "consistent ?r2" "k \<notin> snd ` set (m_aseba_nodes ?r2)" "uuid_of ?r2 k = u" "alive ?r2 = alive r"
    using d remove_duplicated_facts(1) [of ?r1 k] remove_duplicated_facts(2-4) [of k ?r1] by auto
  have lookup: "map_of (m_aseba_nodes ?r2) = (map_of (m_aseba_nodes ?r1))(u := None)"
    using remove_duplicated_lookup [OF d(2)] d(3) by simp
  let ?r3 = "insert_node u k ?r2"
  have view: "nodes_view r' = nodes_view ?r3" by (simp add: r' handle_node_uuid_change_def Let_def r2(3))
  have "consistent ?r3" using r2 by (intro consistent_insert) auto
  then show "consistent r'" using view_facts(3) [OF view] by simp
  show "alive r' = alive r" using view_facts(5) [OF view] r2(4) by simp
  have "m_aseba_nodes ?r3 = m_aseba_nodes ?r2 @ [(u, k)]" using lookup by (simp add: insert_node_def)
  then show "map_of (m_aseba_nodes r') = (\<lambda>i. if i = u then Some k else if map_of (m_aseba_nodes r) i = Some k then None else map_of (m_aseba_nodes r) i)"
    using view_facts(2) [OF view] lookup d(5) by (auto simp: fun_eq_iff map_add_def split: option.split)
qed

lemma run_consistent: "registry_run has_state' r \<Longrightarrow> consistent r"
proof (induction rule: registry_run.induct)
  case (run_create r k n)
  then show ?case by (auto simp: consistent_def alive_def uuid_of_def image_iff split: if_splits) 
next
  case (run_uuid r k u)
  then show ?case using uuid_changed(1) [OF _ _ refl] by blast
next
  case run_empty
  show ?case by (simp add: empty_registry_def consistent_def)
next
  case (run_destroy r k)
  then show ?case by (auto simp: consistent_def alive_def uuid_of_def)
next
  case (run_endpoints r eps)
  then show ?case using view_facts(3) [of "r\<lparr>r_eps := eps\<rparr>" r] by (simp add: nodes_view_def)
qed (auto simp: consistent_add consistent_erase registry_remove_node_def set_node_status_def split: option.split)

lemma node_from_id_entry: "node_from_id r i = Some k \<Longrightarrow> (i, k) \<in> set (m_aseba_nodes r) \<and> alive r k"
  by (auto simp: node_from_id_def dest!: map_of_SomeD split: option.splits if_splits)

lemma node_from_id_inject:
  assumes "consistent r" "node_from_id r j = Some k" "node_from_id r i = Some k"
  shows "j = i"
proof -
  have "inj_on snd (set (m_aseba_nodes r))" using assms(1) by (simp add: consistent_def distinct_map)
  then show ?thesis
    using inj_onD [of snd _ "(j, k)" "(i, k)"] node_from_id_entry [OF assms(2)] node_from_id_entry [OF assms(3)] by simp
qed

text \<open>C29: In every run of the registry an identifier leads to at most one node, and to one that is alive and has this identifier
  (or none yet); two identifiers never lead to the same node.\<close>

theorem registry_consistent:
  assumes "registry_run has_state' r" and "node_from_id r i = Some k"
  shows "alive r k \<and> (uuid_of r k = i \<or> uuid_of r k = nil_uuid) \<and> (\<forall>j. node_from_id r j = Some k \<longrightarrow> j = i)"
  using run_consistent [OF assms(1)] node_from_id_inject [OF run_consistent [OF assms(1)] _ assms(2)] node_from_id_entry [OF assms(2)]
  by (auto simp: consistent_def)

text \<open>After a node has reported its identifier, the identifier leads to the node and no other identifier does; a node that had
  the identifier before is no longer registered, and all others are found as before.\<close>

theorem uuid_change_registers:
  assumes "registry_run has_state' r" and "alive r k" and "u \<noteq> nil_uuid"
  shows "node_from_id (handle_node_uuid_change has_state' k (set_uuid k u r)) i =
    (if i = u then Some k else if node_from_id r i = Some k then None else node_from_id r i)"
  using uuid_changed(2,3) [OF run_consistent [OF assms(1)] assms(2) refl, where has_state' = has_state'] assms(2)
  by (auto simp: node_from_id_def split: option.splits)

text \<open>A new node with an identifier of its own is entered at the end of the table.\<close>

lemma add_new_node:
  assumes "uuid_of r k \<notin> fst ` set (m_aseba_nodes r)" "k \<notin> snd ` set (m_aseba_nodes r)" "uuid_of r k \<noteq> nil_uuid"
  shows "nodes_view (add_node has_state' fresh k r) = (r_objects r, m_aseba_nodes r @ [(uuid_of r k, k)])"
proof -
  have none: "map_of (m_aseba_nodes r) (uuid_of r k) = None" using assms(1) by (simp add: map_of_eq_None_iff)
  then have "remove_duplicated_node k r = r" by (simp add: remove_duplicated_node_def)
  moreover have "find_node r k = None" using assms(2) by (auto simp: find_node_def find_None_iff image_iff)
  ultimately have "nodes_view (add_node has_state' fresh k r) = nodes_view (insert_node (uuid_of r k) k r)"
    using assms(3) by (simp add: add_node_def Let_def)
  then show ?thesis using none by (simp add: insert_node_def nodes_view_def)
qed

definition sample_node :: "node_id \<Rightarrow> registry_node" where
  "sample_node u = \<lparr>rn_uuid = u, rn_native_id = 1, rn_endpoint = Some 0\<rparr>"

definition created :: "nat \<Rightarrow> node_id \<Rightarrow> registry \<Rightarrow> registry" where
  "created k u r = r\<lparr>r_objects := (r_objects r)(k \<mapsto> sample_node u)\<rparr>"

definition sample_first :: registry where
  "sample_first = add_node (\<lambda>_. False) [5] 1 (created 1 [1] empty_registry)"

definition sample_registry :: registry where
  "sample_registry = add_node (\<lambda>_. False) [5] 2 (created 2 [2] sample_first)"

lemma short_uuid: "[i] \<noteq> nil_uuid"
  by (simp add: nil_uuid_def numeral_eq_Suc)

lemma sample_views:
  "r_objects sample_first = [1 \<mapsto> sample_node [1]]" "m_aseba_nodes sample_first = [([1], 1)]"
  "r_objects sample_registry = [1 \<mapsto> sample_node [1], 2 \<mapsto> sample_node [2]]" "m_aseba_nodes sample_registry = [([1], 1), ([2], 2)]"
proof -
  have "nodes_view sample_first = ([1 \<mapsto> sample_node [1]], [([1], 1)])"
    using add_new_node [of "created 1 [1] empty_registry" 1 "\<lambda>_. False" "[5]"] short_uuid
    by (simp add: sample_first_def created_def empty_registry_def uuid_of_def sample_node_def)
  then show first: "r_objects sample_first = [1 \<mapsto> sample_node [1]]" "m_aseba_nodes sample_first = [([1], 1)]"
    by (simp_all add: nodes_view_def)
  have "nodes_view sample_registry = ([1 \<mapsto> sample_node [1], 2 \<mapsto> sample_node [2]], [([1], 1), ([2], 2)])"
    using add_new_node [of "created 2 [2] sample_first" 2 "\<lambda>_. False" "[5]"] short_uuid first
    by (simp add: sample_registry_def created_def uuid_of_def sample_node_def)
  then show "r_objects sample_registry = [1 \<mapsto> sample_node [1], 2 \<mapsto> sample_node [2]]" "m_aseba_nodes sample_registry = [([1], 1), ([2], 2)]"
    by (simp_all add: nodes_view_def)
qed

lemma sample_run: "registry_run (\<lambda>_. False) sample_registry"
proof -
  have alive: "alive (created k u r) k" for k u r by (simp add: created_def alive_def)
  have "registry_run (\<lambda>_. False) (created 1 [1] empty_registry)"
    using run_create [OF run_empty, where k = 1 and n = "sample_node [1]"] by (simp add: created_def alive_def empty_registry_def)
  then have first: "registry_run (\<lambda>_. False) sample_first" unfolding sample_first_def using alive by (rule run_add)
  have "registry_run (\<lambda>_. False) (created 2 [2] sample_first)"
    using run_create [OF first, where k = 2 and n = "sample_node [2]"] by (simp add: created_def alive_def sample_views)
  then show ?thesis unfolding sample_registry_def using alive by (rule run_add)
qed

theorem registry_consistent_witness:
  "node_from_id sample_registry [1] = Some 1 \<and> uuid_of sample_registry 1 = [1] \<and> node_from_id sample_registry [2] \<noteq> Some 1"
proof -
  have found: "node_from_id sample_registry [1] = Some 1" by (simp add: node_from_id_def sample_views alive_def)
  have uuid: "uuid_of sample_registry 1 \<noteq> nil_uuid" by (simp add: uuid_of_def sample_views sample_node_def short_uuid)
  have "node_from_id sample_registry [2] = Some 1 \<longrightarrow> [2] = ([1] :: node_id)"
    using registry_consistent [OF sample_run found] by blast
  moreover have "uuid_of sample_registry 1 = [1]" using registry_consistent [OF sample_run found] uuid by blast
  ultimately show ?thesis using found by simp
qed

end
