(* ===== verification/App_Endpoint.thy ===== *)
theory App_Endpoint
  imports Node_Registry
begin

text \<open>
  The connection of an application (\<^verbatim>\<open>thymio-device-manager/app_endpoint.h\<close>, \<^verbatim>\<open>app_token_manager.h\<close>, \<^verbatim>\<open>tdm.h\<close>): the handshake, the
  queue of outgoing messages, the requests and the locks an application holds. An application is named by its address, which
  is not 0. The nodes are the objects of \<open>Aseba_Node\<close>, found through the registry of \<open>Node_Registry\<close>; what a request asks of
  a group is appended to \<open>w_group_calls\<close> and carried out by the operations of \<open>Scratchpads\<close>. A task that the code defers or
  posts to the strand of the connection and that sends a message is kept in \<open>ae_deferred\<close> until the strand runs it. Messages
  are their contents; the encoding (flatbuffers) is generated code.
\<close>

section \<open>State\<close>

datatype error_type = no_error | unknown_error | unknown_node | node_busy | unsupported_variable_type
  | thymio2_pairing_write_dongle_failed | thymio2_pairing_write_robot_failed

datatype capability = Rename | ForceResetAndStop | FirwmareUpgrade

datatype watchable = Watch_Variables | Watch_Events | Watch_VMExecutionState | Watch_SharedEventsDescription
  | Watch_SharedVariables | Watch_Scratchpads

record node_entry =
  ne_id :: node_id
  ne_group :: "node_id option"
  ne_status :: status
  ne_type :: node_type
  ne_name :: bytes
  ne_capabilities :: "capability list"
  ne_firmware :: int
  ne_available_firmware :: int

datatype app_message =
    Ack u32
  | Error_response u32 error_type
  | Nodes_changed "node_entry list"
  | Vm_description u32 node_id target_description
  | Node_variables nat properties_map
  | Group_variables nat properties_map
  | Node_events nat properties_map
  | Events_description nat "event list"
  | Scratchpad_message nat scratchpad
  | Node_execution_state nat vm_execution_state
  | Compilation_response u32 compilation_result
  | Save_response u32 node_id "u16 list"
  | Breakpoints_response u32 error_type "u32 list"
  | Upgrade_status u32 node_id
  | Pairing_response u32 u16 u8
  | Dongles_changed "(node_id \<times> u16 \<times> u16 \<times> u8) list"
  | Connection_handshake u32 u16 u32 bool u16 node_id bytes
  | Ping

datatype group_call =
    Call_set_shared_variables nat properties_map
  | Call_set_events_table nat "event list"
  | Call_emit_events nat properties_map u32
  | Call_load_code nat bytes programming_language
  | Call_set_node_scratchpad nat node_id bytes programming_language

record app_endpoint =
  ae_key :: nat
  m_queue :: "app_message list"
  ae_written :: "app_message list"
  ae_protocol_version :: u16
  m_max_out_going_packet_size :: u16
  is_machine_local :: bool
  is_network_local :: bool
  m_locked_nodes :: "(node_id \<times> nat) list"
  m_watch_nodes :: "(watchable \<times> node_id) list"
  ae_deferred :: "app_message list"
  ae_dongle_connections :: nat
  ae_reading :: bool
  ae_stopped :: bool

text \<open>The objects an application reaches.\<close>

record world =
  w_registry :: registry
  w_nodes :: "nat \<Rightarrow> node_state option"
  w_groups :: "nat \<Rightarrow> group_state option"
  w_group_calls :: "group_call list"
  w_pairing_enabled :: bool

type_synonym session = "app_endpoint \<times> world"

definition on_node :: "nat \<Rightarrow> (node_state \<Rightarrow> node_state) \<Rightarrow> world \<Rightarrow> world" where
  "on_node k f w = w\<lparr>w_nodes := (w_nodes w)(k := map_option f (w_nodes w k))\<rparr>"

definition call_group :: "group_call \<Rightarrow> world \<Rightarrow> world" where
  "call_group c w = w\<lparr>w_group_calls := w_group_calls w @ [c]\<rparr>"

definition find_registered :: "world \<Rightarrow> node_id \<Rightarrow> nat option" where
  "find_registered w i =
     (case node_from_id (w_registry w) i of Some k \<Rightarrow> if w_nodes w k = None then None else Some k | None \<Rightarrow> None)"

definition group_id :: "world \<Rightarrow> nat \<Rightarrow> node_id" where
  "group_id w g = (case w_groups w g of Some gs \<Rightarrow> g_uuid gs | None \<Rightarrow> nil_uuid)"

section \<open>Outgoing messages\<close>

definition do_write_message :: "app_message \<Rightarrow> app_endpoint \<Rightarrow> app_endpoint" where
  "do_write_message msg a = a\<lparr>ae_written := ae_written a @ [msg]\<rparr>"

definition write_app_message :: "app_message \<Rightarrow> app_endpoint \<Rightarrow> app_endpoint" where
  "write_app_message msg a =
     (let a' = a\<lparr>m_queue := m_queue a @ [msg]\<rparr> in
      if length (m_queue a') > 1 \<or> ae_protocol_version a' = 0 then a' else do_write_message (hd (m_queue a')) a')"

definition handle_app_write :: "app_endpoint \<Rightarrow> app_endpoint" where
  "handle_app_write a =
     (let a' = a\<lparr>m_queue := tl (m_queue a)\<rparr> in
      if m_queue a' \<noteq> [] then do_write_message (hd (m_queue a')) a' else a')"

definition defer_message :: "app_message \<Rightarrow> app_endpoint \<Rightarrow> app_endpoint" where
  "defer_message msg a = a\<lparr>ae_deferred := ae_deferred a @ [msg]\<rparr>"

definition run_deferred :: "app_endpoint \<Rightarrow> app_endpoint" where
  "run_deferred a =
     (case ae_deferred a of [] \<Rightarrow> a | msg # rest \<Rightarrow> write_app_message msg (a\<lparr>ae_deferred := rest\<rparr>))"

definition reply :: "app_message \<Rightarrow> session \<Rightarrow> session" where
  "reply msg s = (write_app_message msg (fst s), snd s)"

section \<open>Nodes of an application\<close>

definition get_locked_node :: "session \<Rightarrow> node_id \<Rightarrow> nat option" where
  "get_locked_node s i =
     (case map_of (m_locked_nodes (fst s)) i of
        Some k \<Rightarrow> if w_nodes (snd s) k = None then None else Some k
      | None \<Rightarrow> None)"

definition in_group :: "world \<Rightarrow> node_id \<Rightarrow> nat \<Rightarrow> bool" where
  "in_group w i k \<longleftrightarrow>
     w_nodes w k \<noteq> None \<and> (case group_of (w_registry w) k of Some g \<Rightarrow> group_id w g = i | None \<Rightarrow> False)"

definition get_group :: "session \<Rightarrow> node_id \<Rightarrow> nat option" where
  "get_group s i =
     (case find (\<lambda>(j, k). i = j \<or> in_group (snd s) i k) (m_locked_nodes (fst s)) of
        None \<Rightarrow> None
      | Some (_, k) \<Rightarrow> if w_nodes (snd s) k = None then None else group_of (w_registry (snd s)) k)"

definition node_capabilities :: "app_endpoint \<Rightarrow> node_state \<Rightarrow> capability list" where
  "node_capabilities a n =
     (if is_machine_local a
      then ForceResetAndStop # (if is_wirelessly_connected n then [] else [FirwmareUpgrade]) @ (if can_be_renamed n then [Rename] else [])
      else [])"

definition shown_status :: "bool \<Rightarrow> status \<Rightarrow> status" where
  "shown_status locked s =
     (let s' = (if s = busy \<and> locked then ready else s) in if s' = upgrading then busy else s')"

definition serialize_node :: "session \<Rightarrow> nat \<Rightarrow> node_state \<Rightarrow> node_id \<Rightarrow> status \<Rightarrow> node_entry" where
  "serialize_node s k n i st =
     \<lparr>ne_id = i, ne_group = map_option (group_id (snd s)) (group_of (w_registry (snd s)) k),
      ne_status = shown_status (get_locked_node s (m_uuid n) \<noteq> None) st, ne_type = node_type_of n, ne_name = friendly_name n,
      ne_capabilities = node_capabilities (fst s) n, ne_firmware = m_firmware_version n,
      ne_available_firmware = m_available_firmware_version n\<rparr>"

definition do_node_changed :: "nat \<Rightarrow> node_id \<Rightarrow> status \<Rightarrow> session \<Rightarrow> session" where
  "do_node_changed k i st s =
     (case w_nodes (snd s) k of
        None \<Rightarrow> s
      | Some n \<Rightarrow>
          let st' = shown_status (get_locked_node s i \<noteq> None) st;
              (a, w) = reply (Nodes_changed [serialize_node s k n i st']) s
          in (if st' = disconnected then a\<lparr>m_locked_nodes := AList.delete i (m_locked_nodes a)\<rparr> else a, w))"

definition send_full_node_list :: "session \<Rightarrow> session" where
  "send_full_node_list s =
     reply (Nodes_changed (concat (map (\<lambda>(i, k). case w_nodes (snd s) k of
         None \<Rightarrow> [] | Some n \<Rightarrow> [serialize_node s k n (m_uuid n) (m_status n)]) (m_aseba_nodes (w_registry (snd s)))))) s"

section \<open>Requests\<close>

definition send_aseba_vm_description :: "u32 \<Rightarrow> node_id \<Rightarrow> session \<Rightarrow> session" where
  "send_aseba_vm_description rid i s =
     (case find_registered (snd s) i of
        None \<Rightarrow> s
      | Some k \<Rightarrow> (case w_nodes (snd s) k of None \<Rightarrow> s | Some n \<Rightarrow> reply (Vm_description rid i (m_description n)) s))"

definition rename_node :: "u32 \<Rightarrow> node_id \<Rightarrow> bytes \<Rightarrow> session \<Rightarrow> session" where
  "rename_node rid i name s =
     (case find_registered (snd s) i of
        None \<Rightarrow> reply (Error_response rid unknown_node) s
      | Some k \<Rightarrow>
          if Rename \<in> set (node_capabilities (fst s) (the (w_nodes (snd s) k)))
          then reply (Ack rid) (fst s, on_node k (rename name) (snd s))
          else reply (Error_response rid unknown_node) s)"

definition lock_node :: "u32 \<Rightarrow> node_id \<Rightarrow> session \<Rightarrow> session" where
  "lock_node rid i s =
     (case find_registered (snd s) i of
        None \<Rightarrow> reply (Error_response rid unknown_node) s
      | Some k \<Rightarrow>
          let a = (fst s)\<lparr>m_locked_nodes := AList.update i k (m_locked_nodes (fst s))\<rparr>;
              (res, n) = lock (ae_key a) (the (w_nodes (snd s) k))
          in if res then reply (Ack rid) (a, on_node k (\<lambda>_. n) (snd s))
             else reply (Error_response rid node_busy)
               (a\<lparr>m_locked_nodes := AList.delete i (m_locked_nodes a)\<rparr>, on_node k (\<lambda>_. n) (snd s)))"

definition unlock_node :: "u32 \<Rightarrow> node_id \<Rightarrow> session \<Rightarrow> session" where
  "unlock_node rid i s =
     (let a = (fst s)\<lparr>m_locked_nodes := AList.delete i (m_locked_nodes (fst s))\<rparr> in
      case get_locked_node s i of
        None \<Rightarrow> reply (Error_response rid unknown_node) (a, snd s)
      | Some k \<Rightarrow>
          let (res, n) = unlock (ae_key a) (the (w_nodes (snd s) k))
          in reply (if res then Ack rid else Error_response rid node_busy) (a, on_node k (\<lambda>_. n) (snd s)))"

definition completion_cb :: "u32 \<Rightarrow> node_callback" where
  "completion_cb rid = App_callback (unat rid)"

definition device_write_completed :: "u32 \<Rightarrow> bool \<Rightarrow> app_endpoint \<Rightarrow> app_endpoint" where
  "device_write_completed rid ec a = defer_message (if ec then Error_response rid node_busy else Ack rid) a"

definition app_set_node_variables :: "u32 \<Rightarrow> nat \<Rightarrow> properties_map \<Rightarrow> session \<Rightarrow> session" where
  "app_set_node_variables rid k m s =
     (let (err, n) = set_node_variables m (completion_cb rid) (the (w_nodes (snd s) k));
          s' = (fst s, on_node k (\<lambda>_. n) (snd s))
      in if err \<noteq> None then reply (Error_response rid unsupported_variable_type) s' else s')"

definition app_set_group_variables :: "u32 \<Rightarrow> node_id \<Rightarrow> properties_map \<Rightarrow> session \<Rightarrow> session" where
  "app_set_group_variables rid i m s =
     (case get_group s i of
        None \<Rightarrow> reply (Error_response rid unknown_node) s
      | Some g \<Rightarrow> reply (Ack rid) (fst s, call_group (Call_set_shared_variables g m) (snd s)))"

definition app_set_variables :: "u32 \<Rightarrow> node_id \<Rightarrow> properties_map \<Rightarrow> session \<Rightarrow> session" where
  "app_set_variables rid i m s =
     (case get_locked_node s i of Some k \<Rightarrow> app_set_node_variables rid k m s | None \<Rightarrow> app_set_group_variables rid i m s)"

definition app_set_events_table :: "u32 \<Rightarrow> node_id \<Rightarrow> event list \<Rightarrow> session \<Rightarrow> session" where
  "app_set_events_table rid i es s =
     (case get_group s i of
        None \<Rightarrow> reply (Error_response rid unknown_node) s
      | Some g \<Rightarrow> reply (Ack rid) (fst s, call_group (Call_set_events_table g es) (snd s)))"

definition app_emit_events :: "u32 \<Rightarrow> node_id \<Rightarrow> properties_map \<Rightarrow> session \<Rightarrow> session" where
  "app_emit_events rid i m s =
     (case get_group s i of
        None \<Rightarrow> reply (Error_response rid unknown_node) s
      | Some g \<Rightarrow> (fst s, call_group (Call_emit_events g m rid) (snd s)))"

text \<open>A program for a group is loaded at once, so that the error is known: \<open>parses\<close> tells whether it is well-formed, and
  \<open>pads\<close> are the scratchpads of the group when it was loaded.\<close>

definition load_group_code :: "(bytes \<Rightarrow> bool) \<Rightarrow> scratchpad list \<Rightarrow> u32 \<Rightarrow> nat \<Rightarrow> programming_language \<Rightarrow> bytes \<Rightarrow> session \<Rightarrow> session" where
  "load_group_code parses pads rid g language program s =
     (let s' = (fst s, call_group (Call_load_code g program language) (snd s)) in
      if language \<noteq> Aesl \<or> \<not> parses program then reply (Error_response rid unknown_error) s'
      else reply (Ack rid) (foldl (\<lambda>s p. reply (Scratchpad_message g p) s) s' pads))"

text \<open>The callbacks of a compilation and of breakpoints post their answer to the strand.\<close>

definition compilation_done :: "u32 \<Rightarrow> bool \<Rightarrow> compilation_result \<Rightarrow> app_endpoint \<Rightarrow> app_endpoint" where
  "compilation_done rid ec r a = defer_message (if ec then Error_response rid unknown_node else Compilation_response rid r) a"

definition breakpoints_done :: "u32 \<Rightarrow> bool \<Rightarrow> u32 list \<Rightarrow> app_endpoint \<Rightarrow> app_endpoint" where
  "breakpoints_done rid ec bps a =
     defer_message (Breakpoints_response rid (if ec then unknown_error else no_error) bps) a"

definition with_node :: "nat \<Rightarrow> (node_state \<Rightarrow> failure + node_state) \<Rightarrow> session \<Rightarrow> failure + session" where
  "with_node k f s = bindR (f (the (w_nodes (snd s) k))) (\<lambda>n. Inr (fst s, on_node k (\<lambda>_. n) (snd s)))"

definition app_compile_and_send_program ::
  "(wchar \<Rightarrow> bool) \<Rightarrow> u32 \<Rightarrow> variables_map \<Rightarrow> (bytes \<Rightarrow> bool) \<Rightarrow> scratchpad list \<Rightarrow> u32 \<Rightarrow> node_id \<Rightarrow> programming_language \<Rightarrow> bytes \<Rightarrow> bool \<Rightarrow>
    session \<Rightarrow> failure + session" where
  "app_compile_and_send_program alnum u known parses pads rid i language program load_on_target s =
     (case get_locked_node s i of
        None \<Rightarrow>
          Inr (case get_group s i of
                 Some g \<Rightarrow> load_group_code parses pads rid g language program s
               | None \<Rightarrow> reply (Error_response rid unknown_node) s)
      | Some k \<Rightarrow>
          with_node k (if load_on_target then compile_and_send_program alnum u known language program (unat rid)
                       else compile_program alnum u language program (unat rid)) s)"

definition app_compile_and_save ::
  "(wchar \<Rightarrow> bool) \<Rightarrow> u32 \<Rightarrow> (bytes \<Rightarrow> bool) \<Rightarrow> scratchpad list \<Rightarrow> u32 \<Rightarrow> node_id \<Rightarrow> programming_language \<Rightarrow> bytes \<Rightarrow> session \<Rightarrow> failure + session" where
  "app_compile_and_save alnum u parses pads rid i language program s =
     (case get_locked_node s i of
        None \<Rightarrow>
          Inr (case get_group s i of
                 Some g \<Rightarrow> load_group_code parses pads rid g language program s
               | None \<Rightarrow> reply (Error_response rid unknown_node) s)
      | Some k \<Rightarrow>
          bindR (compile_and_save alnum u language program (unat rid) (the (w_nodes (snd s) k))) (\<lambda>(bytes', n).
          Inr (reply (Save_response rid i bytes') (fst s, on_node k (\<lambda>_. n) (snd s)))))"

definition executing_node :: "node_id \<Rightarrow> VMExecutionStateCommand \<Rightarrow> session \<Rightarrow> nat option" where
  "executing_node i cmd s =
     (case get_locked_node s i of
        Some k \<Rightarrow> Some k
      | None \<Rightarrow>
          if cmd = Cmd_Stop
          then (case find_registered (snd s) i of
                  None \<Rightarrow> None
                | Some k \<Rightarrow> if ForceResetAndStop \<in> set (node_capabilities (fst s) (the (w_nodes (snd s) k))) then Some k else None)
          else None)"

definition app_set_vm_execution_state ::
  "(wchar \<Rightarrow> bool) \<Rightarrow> u32 \<Rightarrow> u32 \<Rightarrow> node_id \<Rightarrow> VMExecutionStateCommand \<Rightarrow> session \<Rightarrow> failure + session" where
  "app_set_vm_execution_state alnum u rid i cmd s =
     (case executing_node i cmd s of
        None \<Rightarrow> Inr (reply (Error_response rid unknown_node) s)
      | Some k \<Rightarrow> with_node k (set_vm_execution_state alnum u cmd (Some (unat rid))) s)"

definition app_set_breakpoints :: "u32 \<Rightarrow> node_id \<Rightarrow> u32 list \<Rightarrow> session \<Rightarrow> session" where
  "app_set_breakpoints rid i bps s =
     (case get_locked_node s i of
        None \<Rightarrow> reply (Error_response rid unknown_node) s
      | Some k \<Rightarrow> (fst s, on_node k (set_breakpoints bps (Some (unat rid))) (snd s)))"

definition update_node_scratchpad :: "u32 \<Rightarrow> node_id \<Rightarrow> bytes \<Rightarrow> programming_language \<Rightarrow> session \<Rightarrow> session" where
  "update_node_scratchpad rid i content language s =
     (case (case get_locked_node s i of None \<Rightarrow> None | Some k \<Rightarrow> group_of (w_registry (snd s)) k) of
        None \<Rightarrow> reply (Error_response rid unknown_node) s
      | Some g \<Rightarrow> reply (Ack rid) (fst s, call_group (Call_set_node_scratchpad g i content language) (snd s)))"

definition upgrade_node_firmware :: "u32 \<Rightarrow> node_id \<Rightarrow> session \<Rightarrow> session" where
  "upgrade_node_firmware rid i s =
     (case find_registered (snd s) i of
        None \<Rightarrow> reply (Error_response rid unknown_node) s
      | Some k \<Rightarrow>
          let n = the (w_nodes (snd s) k) in
          if m_status n \<noteq> available \<or> FirwmareUpgrade \<notin> set (node_capabilities (fst s) n)
          then reply (Error_response rid unknown_node) s
          else
            let (started, n') = upgrade_firmware n; s' = (fst s, on_node k (\<lambda>_. n') (snd s))
            in if started then s' else reply (Error_response rid unknown_error) s')"

definition upgrade_progress :: "u32 \<Rightarrow> node_id \<Rightarrow> bool \<Rightarrow> bool \<Rightarrow> app_endpoint \<Rightarrow> app_endpoint" where
  "upgrade_progress rid i err complete a =
     write_app_message (if err then Error_response rid unknown_error else if complete then Ack rid else Upgrade_status rid i) a"

text \<open>The settings the dongle was given, or \<open>None\<close> when it could not be written, are an argument.\<close>

definition pair_thymio2_and_dongle :: "(u16 \<times> u8) option \<Rightarrow> u32 \<Rightarrow> node_id \<Rightarrow> session \<Rightarrow> session" where
  "pair_thymio2_and_dongle dongle rid i s =
     (case find_registered (snd s) i of
        None \<Rightarrow> reply (Error_response rid unknown_node) s
      | Some k \<Rightarrow>
          (case dongle of
             None \<Rightarrow> reply (Error_response rid thymio2_pairing_write_dongle_failed) s
           | Some (network, channel) \<Rightarrow>
               let n = the (w_nodes (snd s) k);
                   (ok, n') = set_rf_settings network (m_id n) channel n;
                   s' = (fst s, on_node k (\<lambda>_. n') (snd s))
               in reply (if ok then Pairing_response rid network channel else Error_response rid thymio2_pairing_write_robot_failed) s'))"

section \<open>Notifications\<close>

text \<open>What a watched node or group tells the application; the strand runs the deferred part.\<close>

definition node_variables_changed :: "nat \<Rightarrow> properties_map \<Rightarrow> app_endpoint \<Rightarrow> app_endpoint" where
  "node_variables_changed k m a = defer_message (Node_variables k m) a"

definition group_variables_changed :: "nat \<Rightarrow> properties_map \<Rightarrow> app_endpoint \<Rightarrow> app_endpoint" where
  "group_variables_changed g m a = defer_message (Group_variables g m) a"

definition node_emitted_events :: "nat \<Rightarrow> properties_map \<Rightarrow> app_endpoint \<Rightarrow> app_endpoint" where
  "node_emitted_events k es a = defer_message (Node_events k es) a"

definition events_description_changed :: "nat \<Rightarrow> event list \<Rightarrow> app_endpoint \<Rightarrow> app_endpoint" where
  "events_description_changed g es a = defer_message (Events_description g es) a"

definition scratchpad_changed :: "nat \<Rightarrow> scratchpad \<Rightarrow> app_endpoint \<Rightarrow> app_endpoint" where
  "scratchpad_changed g p a = defer_message (Scratchpad_message g p) a"

definition node_execution_state_changed :: "nat \<Rightarrow> vm_execution_state \<Rightarrow> app_endpoint \<Rightarrow> app_endpoint" where
  "node_execution_state_changed k st a = defer_message (Node_execution_state k st) a"

definition send_list_of_thymio2_dongles :: "(node_id \<times> u16 \<times> u16 \<times> u8) list \<Rightarrow> app_endpoint \<Rightarrow> app_endpoint" where
  "send_list_of_thymio2_dongles dongles a = write_app_message (Dongles_changed dongles) a"

text \<open>Every switch to the pairing mode adds a connection to the changes of dongles.\<close>

definition enable_pairing_mode :: "bool \<Rightarrow> session \<Rightarrow> session" where
  "enable_pairing_mode enable s =
     (if w_pairing_enabled (snd s) = enable then s
      else (if enable then (fst s)\<lparr>ae_dongle_connections := Suc (ae_dongle_connections (fst s))\<rparr> else fst s,
            (snd s)\<lparr>w_pairing_enabled := enable\<rparr>))"

section \<open>Watched nodes and groups\<close>

definition watches :: "watchable \<Rightarrow> node_id \<Rightarrow> app_endpoint \<Rightarrow> bool" where
  "watches x i a \<longleftrightarrow> (x, i) \<in> set (m_watch_nodes a)"

definition watch :: "watchable \<Rightarrow> node_id \<Rightarrow> app_endpoint \<Rightarrow> app_endpoint" where
  "watch x i a = (if watches x i a then a else a\<lparr>m_watch_nodes := m_watch_nodes a @ [(x, i)]\<rparr>)"

definition unwatch :: "watchable \<Rightarrow> node_id \<Rightarrow> app_endpoint \<Rightarrow> app_endpoint" where
  "unwatch x i a = a\<lparr>m_watch_nodes := filter (\<lambda>e. e \<noteq> (x, i)) (m_watch_nodes a)\<rparr>"

definition watch_shared :: "watchable \<Rightarrow> (app_endpoint \<Rightarrow> app_endpoint) \<Rightarrow> watchable set \<Rightarrow> node_id \<Rightarrow> bool \<Rightarrow> app_endpoint \<Rightarrow> app_endpoint" where
  "watch_shared x news flags i own_id a =
     (if x \<notin> flags then a
      else if \<not> watches x i a then watch x i (news a)
      else if own_id then unwatch x i a else a)"

definition watch_group :: "nat \<Rightarrow> watchable set \<Rightarrow> node_id \<Rightarrow> session \<Rightarrow> session" where
  "watch_group g flags i s =
     (case w_groups (snd s) g of
        None \<Rightarrow> s
      | Some gs \<Rightarrow>
          let own = (g_uuid gs = i);
              a1 = watch_shared Watch_SharedVariables (group_variables_changed g (m_shared_variables gs)) flags i own (fst s);
              a2 = watch_shared Watch_SharedEventsDescription (events_description_changed g (m_events_table gs)) flags i own a1
          in (watch_shared Watch_Scratchpads (fold (scratchpad_changed g) (m_scratchpads gs)) flags i own a2, snd s))"

definition watch_node :: "nat \<Rightarrow> watchable set \<Rightarrow> node_id \<Rightarrow> session \<Rightarrow> session" where
  "watch_node k flags i s =
     (let n = the (w_nodes (snd s) k); a = fst s;
          (a1, w1) = (if Watch_Variables \<in> flags
            then (watch Watch_Variables i (if watches Watch_Variables i a then a else node_variables_changed k (variables_of n) a),
                  on_node k connect_to_variables_changes (snd s))
            else (unwatch Watch_Variables i a, snd s));
          a2 = (if Watch_Events \<in> flags then watch Watch_Events i a1 else unwatch Watch_Events i a1);
          a3 = (if Watch_VMExecutionState \<in> flags
                then node_execution_state_changed k (execution_state n) (watch Watch_VMExecutionState i a2)
                else unwatch Watch_VMExecutionState i a2)
      in (a3, w1))"

definition watch_node_or_group :: "u32 \<Rightarrow> node_id \<Rightarrow> watchable set \<Rightarrow> session \<Rightarrow> session" where
  "watch_node_or_group rid i flags s =
     (let g = group_from_id (w_registry (snd s)) (group_id (snd s)) i; k = find_registered (snd s) i in
      if k = None \<and> g = None then reply (Error_response rid unknown_node) s
      else
        let s1 = (case g of None \<Rightarrow> s | Some x \<Rightarrow> watch_group x flags i s);
            s2 = (case k of None \<Rightarrow> s1 | Some x \<Rightarrow> watch_node x flags i s1)
        in reply (Ack rid) s2)"

section \<open>Handshake\<close>

definition tdm_protocolVersion :: u32 where "tdm_protocolVersion = 1"
definition tdm_minProtocolVersion :: u32 where "tdm_minProtocolVersion = 1"
definition maxAppEndPointMessageSize :: u32 where "maxAppEndPointMessageSize = 102400"

definition check_tdm_password :: "bytes \<Rightarrow> bytes \<Rightarrow> bool" where
  "check_tdm_password tdm_password password \<longleftrightarrow> tdm_password = [] \<or> password = tdm_password"

record handshake =
  hs_protocolVersion :: u32
  hs_minProtocolVersion :: u32
  hs_maxMessageSize :: u32
  hs_password :: "bytes option"

definition version_accepted :: "handshake \<Rightarrow> bool" where
  "version_accepted hs \<longleftrightarrow>
     \<not> (hs_protocolVersion hs < tdm_minProtocolVersion \<or> tdm_protocolVersion < hs_minProtocolVersion hs)"

definition password_accepted :: "bytes \<Rightarrow> handshake \<Rightarrow> app_endpoint \<Rightarrow> bool" where
  "password_accepted tdm_password hs a \<longleftrightarrow>
     is_network_local a \<or> (case hs_password hs of None \<Rightarrow> False | Some p \<Rightarrow> check_tdm_password tdm_password (takeWhile (\<lambda>b. b \<noteq> 0) p))"

text \<open>The answer carries the identifier and the port of the service and the password. Without a further read the
  connection is dropped.\<close>

definition handle_handshake :: "bytes \<Rightarrow> node_id \<Rightarrow> u16 \<Rightarrow> handshake \<Rightarrow> session \<Rightarrow> session" where
  "handle_handshake tdm_password service ws_port hs s =
     (let accepted = version_accepted hs;
          a0 = (fst s)\<lparr>ae_reading := False\<rparr>;
          a1 = (if accepted
                then a0\<lparr>ae_protocol_version := ucast (min (hs_protocolVersion hs) tdm_protocolVersion),
                         m_max_out_going_packet_size := ucast (hs_maxMessageSize hs)\<rparr>
                else a0)
      in if accepted \<and> \<not> password_accepted tdm_password hs a1 then (a1, snd s)
         else
           let s2 = reply (Connection_handshake tdm_minProtocolVersion (ae_protocol_version a1) maxAppEndPointMessageSize
                             (is_machine_local a1) ws_port service tdm_password) (a1, snd s)
           in if ae_protocol_version (fst s2) = 0 then s2
              else let (a3, w) = send_full_node_list s2 in (a3\<lparr>ae_reading := True\<rparr>, w))"

text \<open>The first message of a connection: nothing is read further when it is not a handshake or cannot be read.\<close>

definition handle_first_message :: "bytes \<Rightarrow> node_id \<Rightarrow> u16 \<Rightarrow> handshake option \<Rightarrow> session \<Rightarrow> session" where
  "handle_first_message tdm_password service ws_port msg s =
     (case msg of
        None \<Rightarrow> ((fst s)\<lparr>ae_reading := False\<rparr>, snd s)
      | Some hs \<Rightarrow> handle_handshake tdm_password service ws_port hs s)"

definition send_ping :: "session \<Rightarrow> session" where
  "send_ping s = reply Ping s"

section \<open>The dispatch of requests\<close>

datatype request =
    DeviceManagerShutdownRequest
  | RequestListOfNodes
  | RequestNodeAsebaVMDescription u32 node_id
  | Request_SetVariables u32 node_id properties_map
  | RegisterEvents u32 node_id "event list"
  | SendEvents u32 node_id properties_map
  | RenameNode u32 node_id bytes
  | LockNode u32 node_id
  | UnlockNode u32 node_id
  | CompileAndLoadCodeOnVM u32 node_id programming_language bytes bool
  | CompileAndSave u32 node_id programming_language bytes
  | SetVMExecutionState u32 node_id VMExecutionStateCommand
  | WatchNode u32 node_id "watchable set"
  | SetBreakpoints u32 node_id "u32 list"
  | ScratchpadUpdate u32 "node_id option" bytes programming_language
  | FirmwareUpgradeRequest u32 "node_id option"
  | Thymio2WirelessDonglePairingRequest u32 "node_id option" "node_id option"
  | EnableThymio2PairingMode bool
  | Unsupported_request

text \<open>What a request reads of other parts: letters, the compiler's uninitialized memory, the variables known after a failed
  compilation, the form of a program of a group and its scratchpads then, and the outcome of writing to a dongle.\<close>

record surroundings =
  sr_alnum :: "wchar \<Rightarrow> bool"
  sr_junk :: u32
  sr_known :: variables_map
  sr_parses :: "bytes \<Rightarrow> bool"
  sr_pads :: "scratchpad list"
  sr_dongle :: "(u16 \<times> u8) option"

definition handle_request :: "surroundings \<Rightarrow> request \<Rightarrow> session \<Rightarrow> failure + session" where
  "handle_request x r s =
     (case r of
        DeviceManagerShutdownRequest \<Rightarrow> Inr (if is_machine_local (fst s) then ((fst s)\<lparr>ae_stopped := True\<rparr>, snd s) else s)
      | RequestListOfNodes \<Rightarrow> Inr (send_full_node_list s)
      | RequestNodeAsebaVMDescription rid i \<Rightarrow> Inr (send_aseba_vm_description rid i s)
      | Request_SetVariables rid i m \<Rightarrow> Inr (app_set_variables rid i m s)
      | RegisterEvents rid i es \<Rightarrow> Inr (app_set_events_table rid i es s)
      | SendEvents rid i m \<Rightarrow> Inr (app_emit_events rid i m s)
      | RenameNode rid i name \<Rightarrow> Inr (rename_node rid i name s)
      | LockNode rid i \<Rightarrow> Inr (lock_node rid i s)
      | UnlockNode rid i \<Rightarrow> Inr (unlock_node rid i s)
      | CompileAndLoadCodeOnVM rid i language program load \<Rightarrow>
          app_compile_and_send_program (sr_alnum x) (sr_junk x) (sr_known x) (sr_parses x) (sr_pads x) rid i language program load s
      | CompileAndSave rid i language program \<Rightarrow> app_compile_and_save (sr_alnum x) (sr_junk x) (sr_parses x) (sr_pads x) rid i language program s
      | SetVMExecutionState rid i cmd \<Rightarrow> app_set_vm_execution_state (sr_alnum x) (sr_junk x) rid i cmd s
      | WatchNode rid i flags \<Rightarrow> Inr (watch_node_or_group rid i flags s)
      | SetBreakpoints rid i bps \<Rightarrow> Inr (app_set_breakpoints rid i bps s)
      | ScratchpadUpdate rid i content language \<Rightarrow>
          Inr (case i of None \<Rightarrow> reply (Error_response rid unknown_node) s | Some j \<Rightarrow> update_node_scratchpad rid j content language s)
      | FirmwareUpgradeRequest rid i \<Rightarrow>
          Inr (case i of None \<Rightarrow> reply (Error_response rid unknown_node) s | Some j \<Rightarrow> upgrade_node_firmware rid j s)
      | Thymio2WirelessDonglePairingRequest rid i d \<Rightarrow>
          Inr (case (i, d) of
                 (Some j, Some _) \<Rightarrow> pair_thymio2_and_dongle (sr_dongle x) rid j s
               | _ \<Rightarrow> reply (Error_response rid unknown_node) s)
      | EnableThymio2PairingMode enable \<Rightarrow> Inr (enable_pairing_mode enable s)
      | Unsupported_request \<Rightarrow> Inr s)"

definition handle_app_read :: "surroundings \<Rightarrow> (bool + request) \<Rightarrow> session \<Rightarrow> failure + session" where
  "handle_app_read x r s =
     (case r of
        Inl ec \<Rightarrow> Inr ((fst s)\<lparr>ae_reading := False\<rparr>, snd s)
      | Inr req \<Rightarrow> handle_request x req ((fst s)\<lparr>ae_reading := True\<rparr>, snd s))"

text \<open>The end of a connection unlocks the nodes that are listed.\<close>

definition close_app :: "session \<Rightarrow> world" where
  "close_app s = foldl (\<lambda>w (i, k). on_node k (\<lambda>n. snd (unlock (ae_key (fst s)) n)) w) (snd s) (m_locked_nodes (fst s))"

end
