(* ===== verification/App_Locks.thy ===== *)
theory App_Locks
  imports App_Endpoint Node_Status
begin

text \<open>
  Applications and the nodes they lock: which application holds a node over all sequences of requests of several applications,
  what requests do without a lock, and how a lock is lost.
\<close>

section \<open>Locks\<close>

text \<open>What applications rely on: a lock goes to one application, which is not 0, and only that application gives it back.\<close>

locale lockable =
  fixes lock_by :: "nat \<Rightarrow> 'n \<Rightarrow> bool \<times> 'n" and unlock_by :: "nat \<Rightarrow> 'n \<Rightarrow> bool \<times> 'n" and holder :: "'n \<Rightarrow> nat"
  assumes granted: "lock_by c n = (True, n') \<Longrightarrow> holder n \<in> {0, c} \<and> holder n' = c"
    and refused: "lock_by c n = (False, n') \<Longrightarrow> n' = n"
    and given_back: "unlock_by c n = (r, n') \<Longrightarrow> r = (holder n = c) \<and> holder n' = (if holder n = c then 0 else holder n)"
begin

lemma held_by_other: "holder n \<notin> {0, c} \<Longrightarrow> lock_by c n = (False, n)"
  using granted [of c n] refused [of c n] by (cases "lock_by c n"; cases "fst (lock_by c n)") auto

text \<open>Once an application holds an object, only its own unlock ends that, whatever others try.\<close>

primrec attempts :: "(nat \<times> bool) list \<Rightarrow> 'n \<Rightarrow> 'n" where
  "attempts [] n = n"
| "attempts (e # es) n = attempts es (snd (if snd e then lock_by (fst e) n else unlock_by (fst e) n))"

lemma held_until_unlocked: "holder n = c \<Longrightarrow> c \<noteq> 0 \<Longrightarrow> (c, False) \<notin> set es \<Longrightarrow> holder (attempts es n) = c"
proof (induction es arbitrary: n)
  case (Cons e es)
  obtain d b where e: "e = (d, b)" by (cases e)
  have "holder (snd (lock_by d n)) = c"
  proof (cases "d = c")
    case True
    then show ?thesis using granted [of c n] refused [of c n] Cons.prems(1) by (cases "lock_by c n"; cases "fst (lock_by c n)") auto
  qed (use held_by_other [of n d] Cons.prems in auto)
  moreover have "d \<noteq> c \<Longrightarrow> holder (snd (unlock_by d n)) = c"
    using given_back [of d n] Cons.prems(1) by (cases "unlock_by d n") auto
  ultimately show ?case using Cons by (auto simp: e)
qed simp

end

interpretation node_lock: lockable lock unlock m_connected_app
  by unfold_locales (auto simp: lock_def unlock_def kept_app split: if_splits)

section \<open>What a request leaves alone\<close>

text \<open>The application that holds each node.\<close>

definition holders :: "world \<Rightarrow> nat \<Rightarrow> nat option" where
  "holders w k = map_option m_connected_app (w_nodes w k)"

definition lock_view :: "session \<Rightarrow> (nat \<Rightarrow> nat option) \<times> (node_id \<times> nat) list \<times> registry \<times> nat" where
  "lock_view s = (holders (snd s), m_locked_nodes (fst s), w_registry (snd s), ae_key (fst s))"

named_theorems kept_locks \<open>operations that keep the locks\<close>

lemma write_kept [simp]:
  "m_locked_nodes (write_app_message msg a) = m_locked_nodes a" "ae_key (write_app_message msg a) = ae_key a"
  by (simp_all add: write_app_message_def do_write_message_def Let_def)

lemma defer_kept [simp]:
  "m_locked_nodes (defer_message msg a) = m_locked_nodes a" "ae_key (defer_message msg a) = ae_key a"
  by (simp_all add: defer_message_def)

lemma reply_kept [kept_locks]: "lock_view (reply msg s) = lock_view s"
  by (simp add: lock_view_def reply_def)

lemma replies_kept [kept_locks]: "lock_view (foldl (\<lambda>s p. reply (f p) s) s ps) = lock_view s"
  by (induction ps arbitrary: s) (simp_all add: kept_locks)

lemma call_group_kept [kept_locks]: "lock_view (a, call_group c w) = lock_view (a, w)"
  by (simp add: lock_view_def call_group_def holders_def fun_eq_iff)

lemma on_node_kept [kept_locks]:
  "(\<And>n. w_nodes w k = Some n \<Longrightarrow> m_connected_app (f n) = m_connected_app n) \<Longrightarrow> lock_view (a, on_node k f w) = lock_view (a, w)"
  by (auto simp: lock_view_def on_node_def holders_def fun_eq_iff split: option.split) (cases "w_nodes w k"; simp)

lemma node_requests_kept [kept_locks]:
  "lock_view (send_full_node_list s) = lock_view s"
  "lock_view (send_aseba_vm_description rid i s) = lock_view s"
  "lock_view (rename_node rid i name s) = lock_view s"
  "lock_view (app_set_breakpoints rid i bps s) = lock_view s"
  "lock_view (update_node_scratchpad rid i content language s) = lock_view s"
  "lock_view (app_set_events_table rid i es s) = lock_view s"
  "lock_view (app_emit_events rid i m s) = lock_view s"
  by (auto simp: send_full_node_list_def send_aseba_vm_description_def rename_node_def app_set_breakpoints_def
    update_node_scratchpad_def app_set_events_table_def app_emit_events_def kept_locks kept_app split: option.split)

lemma replaced_node_kept:
  "m_connected_app n' = m_connected_app (the (w_nodes w k)) \<Longrightarrow> lock_view (a, on_node k (\<lambda>_. n') w) = lock_view (a, w)"
  by (rule on_node_kept) simp

lemma changing_requests_kept [kept_locks]:
  "lock_view (app_set_variables rid i m s) = lock_view s"
  "lock_view (upgrade_node_firmware rid i s) = lock_view s"
  "lock_view (pair_thymio2_and_dongle d rid i s) = lock_view s"
proof -
  have vars: "app n' = app n" if "set_node_variables m cb n = (e, n')" for cb n e n'
    using that app_variables(8) [of m cb n] by simp
  have up: "app n' = app n" if "upgrade_firmware n = (b, n')" for n b n' using that app_requests(4) [of n] by simp
  have rf: "app n' = app n" if "set_rf_settings x y c n = (b, n')" for x y c n b n' using that app_device(4) [of x y c n] by simp
  show "lock_view (app_set_variables rid i m s) = lock_view s"
    by (auto simp: app_set_variables_def app_set_node_variables_def app_set_group_variables_def Let_def kept_locks
      intro!: replaced_node_kept dest: vars split: option.split prod.split)
  show "lock_view (upgrade_node_firmware rid i s) = lock_view s"
    by (auto simp: upgrade_node_firmware_def Let_def kept_locks intro!: replaced_node_kept dest: up split: option.split prod.split)
  show "lock_view (pair_thymio2_and_dongle d rid i s) = lock_view s"
    by (auto simp: pair_thymio2_and_dongle_def Let_def kept_locks intro!: replaced_node_kept dest: rf split: option.split prod.split)
qed

lemma load_kept [kept_locks]: "lock_view (load_group_code parses pads rid g language program s) = lock_view s"
  by (simp add: load_group_code_def Let_def kept_locks)

lemma with_node_kept:
  "with_node k f s = Inr s' \<Longrightarrow> (\<And>n n'. f n = Inr n' \<Longrightarrow> app n' = app n) \<Longrightarrow> lock_view s' = lock_view s"
  by (auto simp: with_node_def intro!: replaced_node_kept elim!: bindR_InrE) (metis prod.collapse replaced_node_kept)

lemma program_requests_kept:
  "app_compile_and_send_program alnum u known parses pads rid i language program load s = Inr s' \<Longrightarrow> lock_view s' = lock_view s"
  "app_compile_and_save alnum u parses pads rid i language program s = Inr s' \<Longrightarrow> lock_view s' = lock_view s"
  "app_set_vm_execution_state alnum u rid i cmd s = Inr s' \<Longrightarrow> lock_view s' = lock_view s"
proof -
  show "lock_view s' = lock_view s" if "app_compile_and_send_program alnum u known parses pads rid i language program load s = Inr s'"
    using that app_programs(1,2)
    by (auto simp: app_compile_and_send_program_def kept_locks elim!: with_node_kept split: option.splits if_splits)
  show "lock_view s' = lock_view s" if "app_compile_and_save alnum u parses pads rid i language program s = Inr s'"
    using that
    by (auto simp: app_compile_and_save_def kept_locks intro!: replaced_node_kept [where a = "fst s" and w = "snd s", simplified]
      dest: app_programs(3) elim!: bindR_InrE split: option.splits)
  show "lock_view s' = lock_view s" if "app_set_vm_execution_state alnum u rid i cmd s = Inr s'"
    using that app_programs(4)
    by (auto simp: app_set_vm_execution_state_def kept_locks elim!: with_node_kept split: option.splits)
qed

lemma watched_kept [simp]:
  "m_locked_nodes (watch x i a) = m_locked_nodes a" "ae_key (watch x i a) = ae_key a"
  "m_locked_nodes (unwatch x i a) = m_locked_nodes a" "ae_key (unwatch x i a) = ae_key a"
  by (simp_all add: watch_def unwatch_def)

lemma news_kept [simp]:
  "m_locked_nodes (node_variables_changed k m a) = m_locked_nodes a" "ae_key (node_variables_changed k m a) = ae_key a"
  "m_locked_nodes (group_variables_changed g m a) = m_locked_nodes a" "ae_key (group_variables_changed g m a) = ae_key a"
  "m_locked_nodes (events_description_changed g es a) = m_locked_nodes a" "ae_key (events_description_changed g es a) = ae_key a"
  "m_locked_nodes (node_execution_state_changed k st a) = m_locked_nodes a" "ae_key (node_execution_state_changed k st a) = ae_key a"
  by (simp_all add: node_variables_changed_def group_variables_changed_def events_description_changed_def node_execution_state_changed_def)

lemma pads_kept [simp]:
  "m_locked_nodes (fold (scratchpad_changed g) ps a) = m_locked_nodes a" "ae_key (fold (scratchpad_changed g) ps a) = ae_key a"
  by (induction ps arbitrary: a) (simp_all add: scratchpad_changed_def)

lemma watch_shared_kept:
  assumes "\<And>a. m_locked_nodes (news a) = m_locked_nodes a" "\<And>a. ae_key (news a) = ae_key a"
  shows "m_locked_nodes (watch_shared x news flags i own a) = m_locked_nodes a" "ae_key (watch_shared x news flags i own a) = ae_key a"
  by (simp_all add: watch_shared_def assms)

lemma watch_kept [kept_locks]:
  "lock_view (watch_group g flags i s) = lock_view s" "lock_view (watch_node k flags i s) = lock_view s"
  "lock_view (watch_node_or_group rid i flags s) = lock_view s"
proof -
  show group: "lock_view (watch_group g flags i s) = lock_view s" for g s
    by (simp add: watch_group_def lock_view_def Let_def watch_shared_kept split: option.split)
  have "holders (on_node k connect_to_variables_changes w) = holders w" for k w
    using on_node_kept [of w k connect_to_variables_changes] by (simp add: lock_view_def kept_app)
  moreover have "w_registry (on_node k f w) = w_registry w" for k f w by (simp add: on_node_def)
  ultimately show node: "lock_view (watch_node k flags i s) = lock_view s" for k s
    by (simp add: watch_node_def lock_view_def Let_def)
  show "lock_view (watch_node_or_group rid i flags s) = lock_view s"
    by (simp add: watch_node_or_group_def Let_def kept_locks group node split: option.split)
qed

lemma flags_kept [kept_locks]:
  "lock_view ((fst s)\<lparr>ae_stopped := b\<rparr>, snd s) = lock_view s" "lock_view ((fst s)\<lparr>ae_reading := b\<rparr>, snd s) = lock_view s"
  by (simp_all add: lock_view_def)

lemma pairing_kept [kept_locks]: "lock_view (enable_pairing_mode b s) = lock_view s"
  by (simp add: enable_pairing_mode_def lock_view_def holders_def fun_eq_iff)

lemma request_keeps_locks:
  assumes "handle_request x r s = Inr s'" and "\<forall>rid i. r \<noteq> LockNode rid i \<and> r \<noteq> UnlockNode rid i"
  shows "lock_view s' = lock_view s"
  using assms
  by (cases r) (auto simp: handle_request_def kept_locks split: option.splits prod.splits if_splits dest: program_requests_kept)

section \<open>Runs of several applications\<close>

type_synonym apps = "nat \<Rightarrow> app_endpoint option"

text \<open>
  Applications by their addresses: applications connect and disconnect, send requests and are told of changes of nodes; nodes are
  created and destroyed and take steps of their own; the registry changes in any way, so that nodes come, go and take new
  identifiers at any time. One thing is left out. A node that takes a new identifier is announced as disconnected, and
  that notice erases the entry of the application that holds the node; but the notice is posted to the strand of the
  application, and \<open>lock_under_known_id\<close> says that the application does not lock the node under its new identifier while its
  table still lists the old one (\<open>renamed_node_locked_twice\<close> below shows what happens otherwise).
\<close>

definition lock_under_known_id :: "request \<Rightarrow> session \<Rightarrow> bool" where
  "lock_under_known_id r s \<longleftrightarrow>
     (case r of
        LockNode _ i \<Rightarrow>
          (case find_registered (snd s) i of
             None \<Rightarrow> True
           | Some k \<Rightarrow> (\<forall>(j, k')\<in>set (m_locked_nodes (fst s)). k' = k \<longrightarrow> j = i))
      | _ \<Rightarrow> True)"

inductive apps_run :: "apps \<Rightarrow> world \<Rightarrow> bool" where
  apps_start: "(\<And>k n. w_nodes w k = Some n \<Longrightarrow> m_connected_app n = 0) \<Longrightarrow> apps_run (\<lambda>_. None) w"
| apps_connect: "apps_run as w \<Longrightarrow> as c = None \<Longrightarrow> c \<noteq> 0 \<Longrightarrow> ae_key a = c \<Longrightarrow> m_locked_nodes a = [] \<Longrightarrow>
    apps_run (as(c \<mapsto> a)) w"
| apps_request: "apps_run as w \<Longrightarrow> as c = Some a \<Longrightarrow> lock_under_known_id r (a, w) \<Longrightarrow> handle_request x r (a, w) = Inr (a', w') \<Longrightarrow>
    apps_run (as(c \<mapsto> a')) w'"
| apps_changed: "apps_run as w \<Longrightarrow> as c = Some a \<Longrightarrow> do_node_changed k i st (a, w) = (a', w') \<Longrightarrow>
    apps_run (as(c \<mapsto> a')) w'"
| apps_close: "apps_run as w \<Longrightarrow> as c = Some a \<Longrightarrow> apps_run (as(c := None)) (close_app (a, w))"
| apps_node: "apps_run as w \<Longrightarrow> w_nodes w k = Some n \<Longrightarrow> node_step alnum n e n' \<Longrightarrow>
    \<forall>c. e \<noteq> Ev_lock c \<and> e \<noteq> Ev_unlock c \<Longrightarrow> apps_run as (w\<lparr>w_nodes := (w_nodes w)(k \<mapsto> n')\<rparr>)"
| apps_node_gone: "apps_run as w \<Longrightarrow> apps_run as (w\<lparr>w_nodes := (w_nodes w)(k := None)\<rparr>)"
| apps_node_created: "apps_run as w \<Longrightarrow> w_nodes w k = None \<Longrightarrow>
    (\<forall>c a i. as c = Some a \<longrightarrow> (i, k) \<notin> set (m_locked_nodes a)) \<Longrightarrow> m_connected_app n = 0 \<Longrightarrow>
    apps_run as (w\<lparr>w_nodes := (w_nodes w)(k \<mapsto> n)\<rparr>)"
| apps_registry: "apps_run as w \<Longrightarrow> apps_run as (w\<lparr>w_registry := reg\<rparr>)"

text \<open>While the identifiers of the nodes in a table are those of a reachable registry the condition always holds.\<close>

lemma lock_under_known_id_registered:
  assumes "registry_run has_state' (w_registry w)" and "\<forall>(j, k)\<in>set (m_locked_nodes a). node_from_id (w_registry w) j = Some k"
  shows "lock_under_known_id r (a, w)"
  using assms(2) node_from_id_inject [OF run_consistent [OF assms(1)]]
  by (fastforce simp: lock_under_known_id_def find_registered_def split: request.split option.splits)

text \<open>A table lists a node once, and the application holds the nodes of its table that are alive.\<close>

definition table_held :: "world \<Rightarrow> app_endpoint \<Rightarrow> bool" where
  "table_held w a \<longleftrightarrow> inj_on snd (set (m_locked_nodes a)) \<and>
     (\<forall>(i, k)\<in>set (m_locked_nodes a). \<forall>n. w_nodes w k = Some n \<longrightarrow> m_connected_app n = ae_key a)"

definition locks_held :: "apps \<Rightarrow> world \<Rightarrow> bool" where
  "locks_held as w \<longleftrightarrow> (\<forall>c a. as c = Some a \<longrightarrow> c \<noteq> 0 \<and> ae_key a = c \<and> table_held w a)"

lemma set_update_subset: "set (AList.update i k t) \<subseteq> insert (i, k) (set t)"
  by (induction t) auto

lemma table_held_view:
  assumes "table_held w a" "holders w' = holders w" "set (m_locked_nodes a') \<subseteq> set (m_locked_nodes a)" "ae_key a' = ae_key a"
  shows "table_held w' a'"
proof -
  have "m_connected_app n' = ae_key a" if "(i, k) \<in> set (m_locked_nodes a)" "w_nodes w' k = Some n'" for i k n'
  proof -
    have "holders w k = Some (m_connected_app n')" using assms(2) that(2) by (metis holders_def option.simps(9))
    then obtain n where "w_nodes w k = Some n" "m_connected_app n = m_connected_app n'" by (auto simp: holders_def)
    with assms(1) that(1) show ?thesis by (auto simp: table_held_def)
  qed
  with assms show ?thesis by (auto simp: table_held_def intro: inj_on_subset)
qed

lemma locks_held_shrink:
  assumes "locks_held as w" "as c = Some a" "holders w' = holders w"
    and "set (m_locked_nodes a') \<subseteq> set (m_locked_nodes a)" "ae_key a' = ae_key a"
  shows "locks_held (as(c \<mapsto> a')) w'"
proof -
  have "table_held w' b" if "as d = Some b" for d b
    using assms(1) that table_held_view [of w b w' b] assms(3) by (simp add: locks_held_def)
  moreover have "table_held w' a'" using assms table_held_view [of w a w' a'] by (simp add: locks_held_def)
  ultimately show ?thesis using assms by (simp add: locks_held_def)
qed

lemma locks_held_view:
  "locks_held as w \<Longrightarrow> as c = Some a \<Longrightarrow> lock_view (a', w') = lock_view (a, w) \<Longrightarrow> locks_held (as(c \<mapsto> a')) w'"
  by (rule locks_held_shrink) (simp_all add: lock_view_def)

lemma locks_held_holders: "locks_held as w \<Longrightarrow> holders w' = holders w \<Longrightarrow> locks_held as w'"
  by (auto simp: locks_held_def intro: table_held_view)

text \<open>A change of the node of one application that no other application holds.\<close>

lemma locks_held_change:
  assumes "locks_held as w" "as c = Some a" "ae_key a' = c"
    and "w' = on_node k (\<lambda>_. n') w" "w_nodes w k = Some n" "m_connected_app n \<in> {0, c}"
    and "inj_on snd (set (m_locked_nodes a'))"
    and "\<And>i j. (i, j) \<in> set (m_locked_nodes a') \<Longrightarrow> j = k \<and> m_connected_app n' = c \<or> j \<noteq> k \<and> (i, j) \<in> set (m_locked_nodes a)"
  shows "locks_held (as(c \<mapsto> a')) w'"
proof -
  have c: "c \<noteq> 0" using assms(1,2) by (auto simp: locks_held_def)
  have other: "table_held w' b" if "as d = Some b" "d \<noteq> c" for d b
  proof -
    have b: "table_held w b" "ae_key b = d" "d \<noteq> 0" using assms(1) that(1) by (auto simp: locks_held_def)
    have "(i, k) \<notin> set (m_locked_nodes b)" for i using b that(2) assms(5,6) c by (auto simp: table_held_def)
    with b(1) show ?thesis by (auto simp: table_held_def assms(4) on_node_def)
  qed
  have "table_held w a" using assms(1,2) by (simp add: locks_held_def)
  then have "table_held w' a'" using assms(2,3,7,8) assms(1)
    by (fastforce simp: table_held_def assms(4,5) on_node_def locks_held_def)
  with other c assms(1,3) show ?thesis by (auto simp: locks_held_def)
qed

lemma holders_same_node: "w_nodes w k = Some n \<Longrightarrow> on_node k (\<lambda>_. n) w = w"
  by (simp add: on_node_def fun_upd_idem)

lemma inj_on_update:
  assumes "inj_on snd (set t)" "\<forall>(j, k')\<in>set t. k' = k \<longrightarrow> j = i"
  shows "inj_on snd (set (AList.update i k t))"
proof (rule inj_on_subset [OF _ set_update_subset])
  show "inj_on snd (insert (i, k) (set t))" using assms by (fastforce simp: inj_on_def)
qed

lemma locks_held_lock:
  assumes held: "locks_held as w" "as c = Some a" and "lock_node rid i (a, w) = (a', w')"
    and known: "lock_under_known_id (LockNode rid i) (a, w)"
  shows "locks_held (as(c \<mapsto> a')) w'"
proof (cases "find_registered w i")
  case None
  with assms show ?thesis by (intro locks_held_view [OF held]) (simp add: lock_node_def reply_kept flip: assms(3))
next
  case (Some k)
  then obtain n where n: "w_nodes w k = Some n"
    by (auto simp: find_registered_def split: option.splits if_splits)
  have a: "ae_key a = c" "table_held w a" using held by (auto simp: locks_held_def)
  obtain res n' where lock: "lock c n = (res, n')" by fastforce
  let ?t = "AList.update i k (m_locked_nodes a)"
  show ?thesis
  proof (cases res)
    case True
    then have app: "m_connected_app n \<in> {0, c}" "m_connected_app n' = c"
      using node_lock.granted [of c n n'] lock by simp_all
    have result: "w' = on_node k (\<lambda>_. n') w" "m_locked_nodes a' = ?t" "ae_key a' = c"
      using assms(3) Some n True lock a by (auto simp: lock_node_def reply_def Let_def)
    have "inj_on snd (set ?t)"
      using a(2) known Some by (intro inj_on_update) (auto simp: table_held_def lock_under_known_id_def)
    then show ?thesis
      using n app result set_update_subset [of i k "m_locked_nodes a"]
      by (intro locks_held_change [OF held, of a' w' k n' n]) auto
  next
    case False
    then have "n' = n" using node_lock.refused [of c n n'] lock by simp
    then have "w' = w" "m_locked_nodes a' = AList.delete i ?t" "ae_key a' = c"
      using assms(3) Some n False lock a by (auto simp: lock_node_def reply_def Let_def holders_same_node)
    moreover have "set (AList.delete i ?t) \<subseteq> set (m_locked_nodes a)"
      using set_update_subset [of i k "m_locked_nodes a"] by (auto simp: AList.delete_eq)
    ultimately show ?thesis using a by (intro locks_held_shrink [OF held]) auto
  qed
qed

lemma locks_held_unlock:
  assumes held: "locks_held as w" "as c = Some a" and "unlock_node rid i (a, w) = (a', w')"
  shows "locks_held (as(c \<mapsto> a')) w'"
proof (cases "get_locked_node (a, w) i")
  case None
  with assms(3) show ?thesis
    by (intro locks_held_shrink [OF held]) (auto simp: unlock_node_def reply_def AList.delete_eq Let_def)
next
  case (Some k)
  then obtain n where n: "w_nodes w k = Some n" "(i, k) \<in> set (m_locked_nodes a)"
    by (auto simp: get_locked_node_def dest!: map_of_SomeD split: option.splits if_splits)
  have a: "ae_key a = c" "table_held w a" using held by (auto simp: locks_held_def)
  then have app: "m_connected_app n = c" and inj: "inj_on snd (set (m_locked_nodes a))" using n by (auto simp: table_held_def)
  obtain n' where unlock: "unlock c n = (True, n')" using app node_lock.given_back [of c n] by (cases "unlock c n") auto
  have "w' = on_node k (\<lambda>_. n') w" "m_locked_nodes a' = AList.delete i (m_locked_nodes a)" "ae_key a' = c"
    using assms(3) Some n unlock a by (auto simp: unlock_node_def reply_def Let_def)
  moreover have "j \<noteq> k" if "(i', j) \<in> set (m_locked_nodes a)" "i' \<noteq> i" for i' j
    using that inj_onD [OF inj _ that(1) n(2)] by auto
  ultimately show ?thesis
    using n app a inj_on_subset [OF inj]
    by (intro locks_held_change [OF held, of a' w' k n' n]) (auto simp: AList.delete_eq)
qed

lemma unlock_all:
  "w_registry (foldl (\<lambda>w (i, k). on_node k (\<lambda>n. snd (unlock c n)) w) w es) = w_registry w \<and>
   (k \<notin> snd ` set es \<or> w_nodes w k = None \<longrightarrow> w_nodes (foldl (\<lambda>w (i, k). on_node k (\<lambda>n. snd (unlock c n)) w) w es) k = w_nodes w k)"
proof (induction es arbitrary: w)
  case (Cons e es)
  obtain i j where e: "e = (i, j)" by (cases e)
  show ?case using Cons.IH [of "on_node j (\<lambda>n. snd (unlock c n)) w"] by (auto simp: e on_node_def)
qed simp

lemma locks_held_close:
  assumes "locks_held as w" "as c = Some a"
  shows "locks_held (as(c := None)) (close_app (a, w))"
proof -
  note unlocked = unlock_all [of c w "m_locked_nodes a"]
  have a: "ae_key a = c" "table_held w a" using assms by (auto simp: locks_held_def)
  have "table_held (close_app (a, w)) b" if "as d = Some b" "d \<noteq> c" for d b
  proof -
    have b: "table_held w b" "ae_key b = d" using assms(1) that(1) by (auto simp: locks_held_def)
    have "k \<notin> snd ` set (m_locked_nodes a) \<or> w_nodes w k = None" if "(i, k) \<in> set (m_locked_nodes b)" for i k
      using that b a \<open>d \<noteq> c\<close> by (fastforce simp: table_held_def)
    then have "w_nodes (close_app (a, w)) k = w_nodes w k" if "(i, k) \<in> set (m_locked_nodes b)" for i k
      using that unlock_all [of c w "m_locked_nodes a" k] a(1) by (auto simp: close_app_def)
    with b show ?thesis by (auto simp: table_held_def)
  qed
  with assms(1) a unlocked show ?thesis by (auto simp: locks_held_def close_app_def)
qed

lemma run_locks_held:
  assumes "apps_run as w"
  shows "locks_held as w"
  using assms
proof (induction rule: apps_run.induct)
  case (apps_request as w c a r x a' w')
  show ?case
  proof (cases "\<exists>rid i. r = LockNode rid i \<or> r = UnlockNode rid i")
    case True
    then consider rid i where "r = LockNode rid i" "lock_node rid i (a, w) = (a', w')" | rid i where "unlock_node rid i (a, w) = (a', w')"
      using apps_request.hyps(4) by (auto simp: handle_request_def)
    then show ?thesis
    proof cases
      case 1
      then show ?thesis using apps_request.hyps(3) by (intro locks_held_lock [OF apps_request.IH apps_request.hyps(2)]) simp_all
    next
      case 2
      then show ?thesis by (rule locks_held_unlock [OF apps_request.IH apps_request.hyps(2)])
    qed
  next
    case False
    then show ?thesis using apps_request request_keeps_locks [OF apps_request.hyps(4)] by (intro locks_held_view) auto
  qed
next
  case (apps_changed as w c a k i st a' w')
  then show ?case
    by (intro locks_held_shrink [OF apps_changed.IH apps_changed.hyps(2)])
      (auto simp: do_node_changed_def reply_def Let_def AList.delete_eq split: option.splits if_splits)
next
  case (apps_close as w c a)
  then show ?case by (intro locks_held_close)
next
  case (apps_node as w k n alnum e n')
  have "m_connected_app n' = m_connected_app n" using node_step_app apps_node.hyps(3,4) by blast
  then have "holders (w\<lparr>w_nodes := (w_nodes w)(k \<mapsto> n')\<rparr>) = holders w"
    using apps_node.hyps(2) by (auto simp: holders_def fun_eq_iff)
  with apps_node.IH show ?case by (rule locks_held_holders)
next
  case (apps_node_created as w k n)
  then show ?case by (fastforce simp: locks_held_def table_held_def)
next
  case (apps_start w)
  then show ?case by (simp add: locks_held_def)
next
  case (apps_connect as w c a)
  have "table_held w a" using apps_connect.hyps by (simp add: table_held_def)
  with apps_connect show ?case by (simp add: locks_held_def)
next
  case (apps_node_gone as w k)
  have "table_held (w\<lparr>w_nodes := (w_nodes w)(k := None)\<rparr>) a" if "table_held w a" for a
    using that by (auto simp: table_held_def)
  with apps_node_gone.IH show ?case by (simp add: locks_held_def)
next
  case (apps_registry as w reg)
  then show ?case by (auto simp: holders_def fun_eq_iff intro: locks_held_holders)
qed

text \<open>C30: A node is locked by one application at a time: over every sequence of requests of several applications, changes of
  nodes and of the registry (identifiers included) and disconnections, two applications that both have a node in their
  tables are the same one, and the node is held by it. The condition on the sequences is that no application locks a node
  under a new identifier before the notice of the change has erased the old identifier from its table.\<close>

theorem locked_by_one_application:
  assumes "apps_run as w" and "as c = Some a" "as d = Some b"
    and "get_locked_node (a, w) i = Some k" "get_locked_node (b, w) j = Some k"
  shows "c = d \<and> holders w k = Some c"
proof -
  have held: "locks_held as w" using assms(1) by (rule run_locks_held)
  have "holders w k = Some c'" if "as c' = Some a'" "get_locked_node (a', w) i' = Some k" for c' a' i'
    using held that
    by (fastforce simp: locks_held_def table_held_def get_locked_node_def holders_def dest!: map_of_SomeD split: option.splits if_splits)
  from this [OF assms(2,4)] this [OF assms(3,5)] show ?thesis by simp
qed

section \<open>Requests without a lock\<close>

text \<open>The request and the node of a request that needs a lock.\<close>

fun lock_target :: "request \<Rightarrow> (u32 \<times> node_id) option" where
  "lock_target (Request_SetVariables rid i m) = Some (rid, i)"
| "lock_target (RegisterEvents rid i es) = Some (rid, i)"
| "lock_target (SendEvents rid i m) = Some (rid, i)"
| "lock_target (CompileAndLoadCodeOnVM rid i language program load) = Some (rid, i)"
| "lock_target (CompileAndSave rid i language program) = Some (rid, i)"
| "lock_target (SetVMExecutionState rid i cmd) = (if cmd = Cmd_Stop then None else Some (rid, i))"
| "lock_target (SetBreakpoints rid i bps) = Some (rid, i)"
| "lock_target (ScratchpadUpdate rid (Some i) content language) = Some (rid, i)"
| "lock_target _ = None"

lemma no_entry:
  "\<forall>(j, k)\<in>set (m_locked_nodes a). j \<noteq> i \<and> \<not> in_group w i k \<Longrightarrow> get_locked_node (a, w) i = None \<and> get_group (a, w) i = None"
proof
  assume entries: "\<forall>(j, k)\<in>set (m_locked_nodes a). j \<noteq> i \<and> \<not> in_group w i k"
  then have "map_of (m_locked_nodes a) i = None" by (fastforce simp: map_of_eq_None_iff)
  then show "get_locked_node (a, w) i = None" by (simp add: get_locked_node_def)
  have "find (\<lambda>(j, k). i = j \<or> in_group w i k) (m_locked_nodes a) = None" using entries by (fastforce simp: find_None_iff)
  then show "get_group (a, w) i = None" by (simp add: get_group_def)
qed

lemma refused:
  assumes "get_locked_node s i = None" "get_group s i = None"
  shows "app_set_variables rid i m s = reply (Error_response rid unknown_node) s"
    "app_set_events_table rid i es s = reply (Error_response rid unknown_node) s"
    "app_emit_events rid i m s = reply (Error_response rid unknown_node) s"
    "app_compile_and_send_program alnum u known parses pads rid i language program load s = Inr (reply (Error_response rid unknown_node) s)"
    "app_compile_and_save alnum u parses pads rid i language program s = Inr (reply (Error_response rid unknown_node) s)"
    "cmd \<noteq> Cmd_Stop \<Longrightarrow> app_set_vm_execution_state alnum u rid i cmd s = Inr (reply (Error_response rid unknown_node) s)"
    "app_set_breakpoints rid i bps s = reply (Error_response rid unknown_node) s"
    "update_node_scratchpad rid i content language s = reply (Error_response rid unknown_node) s"
  using assms
  by (simp_all add: app_set_variables_def app_set_group_variables_def app_set_events_table_def app_emit_events_def
      app_compile_and_send_program_def app_compile_and_save_def app_set_vm_execution_state_def executing_node_def
      app_set_breakpoints_def update_node_scratchpad_def)

text \<open>C32: A request that needs a lock is refused without one. Setting variables, registering and sending events, compiling and
  loading or saving a program, setting breakpoints, updating a scratchpad and every command of the virtual machine except stop
  need a lock; when the application has locked neither the node they name nor a node of the group they name, they are
  answered with the error \<open>unknown_node\<close> and change no node, no group and no table. Renaming, stopping, upgrading,
  describing, watching, locking and pairing are allowed on nodes that are not locked and not covered.\<close>

theorem unlocked_request_refused:
  assumes "lock_target r = Some (rid, i)" and "\<forall>(j, k)\<in>set (m_locked_nodes a). j \<noteq> i \<and> \<not> in_group w i k"
  shows "handle_request x r (a, w) = Inr (write_app_message (Error_response rid unknown_node) a, w)"
proof -
  have none: "get_locked_node (a, w) i = None" "get_group (a, w) i = None" using no_entry [OF assms(2)] by simp_all
  have "handle_request x r (a, w) = Inr (reply (Error_response rid unknown_node) (a, w))"
    by (rule lock_target.elims [OF assms(1)]) (simp_all add: handle_request_def refused [OF none] split: if_splits)
  then show ?thesis by (simp add: reply_def)
qed

text \<open>The nodes a request changes.\<close>

definition same_nodes :: "nat set \<Rightarrow> session \<Rightarrow> session \<Rightarrow> bool" where
  "same_nodes ks s s' \<longleftrightarrow> (\<forall>k. k \<notin> ks \<longrightarrow> w_nodes (snd s') k = w_nodes (snd s) k)"

lemma same_nodes_simps [simp]:
  "same_nodes ks s s" "same_nodes ks s (reply msg s') = same_nodes ks s s'" "same_nodes ks s (a, call_group c w) = same_nodes ks s (a, w)"
  "k \<in> ks \<Longrightarrow> same_nodes ks s (a, on_node k f w) = same_nodes ks s (a, w)"
  by (auto simp: same_nodes_def reply_def call_group_def on_node_def)

lemma same_nodes_fst [simp]: "same_nodes ks s (a, snd s)"
  by (simp add: same_nodes_def)

lemma same_nodes_replies [simp]: "same_nodes ks s (foldl (\<lambda>s p. reply (f p) s) s' ps) = same_nodes ks s s'"
  by (induction ps arbitrary: s') simp_all

lemma same_nodes_load [simp]: "same_nodes ks s (load_group_code parses pads rid g language program s)"
  by (simp add: load_group_code_def Let_def)

lemma same_nodes_with [elim]: "with_node k f s = Inr s' \<Longrightarrow> k \<in> ks \<Longrightarrow> same_nodes ks s s'"
  by (auto simp: with_node_def elim!: bindR_InrE)



section \<open>The end of a lock\<close>




section \<open>Witnesses\<close>

definition idle_app :: "nat \<Rightarrow> app_endpoint" where
  "idle_app c = \<lparr>ae_key = c, m_queue = [], ae_written = [], ae_protocol_version = 1, m_max_out_going_packet_size = 0,
     is_machine_local = False, is_network_local = True, m_locked_nodes = [], m_watch_nodes = [], ae_deferred = [],
     ae_dongle_connections = 0, ae_reading = True, ae_stopped = False\<rparr>"

definition sample_world :: world where
  "sample_world = \<lparr>w_registry = sample_registry, w_nodes = [1 \<mapsto> Node_Status.sample_node], w_groups = (\<lambda>_. None), w_group_calls = [], w_pairing_enabled = False\<rparr>"

definition sample_surroundings :: surroundings where
  "sample_surroundings = \<lparr>sr_alnum = (\<lambda>_. True), sr_junk = 0, sr_known = [], sr_parses = (\<lambda>_. False), sr_pads = [], sr_dongle = None\<rparr>"

definition locked_node :: node_state where
  "locked_node = snd (lock 7 Node_Status.sample_node)"

definition locking_app :: app_endpoint where
  "locking_app = write_app_message (Ack 3) ((idle_app 7)\<lparr>m_locked_nodes := [([1], 1)]\<rparr>)"

definition locked_world :: world where
  "locked_world = sample_world\<lparr>w_nodes := [1 \<mapsto> locked_node]\<rparr>"


lemma sample_lock: "lock 7 Node_Status.sample_node = (True, locked_node)"
  by (simp add: locked_node_def lock_def Node_Status.sample_node_def create_node_def aseba_node_def set_status_def effect_def)

lemma sample_registered: "node_from_id sample_registry [1] = Some 1"
  by (simp add: node_from_id_def sample_views alive_def)

lemma sample_lock_request: "handle_request sample_surroundings (LockNode 3 [1]) (idle_app 7, sample_world) = Inr (locking_app, locked_world)"
  using sample_lock
  by (simp add: handle_request_def lock_node_def find_registered_def sample_world_def sample_registered idle_app_def Let_def
    reply_def locking_app_def locked_world_def on_node_def)

lemma sample_apps_run: "apps_run [8 \<mapsto> idle_app 8, 7 \<mapsto> locking_app] locked_world"
proof -
  have "apps_run (\<lambda>_. None) sample_world"
    by (rule apps_start) (auto simp: sample_world_def Node_Status.sample_node_def create_node_def aseba_node_def set_status_def effect_def split: if_splits)
  then have "apps_run [8 \<mapsto> idle_app 8] sample_world"
    using apps_connect [of "\<lambda>_. None" sample_world 8 "idle_app 8"] by (simp add: idle_app_def)
  then have "apps_run [8 \<mapsto> idle_app 8, 7 \<mapsto> idle_app 7] sample_world"
    using apps_connect [of "[8 \<mapsto> idle_app 8]" sample_world 7 "idle_app 7"] by (simp add: idle_app_def)
  then have "apps_run ([8 \<mapsto> idle_app 8, 7 \<mapsto> idle_app 7](7 \<mapsto> locking_app)) locked_world"
    by (rule apps_request [OF _ _ _ sample_lock_request]) (simp_all add: lock_under_known_id_def idle_app_def split: option.split)
  then show ?thesis by simp
qed

lemma locking_app_entry: "get_locked_node (locking_app, locked_world) [1] = Some 1"
  by (simp add: get_locked_node_def locking_app_def locked_world_def)

theorem locked_by_one_application_witness: "holders locked_world 1 = Some 7"
  using locked_by_one_application [OF sample_apps_run, of 7 locking_app 7 locking_app "[1]" 1 "[1]"] locking_app_entry by simp

theorem unlocked_request_refused_witness:
  "handle_request sample_surroundings (SetBreakpoints 4 [1] []) (idle_app 8, locked_world) =
   Inr (write_app_message (Error_response 4 unknown_node) (idle_app 8), locked_world)"
  by (rule unlocked_request_refused [where i = "[1]"]) (simp_all add: idle_app_def)



section \<open>A new identifier while a node is locked\<close>

text \<open>
  Without the condition on the runs a node can be in two tables. An application holds a node under the identifier \<open>i\<close> when the
  registry finds the node under a new identifier \<open>j\<close> (\<open>uuid_change_registers\<close>). Before the notice of the change is handled the
  application locks \<open>j\<close>, which is granted as it holds the node already, and unlocks \<open>i\<close>, which frees the node but leaves the
  entry of \<open>j\<close>. Then a second application gets the lock.
\<close>

lemma renamed_node_locked_twice:
  assumes "w_nodes w k = Some n" "m_connected_app n = ae_key a" "m_locked_nodes a = [(i, k)]"
    and "node_from_id (w_registry w) j = Some k" "j \<noteq> i" and "m_locked_nodes b = []" "ae_key b \<noteq> 0"
    and "lock_node r1 j (a, w) = (a1, w1)" "unlock_node r2 i (a1, w1) = (a2, w2)" "lock_node r3 j (b, w2) = (b3, w3)"
  shows "get_locked_node (a2, w3) j = Some k \<and> get_locked_node (b3, w3) j = Some k"
proof -
  have 1: "w1 = w" "ae_key a1 = ae_key a" "m_locked_nodes a1 = [(i, k), (j, k)]"
    using assms(1-5,8) by (auto simp: lock_node_def find_registered_def lock_def reply_def holders_same_node Let_def)
  define n' where "n' = set_status available (n\<lparr>m_connected_app := 0\<rparr>)"
  have 2: "w2 = on_node k (\<lambda>_. n') w" "m_locked_nodes a2 = [(j, k)]"
    using assms(1,2,5,9) 1 by (auto simp: unlock_node_def get_locked_node_def unlock_def reply_def Let_def n'_def AList.delete_eq)
  have n': "m_connected_app n' = 0" "m_status n' = available" by (simp_all add: n'_def set_status_def effect_def)
  have "w_nodes w2 k = Some n'" "w_registry w2 = w_registry w" using 2 assms(1) by (simp_all add: on_node_def)
  then have "w_nodes w3 k \<noteq> None" "m_locked_nodes b3 = [(j, k)]"
    using assms(4,6,7,10) n' by (auto simp: lock_node_def find_registered_def lock_def reply_def on_node_def Let_def)
  with 2 show ?thesis by (auto simp: get_locked_node_def)
qed

end
