(* ===== verification/App_Queue.thy ===== *)
theory App_Queue
  imports App_Endpoint Serial_Writer
begin

text \<open>
  The outgoing queue of the connection of an application (\<^verbatim>\<open>thymio-device-manager/app_endpoint.h\<close>, \<^verbatim>\<open>write_message\<close>, \<^verbatim>\<open>handle_write\<close>,
  \<^verbatim>\<open>handle_handshake\<close>): which messages reach the socket, and in which order.
\<close>

section \<open>Runs of the queue\<close>

definition queue_view :: "app_endpoint \<Rightarrow> app_message list \<times> app_message list \<times> u16" where
  "queue_view a = (m_queue a, ae_written a, ae_protocol_version a)"

text \<open>A state of the connection with the number of writes that are complete, the messages that were queued, and whether the
  first of them was queued before the handshake. A write completes only when one is under way.\<close>

inductive app_io :: "app_endpoint \<Rightarrow> nat \<Rightarrow> app_message list \<Rightarrow> bool \<Rightarrow> bool" where
  io_start: "queue_view a = ([], [], 0) \<Longrightarrow> app_io a 0 [] False"
| io_write: "app_io a c sent early \<Longrightarrow>
    app_io (write_app_message msg a) c (sent @ [msg]) (if sent = [] then ae_protocol_version a = 0 else early)"
| io_accept: "app_io a c sent early \<Longrightarrow> v \<noteq> 0 \<Longrightarrow> app_io (a\<lparr>ae_protocol_version := v\<rparr>) c sent early"
| io_written: "app_io a c sent early \<Longrightarrow> c < length (ae_written a) \<Longrightarrow> app_io (handle_app_write a) (Suc c) sent early"
| io_other: "app_io a c sent early \<Longrightarrow> queue_view b = queue_view a \<Longrightarrow> app_io b c sent early"

text \<open>The handshake is such a run.\<close>

lemma accepted_version:
  assumes "version_accepted hs"
  shows "(ucast (min (hs_protocolVersion hs) tdm_protocolVersion) :: u16) \<noteq> 0"
proof -
  have "1 \<le> hs_protocolVersion hs" using assms by (simp only: version_accepted_def tdm_minProtocolVersion_def de_Morgan_disj not_less)
  then have "min (hs_protocolVersion hs) tdm_protocolVersion = 1" by (simp only: tdm_protocolVersion_def min.absorb2)
  then show ?thesis by simp
qed

lemma reply_runs: "app_io (fst s) c sent early \<Longrightarrow> \<exists>sent' early'. app_io (fst (reply msg s)) c (sent @ sent') early'"
  using io_write by (fastforce simp: reply_def)

lemma handshake_runs:
  assumes "app_io (fst s) c sent early"
  shows "\<exists>sent' early'. app_io (fst (handle_handshake tdm_password service ws_port hs s)) c (sent @ sent') early'"
proof -
  let ?a0 = "(fst s)\<lparr>ae_reading := False\<rparr>"
  let ?a1 = "?a0\<lparr>ae_protocol_version := ucast (min (hs_protocolVersion hs) tdm_protocolVersion), m_max_out_going_packet_size := ucast (hs_maxMessageSize hs)\<rparr>"
  have other: "app_io a' c ss e" if "app_io a c ss e" "queue_view a' = queue_view a" for a a' ss e
    using that by (rule io_other)
  have a0: "app_io ?a0 c sent early" by (rule other [OF assms]) (simp add: queue_view_def)
  have a1: "app_io ?a1 c sent early" if "version_accepted hs"
    by (rule other [OF io_accept [OF assms accepted_version [OF that]]]) (simp add: queue_view_def)
  have answer: "\<exists>sent' early'. app_io (fst (let s2 = reply msg s1 in if ae_protocol_version (fst s2) = 0 then s2
      else let (a3, w) = send_full_node_list s2 in (a3\<lparr>ae_reading := True\<rparr>, w))) c (sent @ sent') early'"
    if run: "app_io (fst s1) c sent early" for msg s1
  proof -
    obtain sent1 e1 where s2: "app_io (fst (reply msg s1)) c (sent @ sent1) e1" using reply_runs [OF run] by blast
    obtain msg' where list: "send_full_node_list (reply msg s1) = reply msg' (reply msg s1)" by (simp add: send_full_node_list_def)
    obtain sent2 e2 where s3: "app_io (fst (reply msg' (reply msg s1))) c (sent @ sent1 @ sent2) e2"
      using reply_runs [OF s2, of msg'] by auto
    have "app_io ((fst (reply msg' (reply msg s1)))\<lparr>ae_reading := True\<rparr>) c (sent @ sent1 @ sent2) e2"
      by (rule other [OF s3]) (simp add: queue_view_def)
    then have "\<exists>sent' early'. app_io ((fst (reply msg' (reply msg s1)))\<lparr>ae_reading := True\<rparr>) c (sent @ sent') early'"
      by blast
    with s2 list show ?thesis
      by (cases "ae_protocol_version (fst (reply msg s1)) = 0") (auto simp only: Let_def case_prod_beta fst_conv refl if_True if_False list)
  qed
  show ?thesis
  proof (cases "version_accepted hs")
    case True
    then have "app_io ?a1 c (sent @ []) early" using a1 by simp
    then have refused: "\<exists>sent' early'. app_io ?a1 c (sent @ sent') early'" by blast
    have accepted: "\<exists>sent' early'. app_io (fst (let s2 = reply msg (?a1, snd s) in if ae_protocol_version (fst s2) = 0 then s2
        else let (a3, w) = send_full_node_list s2 in (a3\<lparr>ae_reading := True\<rparr>, w))) c (sent @ sent') early'" for msg
      using answer [of "(?a1, snd s)"] a1 [OF True] by simp
    show ?thesis
    proof (cases "password_accepted tdm_password hs ?a1")
      case ok: True
      show ?thesis using accepted by (simp only: handle_handshake_def Let_def True ok simp_thms if_True if_False)
    next
      case False
      show ?thesis using refused by (simp only: handle_handshake_def Let_def True False simp_thms if_True if_False fst_conv)
    qed
  next
    case False
    with a0 answer [of "(?a0, snd s)"] show ?thesis by (simp add: handle_handshake_def Let_def)
  qed
qed

section \<open>What is written\<close>

interpretation app_writer: serial_writer m_queue ae_written "\<lambda>a. ae_protocol_version a \<noteq> 0" write_app_message handle_app_write
  by unfold_locales (auto simp: write_app_message_def handle_app_write_def do_write_message_def Let_def take_Suc)

definition io_state :: "app_endpoint \<Rightarrow> nat \<Rightarrow> app_message list \<Rightarrow> bool \<Rightarrow> bool" where
  "io_state a c sent early \<longleftrightarrow>
     m_queue a = drop c sent \<and> c \<le> length sent \<and> (sent = [] \<longrightarrow> \<not> early) \<and>
     (if early then c = 0 \<and> ae_written a = []
      else ae_written a = take (Suc c) sent \<and> (sent \<noteq> [] \<longrightarrow> ae_protocol_version a \<noteq> 0))"

lemma app_io_state: "app_io a c sent early \<Longrightarrow> io_state a c sent early"
proof (induction rule: app_io.induct)
  case (io_start a)
  then show ?case by (simp add: io_state_def queue_view_def)
next
  case (io_write a c sent early msg)
  show ?case
  proof (cases "early \<or> ae_protocol_version a = 0")
    case True
    then show ?thesis
      using io_write.IH by (cases "c = length sent") (auto simp: io_state_def write_app_message_def do_write_message_def Let_def split: if_splits)
  next
    case False
    then have "ae_protocol_version a \<noteq> 0" by simp
    with False show ?thesis
      using io_write.IH app_writer.submit_busy [of a msg] app_writer.submit_idle [of a msg] app_writer.submit_open [of msg a]
      by (cases "c = length sent") (auto simp: io_state_def)
  qed
next
  case (io_accept a c sent early v)
  then show ?case by (auto simp: io_state_def)
next
  case (io_written a c sent early)
  then have state: "\<not> early" "m_queue a = drop c sent" "c < length sent" "ae_written a = take (Suc c) sent" "ae_protocol_version a \<noteq> 0"
    by (auto simp: io_state_def split: if_splits)
  then have front: "m_queue a = sent ! c # drop (Suc c) sent" by (simp add: Cons_nth_drop_Suc)
  have "take (Suc (Suc c)) sent = take (Suc c) sent @ take 1 (drop (Suc c) sent)" using take_add [of "Suc c" 1 sent] by simp
  with app_writer.completed [OF front] app_writer.complete_open [of a] state show ?case by (auto simp: io_state_def)
next
  case (io_other a c sent early b)
  then show ?case by (auto simp: io_state_def queue_view_def)
qed

text \<open>C34: When the first message to an application is queued after the handshake was accepted, messages are written one at a
  time in the order in which they were queued, each started by the end of the one before: with \<open>c\<close> writes complete, the
  first \<open>c + 1\<close> messages were passed to the socket and the queue holds all but the first \<open>c\<close>. Whenever no write is under
  way every message has been written.\<close>

theorem messages_in_order:
  assumes "app_io a c sent False"
  shows "ae_written a = take (Suc c) sent \<and> m_queue a = drop c sent \<and> (c = length (ae_written a) \<longrightarrow> ae_written a = sent)"
  using app_io_state [OF assms] by (auto simp: io_state_def)

text \<open>When the first message is queued before the handshake, as when a node appears in between, nothing is ever written, the
  answer to the handshake included.\<close>

lemma early_message_blocks:
  assumes "app_io a c sent True"
  shows "ae_written a = [] \<and> m_queue a = sent"
  using app_io_state [OF assms] by (simp add: io_state_def)

definition opened_app :: app_endpoint where
  "opened_app = \<lparr>ae_key = 7, m_queue = [], ae_written = [], ae_protocol_version = 0, m_max_out_going_packet_size = 0,
     is_machine_local = False, is_network_local = True, m_locked_nodes = [], m_watch_nodes = [], ae_deferred = [],
     ae_dongle_connections = 0, ae_reading = True, ae_stopped = False\<rparr>"

theorem messages_in_order_witness:
  "ae_written (handle_app_write (write_app_message (Ack 2) (write_app_message (Ack 1) (opened_app\<lparr>ae_protocol_version := 1\<rparr>)))) =
    [Ack 1, Ack 2]"
proof -
  let ?a = "write_app_message (Ack 2) (write_app_message (Ack 1) (opened_app\<lparr>ae_protocol_version := 1\<rparr>))"
  have start: "app_io opened_app 0 [] False" by (rule io_start) (simp add: opened_app_def queue_view_def)
  have one: "app_io (write_app_message (Ack 1) (opened_app\<lparr>ae_protocol_version := 1\<rparr>)) 0 [Ack 1] False"
    using io_write [OF io_accept [OF start, of 1], of "Ack 1"] by simp
  have two: "app_io ?a 0 [Ack 1, Ack 2] False" using io_write [OF one, of "Ack 2"] by simp
  have "0 < length (ae_written ?a)" using messages_in_order [OF two] by simp
  from messages_in_order [OF io_written [OF two this]] show ?thesis by simp
qed

end
