(* ===== verification/Endpoint_Nodes.thy ===== *)
theory Endpoint_Nodes
  imports Endpoint_Events Endpoint_Queue "HOL-Library.AList"
begin

text \<open>
  An endpoint and its nodes (\<^verbatim>\<open>thymio-device-manager/aseba_endpoint.cpp\<close>): messages that are read, nodes that appear and that fall
  silent, pings, and the upgrade of the firmware. What the endpoint asks of the device, the timers and the services is
  appended to \<open>ed_calls\<close>. Times are in milliseconds. The map of nodes is the list of its entries in the order of iteration;
  nothing depends on where a new one is put.
\<close>

section \<open>State\<close>

datatype transport = No_transport | Tcp_transport | Usb_transport | Serial_transport

datatype product = Thymio2_product | Wireless_product | Other_product

record node_info =
  ni_node :: node_state
  ni_last_seen :: nat

datatype endpoint_call =
    Read_message
  | Register_endpoint
  | Ping_timer nat
  | Health_timer nat
  | Cancel_all_ops
  | Stop_device
  | Close_device
  | Free_device
  | Unregister_expired
  | Broadcast node_id properties_map
  | Node_disconnected node_state
  | Request_firmware u16 bool
  | Acceptor_pause bool
  | Start_upgrade u16 bool
  | Upgrade_callback bool bool

record endpoint_state =
  ed_queue :: endpoint_queue
  ed_nodes :: "(u16 \<times> node_info) list"
  ed_defs :: common_definitions
  ed_type :: endpoint_type
  ed_name :: bytes
  ed_transport :: transport
  ed_product :: product
  ed_first_ping :: bool
  ed_calls :: "endpoint_call list"

definition endpoint_calls :: "endpoint_call \<Rightarrow> endpoint_state \<Rightarrow> endpoint_state" where
  "endpoint_calls c e = e\<lparr>ed_calls := ed_calls e @ [c]\<rparr>"

definition is_usb :: "endpoint_state \<Rightarrow> bool" where
  "is_usb e \<longleftrightarrow> ed_transport e \<in> {Usb_transport, Serial_transport} \<and> ed_product e = Thymio2_product"

definition is_wireless :: "endpoint_state \<Rightarrow> bool" where
  "is_wireless e \<longleftrightarrow> ed_transport e \<in> {Usb_transport, Serial_transport} \<and> ed_product e = Wireless_product"

definition is_tcp :: "endpoint_state \<Rightarrow> bool" where
  "is_tcp e \<longleftrightarrow> ed_transport e = Tcp_transport"

definition needs_health_check :: "endpoint_state \<Rightarrow> bool" where
  "needs_health_check e \<longleftrightarrow> is_tcp e \<or> is_wireless e"

definition needs_ping :: "endpoint_state \<Rightarrow> bool" where
  "needs_ping e \<longleftrightarrow> is_usb e \<or> needs_health_check e"

text \<open>What a node reads of its endpoint.\<close>

definition view_of :: "endpoint_state \<Rightarrow> endpoint_view" where
  "view_of e = \<lparr>ep_wireless = is_wireless e, ep_type = ed_type e, ep_name = ed_name e, ep_definitions = ed_defs e\<rparr>"

section \<open>Messages that are read\<close>

definition read_from_device :: "endpoint_state \<Rightarrow> endpoint_state" where
  "read_from_device e = (if ed_transport e = No_transport then e else endpoint_calls Read_message e)"

text \<open>An event of a robot is passed on to the other endpoints of the group, and then to the applications of its node.\<close>

definition event_received :: "message \<Rightarrow> endpoint_state \<Rightarrow> endpoint_state" where
  "event_received m e =
     (case (get_event (ed_defs e) (mtype m), map_of (ed_nodes e) (source m), mbody m) of
        (Some (def, _), Some ni, UserMessage data) \<Rightarrow>
          (case on_event data def of
             None \<Rightarrow> e
           | Some evs \<Rightarrow>
               let e' = endpoint_calls (Broadcast (m_uuid (ni_node ni)) evs) e
               in e'\<lparr>ed_nodes := AList.update (source m) (ni\<lparr>ni_node := on_event_received evs (ni_node ni)\<rparr>) (ed_nodes e')\<rparr>)
      | _ \<Rightarrow> e)"

definition pass_to_node :: "message \<Rightarrow> nat \<Rightarrow> node_id \<Rightarrow> endpoint_state \<Rightarrow> endpoint_state" where
  "pass_to_node m now fresh e =
     (let e' = (case map_of (ed_nodes e) (source m) of
                  None \<Rightarrow> e
                | Some ni \<Rightarrow> e\<lparr>ed_nodes :=
                    AList.update (source m) \<lparr>ni_node = on_message fresh (mbody m) (ni_node ni), ni_last_seen = now\<rparr> (ed_nodes e)\<rparr>)
      in if is_rebooting (ed_queue e') then e' else read_from_device e')"

text \<open>The protocol version of a robot that is not known yet.\<close>

definition announced_version :: "body \<Rightarrow> u16" where
  "announced_version b = (case b of NodePresent v \<Rightarrow> v | Description d \<Rightarrow> ucast (protocolVersion d) | _ \<Rightarrow> 0)"

definition handle_read :: "bool \<Rightarrow> message option \<Rightarrow> nat \<Rightarrow> node_id \<Rightarrow> node_id \<Rightarrow> endpoint_state \<Rightarrow> endpoint_state" where
  "handle_read ec msg now uuid fresh e =
     (case msg of
        None \<Rightarrow> if \<not> ec \<and> \<not> upgrading_firmware (ed_queue e) then read_from_device e else e
      | Some m \<Rightarrow>
          if ec then e
          else if mtype m < 0x8000 then pass_to_node m now fresh (event_received m e)
          else if map_of (ed_nodes e) (source m) = None \<and>
              mtype m \<in> {message_code ASEBA_MESSAGE_NODE_PRESENT, message_code ASEBA_MESSAGE_DESCRIPTION}
          then
            let node = create_node (source m) (announced_version (mbody m)) uuid (Some (view_of e));
                known = (\<lambda>n. e\<lparr>ed_nodes := AList.update (source m) \<lparr>ni_node = n, ni_last_seen = now\<rparr> (ed_nodes e)\<rparr>)
            in if mtype m = message_code ASEBA_MESSAGE_NODE_PRESENT then read_from_device (known (get_description node))
               else pass_to_node m now fresh (known node)
          else pass_to_node m now fresh e)"

section \<open>Timers\<close>

definition schedule_send_ping :: "nat \<Rightarrow> endpoint_state \<Rightarrow> endpoint_state" where
  "schedule_send_ping delay e = (if is_rebooting (ed_queue e) then e else endpoint_calls (Ping_timer delay) e)"

definition write_to_device :: "body \<Rightarrow> endpoint_state \<Rightarrow> endpoint_state" where
  "write_to_device b e =
     e\<lparr>ed_queue := write_messages [\<lparr>source = 0, mtype = message_code (class_type b), mbody = b\<rparr>] None (ed_queue e)\<rparr>"

definition on_ping_timer :: "bool \<Rightarrow> endpoint_state \<Rightarrow> endpoint_state" where
  "on_ping_timer ec e =
     (if ec \<or> upgrading_firmware (ed_queue e) then e
      else
        let e1 = write_to_device (ListNodes ASEBA_PROTOCOL_VERSION) e;
            e2 = (if ed_first_ping e1 \<and> is_usb e1
                  then (write_to_device (GetDescription ASEBA_PROTOCOL_VERSION) e1)\<lparr>ed_first_ping := False\<rparr> else e1)
        in if needs_ping e2 then schedule_send_ping 1000 e2 else e2)"

definition schedule_nodes_health_check :: "nat \<Rightarrow> endpoint_state \<Rightarrow> endpoint_state" where
  "schedule_nodes_health_check delay e =
     (if upgrading_firmware (ed_queue e) then e else endpoint_calls (Health_timer delay) e)"

definition unresponsive :: "nat \<Rightarrow> endpoint_state \<Rightarrow> node_info \<Rightarrow> bool" where
  "unresponsive now e ni \<longleftrightarrow>
     \<not> is_rebooting (ed_queue e) \<and> (if m_status (ni_node ni) = connected then 25 else 5) \<le> (now - ni_last_seen ni) div 1000"

fun check_nodes :: "nat \<Rightarrow> (u16 \<times> node_info) list \<Rightarrow> endpoint_state \<Rightarrow> endpoint_state" where
  "check_nodes now [] e = e"
| "check_nodes now ((i, ni) # rest) e =
     (if unresponsive now e ni
      then
        let e1 = endpoint_calls (Node_disconnected (set_status disconnected (ni_node ni))) e;
            e2 = e1\<lparr>ed_nodes := AList.delete i (ed_nodes e1)\<rparr>
        in check_nodes now rest (if is_wireless e2 then e2 else endpoint_calls Cancel_all_ops e2)
      else check_nodes now rest e)"

definition on_health_timer :: "nat \<Rightarrow> endpoint_state \<Rightarrow> endpoint_state" where
  "on_health_timer now e = schedule_nodes_health_check 5000 (check_nodes now (ed_nodes e) e)"

section \<open>Start, end and upgrade\<close>

definition start_endpoint :: "endpoint_state \<Rightarrow> endpoint_state" where
  "start_endpoint e =
     (let e1 = read_from_device (schedule_send_ping 200 (endpoint_calls Register_endpoint e))
      in if needs_health_check e1 then schedule_nodes_health_check 5000 e1 else e1)"

definition destroy_endpoint :: "endpoint_state \<Rightarrow> endpoint_state" where
  "destroy_endpoint e =
     (if ed_transport e = No_transport then e
      else
        let e1 = e\<lparr>ed_nodes := map (\<lambda>(i, ni). (i, ni\<lparr>ni_node := disconnect (ni_node ni)\<rparr>)) (ed_nodes e)\<rparr>
        in endpoint_calls Close_device (endpoint_calls Stop_device (endpoint_calls Unregister_expired e1)))"

definition endpoint_upgrade_firmware :: "u16 \<Rightarrow> bool \<Rightarrow> endpoint_state \<Rightarrow> bool \<times> endpoint_state" where
  "endpoint_upgrade_firmware i no_reboot e =
     (if is_wireless e then (False, e)
      else (True, endpoint_calls (Request_firmware i no_reboot) (e\<lparr>ed_queue := (ed_queue e)\<lparr>upgrading_firmware := True\<rparr>\<rparr>)))"

text \<open>The firmware has arrived; the upgrade runs in a thread of its own.\<close>

definition on_firmware_ready :: "u16 \<Rightarrow> bool \<Rightarrow> endpoint_state \<Rightarrow> endpoint_state" where
  "on_firmware_ready i no_reboot e =
     (case ed_transport e of
        Usb_transport \<Rightarrow> endpoint_calls (Start_upgrade i no_reboot) (endpoint_calls (Acceptor_pause False) e)
      | Serial_transport \<Rightarrow>
          endpoint_calls (Start_upgrade i no_reboot) (endpoint_calls Close_device (endpoint_calls (Acceptor_pause True) e))
      | _ \<Rightarrow> e)"

definition on_upgrade_progress :: "bool \<Rightarrow> bool \<Rightarrow> endpoint_state \<Rightarrow> endpoint_state" where
  "on_upgrade_progress err complete e =
     (let e1 = endpoint_calls (Upgrade_callback err complete) e
      in if err \<or> complete then endpoint_calls (Acceptor_pause False) (endpoint_calls Free_device e1) else e1)"

definition restore_firmware :: "endpoint_state \<Rightarrow> endpoint_state" where
  "restore_firmware e = (if is_usb e then snd (endpoint_upgrade_firmware 0 True e) else e)"

section \<open>Silent nodes\<close>

lemma calls_kept [simp]:
  "ed_nodes (endpoint_calls c e) = ed_nodes e" "ed_queue (endpoint_calls c e) = ed_queue e"
  "ed_transport (endpoint_calls c e) = ed_transport e" "ed_calls (endpoint_calls c e) = ed_calls e @ [c]"
  "ed_product (endpoint_calls c e) = ed_product e"
  by (simp_all add: endpoint_calls_def)

lemma check_nodes_queue [simp]: "ed_queue (check_nodes now es e) = ed_queue e"
  by (induction now es e rule: check_nodes.induct) (auto simp: Let_def)

lemma unresponsive_queue: "ed_queue e' = ed_queue e \<Longrightarrow> unresponsive now e' = unresponsive now e"
  by (simp add: unresponsive_def fun_eq_iff)

lemma check_nodes_exact:
  assumes "distinct (map fst es)"
  shows "ed_nodes (check_nodes now es e) =
      filter (\<lambda>(i, ni). \<forall>ni'. (i, ni') \<in> set es \<longrightarrow> \<not> unresponsive now e ni') (ed_nodes e) \<and>
    (\<exists>cs. ed_calls (check_nodes now es e) = ed_calls e @ cs \<and>
      filter (\<lambda>c. c \<noteq> Cancel_all_ops) cs =
        map (\<lambda>(i, ni). Node_disconnected (set_status disconnected (ni_node ni))) (filter (unresponsive now e \<circ> snd) es))"
  using assms
proof (induction es arbitrary: e)
  case Nil
  then show ?case by simp
next
  case (Cons p es)
  obtain i ni where p: "p = (i, ni)" by (cases p)
  show ?case
  proof (cases "unresponsive now e ni")
    case True
    define e1 where "e1 = (endpoint_calls (Node_disconnected (set_status disconnected (ni_node ni))) e)\<lparr>ed_nodes := AList.delete i (ed_nodes e)\<rparr>"
    define e2 where "e2 = (if is_wireless e1 then e1 else endpoint_calls Cancel_all_ops e1)"
    have e2: "ed_queue e2 = ed_queue e" "ed_nodes e2 = filter (\<lambda>q. fst q \<noteq> i) (ed_nodes e)"
      by (auto simp: e2_def e1_def AList.delete_eq intro!: filter_cong)
    obtain cs0 where cs0: "ed_calls e2 = ed_calls e @ Node_disconnected (set_status disconnected (ni_node ni)) # cs0"
        "filter (\<lambda>c. c \<noteq> Cancel_all_ops) cs0 = []"
      by (cases "is_wireless e1") (auto simp: e2_def e1_def)
    have step: "check_nodes now (p # es) e = check_nodes now es e2" using True by (simp add: p Let_def e2_def e1_def)
    have fresh: "(i, x) \<notin> set es" for x using Cons.prems by (force simp: p)
    have "distinct (map fst es)" using Cons.prems by simp
    note IH = Cons.IH [OF this, of e2, unfolded unresponsive_queue [OF e2(1)]]
    have "ed_nodes (check_nodes now (p # es) e) =
        filter (\<lambda>(j, ni). \<forall>ni'. (j, ni') \<in> set (p # es) \<longrightarrow> \<not> unresponsive now e ni') (ed_nodes e)"
      using IH True unfolding step e2(2) by (auto simp: p fresh intro!: filter_cong)
    moreover obtain cs where cs: "ed_calls (check_nodes now es e2) = ed_calls e2 @ cs"
        "filter (\<lambda>c. c \<noteq> Cancel_all_ops) cs =
          map (\<lambda>(i, ni). Node_disconnected (set_status disconnected (ni_node ni))) (filter (unresponsive now e \<circ> snd) es)"
      using IH by blast
    have "\<exists>cs. ed_calls (check_nodes now (p # es) e) = ed_calls e @ cs \<and> filter (\<lambda>c. c \<noteq> Cancel_all_ops) cs =
        map (\<lambda>(i, ni). Node_disconnected (set_status disconnected (ni_node ni))) (filter (unresponsive now e \<circ> snd) (p # es))"
      using True cs cs0 unfolding step
      by (intro exI [of _ "Node_disconnected (set_status disconnected (ni_node ni)) # cs0 @ cs"]) (simp add: p)
    ultimately show ?thesis by blast
  next
    case False
    then have step: "check_nodes now (p # es) e = check_nodes now es e" by (simp add: p)
    have fresh: "(i, x) \<notin> set es" for x using Cons.prems by (force simp: p)
    show ?thesis using Cons.IH [of e] Cons.prems False unfolding step by (auto simp: p fresh intro!: filter_cong)
  qed
qed

text \<open>A node is silent when nothing was read from it for five seconds, or for 25 seconds as long as its description is not
  known.\<close>

definition silent :: "nat \<Rightarrow> node_info \<Rightarrow> bool" where
  "silent now ni \<longleftrightarrow> ni_last_seen ni + (if m_status (ni_node ni) = connected then 25000 else 5000) \<le> now"

lemma unresponsive_silent: "\<not> is_rebooting (ed_queue e) \<Longrightarrow> unresponsive now e ni = silent now ni"
  by (auto simp: unresponsive_def silent_def)

text \<open>C37: The health check removes exactly the nodes that are silent: each is announced as disconnected, the others stay as they
  are, and the check is scheduled again.\<close>

theorem silent_nodes_removed:
  assumes "distinct (map fst (ed_nodes e))" and "\<not> is_rebooting (ed_queue e)"
  shows "ed_nodes (on_health_timer now e) = filter (\<lambda>(i, ni). \<not> silent now ni) (ed_nodes e) \<and>
    filter (\<lambda>c. c \<noteq> Cancel_all_ops) (ed_calls (on_health_timer now e)) =
      filter (\<lambda>c. c \<noteq> Cancel_all_ops) (ed_calls e) @
      map (\<lambda>(i, ni). Node_disconnected (set_status disconnected (ni_node ni))) (filter (\<lambda>(i, ni). silent now ni) (ed_nodes e)) @
      [Health_timer 5000]"
proof -
  note exact = check_nodes_exact [OF assms(1), of now e]
  have silent: "unresponsive now e = silent now" using unresponsive_silent [OF assms(2)] by (simp add: fun_eq_iff)
  have unique: "ni' = ni" if "(i, ni) \<in> set (ed_nodes e)" "(i, ni') \<in> set (ed_nodes e)" for i ni ni'
    using that assms(1) by (meson eq_key_imp_eq_value)
  have "ed_nodes (check_nodes now (ed_nodes e) e) = filter (\<lambda>(i, ni). \<not> silent now ni) (ed_nodes e)"
    using exact unique by (auto simp: silent intro!: filter_cong)
  moreover obtain cs where "ed_calls (check_nodes now (ed_nodes e) e) = ed_calls e @ cs" "filter (\<lambda>c. c \<noteq> Cancel_all_ops) cs =
      map (\<lambda>(i, ni). Node_disconnected (set_status disconnected (ni_node ni))) (filter (silent now \<circ> snd) (ed_nodes e))"
    using exact by (auto simp: silent)
  moreover have "filter (silent now \<circ> snd) (ed_nodes e) = filter (\<lambda>(i, ni). silent now ni) (ed_nodes e)"
    by (rule filter_cong) auto
  moreover have "\<not> upgrading_firmware (ed_queue e)" using assms(2) by (simp add: is_rebooting_def)
  ultimately show ?thesis by (simp add: on_health_timer_def schedule_nodes_health_check_def)
qed

section \<open>Reads\<close>

definition reads :: "endpoint_state \<Rightarrow> nat" where
  "reads e = count_list (ed_calls e) Read_message"

text \<open>Runs of an endpoint, with the number of completed reads and whether one of them failed.\<close>

inductive endpoint_run :: "endpoint_state \<Rightarrow> nat \<Rightarrow> bool \<Rightarrow> bool" where
  run_start: "ed_transport e \<noteq> No_transport \<Longrightarrow> ed_nodes e = [] \<Longrightarrow> ed_calls e = [] \<Longrightarrow> \<not> is_rebooting (ed_queue e) \<Longrightarrow>
    endpoint_run (start_endpoint e) 0 False"
| run_read: "endpoint_run e k failed \<Longrightarrow> k < reads e \<Longrightarrow> endpoint_run (handle_read ec msg now uuid fresh e) (Suc k) (failed \<or> ec)"
| run_ping: "endpoint_run e k failed \<Longrightarrow> endpoint_run (on_ping_timer ec e) k failed"
| run_health: "endpoint_run e k failed \<Longrightarrow> endpoint_run (on_health_timer now e) k failed"
| run_send: "endpoint_run e k failed \<Longrightarrow> endpoint_run (e\<lparr>ed_queue := write_messages ms cb (ed_queue e)\<rparr>) k failed"
| run_sent: "endpoint_run e k failed \<Longrightarrow> endpoint_run (e\<lparr>ed_queue := handle_write ec (ed_queue e)\<rparr>) k failed"
| run_upgrade: "endpoint_run e k failed \<Longrightarrow> endpoint_run (snd (endpoint_upgrade_firmware i b e)) k failed"
| run_restore: "endpoint_run e k failed \<Longrightarrow> endpoint_run (restore_firmware e) k failed"
| run_firmware: "endpoint_run e k failed \<Longrightarrow> endpoint_run (on_firmware_ready i b e) k failed"
| run_progress: "endpoint_run e k failed \<Longrightarrow> endpoint_run (on_upgrade_progress err complete e) k failed"

definition io_view :: "endpoint_state \<Rightarrow> bool \<times> bool \<times> transport" where
  "io_view e = (upgrading_firmware (ed_queue e), rebooting (ed_queue e), ed_transport e)"

lemma queue_flags [simp]:
  "upgrading_firmware (write_messages ms cb q) = upgrading_firmware q" "rebooting (write_messages ms cb q) = rebooting q"
  "upgrading_firmware (handle_write ec q) = upgrading_firmware q" "rebooting (handle_write ec q) = rebooting q"
  by (auto simp: write_messages_def handle_write_def write_next_def call_asio_def Let_def split: list.split option.split)

lemma reads_call [simp]: "reads (endpoint_calls c e) = reads e + (if c = Read_message then 1 else 0)"
  by (simp add: reads_def)

lemma io_call [simp]: "io_view (endpoint_calls c e) = io_view e"
  by (simp add: io_view_def)

lemma reads_nodes [simp]: "reads (e\<lparr>ed_nodes := ns\<rparr>) = reads e" "io_view (e\<lparr>ed_nodes := ns\<rparr>) = io_view e"
  by (simp_all add: reads_def io_view_def)

lemma check_nodes_io [simp]: "reads (check_nodes now es e) = reads e" "io_view (check_nodes now es e) = io_view e"
  by (induction now es e rule: check_nodes.induct) (auto simp: Let_def)

lemma event_io [simp]: "reads (event_received m e) = reads e" "io_view (event_received m e) = io_view e"
  by (auto simp: event_received_def Let_def split: option.split body.split prod.split)

lemma read_io [simp]:
  "reads (read_from_device e) = reads e + (if ed_transport e = No_transport then 0 else 1)" "io_view (read_from_device e) = io_view e"
  by (simp_all add: read_from_device_def)

lemma io_view_eqD:
  "io_view e' = io_view e \<Longrightarrow> upgrading_firmware (ed_queue e') = upgrading_firmware (ed_queue e) \<and>
    rebooting (ed_queue e') = rebooting (ed_queue e) \<and> ed_transport e' = ed_transport e"
  by (simp add: io_view_def)

lemma pass_io:
  "io_view (pass_to_node m now fresh e) = io_view e"
  "reads (pass_to_node m now fresh e) = reads e + (if is_rebooting (ed_queue e) \<or> ed_transport e = No_transport then 0 else 1)"
  by (auto simp: pass_to_node_def Let_def is_rebooting_def split: option.split)

lemma handle_read_io:
  "io_view (handle_read ec msg now uuid fresh e) = io_view e"
  "reads (handle_read ec msg now uuid fresh e) \<le> Suc (reads e)"
  "\<not> ec \<Longrightarrow> \<not> is_rebooting (ed_queue e) \<Longrightarrow> ed_transport e \<noteq> No_transport \<Longrightarrow> reads (handle_read ec msg now uuid fresh e) = Suc (reads e)"
proof -
  have ev: "is_rebooting (ed_queue (event_received m e)) = is_rebooting (ed_queue e)" "ed_transport (event_received m e) = ed_transport e" for m
    using io_view_eqD [OF event_io(2)] by (simp_all add: is_rebooting_def)
  show "io_view (handle_read ec msg now uuid fresh e) = io_view e"
    by (auto simp: handle_read_def Let_def pass_io split: option.split)
  show "reads (handle_read ec msg now uuid fresh e) \<le> Suc (reads e)"
    by (auto simp: handle_read_def Let_def pass_io split: option.split)
  show "reads (handle_read ec msg now uuid fresh e) = Suc (reads e)"
    if "\<not> ec" "\<not> is_rebooting (ed_queue e)" "ed_transport e \<noteq> No_transport"
    using that ev by (auto simp: handle_read_def Let_def pass_io is_rebooting_def split: option.split)
qed

lemma write_io [simp]: "io_view (write_to_device b e) = io_view e" "reads (write_to_device b e) = reads e"
  by (simp_all add: write_to_device_def io_view_def reads_def)

lemma timer_io [simp]:
  "io_view (schedule_send_ping d e) = io_view e" "reads (schedule_send_ping d e) = reads e"
  "io_view (schedule_nodes_health_check d e) = io_view e" "reads (schedule_nodes_health_check d e) = reads e"
  by (simp_all add: schedule_send_ping_def schedule_nodes_health_check_def)

lemma ping_io [simp]: "io_view (on_ping_timer ec e) = io_view e" "reads (on_ping_timer ec e) = reads e"
proof -
  have first: "io_view (x\<lparr>ed_first_ping := b\<rparr>) = io_view x" "reads (x\<lparr>ed_first_ping := b\<rparr>) = reads x" for x b
    by (simp_all add: io_view_def reads_def)
  show "io_view (on_ping_timer ec e) = io_view e" "reads (on_ping_timer ec e) = reads e"
    by (simp_all add: on_ping_timer_def Let_def first)
qed

lemma upgrade_io:
  "reads (snd (endpoint_upgrade_firmware i b e)) = reads e" "ed_transport (snd (endpoint_upgrade_firmware i b e)) = ed_transport e"
  "rebooting (ed_queue (snd (endpoint_upgrade_firmware i b e))) = rebooting (ed_queue e)"
  "upgrading_firmware (ed_queue e) \<Longrightarrow> upgrading_firmware (ed_queue (snd (endpoint_upgrade_firmware i b e)))"
  by (simp_all add: endpoint_upgrade_firmware_def reads_def)

lemma progress_io [simp]:
  "io_view (on_firmware_ready i b e) = io_view e" "reads (on_firmware_ready i b e) = reads e"
  "io_view (on_upgrade_progress err complete e) = io_view e" "reads (on_upgrade_progress err complete e) = reads e"
  by (simp_all add: on_firmware_ready_def on_upgrade_progress_def Let_def split: transport.split)

definition read_pending :: "endpoint_state \<Rightarrow> nat \<Rightarrow> bool \<Rightarrow> bool" where
  "read_pending e k failed \<longleftrightarrow> \<not> rebooting (ed_queue e) \<and> ed_transport e \<noteq> No_transport \<and> reads e \<le> Suc k \<and>
     (\<not> failed \<and> \<not> upgrading_firmware (ed_queue e) \<longrightarrow> reads e = Suc k)"

lemma read_pending_view:
  "read_pending e k failed \<Longrightarrow> io_view e' = io_view e \<Longrightarrow> reads e' = reads e \<Longrightarrow> read_pending e' k failed"
  by (auto simp: read_pending_def dest: io_view_eqD)

lemma run_read_pending: "endpoint_run e k failed \<Longrightarrow> read_pending e k failed"
proof (induction rule: endpoint_run.induct)
  case (run_start e)
  have "reads e = 0" using run_start by (simp add: reads_def)
  moreover have "io_view (start_endpoint e) = io_view e" by (simp add: start_endpoint_def Let_def)
  moreover have "reads (start_endpoint e) = Suc (reads e)"
    using run_start io_view_eqD [of "schedule_send_ping 200 (endpoint_calls Register_endpoint e)" e] by (simp add: start_endpoint_def Let_def)
  ultimately show ?case using run_start by (auto simp: read_pending_def is_rebooting_def dest: io_view_eqD)
next
  case (run_read e k failed ec msg now uuid fresh)
  have "\<not> rebooting (ed_queue e)" "ed_transport e \<noteq> No_transport" "reads e \<le> Suc k" using run_read.IH by (auto simp: read_pending_def)
  moreover have "io_view (handle_read ec msg now uuid fresh e) = io_view e" by (rule handle_read_io(1))
  moreover have "reads (handle_read ec msg now uuid fresh e) \<le> Suc (reads e)" by (rule handle_read_io(2))
  moreover have "reads (handle_read ec msg now uuid fresh e) = Suc (reads e)" if "\<not> ec" "\<not> upgrading_firmware (ed_queue e)"
    using that calculation(1,2) by (intro handle_read_io(3)) (auto simp: is_rebooting_def)
  ultimately show ?case
    using run_read.IH run_read.hyps(2) by (auto simp: read_pending_def dest!: io_view_eqD)
next
  case (run_ping e k failed ec)
  show ?case by (rule read_pending_view [OF run_ping.IH]) simp_all
next
  case (run_health e k failed now)
  show ?case by (rule read_pending_view [OF run_health.IH]) (simp_all add: on_health_timer_def)
next
  case (run_send e k failed ms cb)
  show ?case by (rule read_pending_view [OF run_send.IH]) (simp_all add: io_view_def reads_def)
next
  case (run_sent e k failed ec)
  show ?case by (rule read_pending_view [OF run_sent.IH]) (simp_all add: io_view_def reads_def)
next
  case (run_upgrade e k failed i b)
  then show ?case by (auto simp: read_pending_def upgrade_io)
next
  case (run_restore e k failed)
  then show ?case by (auto simp: read_pending_def restore_firmware_def upgrade_io)
next
  case (run_firmware e k failed i b)
  show ?case by (rule read_pending_view [OF run_firmware.IH]) simp_all
next
  case (run_progress e k failed err complete)
  show ?case by (rule read_pending_view [OF run_progress.IH]) simp_all
qed

text \<open>C36: An endpoint never reads twice at the same time, and as long as no read fails and its firmware is not upgraded, one read
  is always under way, whatever is read.\<close>

theorem one_read_under_way:
  assumes "endpoint_run e k failed"
  shows "reads e \<le> Suc k \<and> (\<not> failed \<and> \<not> upgrading_firmware (ed_queue e) \<longrightarrow> reads e = Suc k)"
  using run_read_pending [OF assms] by (simp add: read_pending_def)

section \<open>Witnesses\<close>

definition sample_device :: endpoint_state where
  "sample_device = \<lparr>ed_queue = \<lparr>msg_queue = [], upgrading_firmware = False, rebooting = False, out = []\<rparr>, ed_nodes = [],
     ed_defs = \<lparr>events = [], constants = []\<rparr>, ed_type = EP_thymio, ed_name = [], ed_transport = Tcp_transport,
     ed_product = Other_product, ed_first_ping = True, ed_calls = []\<rparr>"

definition present :: "u16 \<Rightarrow> message" where
  "present i = \<lparr>source = i, mtype = message_code ASEBA_MESSAGE_NODE_PRESENT, mbody = NodePresent 5\<rparr>"

theorem one_read_under_way_witness:
  "reads (handle_read False (Some (present 3)) 100 [1] [2] (start_endpoint sample_device)) = 2"
proof -
  have "endpoint_run (start_endpoint sample_device) 0 False"
    by (rule run_start) (simp_all add: sample_device_def is_rebooting_def)
  moreover have "reads (start_endpoint sample_device) = 1"
    by (simp add: start_endpoint_def Let_def sample_device_def reads_def schedule_send_ping_def schedule_nodes_health_check_def
      read_from_device_def endpoint_calls_def needs_health_check_def is_tcp_def is_rebooting_def)
  ultimately have run: "endpoint_run (handle_read False (Some (present 3)) 100 [1] [2] (start_endpoint sample_device)) (Suc 0) False"
    using run_read [of "start_endpoint sample_device" 0 False False "Some (present 3)" 100 "[1]" "[2]"] by simp
  have "io_view (handle_read False (Some (present 3)) 100 [1] [2] (start_endpoint sample_device)) = io_view sample_device"
    by (simp add: handle_read_io start_endpoint_def Let_def)
  then have "\<not> upgrading_firmware (ed_queue (handle_read False (Some (present 3)) 100 [1] [2] (start_endpoint sample_device)))"
    by (simp add: io_view_def sample_device_def)
  with one_read_under_way [OF run] show ?thesis by simp
qed

definition seen_at :: "nat \<Rightarrow> node_info" where
  "seen_at t = \<lparr>ni_node = (aseba_node 3 5 [1] None)\<lparr>m_status := available\<rparr>, ni_last_seen = t\<rparr>"

theorem silent_nodes_removed_witness:
  "ed_nodes (on_health_timer 9000 (sample_device\<lparr>ed_nodes := [(3, seen_at 1000), (4, seen_at 8000)]\<rparr>)) = [(4, seen_at 8000)] \<and>
   filter (\<lambda>c. c \<noteq> Cancel_all_ops) (ed_calls (on_health_timer 9000 (sample_device\<lparr>ed_nodes := [(3, seen_at 1000), (4, seen_at 8000)]\<rparr>))) =
     [Node_disconnected (set_status disconnected (ni_node (seen_at 1000))), Health_timer 5000]"
  using silent_nodes_removed [of "sample_device\<lparr>ed_nodes := [(3, seen_at 1000), (4, seen_at 8000)]\<rparr>" 9000]
  by (simp add: sample_device_def is_rebooting_def silent_def) (simp add: seen_at_def)

end
