(* ===== verification/Firmware_Upgrade.thy ===== *)
theory Firmware_Upgrade
  imports Wire_Frame Firmware_Correct
begin

text \<open>
  The upgrade of the firmware of a robot (\<^verbatim>\<open>thymio-device-manager/thymio2_fwupgrade_impl.cpp\<close> and
  \<^verbatim>\<open>do_upgrade_thymio2_endpoint\<close> of \<^verbatim>\<open>thymio2_fwupgrade.cpp\<close>): the pages of the firmware are sent to the bootloader from the last to the
  first, and a page that is not acknowledged is sent again. The device is a parameter: what a write, a read, a reset and
  the reopening of its port do to its state. An operation that does not return has the value \<open>None\<close>.
\<close>

section \<open>Operations\<close>

text \<open>A write gives an error and the number of bytes that were written, a read an error and the bytes; opening gives an
  error.\<close>

record 's device =
  dev_write :: "u8 list \<Rightarrow> 's \<Rightarrow> (bool \<times> nat) \<times> 's"
  dev_read :: "nat \<Rightarrow> 's \<Rightarrow> (bool \<times> u8 list) \<times> 's"
  dev_flush :: "'s \<Rightarrow> 's"
  dev_reset :: "'s \<Rightarrow> 's"
  dev_close :: "'s \<Rightarrow> 's"
  dev_open :: "'s \<Rightarrow> bool \<times> 's"

datatype upgrade_event = Upgrade_progress nat | Upgrade_complete | Upgrade_failed

definition frame :: "body \<Rightarrow> u8 list" where
  "frame b = projr (write_aseba_message \<lparr>source = 0, mtype = message_code (class_type b), mbody = b\<rparr>)"

definition send_frame :: "'s device \<Rightarrow> body \<Rightarrow> 's \<Rightarrow> bool \<times> 's" where
  "send_frame d b st = (let ((err, written), st') = dev_write d (frame b) st in (err, dev_flush d st'))"

text \<open>The error code inside an acknowledgement is only logged.\<close>

definition read_ack :: "'s device \<Rightarrow> 's \<Rightarrow> bool \<times> 's" where
  "read_ack d st =
     (let ((err, bs), st') = dev_read d 8 st
      in (err \<or> \<not> (length bs = 8 \<and> little_u16 bs 4 = message_code ASEBA_MESSAGE_BOOTLOADER_ACK), st'))"

definition get_node_id :: "'s device \<Rightarrow> 's \<Rightarrow> u16 \<times> 's" where
  "get_node_id d st =
     (let (_, st1) = send_frame d (GetDescription ASEBA_PROTOCOL_VERSION) st;
          (err, st2) = send_frame d (ListNodes ASEBA_PROTOCOL_VERSION) st1
      in if err then (0, st2)
         else
           let ((err', bs), st3) = dev_read d 64 st2
           in (if err' \<or> length bs < 6 then 0 else little_u16 bs 2, st3))"

text \<open>The chunks of a page: each has the size of the first, also when less than that is left.\<close>

partial_function (option) send_chunks :: "'s device \<Rightarrow> u8 list \<Rightarrow> nat \<Rightarrow> 's \<Rightarrow> (run_failure + bool \<times> 's) option" where
  "send_chunks d data at st =
     (if at < length data
      then
        let n = min (length data) 64
        in if length data < at + n then Some (Inl OutOfBoundsRead)
           else
             (case dev_write d (take n (drop at data)) st of
                ((err, written), st1) \<Rightarrow>
                  if err then Some (Inr (True, st1)) else send_chunks d data (at + written) (dev_flush d st1))
      else Some (Inr (False, st)))"

definition send_page :: "'s device \<Rightarrow> u16 \<Rightarrow> u32 \<Rightarrow> u8 list \<Rightarrow> 's \<Rightarrow> (run_failure + bool \<times> 's) option" where
  "send_page d dest page data st =
     (case send_chunks d data 0 (snd (send_frame d (BootloaderWritePage dest (ucast page)) st)) of
        None \<Rightarrow> None
      | Some (Inl f) \<Rightarrow> Some (Inl f)
      | Some (Inr (err, st1)) \<Rightarrow> Some (Inr (if err then (True, st1) else read_ack d st1)))"

type_synonym firmware_data = "(u32 \<times> u8 list) list"

function send_pages ::
  "'s device \<Rightarrow> firmware_data \<Rightarrow> nat \<Rightarrow> 's \<Rightarrow> upgrade_event list \<Rightarrow> (run_failure + nat \<times> 's \<times> upgrade_event list) option" where
  "send_pages d data page st evs =
     (if page < length data
      then
        let (number, content) = data ! (length data - page - 1)
        in (case send_page d 1 number content st of
              None \<Rightarrow> None
            | Some (Inl f) \<Rightarrow> Some (Inl f)
            | Some (Inr (err, st1)) \<Rightarrow>
                if err then Some (Inr (page, st1, evs)) else send_pages d data (Suc page) st1 (evs @ [Upgrade_progress page]))
      else Some (Inr (page, st, evs)))"
  by pat_completeness auto
termination
  by (relation "measure (\<lambda>(d, data, page, st, evs). length data - page)") auto

declare send_pages.simps [simp del]

text \<open>The loop over USB starts again with the page that failed, over a serial port after the port was opened again.\<close>

partial_function (option) usb_loop ::
  "'s device \<Rightarrow> firmware_data \<Rightarrow> nat \<Rightarrow> 's \<Rightarrow> upgrade_event list \<Rightarrow> (run_failure + 's \<times> upgrade_event list) option" where
  "usb_loop d data page st evs =
     (case send_pages d data page st evs of
        None \<Rightarrow> None
      | Some (Inl f) \<Rightarrow> Some (Inl f)
      | Some (Inr (page', st', evs')) \<Rightarrow>
          if page' = length data
          then Some (Inr (dev_reset d (snd (send_frame d (BootloaderReset ASEBA_DEST_INVALID) st')), evs' @ [Upgrade_complete]))
          else usb_loop d data page' st' evs')"

definition upgrade_thymio2_usb_endpoint ::
  "'s device \<Rightarrow> firmware_data \<Rightarrow> u16 \<Rightarrow> bool \<Rightarrow> 's \<Rightarrow> (run_failure + 's \<times> upgrade_event list) option" where
  "upgrade_thymio2_usb_endpoint d data i no_reboot st =
     (let st1 = (if no_reboot then st else snd (send_frame d (Reboot i) st));
          st2 = snd (dev_read d 64 (dev_reset d st1))
      in usb_loop d data 0 st2 [])"

partial_function (option) serial_loop ::
  "'s device \<Rightarrow> firmware_data \<Rightarrow> nat \<Rightarrow> 's \<Rightarrow> upgrade_event list \<Rightarrow> (run_failure + 's \<times> upgrade_event list) option" where
  "serial_loop d data page st evs =
     (case send_pages d data page st evs of
        None \<Rightarrow> None
      | Some (Inl f) \<Rightarrow> Some (Inl f)
      | Some (Inr (page', st', evs')) \<Rightarrow>
          if page' = length data
          then Some (Inr (dev_close d (dev_reset d (snd (send_frame d (BootloaderReset ASEBA_DEST_INVALID) st'))), evs' @ [Upgrade_complete]))
          else
            (case dev_open d (dev_close d st') of
               (err, st'') \<Rightarrow> if err then Some (Inr (st'', evs' @ [Upgrade_failed])) else serial_loop d data page' st'' evs'))"

definition upgrade_thymio2_serial_endpoint ::
  "'s device \<Rightarrow> firmware_data \<Rightarrow> u16 \<Rightarrow> bool \<Rightarrow> 's \<Rightarrow> (run_failure + 's \<times> upgrade_event list) option" where
  "upgrade_thymio2_serial_endpoint d data i no_reboot st =
     (let (err, st0) = dev_open d st
      in if err then Some (Inr (st0, [Upgrade_failed]))
         else
           let (i', st1) = (if i = 0 \<and> \<not> no_reboot then get_node_id d st0 else (i, st0));
               st2 = (if no_reboot then dev_reset d st1
                      else snd (dev_read d 64 (dev_reset d (snd (send_frame d (Reboot i') st1)))))
           in serial_loop d data 0 st2 [])"

text \<open>A firmware file that cannot be read is reported at once.\<close>

definition do_upgrade_thymio2_endpoint ::
  "(firmware_data \<Rightarrow> 's \<Rightarrow> (run_failure + 's \<times> upgrade_event list) option) \<Rightarrow> u8 list \<Rightarrow> 's \<Rightarrow>
    (run_failure + 's \<times> upgrade_event list) option" where
  "do_upgrade_thymio2_endpoint f firmware st =
     (case extract_pages_from_hex firmware of
        Inl e \<Rightarrow> Some (Inr (st, [Upgrade_failed]))
      | Inr pages \<Rightarrow> f pages st)"

section \<open>What is written to the device\<close>

text \<open>The device with a log of the bytes of every write.\<close>

definition logged :: "'s device \<Rightarrow> ('s \<times> u8 list list) device" where
  "logged d = \<lparr>dev_write = (\<lambda>bs (st, log). let (r, st') = dev_write d bs st in (r, (st', log @ [bs]))),
     dev_read = (\<lambda>n (st, log). let (r, st') = dev_read d n st in (r, (st', log))),
     dev_flush = (\<lambda>(st, log). (dev_flush d st, log)), dev_reset = (\<lambda>(st, log). (dev_reset d st, log)),
     dev_close = (\<lambda>(st, log). (dev_close d st, log)), dev_open = (\<lambda>(st, log). let (e, st') = dev_open d st in (e, (st', log)))\<rparr>"

text \<open>A device that takes what is written and that acknowledges pages, but for a finite number of times.\<close>

definition patient :: "'s device \<Rightarrow> ('s \<Rightarrow> nat) \<Rightarrow> bool" where
  "patient d refusals \<longleftrightarrow>
     (\<forall>bs st. fst (dev_write d bs st) = (False, length bs) \<and> refusals (snd (dev_write d bs st)) \<le> refusals st) \<and>
     (\<forall>st. refusals (dev_flush d st) \<le> refusals st) \<and>
     (\<forall>st. refusals (snd (read_ack d st)) + (if fst (read_ack d st) then 1 else 0) \<le> refusals st)"

text \<open>The writes of a page: the announcement and its chunks.\<close>

fun chunks_of :: "nat \<Rightarrow> u8 list \<Rightarrow> u8 list list" where
  "chunks_of 0 bs = []"
| "chunks_of (Suc k) bs = take 64 bs # chunks_of k (drop 64 bs)"

definition page_writes :: "u32 \<times> u8 list \<Rightarrow> u8 list list" where
  "page_writes p = frame (BootloaderWritePage 1 (ucast (fst p))) # chunks_of 32 (snd p)"

lemma logged_simps [simp]:
  "dev_write (logged d) bs (st, log) = (fst (dev_write d bs st), (snd (dev_write d bs st), log @ [bs]))"
  "dev_read (logged d) n (st, log) = (fst (dev_read d n st), (snd (dev_read d n st), log))"
  "dev_flush (logged d) (st, log) = (dev_flush d st, log)" "dev_reset (logged d) (st, log) = (dev_reset d st, log)"
  "dev_close (logged d) (st, log) = (dev_close d st, log)"
  by (simp_all add: logged_def Let_def case_prod_beta)

lemma logged_frame: "send_frame (logged d) b (st, log) = (fst (send_frame d b st), (snd (send_frame d b st), log @ [frame b]))"
  by (simp add: send_frame_def Let_def case_prod_beta)

lemma logged_ack: "read_ack (logged d) (st, log) = (fst (read_ack d st), (snd (read_ack d st), log))"
  by (simp add: read_ack_def Let_def case_prod_beta)

lemma patient_frame: "patient d r \<Longrightarrow> r (snd (send_frame d b st)) \<le> r st"
  unfolding patient_def send_frame_def Let_def case_prod_beta by (metis fst_conv le_trans snd_conv)

lemma chunks_sent:
  assumes "patient d r" and "length data = at + 64 * k" "64 \<le> length data"
  shows "\<exists>st'. r st' \<le> r st \<and>
    send_chunks (logged d) data at (st, log) = Some (Inr (False, (st', log @ chunks_of k (drop at data))))"
  using assms(2)
proof (induction k arbitrary: at st log)
  case 0
  then show ?case by (subst send_chunks.simps) auto
next
  case (Suc k)
  let ?bs = "take 64 (drop at data)" and ?st = "dev_flush d (snd (dev_write d (take 64 (drop at data)) st))"
  have written: "fst (dev_write d ?bs st) = (False, 64)" "r ?st \<le> r st"
    using assms(1) Suc.prems unfolding patient_def by (auto intro: order_trans)
  have whole: "min (length data) 64 = 64" using assms(3) by simp
  obtain st' where st': "r st' \<le> r ?st" "send_chunks (logged d) data (at + 64) (?st, log @ [?bs]) =
      Some (Inr (False, (st', (log @ [?bs]) @ chunks_of k (drop (at + 64) data))))"
    using Suc.IH [of "at + 64" ?st "log @ [?bs]"] Suc.prems by auto
  have "send_chunks (logged d) data at (st, log) = send_chunks (logged d) data (at + 64) (?st, log @ [?bs])"
    using Suc.prems written by (subst send_chunks.simps) (simp add: whole Let_def)
  with st' written(2) show ?case by (intro exI [of _ st']) (simp add: add.commute)
qed

lemma page_sent:
  assumes "patient d r" and "length (snd p) = page_size"
  shows "\<exists>st' err. send_page (logged d) 1 (fst p) (snd p) (st, log) = Some (Inr (err, (st', log @ page_writes p))) \<and>
    r st' + (if err then 1 else 0) \<le> r st"
proof -
  let ?st = "snd (send_frame d (BootloaderWritePage 1 (ucast (fst p))) st)" and ?f = "frame (BootloaderWritePage 1 (ucast (fst p)))"
  obtain st1 where st1: "r st1 \<le> r ?st"
      "send_chunks (logged d) (snd p) 0 (?st, log @ [?f]) = Some (Inr (False, (st1, (log @ [?f]) @ chunks_of 32 (snd p))))"
    using chunks_sent [OF assms(1), of "snd p" 0 32 ?st "log @ [?f]"] assms(2) by (auto simp: page_size_def)
  have "r (snd (read_ack d st1)) + (if fst (read_ack d st1) then 1 else 0) \<le> r st"
    using assms(1) st1(1) patient_frame [OF assms(1)] unfolding patient_def by (meson order_trans)
  with st1 show ?thesis
    by (simp add: send_page_def logged_frame logged_ack page_writes_def)
qed

text \<open>One pass sends pages up to the first one that is refused.\<close>

lemma pages_sent:
  assumes "patient d r" and "\<forall>p\<in>set data. length (snd p) = page_size" and "page \<le> length data"
  shows "\<exists>page' st' evs'. page \<le> page' \<and> page' \<le> length data \<and>
    send_pages (logged d) data page (st, log) evs = Some (Inr (page',
      (st', log @ concat (map page_writes (take (page' - page) (drop page (rev data)))) @
        (if page' < length data then page_writes (rev data ! page') else [])), evs')) \<and>
    r st' + (if page' < length data then 1 else 0) \<le> r st"
  using assms(3)
proof (induction "length data - page" arbitrary: page st log evs)
  case 0
  then show ?case by (subst send_pages.simps) auto
next
  case (Suc k)
  let ?p = "rev data ! page"
  have page: "page < length data" "data ! (length data - page - 1) = ?p" using Suc.hyps(2) by (auto simp: rev_nth)
  then have "length (snd ?p) = page_size" using assms(2) by (simp flip: page(2))
  from page_sent [OF assms(1) this, of st log] obtain st1 err where
    sent: "send_page (logged d) 1 (fst ?p) (snd ?p) (st, log) = Some (Inr (err, (st1, log @ page_writes ?p)))"
      "r st1 + (if err then 1 else 0) \<le> r st" by blast
  have step: "send_pages (logged d) data page (st, log) evs =
      (if err then Some (Inr (page, (st1, log @ page_writes ?p), evs))
       else send_pages (logged d) data (Suc page) (st1, log @ page_writes ?p) (evs @ [Upgrade_progress page]))"
    using page sent(1) by (subst send_pages.simps) (simp add: Let_def case_prod_beta)
  show ?case
  proof (cases err)
    case True
    with step sent page(1) show ?thesis by (intro exI [of _ page]) auto
  next
    case False
    have k: "k = length data - Suc page" and le: "Suc page \<le> length data" using Suc.hyps(2) by simp_all
    obtain page' st' evs' where rest: "Suc page \<le> page'" "page' \<le> length data"
      "send_pages (logged d) data (Suc page) (st1, log @ page_writes ?p) (evs @ [Upgrade_progress page]) = Some (Inr (page',
        (st', (log @ page_writes ?p) @ concat (map page_writes (take (page' - Suc page) (drop (Suc page) (rev data)))) @
          (if page' < length data then page_writes (rev data ! page') else [])), evs'))"
      "r st' + (if page' < length data then 1 else 0) \<le> r st1"
      using Suc.hyps(1) [OF k le, of st1 "log @ page_writes ?p" "evs @ [Upgrade_progress page]"] by blast
    have "take (page' - page) (drop page (rev data)) = ?p # take (page' - Suc page) (drop (Suc page) (rev data))"
      using rest(1) page(1) by (simp add: Cons_nth_drop_Suc [symmetric] take_Cons' Suc_diff_le)
    with rest step False sent(2) show ?thesis
      by (intro exI [of _ page'] exI [of _ st'] exI [of _ evs']) auto
  qed
qed

text \<open>The writes of a run in which each page is sent a number of times.\<close>

definition resends :: "nat list \<Rightarrow> firmware_data \<Rightarrow> u8 list list" where
  "resends ns ps = concat (map2 (\<lambda>n p. concat (replicate n (page_writes p))) ns ps)"

lemma resends_once: "m \<le> length ps \<Longrightarrow> resends (replicate m 1 @ ns) ps = concat (map page_writes (take m ps)) @ resends ns (drop m ps)"
proof (induction m arbitrary: ps)
  case (Suc m)
  then obtain p ps' where "ps = p # ps'" by (cases ps) auto
  with Suc show ?case by (simp add: resends_def)
qed simp

lemma resends_again: "resends (Suc n # ns) (p # ps) = page_writes p @ resends (n # ns) (p # ps)"
  by (simp add: resends_def)

lemma loop_completes:
  assumes "patient d r" and "\<forall>p\<in>set data. length (snd p) = page_size" and "page \<le> length data"
  shows "\<exists>st' evs' ns. usb_loop (logged d) data page (st, log) evs =
      Some (Inr ((st', log @ resends ns (drop page (rev data)) @ [frame (BootloaderReset ASEBA_DEST_INVALID)]), evs' @ [Upgrade_complete])) \<and>
    length ns = length data - page \<and> (\<forall>n\<in>set ns. 0 < n)"
  using assms(3)
proof (induction "r st" arbitrary: page st log evs rule: less_induct)
  case less
  obtain page' st1 evs1 where pass: "page \<le> page'" "page' \<le> length data"
    "send_pages (logged d) data page (st, log) evs = Some (Inr (page',
      (st1, log @ concat (map page_writes (take (page' - page) (drop page (rev data)))) @
        (if page' < length data then page_writes (rev data ! page') else [])), evs1))"
    "r st1 + (if page' < length data then 1 else 0) \<le> r st"
    using pages_sent [OF assms(1,2) less.prems, of st log evs] by blast
  let ?once = "concat (map page_writes (take (page' - page) (drop page (rev data))))"
  have enough: "page' - page \<le> length (drop page (rev data))" using pass(2) by simp
  show ?case
  proof (cases "page' = length data")
    case True
    have "resends (replicate (page' - page) 1) (drop page (rev data)) = ?once"
      using resends_once [OF enough, of "[]"] by (simp add: resends_def)
    with pass(3) True show ?thesis
      by (intro exI [of _ "dev_reset d (snd (send_frame d (BootloaderReset ASEBA_DEST_INVALID) st1))"] exI [of _ evs1]
          exI [of _ "replicate (page' - page) 1"])
        (subst usb_loop.simps, simp add: logged_frame)
  next
    case False
    then have less: "page' < length data" using pass(2) by simp
    let ?p = "rev data ! page'"
    obtain st' evs' ns where rest: "usb_loop (logged d) data page' (st1, log @ ?once @ page_writes ?p) evs1 =
        Some (Inr ((st', (log @ ?once @ page_writes ?p) @ resends ns (drop page' (rev data)) @ [frame (BootloaderReset ASEBA_DEST_INVALID)]),
          evs' @ [Upgrade_complete]))"
      "length ns = length data - page'" "\<forall>n\<in>set ns. 0 < n"
      using less.hyps [of st1 page' "log @ ?once @ page_writes ?p" evs1] pass(4) less by auto
    obtain n ns' where ns: "ns = n # ns'" using rest(2) less by (cases ns) auto
    have p: "drop page' (rev data) = ?p # drop (Suc page') (rev data)" using less by (simp add: Cons_nth_drop_Suc)
    have "resends (replicate (page' - page) 1 @ Suc n # ns') (drop page (rev data)) =
        ?once @ page_writes ?p @ resends ns (drop page' (rev data))"
      using resends_once [OF enough, of "Suc n # ns'"] pass(1) by (simp add: p ns resends_again)
    moreover have "usb_loop (logged d) data page (st, log) evs = usb_loop (logged d) data page' (st1, log @ ?once @ page_writes ?p) evs1"
      using pass(3) less by (subst usb_loop.simps) simp
    ultimately show ?thesis
      using rest less pass(1)
      by (intro exI [of _ st'] exI [of _ evs'] exI [of _ "replicate (page' - page) 1 @ Suc n # ns'"]) (auto simp: ns)
  qed
qed

lemma pages_reach_device:
  assumes "patient d refusals" and "\<forall>p\<in>set data. length (snd p) = page_size"
  shows "\<exists>st' evs ns. upgrade_thymio2_usb_endpoint (logged d) data i no_reboot (st, []) =
      Some (Inr ((st', (if no_reboot then [] else [frame (Reboot i)]) @ resends ns (rev data) @
        [frame (BootloaderReset ASEBA_DEST_INVALID)]), evs @ [Upgrade_complete])) \<and>
    length ns = length data \<and> (\<forall>n\<in>set ns. 0 < n)"
proof -
  let ?st1 = "if no_reboot then st else snd (send_frame d (Reboot i) st)"
  let ?st = "snd (dev_read d 64 (dev_reset d ?st1))" and ?log = "if no_reboot then [] else [frame (Reboot i)]"
  have "upgrade_thymio2_usb_endpoint (logged d) data i no_reboot (st, []) = usb_loop (logged d) data 0 (?st, ?log) []"
    by (simp add: upgrade_thymio2_usb_endpoint_def logged_frame Let_def)
  with loop_completes [OF assms, of 0 ?st ?log "[]"] show ?thesis by simp
qed

lemma map_set_entries: "set (map_set k v m) \<subseteq> insert (k, v) (set m)"
  by (induction k v m rule: map_set.induct) (auto split: if_splits)

lemma map_find_set: "map_find m k = Some v \<Longrightarrow> (k, v) \<in> set m"
  by (simp add: map_find_def map_of_SomeD)

lemma fill_pages_whole: "\<forall>p\<in>set pages. length (snd p) = page_size \<Longrightarrow> \<forall>p\<in>set (fill_pages at rest pages). length (snd p) = page_size"
proof (induction "at" rest pages rule: fill_pages.induct)
  case (1 "at" rest pages)
  let ?i = "word_of_nat (unat at div page_size) :: u32" and ?b = "unat at mod page_size"
  let ?n = "min (page_size - ?b) (length rest)"
  let ?pages = "map_set ?i (overwrite ?b (take ?n rest) (page_of pages ?i)) pages"
  have "length (page_of pages ?i) = page_size" using "1.prems" by (fastforce simp: page_of_def dest: map_find_set split: option.split)
  moreover have "?b < page_size" by (simp add: page_size_def)
  ultimately have "length (overwrite ?b (take ?n rest) (page_of pages ?i)) = page_size" by (simp add: overwrite_def)
  then have whole: "\<forall>p\<in>set ?pages. length (snd p) = page_size" using "1.prems" map_set_entries [of ?i _ pages] by fastforce
  show ?case
  proof (cases "?n < length rest")
    case True
    with "1.IH" [OF refl refl refl refl True whole] show ?thesis by (subst fill_pages.simps) (simp add: Let_def)
  next
    case False
    with whole show ?thesis by (subst fill_pages.simps) (simp add: Let_def)
  qed
qed

lemma extracted_pages_whole:
  assumes "extract_pages_from_hex firmware = Inr pages"
  shows "\<forall>p\<in>set pages. length (snd p) = page_size"
proof -
  have "\<forall>p\<in>set (foldl (\<lambda>pages (address, data). fill_pages address data pages) ps cs). length (snd p) = page_size"
    if "\<forall>p\<in>set ps. length (snd p) = page_size" for ps cs
    using that
  proof (induction cs arbitrary: ps)
    case (Cons c cs)
    then have "\<forall>p\<in>set (fill_pages (fst c) (snd c) ps). length (snd p) = page_size" by (intro fill_pages_whole)
    from Cons.IH [OF this] show ?case by (simp only: foldl_Cons case_prod_beta)
  qed simp
  from this [of "[]"] assms show ?thesis by (auto simp: extract_pages_from_hex_def elim!: bindR_InrE)
qed

text \<open>C35: The upgrade over USB with any firmware file that can be read ends, for every device that takes what is written and
  refuses pages a finite number of times. Then the device was sent, after the request to reboot, every page of the
  firmware whole, from the last to the first, each as often as needed and at least once, and the reset.\<close>

theorem upgrade_completes:
  assumes "patient d refusals" and "extract_pages_from_hex firmware = Inr pages"
  shows "\<exists>st' evs ns. do_upgrade_thymio2_endpoint (\<lambda>data. upgrade_thymio2_usb_endpoint (logged d) data i no_reboot) firmware (st, []) =
      Some (Inr ((st', (if no_reboot then [] else [frame (Reboot i)]) @ resends ns (rev pages) @
        [frame (BootloaderReset ASEBA_DEST_INVALID)]), evs @ [Upgrade_complete])) \<and>
    length ns = length pages \<and> (\<forall>n\<in>set ns. 0 < n)"
  using pages_reach_device [OF assms(1) extracted_pages_whole [OF assms(2)], of i no_reboot st] assms(2)
  by (simp add: do_upgrade_thymio2_endpoint_def)

text \<open>A device that takes fewer bytes of each chunk than it is given, but some, makes the upgrade read past the end of
  the page.\<close>

theorem short_writes_overread:
  assumes "\<And>bs st. \<exists>st'. dev_write d bs st = ((False, n), st')" and "0 < n" "n < 64" and "64 \<le> length data"
  shows "send_chunks d data 0 st = Some (Inl OutOfBoundsRead)"
proof -
  have whole: "min (length data) 64 = 64" using assms(4) by simp
  have "send_chunks d data at st = Some (Inl OutOfBoundsRead)" if "at < length data" for at
    using that
  proof (induction "length data - at" arbitrary: at st rule: less_induct)
    case less
    show ?case
    proof (cases "length data < at + 64")
      case True
      with less.prems show ?thesis by (subst send_chunks.simps) (simp add: whole Let_def)
    next
      case False
      obtain st' where st': "dev_write d (take 64 (drop at data)) st = ((False, n), st')" using assms(1) by blast
      have "send_chunks d data at st = send_chunks d data (at + n) (dev_flush d st')"
        using False less.prems st' by (subst send_chunks.simps) (simp add: whole Let_def)
      with False assms(2,3) show ?thesis using less.hyps [of "at + n" "dev_flush d st'"] by simp
    qed
  qed
  moreover have "0 < length data" using assms(4) by linarith
  ultimately show ?thesis by blast
qed

text \<open>The error code of an acknowledgement is not looked at.\<close>

lemma failed_page_accepted:
  assumes "dev_read d 8 st = ((False, bs), st')" "length bs = 8" "little_u16 bs 4 = message_code ASEBA_MESSAGE_BOOTLOADER_ACK"
  shows "read_ack d st = (False, st')"
  using assms by (simp add: read_ack_def)

section \<open>Frames and witnesses\<close>

text \<open>The frames that the upgrade sends have no part that can fail.\<close>

lemma frames_written:
  "write_aseba_message \<lparr>source = 0, mtype = message_code (class_type (Reboot i)), mbody = Reboot i\<rparr> = Inr (frame (Reboot i))"
  "write_aseba_message \<lparr>source = 0, mtype = message_code (class_type (BootloaderReset i)), mbody = BootloaderReset i\<rparr> =
    Inr (frame (BootloaderReset i))"
  "write_aseba_message \<lparr>source = 0, mtype = message_code (class_type (BootloaderWritePage i p)), mbody = BootloaderWritePage i p\<rparr> =
    Inr (frame (BootloaderWritePage i p))"
  by (simp_all add: frame_def write_aseba_message_def ser_CmdMessage_def ser_BootloaderWritePage_def add_u16_def)

text \<open>A device that refuses two pages.\<close>

definition ack_frame :: "u8 list" where
  "ack_frame = [2, 0, 1, 0, 0x06, 0x80, 0, 0]"

definition sample_bootloader :: "nat device" where
  "sample_bootloader = \<lparr>dev_write = (\<lambda>bs k. ((False, length bs), k)),
     dev_read = (\<lambda>n k. if k = 0 then ((False, ack_frame), 0) else ((True, []), k - 1)),
     dev_flush = id, dev_reset = id, dev_close = id, dev_open = (\<lambda>k. (False, k))\<rparr>"

lemma ack_frame_read: "length ack_frame = 8" "little_u16 ack_frame 4 = 0x8006"
  by (simp_all add: ack_frame_def little_u16_def)

lemma sample_patient: "patient sample_bootloader id"
  by (simp add: patient_def sample_bootloader_def read_ack_def ack_frame_read)

theorem upgrade_completes_witness:
  "\<exists>pages st' evs ns. extract_pages_from_hex (file_text [Data_line 16 [1], Data_line 15 [2]]) = Inr pages \<and>
    do_upgrade_thymio2_endpoint (\<lambda>data. upgrade_thymio2_usb_endpoint (logged sample_bootloader) data 5 False)
      (file_text [Data_line 16 [1], Data_line 15 [2]]) (2, []) =
      Some (Inr ((st', [frame (Reboot 5)] @ resends ns (rev pages) @ [frame (BootloaderReset ASEBA_DEST_INVALID)]), evs @ [Upgrade_complete])) \<and>
    length ns = length pages \<and> (\<forall>n\<in>set ns. 0 < n)"
proof -
  obtain pages where "extract_pages_from_hex (file_text [Data_line 16 [1], Data_line 15 [2]]) = Inr pages"
    using head_record_misplaced by blast
  with upgrade_completes [OF sample_patient this, of 5 False 2] show ?thesis by simp
qed

end
