(* ===== verification/Firmware_Service.thy ===== *)
theory Firmware_Service
  imports Aseba_Node "HOL-Library.AList" "HOL-Library.Multiset"
begin

text \<open>
  The service that downloads firmware (\<^verbatim>\<open>thymio-device-manager/fw_update_service.cpp\<close>). Promises are numbers; \<open>fs_answers\<close> holds the
  promises that were answered, with the firmware, or with \<open>None\<close> when the promise was destroyed without a value, which its future
  reports as an exception. The requests that the HTTP client was given and that are under way are \<open>fs_requests\<close>. The manifest of
  a firmware is what the XML reader finds in it: its version and its address. A node is given by its number, its type
  and its version.
\<close>

section \<open>Operations\<close>

datatype http_request = Http_info | Http_data node_type bytes

record fw_service =
  fs_downloading :: "node_type list"
  fs_versions :: "(node_type \<times> int) list"
  fs_urls :: "(node_type \<times> bytes) list"
  fs_data :: "(node_type \<times> bytes) list"
  fs_waiting :: "(node_type \<times> nat list) list"
  fs_requests :: "http_request list"
  fs_answers :: "(nat \<times> bytes option) list"
  fs_posted :: "(nat \<times> int) list"

type_synonym known_nodes = "(nat \<times> node_type \<times> int) list"

definition base_type :: "node_type \<Rightarrow> node_type" where
  "base_type t = (if t = Thymio2Wireless then Thymio2 else t)"

definition waiting_for :: "node_type \<Rightarrow> fw_service \<Rightarrow> nat list" where
  "waiting_for t s = (case map_of (fs_waiting s) t of None \<Rightarrow> [] | Some ps \<Rightarrow> ps)"

definition download_firmare_data :: "node_type \<Rightarrow> fw_service \<Rightarrow> fw_service" where
  "download_firmare_data t s =
     (case map_of (fs_urls s) t of None \<Rightarrow> s | Some url \<Rightarrow> s\<lparr>fs_requests := fs_requests s @ [Http_data t url]\<rparr>)"

definition download_thymio_2_firmware :: "fw_service \<Rightarrow> fw_service" where
  "download_thymio_2_firmware s =
     (if Thymio2 \<in> set (fs_downloading s) then s
      else s\<lparr>fs_downloading := Thymio2 # fs_downloading s, fs_requests := fs_requests s @ [Http_info]\<rparr>)"

definition download_firmare_info :: "node_type \<Rightarrow> fw_service \<Rightarrow> fw_service" where
  "download_firmare_info t s = (if t = Thymio2 then download_thymio_2_firmware s else s)"

definition update_nodes_versions :: "known_nodes \<Rightarrow> node_type \<Rightarrow> fw_service \<Rightarrow> fw_service" where
  "update_nodes_versions nodes t s =
     (case map_of (fs_versions s) t of
        None \<Rightarrow> s
      | Some v \<Rightarrow>
          let s' = s\<lparr>fs_posted := fs_posted s @ map (\<lambda>(k, _). (k, v)) (filter (\<lambda>(k, ty, fw). base_type ty = t \<and> fw \<noteq> v) nodes)\<rparr>
          in if waiting_for t s' \<noteq> [] then download_firmare_data t s' else s')"

definition service_node_changed :: "known_nodes \<Rightarrow> node_type \<Rightarrow> status \<Rightarrow> fw_service \<Rightarrow> fw_service" where
  "service_node_changed nodes ty st s =
     (if st \<noteq> available then s
      else if map_of (fs_versions s) (base_type ty) \<noteq> None then update_nodes_versions nodes (base_type ty) s
      else download_firmare_info (base_type ty) s)"

text \<open>The answer to a request for the manifest.\<close>

definition on_info :: "known_nodes \<Rightarrow> (int \<times> bytes) option \<Rightarrow> fw_service \<Rightarrow> fw_service" where
  "on_info nodes manifest s =
     (let s1 = s\<lparr>fs_downloading := filter (\<lambda>t. t \<noteq> Thymio2) (fs_downloading s)\<rparr>
      in case manifest of
           None \<Rightarrow> s1
         | Some (v, url) \<Rightarrow>
             if v = 0 then s1
             else update_nodes_versions nodes Thymio2
               (s1\<lparr>fs_versions := AList.update Thymio2 v (fs_versions s1), fs_urls := AList.update Thymio2 url (fs_urls s1)\<rparr>))"

text \<open>The answer to a request for firmware; the promises of every type are dropped then.\<close>

definition on_data :: "node_type \<Rightarrow> bytes option \<Rightarrow> fw_service \<Rightarrow> fw_service" where
  "on_data t body s =
     (case body of
        None \<Rightarrow> s
      | Some d \<Rightarrow>
          let kept = (case map_of (fs_data s) t of None \<Rightarrow> d | Some d' \<Rightarrow> d');
              others = concat (map snd (filter (\<lambda>(t', ps). t' \<noteq> t) (fs_waiting s)))
          in s\<lparr>fs_data := AList.update t kept (fs_data s),
               fs_answers := fs_answers s @ map (\<lambda>p. (p, Some kept)) (waiting_for t s) @ map (\<lambda>p. (p, None)) others,
               fs_waiting := []\<rparr>)"

definition firmware_data :: "node_type \<Rightarrow> nat \<Rightarrow> fw_service \<Rightarrow> fw_service" where
  "firmware_data ty p s =
     (let t = base_type ty
      in case map_of (fs_data s) t of
           Some d \<Rightarrow> s\<lparr>fs_answers := fs_answers s @ [(p, Some d)]\<rparr>
         | None \<Rightarrow>
             (case map_of (fs_urls s) t of
                None \<Rightarrow> let s' = download_firmare_info t s in s'\<lparr>fs_answers := fs_answers s' @ [(p, None)]\<rparr>
              | Some url \<Rightarrow>
                  let s' = s\<lparr>fs_waiting := AList.update t (waiting_for t s @ [p]) (fs_waiting s)\<rparr>
                  in if length (waiting_for t s') = 1 then download_firmare_data t s' else s'))"

section \<open>Runs\<close>

text \<open>Steps of the service. An answer ends a request that is under way; an error of the connection ends it without an answer,
  and only a line of the log tells of it.\<close>

inductive service_step :: "fw_service \<Rightarrow> fw_service \<Rightarrow> bool" where
  step_node: "service_step s (service_node_changed nodes ty st s)"
| step_info: "fs_requests s = as @ Http_info # bs \<Longrightarrow> service_step s (on_info nodes manifest (s\<lparr>fs_requests := as @ bs\<rparr>))"
| step_data: "fs_requests s = as @ Http_data t url # bs \<Longrightarrow> service_step s (on_data t body (s\<lparr>fs_requests := as @ bs\<rparr>))"
| step_error: "fs_requests s = as @ r # bs \<Longrightarrow> service_step s (s\<lparr>fs_requests := as @ bs\<rparr>)"
| step_request: "p \<notin> fst ` set (fs_answers s) \<Longrightarrow> p \<notin> set (concat (map snd (fs_waiting s))) \<Longrightarrow> service_step s (firmware_data ty p s)"

definition idle_service :: fw_service where
  "idle_service = \<lparr>fs_downloading = [], fs_versions = [], fs_urls = [], fs_data = [], fs_waiting = [], fs_requests = [],
     fs_answers = [], fs_posted = []\<rparr>"

section \<open>Answers\<close>

definition waiting_all :: "fw_service \<Rightarrow> nat list" where
  "waiting_all s = concat (map snd (fs_waiting s))"

text \<open>A promise is answered at most once, and only promises for a type with a known address wait.\<close>

definition answered_once :: "fw_service \<Rightarrow> bool" where
  "answered_once s \<longleftrightarrow> distinct (map fst (fs_answers s) @ waiting_all s) \<and> distinct (map fst (fs_waiting s)) \<and>
     (\<forall>t\<in>fst ` set (fs_waiting s). map_of (fs_urls s) t \<noteq> None)"

lemma waiting_split:
  "distinct (map fst w) \<Longrightarrow> mset (concat (map snd w)) =
    mset (case map_of w t of None \<Rightarrow> [] | Some ps \<Rightarrow> ps) + mset (concat (map snd (filter (\<lambda>(t', ps). t' \<noteq> t) w)))"
proof (induction w)
  case (Cons e w)
  obtain t' ps where e: "e = (t', ps)" by (cases e)
  have "filter (\<lambda>(t', ps). t' \<noteq> t) w = w" if "t' = t" using Cons.prems that by (force simp: e intro!: filter_True)
  moreover have "map_of w t = None" if "t' = t" using Cons.prems that by (simp add: e map_of_eq_None_iff)
  ultimately show ?case using Cons by (auto simp: e)
qed simp

lemma waiting_add:
  "distinct (map fst w) \<Longrightarrow>
   mset (concat (map snd (AList.update t ((case map_of w t of None \<Rightarrow> [] | Some ps \<Rightarrow> ps) @ [p]) w))) = mset (concat (map snd w)) + {#p#}"
  by (induction w) (auto simp: map_of_eq_None_iff split: option.splits)

lemma distinct_mset_eq: "mset xs = mset ys \<Longrightarrow> distinct xs = distinct ys"
  by (metis mset_eq_imp_distinct_iff)

definition answer_view :: "fw_service \<Rightarrow> (nat \<times> bytes option) list \<times> (node_type \<times> nat list) list \<times> (node_type \<times> bytes) list" where
  "answer_view s = (fs_answers s, fs_waiting s, fs_urls s)"

lemma answered_once_view: "answer_view s' = answer_view s \<Longrightarrow> answered_once s \<Longrightarrow> answered_once s'"
  by (simp add: answer_view_def answered_once_def waiting_all_def)

lemma view_kept [simp]:
  "answer_view (download_firmare_data t s) = answer_view s" "answer_view (download_firmare_info t s) = answer_view s"
  "answer_view (update_nodes_versions nodes t s) = answer_view s" "answer_view (s\<lparr>fs_requests := rs\<rparr>) = answer_view s"
  by (auto simp: answer_view_def download_firmare_data_def download_firmare_info_def download_thymio_2_firmware_def
    update_nodes_versions_def Let_def split: option.split)

lemma firmware_data_answered_once:
  assumes "answered_once s" and "p \<notin> fst ` set (fs_answers s)" "p \<notin> set (concat (map snd (fs_waiting s)))"
  shows "answered_once (firmware_data ty p s)"
proof -
  let ?t = "base_type ty"
  have now: "answered_once (s'\<lparr>fs_answers := fs_answers s' @ [(p, d)]\<rparr>)" if "answer_view s' = answer_view s" for s' d
    using assms that by (auto simp: answered_once_def waiting_all_def answer_view_def)
  let ?s = "s\<lparr>fs_waiting := AList.update ?t (waiting_for ?t s @ [p]) (fs_waiting s)\<rparr>"
  have later: "answered_once ?s" if "map_of (fs_urls s) ?t \<noteq> None"
  proof -
    have "mset (map fst (fs_answers ?s) @ waiting_all ?s) = mset (p # map fst (fs_answers s) @ waiting_all s)"
      using waiting_add [of "fs_waiting s" ?t p] assms(1) by (simp add: waiting_all_def waiting_for_def answered_once_def)
    moreover have "distinct (p # map fst (fs_answers s) @ waiting_all s)"
      using assms by (auto simp: answered_once_def waiting_all_def)
    ultimately have "distinct (map fst (fs_answers ?s) @ waiting_all ?s)" using distinct_mset_eq by blast
    then show ?thesis
      using assms(1) that by (auto simp: answered_once_def distinct_update dom_update)
  qed
  show ?thesis
    using now [of s] now [of "download_firmare_info ?t s"] later answered_once_view [of "download_firmare_data ?t ?s" ?s]
    by (auto simp: firmware_data_def Let_def split: option.split)
qed

lemma firsts: "map fst (map (\<lambda>p. (p, c)) ps) = ps"
  by (induction ps) simp_all

lemma on_data_answered_once:
  assumes "answered_once s"
  shows "answered_once (on_data t body s)"
proof (cases body)
  case (Some d)
  let ?others = "concat (map snd (filter (\<lambda>(t', ps). t' \<noteq> t) (fs_waiting s)))"
  have "mset (map fst (fs_answers s) @ waiting_for t s @ ?others) = mset (map fst (fs_answers s) @ waiting_all s)"
    using waiting_split [of "fs_waiting s" t] assms by (simp add: answered_once_def waiting_all_def waiting_for_def)
  then have "distinct (map fst (fs_answers s) @ waiting_for t s @ ?others)"
    using assms distinct_mset_eq by (metis answered_once_def)
  with Some show ?thesis by (simp add: on_data_def Let_def answered_once_def waiting_all_def firsts del: map_map)
qed (use assms in \<open>simp add: on_data_def\<close>)

lemma on_info_answered_once:
  assumes "answered_once s"
  shows "answered_once (on_info nodes manifest s)"
proof -
  let ?s1 = "s\<lparr>fs_downloading := filter (\<lambda>t. t \<noteq> Thymio2) (fs_downloading s)\<rparr>"
  have s1: "answered_once ?s1" by (rule answered_once_view [OF _ assms]) (simp add: answer_view_def)
  have "answered_once (?s1\<lparr>fs_versions := AList.update Thymio2 v (fs_versions ?s1), fs_urls := AList.update Thymio2 url (fs_urls ?s1)\<rparr>)" for v url
    using s1 by (auto simp: answered_once_def waiting_all_def update_conv')
  then have "answered_once (update_nodes_versions nodes Thymio2
      (?s1\<lparr>fs_versions := AList.update Thymio2 v (fs_versions ?s1), fs_urls := AList.update Thymio2 url (fs_urls ?s1)\<rparr>))" for v url
    by (rule answered_once_view [rotated]) simp
  with s1 show ?thesis by (auto simp: on_info_def Let_def split: option.split prod.split)
qed

lemma step_answered_once: "service_step s s' \<Longrightarrow> answered_once s \<Longrightarrow> answered_once s'"
proof (induction rule: service_step.induct)
  case (step_node s nodes ty st)
  then show ?case by (elim answered_once_view [rotated]) (simp add: service_node_changed_def)
next
  case (step_info s as bs nodes manifest)
  then show ?case by (intro on_info_answered_once) (erule answered_once_view [rotated], simp)
next
  case (step_data s as t url bs body)
  then show ?case by (intro on_data_answered_once) (erule answered_once_view [rotated], simp)
next
  case (step_error s as r bs)
  then show ?case by (elim answered_once_view [rotated]) simp
next
  case (step_request p s ty)
  then show ?case by (intro firmware_data_answered_once)
qed

text \<open>C38: In every run of the service each request for firmware is answered at most once, and a request still waits or was
  answered; when firmware arrives, all the requests that wait for it are answered with it.\<close>

theorem requests_answered_once:
  assumes "service_step\<^sup>*\<^sup>* idle_service s"
  shows "distinct (map fst (fs_answers s) @ waiting_all s) \<and>
    (p \<in> set (waiting_for t s) \<longrightarrow> map_of (fs_data s) t = None \<longrightarrow>
       map_of (fs_answers (on_data t (Some d) s)) p = Some (Some d) \<and> waiting_all (on_data t (Some d) s) = [])"
proof -
  have once: "answered_once s"
    using assms by (induction rule: rtranclp_induct) (auto simp: step_answered_once, simp add: answered_once_def idle_service_def waiting_all_def)
  have "map_of (fs_answers (on_data t (Some d) s)) p = Some (Some d) \<and> waiting_all (on_data t (Some d) s) = []"
    if "p \<in> set (waiting_for t s)" "map_of (fs_data s) t = None"
  proof -
    have "distinct (map fst (fs_answers (on_data t (Some d) s)))"
      using on_data_answered_once [OF once, of t "Some d"] by (simp add: answered_once_def)
    moreover have "(p, Some d) \<in> set (fs_answers (on_data t (Some d) s))" using that by (simp add: on_data_def Let_def)
    ultimately have "map_of (fs_answers (on_data t (Some d) s)) p = Some (Some d)" by (rule map_of_is_SomeI)
    then show ?thesis by (simp add: on_data_def Let_def waiting_all_def)
  qed
  with once show ?thesis by (simp add: answered_once_def)
qed

section \<open>Errors of the connection\<close>

text \<open>After an error of the connection the manifest counts as being downloaded.\<close>

definition cut_off :: "fw_service \<Rightarrow> bool" where
  "cut_off s \<longleftrightarrow> Thymio2 \<in> set (fs_downloading s) \<and> Http_info \<notin> set (fs_requests s) \<and> map_of (fs_versions s) Thymio2 = None \<and>
     fs_urls s = [] \<and> fs_data s = [] \<and> fs_requests s = []"

lemma cut_off_info: "cut_off s \<Longrightarrow> download_firmare_info t s = s"
  by (simp add: cut_off_def download_firmare_info_def download_thymio_2_firmware_def)

lemma cut_off_update: "cut_off s \<Longrightarrow> cut_off (update_nodes_versions nodes t s)"
  by (auto simp: cut_off_def update_nodes_versions_def download_firmare_data_def Let_def split: option.split)

lemma cut_off_request: "cut_off s \<Longrightarrow> firmware_data ty p s = s\<lparr>fs_answers := fs_answers s @ [(p, None)]\<rparr>"
  using cut_off_info [of s] by (auto simp: firmware_data_def Let_def cut_off_def)

lemma cut_off_step: "service_step s s' \<Longrightarrow> cut_off s \<Longrightarrow> cut_off s'"
proof (induction rule: service_step.induct)
  case (step_node s nodes ty st)
  then show ?case using cut_off_update cut_off_info by (simp add: service_node_changed_def)
next
  case (step_request p s ty)
  then show ?case using cut_off_request [of s ty p] by (simp add: cut_off_def)
qed (auto simp: cut_off_def)

text \<open>Until a manifest has arrived nothing is known and at most the manifest is asked for; afterwards it is not asked for again.\<close>

definition asks_once :: "fw_service \<Rightarrow> bool" where
  "asks_once s \<longleftrightarrow>
     (if map_of (fs_versions s) Thymio2 = None
      then fs_urls s = [] \<and> fs_data s = [] \<and> (fs_requests s = [] \<or> fs_requests s = [Http_info] \<and> Thymio2 \<in> set (fs_downloading s))
      else Http_info \<notin> set (fs_requests s) \<and> map_of (fs_urls s) Thymio2 \<noteq> None)"

lemma asks_once_download:
  "asks_once s \<Longrightarrow> asks_once (download_firmare_data t s)" "asks_once s \<Longrightarrow> asks_once (update_nodes_versions nodes t s)"
proof -
  show data: "asks_once (download_firmare_data t s)" if "asks_once s" for s
    using that by (auto simp: asks_once_def download_firmare_data_def split: option.split if_splits)
  have "asks_once (s\<lparr>fs_posted := ps\<rparr>)" if "asks_once s" for ps using that by (simp add: asks_once_def)
  then show "asks_once (update_nodes_versions nodes t s)" if "asks_once s"
    using that data by (simp add: update_nodes_versions_def Let_def split: option.split)
qed

lemma asks_once_info: "asks_once s \<Longrightarrow> t = Thymio2 \<longrightarrow> map_of (fs_versions s) Thymio2 = None \<Longrightarrow> asks_once (download_firmare_info t s)"
  by (auto simp: asks_once_def download_firmare_info_def download_thymio_2_firmware_def)

lemma asks_once_request:
  assumes "asks_once s"
  shows "asks_once (firmware_data ty p s)"
proof -
  have kept: "asks_once (s'\<lparr>fs_answers := as\<rparr>) = asks_once s'" "asks_once (s'\<lparr>fs_waiting := ws\<rparr>) = asks_once s'" for s' as ws
    by (simp_all add: asks_once_def)
  have "map_of (fs_versions s) Thymio2 = None" if "map_of (fs_urls s) Thymio2 = None" using assms that by (simp add: asks_once_def split: if_splits)
  then have "asks_once (download_firmare_info (base_type ty) s)" if "map_of (fs_urls s) (base_type ty) = None"
    using assms that by (intro asks_once_info) auto
  with assms show ?thesis
    by (auto simp: firmware_data_def Let_def kept intro: asks_once_download split: option.split)
qed

lemma asks_once_step: "service_step s s' \<Longrightarrow> asks_once s \<Longrightarrow> asks_once s'"
proof (induction rule: service_step.induct)
  case (step_node s nodes ty st)
  then have "asks_once (download_firmare_info (base_type ty) s)" if "map_of (fs_versions s) (base_type ty) = None"
    using that by (intro asks_once_info) auto
  with step_node show ?case using asks_once_download(2) by (auto simp: service_node_changed_def)
next
  case (step_info s as bs nodes manifest)
  then have plain: "map_of (fs_versions s) Thymio2 = None" "as = []" "bs = []" "fs_urls s = []" "fs_data s = []"
    by (auto simp: asks_once_def append_eq_Cons_conv split: if_splits)
  let ?s1 = "s\<lparr>fs_requests := as @ bs\<rparr>\<lparr>fs_downloading := filter (\<lambda>t. t \<noteq> Thymio2) (fs_downloading s)\<rparr>"
  have "asks_once ?s1" "asks_once (?s1\<lparr>fs_versions := AList.update Thymio2 v (fs_versions ?s1), fs_urls := AList.update Thymio2 url (fs_urls ?s1)\<rparr>)"
    for v url using plain by (simp_all add: asks_once_def update_conv')
  then show ?case by (auto simp: on_info_def Let_def dest: asks_once_download(2) split: option.split)
next
  case (step_data s as t url bs body)
  then have "map_of (fs_versions s) Thymio2 \<noteq> None" by (auto simp: asks_once_def append_eq_Cons_conv split: if_splits)
  with step_data show ?case by (auto simp: on_data_def Let_def asks_once_def split: option.split)
next
  case (step_error s as r bs)
  then show ?case by (auto simp: asks_once_def append_eq_Cons_conv split: if_splits)
next
  case (step_request p s ty)
  then show ?case by (intro asks_once_request)
qed

lemma reachable_asks_once: "service_step\<^sup>*\<^sup>* idle_service s \<Longrightarrow> asks_once s"
  by (induction rule: rtranclp_induct) (auto intro: asks_once_step, simp add: asks_once_def idle_service_def)

text \<open>C39: An error of the connection during the download of the manifest is final. In every reachable state in which the
  manifest is being downloaded, when that download ends with an error, then whatever happens afterwards nothing is
  downloaded any more, the manifest included, and every later request for firmware is answered with a broken promise.\<close>

theorem connection_error_final:
  assumes "service_step\<^sup>*\<^sup>* idle_service s" and "fs_requests s = as @ Http_info # bs"
    and "service_step\<^sup>*\<^sup>* (s\<lparr>fs_requests := as @ bs\<rparr>) s'"
  shows "fs_requests s' = [] \<and> firmware_data ty p s' = s'\<lparr>fs_answers := fs_answers s' @ [(p, None)]\<rparr>"
proof -
  have "cut_off (s\<lparr>fs_requests := as @ bs\<rparr>)"
    using reachable_asks_once [OF assms(1)] assms(2)
    by (auto simp: asks_once_def cut_off_def append_eq_Cons_conv split: if_splits)
  with assms(3) have "cut_off s'" by (induction rule: rtranclp_induct) (auto intro: cut_off_step)
  then show ?thesis using cut_off_request by (simp add: cut_off_def)
qed

text \<open>A request before the manifest has arrived is broken at once, although the firmware may arrive later.\<close>

lemma early_request_broken:
  "map_of (fs_urls s) (base_type ty) = None \<Longrightarrow> map_of (fs_data s) (base_type ty) = None \<Longrightarrow>
   (p, None) \<in> set (fs_answers (firmware_data ty p s))"
  by (simp add: firmware_data_def Let_def)

section \<open>Witnesses\<close>

definition informed_service :: fw_service where
  "informed_service = idle_service\<lparr>fs_versions := [(Thymio2, 13)], fs_urls := [(Thymio2, [1])]\<rparr>"

lemma asking_run: "service_step\<^sup>*\<^sup>* idle_service (idle_service\<lparr>fs_downloading := [Thymio2], fs_requests := [Http_info]\<rparr>)"
proof -
  have "service_step idle_service (service_node_changed [] Thymio2 available idle_service)" by (rule step_node)
  also have "service_node_changed [] Thymio2 available idle_service = idle_service\<lparr>fs_downloading := [Thymio2], fs_requests := [Http_info]\<rparr>"
    by (simp add: service_node_changed_def idle_service_def base_type_def download_firmare_info_def download_thymio_2_firmware_def)
  finally show ?thesis by (rule r_into_rtranclp)
qed

lemma informed_run: "service_step\<^sup>*\<^sup>* idle_service informed_service"
proof -
  have "service_step (idle_service\<lparr>fs_downloading := [Thymio2], fs_requests := [Http_info]\<rparr>)
      (on_info [] (Some (13, [1])) (idle_service\<lparr>fs_downloading := [Thymio2], fs_requests := [Http_info]\<rparr>\<lparr>fs_requests := [] @ []\<rparr>))"
    by (rule step_info) simp
  also have "on_info [] (Some (13, [1])) (idle_service\<lparr>fs_downloading := [Thymio2], fs_requests := [Http_info]\<rparr>\<lparr>fs_requests := [] @ []\<rparr>) = informed_service"
    by (simp add: on_info_def Let_def informed_service_def idle_service_def update_nodes_versions_def waiting_for_def)
  finally show ?thesis using asking_run by (rule rtranclp.rtrancl_into_rtrancl [rotated])
qed

theorem requests_answered_once_witness:
  "map_of (fs_answers (on_data Thymio2 (Some [7]) (firmware_data Thymio2Wireless 3 informed_service))) 3 = Some (Some [7])"
proof -
  have "service_step\<^sup>*\<^sup>* idle_service (firmware_data Thymio2Wireless 3 informed_service)"
    using informed_run by (rule rtranclp.rtrancl_into_rtrancl) (rule step_request, simp_all add: informed_service_def idle_service_def)
  then show ?thesis
    using requests_answered_once [of "firmware_data Thymio2Wireless 3 informed_service" 3 Thymio2 "[7]"]
    by (simp add: firmware_data_def Let_def base_type_def informed_service_def idle_service_def waiting_for_def download_firmare_data_def)
qed

theorem connection_error_final_witness:
  "firmware_data Thymio2 3 (idle_service\<lparr>fs_downloading := [Thymio2]\<rparr>) =
   idle_service\<lparr>fs_downloading := [Thymio2], fs_answers := [(3, None)]\<rparr>"
  using connection_error_final [OF asking_run, of "[]" "[]" "idle_service\<lparr>fs_downloading := [Thymio2]\<rparr>" Thymio2 3]
  by (simp add: idle_service_def)

end
