(* ===== verification/Wireless_Dongles.thy ===== *)
theory Wireless_Dongles
  imports Aseba_Node "HOL-Library.Signed_Division" "HOL-Library.AList"
begin

text \<open>
  Wireless dongles that can be paired with robots (\<^verbatim>\<open>thymio-device-manager/wireless_configurator_service.cpp\<close>). A dongle answers a
  packet of settings with its own settings; what it answers and how its state changes is the parameter \<open>exchange\<close>, which gives
  \<open>None\<close> when a packet could not be written or the answer is too short. The keys of the dongles are numbers, the state of a
  device is part of its dongle.
\<close>

section \<open>Operations\<close>

record dongle_data =
  nodeId :: u16
  panId :: u16
  dd_channel :: u8
  txPower :: u8
  dd_version :: u8
  ctrl :: u8

record 's dongle =
  dg_device :: 's
  dg_uuid :: node_id
  dg_node_id :: u16
  dg_network_id :: u16
  dg_channel :: u16

type_synonym 's exchange = "dongle_data \<Rightarrow> 's \<Rightarrow> dongle_data option \<times> 's"

record 's dongle_service =
  m_enabled :: bool
  m_dongles :: "(nat \<times> 's dongle) list"
  ws_changed :: nat
  ws_disconnects :: nat
  ws_connections :: nat

text \<open>The channels 0 to 2 are the channels 15, 20 and 25 of the radio.\<close>

definition request_of :: "bool \<Rightarrow> 's dongle \<Rightarrow> dongle_data" where
  "request_of flash dg =
     \<lparr>nodeId = 0xffff, panId = (if flash then dg_network_id dg else 0xffff),
      dd_channel = (if flash then word_of_int (15 + 5 * uint (dg_channel dg)) else 0xff), txPower = 0, dd_version = 0,
      ctrl = (if flash then 1 else 0)\<rparr>"

definition sync :: "'s exchange \<Rightarrow> bool \<Rightarrow> 's dongle \<Rightarrow> bool \<times> 's dongle" where
  "sync exchange flash dg =
     (let (answer, dev) = exchange (request_of flash dg) (dg_device dg); dg' = dg\<lparr>dg_device := dev\<rparr>
      in case answer of
           None \<Rightarrow> (False, dg')
         | Some d \<Rightarrow> (True, dg'\<lparr>dg_node_id := nodeId d, dg_network_id := panId d,
             dg_channel := word_of_int ((uint (dd_channel d) - 15) sdiv 5)\<rparr>))"

definition dongles_changed :: "'s dongle_service \<Rightarrow> 's dongle_service" where
  "dongles_changed s = s\<lparr>ws_changed := Suc (ws_changed s)\<rparr>"

definition disconnect_all_nodes :: "'s dongle_service \<Rightarrow> 's dongle_service" where
  "disconnect_all_nodes s = s\<lparr>ws_disconnects := Suc (ws_disconnects s)\<rparr>"

definition enable_pairing :: "'s dongle_service \<Rightarrow> 's dongle_service" where
  "enable_pairing s = (let s' = disconnect_all_nodes (s\<lparr>m_enabled := True\<rparr>) in s'\<lparr>ws_connections := Suc (ws_connections s')\<rparr>)"

definition disable_pairing :: "'s dongle_service \<Rightarrow> 's dongle_service" where
  "disable_pairing s = disconnect_all_nodes (s\<lparr>m_enabled := False, m_dongles := []\<rparr>)"

definition register_configurable_dongle :: "'s exchange \<Rightarrow> nat \<Rightarrow> 's \<Rightarrow> node_id \<Rightarrow> 's dongle_service \<Rightarrow> 's dongle_service" where
  "register_configurable_dongle exchange k dev uuid s =
     (let (ok, dg) = sync exchange False \<lparr>dg_device = dev, dg_uuid = uuid, dg_node_id = 0, dg_network_id = 0, dg_channel = 0\<rparr>
      in if \<not> ok then s
         else
           let s' = (if map_of (m_dongles s) k = None then s\<lparr>m_dongles := m_dongles s @ [(k, dg)]\<rparr> else s)
           in if m_enabled s' then dongles_changed s' else s')"

definition device_unplugged :: "nat \<Rightarrow> 's dongle_service \<Rightarrow> 's dongle_service" where
  "device_unplugged k s =
     (if map_of (m_dongles s) k = None then s else dongles_changed (s\<lparr>m_dongles := AList.delete k (m_dongles s)\<rparr>))"

definition dongles :: "'s dongle_service \<Rightarrow> (node_id \<times> u16 \<times> u16 \<times> u16) list" where
  "dongles s = map (\<lambda>(k, dg). (dg_uuid dg, dg_node_id dg, dg_network_id dg, dg_channel dg)) (m_dongles s)"

datatype configure_error = no_such_dongle | sync_failed

text \<open>The settings are flashed and then read back; a dongle that reads back other settings is dropped.\<close>

definition flash_and_read :: "'s exchange \<Rightarrow> 's dongle \<Rightarrow> bool \<times> 's dongle" where
  "flash_and_read exchange dg = (let (ok, dg') = sync exchange True dg in if ok then sync exchange False dg' else (False, dg'))"

definition configure_dongle ::
  "'s exchange \<Rightarrow> node_id \<Rightarrow> u16 \<Rightarrow> u8 \<Rightarrow> 's dongle_service \<Rightarrow> (configure_error + 's dongle) \<times> 's dongle_service" where
  "configure_dongle exchange n network channel s =
     (case find (\<lambda>(k, dg). dg_uuid dg = n) (m_dongles s) of
        None \<Rightarrow> (Inl no_such_dongle, s)
      | Some (k, dg) \<Rightarrow>
          let dg1 = dg\<lparr>dg_network_id := network\<rparr>
          in if 2 < channel then (Inl sync_failed, s\<lparr>m_dongles := AList.update k dg1 (m_dongles s)\<rparr>)
             else
               let (ok, dg2) = flash_and_read exchange (dg1\<lparr>dg_channel := ucast channel\<rparr>)
               in if \<not> ok \<or> dg_channel dg2 \<noteq> ucast channel \<or> dg_network_id dg2 \<noteq> network
                  then (Inl sync_failed, dongles_changed (s\<lparr>m_dongles := AList.delete k (m_dongles s)\<rparr>))
                  else (Inr dg2, dongles_changed (s\<lparr>m_dongles := AList.update k dg2 (m_dongles s)\<rparr>)))"

section \<open>Settings of a dongle\<close>

text \<open>Distinct dongles have distinct keys and identifiers.\<close>

definition well_listed :: "'s dongle_service \<Rightarrow> bool" where
  "well_listed s \<longleftrightarrow> distinct (map fst (m_dongles s)) \<and> distinct (map (dg_uuid \<circ> snd) (m_dongles s))"

text \<open>A dongle keeps what is flashed and answers with what it has.\<close>

definition keeps_settings :: "'s exchange \<Rightarrow> ('s \<Rightarrow> u16 \<times> u8) \<Rightarrow> bool" where
  "keeps_settings exchange settings \<longleftrightarrow>
     (\<forall>req dev. \<exists>answer. fst (exchange req dev) = Some answer \<and>
        (panId answer, dd_channel answer) = settings (snd (exchange req dev)) \<and>
        settings (snd (exchange req dev)) = (if ctrl req = 1 then (panId req, dd_channel req) else settings dev))"

lemma radio_channel:
  fixes channel :: u8
  assumes "channel \<le> 2"
  shows "word_of_int ((uint (word_of_int (15 + 5 * uint (ucast channel :: u16)) :: u8) - 15) sdiv 5) = (ucast channel :: u16)"
proof -
  have "uint channel \<le> 2" using assms by (simp add: word_le_def)
  moreover have "0 \<le> uint channel" by simp
  ultimately consider "uint channel = 0" | "uint channel = 1" | "uint channel = 2" by linarith
  then have "channel = 0 \<or> channel = 1 \<or> channel = 2"
    by cases (auto simp: word_uint_eq_iff)
  then show ?thesis by (elim disjE) (simp_all add: signed_divide_int_def)
qed

lemma flash_kept:
  fixes channel :: u8
  assumes "keeps_settings exchange settings" and "dg_network_id dg = network" "dg_channel dg = ucast channel" "channel \<le> 2"
  obtains dg' where "flash_and_read exchange dg = (True, dg')" "dg_network_id dg' = network" "dg_channel dg' = ucast channel"
    "dg_uuid dg' = dg_uuid dg" "settings (dg_device dg') = (network, word_of_int (15 + 5 * uint (ucast channel :: u16)))"
proof -
  let ?ch = "word_of_int (15 + 5 * uint (ucast channel :: u16)) :: u8"
  have law: "\<exists>answer dev'. exchange req dev = (Some answer, dev') \<and> (panId answer, dd_channel answer) = settings dev' \<and>
      settings dev' = (if ctrl req = 1 then (panId req, dd_channel req) else settings dev)" for req dev
    using assms(1) unfolding keeps_settings_def by (metis prod.collapse)
  obtain a1 dev1 where first: "exchange (request_of True dg) (dg_device dg) = (Some a1, dev1)" "settings dev1 = (network, ?ch)"
    "(panId a1, dd_channel a1) = settings dev1"
    using law [of "request_of True dg" "dg_device dg"] assms(2,3) by (auto simp: request_of_def prod_eq_iff)
  define dg1 where "dg1 = snd (sync exchange True dg)"
  have dg1: "sync exchange True dg = (True, dg1)" "dg_device dg1 = dev1" "dg_uuid dg1 = dg_uuid dg"
    using first by (simp_all add: dg1_def sync_def Let_def)
  obtain a2 dev2 where second: "exchange (request_of False dg1) dev1 = (Some a2, dev2)" "settings dev2 = (network, ?ch)"
    "(panId a2, dd_channel a2) = settings dev2"
    using law [of "request_of False dg1" dev1] first(2) by (auto simp: request_of_def prod_eq_iff)
  have "sync exchange False dg1 = (True, snd (sync exchange False dg1))" "dg_device (snd (sync exchange False dg1)) = dev2"
    "dg_network_id (snd (sync exchange False dg1)) = network" "dg_channel (snd (sync exchange False dg1)) = ucast channel"
    "dg_uuid (snd (sync exchange False dg1)) = dg_uuid dg"
    using second dg1 radio_channel [OF assms(4)] by (simp_all add: sync_def Let_def)
  with that second(2) dg1(1) show ?thesis by (simp add: flash_and_read_def Let_def)
qed

text \<open>C40: Configuring a listed dongle that keeps its settings succeeds for the channels 0 to 2: the dongle then has the network and
  the channel of the radio that belongs to the channel, and it is listed with the settings that were asked for.\<close>

theorem dongle_configured:
  assumes "keeps_settings exchange settings" and "well_listed s" and "(k, dg) \<in> set (m_dongles s)" and "channel \<le> 2"
  shows "\<exists>dg' s'. configure_dongle exchange (dg_uuid dg) network channel s = (Inr dg', s') \<and>
    settings (dg_device dg') = (network, word_of_int (15 + 5 * uint channel)) \<and>
    (dg_uuid dg, dg_node_id dg', network, ucast channel) \<in> set (dongles s') \<and> map_of (m_dongles s') k = Some dg'"
proof -
  have found: "find (\<lambda>(j, d). dg_uuid d = dg_uuid dg) (m_dongles s) = Some (k, dg)"
  proof -
    obtain i where i: "i < length (m_dongles s)" "m_dongles s ! i = (k, dg)" using assms(3) by (auto simp: in_set_conv_nth)
    moreover have "dg_uuid (snd (m_dongles s ! j)) \<noteq> dg_uuid dg" if "j < i" for j
    proof -
      have "dg_uuid (snd (m_dongles s ! j)) \<noteq> dg_uuid (snd (m_dongles s ! i))"
        using assms(2) that i(1) nth_eq_iff_index_eq [of "map (dg_uuid \<circ> snd) (m_dongles s)" j i] by (simp add: well_listed_def)
      then show ?thesis by (simp add: i(2))
    qed
    ultimately show ?thesis unfolding find_Some_iff by (intro exI [of _ i]) (auto simp: case_prod_beta)
  qed
  obtain dg' where dg': "flash_and_read exchange (dg\<lparr>dg_network_id := network, dg_channel := ucast channel\<rparr>) = (True, dg')"
    "dg_network_id dg' = network" "dg_channel dg' = ucast channel" "dg_uuid dg' = dg_uuid dg"
    "settings (dg_device dg') = (network, word_of_int (15 + 5 * uint (ucast channel :: u16)))"
    using flash_kept [OF assms(1) _ _ assms(4), of "dg\<lparr>dg_network_id := network, dg_channel := ucast channel\<rparr>" network] by auto
  have "uint (ucast channel :: u16) = uint channel" 
    using uint_lt2p [of channel] by (simp add: unsigned_ucast_eq take_bit_int_eq_self_iff)
  moreover have "(k, dg') \<in> set (AList.update k dg' (m_dongles s))"
    by (metis map_of_SomeD AList.update_conv' fun_upd_same)
  ultimately show ?thesis
    using found dg' assms(4)
    by (force simp: configure_dongle_def Let_def dongles_def dongles_changed_def AList.update_conv' not_less)
qed

text \<open>Whatever a dongle answers, it is only reported as configured when it has read back the network and the channel that
  were asked for, and a dongle that does not is no longer listed.\<close>

theorem configured_as_asked:
  assumes "configure_dongle exchange n network channel s = (r, s')" and "2 \<ge> channel" and "well_listed s"
  shows "(\<forall>dg. r = Inr dg \<longrightarrow> dg_network_id dg = network \<and> dg_channel dg = ucast channel) \<and>
    (r = Inl sync_failed \<longrightarrow> n \<notin> (dg_uuid \<circ> snd) ` set (m_dongles s'))"
proof -
  have gone: "n \<notin> (dg_uuid \<circ> snd) ` set (AList.delete k (m_dongles s))"
    if "find (\<lambda>(k, dg). dg_uuid dg = n) (m_dongles s) = Some (k, dg)" for k dg
  proof -
    have mem: "(k, dg) \<in> set (m_dongles s)" "dg_uuid dg = n" using that by (auto simp: find_Some_iff dest: nth_mem)
    have "j = k" if "(j, d) \<in> set (m_dongles s)" "dg_uuid d = n" for j d
      using assms(3) mem that unfolding well_listed_def by (metis comp_apply distinct_map inj_onD prod.inject snd_conv)
    then show ?thesis by (auto simp: AList.delete_eq)
  qed
  show ?thesis
    using assms(1,2) gone
    by (auto simp: configure_dongle_def dongles_changed_def Let_def split: option.splits prod.splits if_splits)
qed

text \<open>A channel that does not exist is refused, but the dongle is listed with the new network from then on.\<close>

lemma refused_network_listed:
  assumes "find (\<lambda>(k, dg). dg_uuid dg = n) (m_dongles s) = Some (k, dg)" and "2 < channel"
  shows "\<exists>s'. configure_dongle exchange n network channel s = (Inl sync_failed, s') \<and>
    (n, dg_node_id dg, network, dg_channel dg) \<in> set (dongles s')"
proof -
  have "dg_uuid dg = n" using assms(1) by (auto simp: find_Some_iff)
  moreover have "(k, x) \<in> set (AList.update k x (m_dongles s))" for x
    by (metis map_of_SomeD AList.update_conv' fun_upd_same)
  ultimately show ?thesis using assms by (force simp: configure_dongle_def Let_def dongles_def)
qed

section \<open>Witnesses\<close>

text \<open>A dongle whose state is its network and channel.\<close>

definition sample_exchange :: "(u16 \<times> u8) exchange" where
  "sample_exchange req dev =
     (let dev' = (if ctrl req = 1 then (panId req, dd_channel req) else dev)
      in (Some \<lparr>nodeId = 4, panId = fst dev', dd_channel = snd dev', txPower = 0, dd_version = 1, ctrl = 0\<rparr>, dev'))"

definition sample_dongle :: "(u16 \<times> u8) dongle" where
  "sample_dongle = \<lparr>dg_device = (7, 15), dg_uuid = [1], dg_node_id = 4, dg_network_id = 7, dg_channel = 0\<rparr>"

definition sample_service :: "(u16 \<times> u8) dongle_service" where
  "sample_service = \<lparr>m_enabled = True, m_dongles = [(9, sample_dongle)], ws_changed = 0, ws_disconnects = 0, ws_connections = 1\<rparr>"

lemma sample_exchange_keeps: "keeps_settings sample_exchange id"
  by (simp add: keeps_settings_def sample_exchange_def Let_def)

theorem dongle_configured_witness:
  "\<exists>dg' s'. configure_dongle sample_exchange [1] 12 2 sample_service = (Inr dg', s') \<and> dg_device dg' = (12, 25) \<and>
    ([1], dg_node_id dg', 12, 2) \<in> set (dongles s')"
  using dongle_configured [OF sample_exchange_keeps, of sample_service 9 sample_dongle 2 12]
  by (auto simp: well_listed_def sample_service_def sample_dongle_def)

end
