(* ===== verification/Spec2Isabelle.thy ===== *)
theory Spec2Isabelle
  imports Message_Roundtrip Linker Stack_Analysis Expand_Correct Lexer_Correct Parser_Ends
    Firmware_Correct Wire_Frame Endpoint_Queue Compile_Ends Node_Variables App_Locks App_Queue
    Endpoint_Nodes Firmware_Upgrade Firmware_Service Wireless_Dongles
begin

text \<open>
  A verification library for the Thymio device manager (\<^verbatim>\<open>src/aseba\<close>): the server that connects Thymio robots, over USB, serial lines,
  radio dongles and TCP, with applications on the local machine or network. It compiles programs in the Aseba language for
  the robots, uploads them, mirrors the variables of the robots and passes events, locks and programs between robots and
  applications.

  \<^bold>\<open>Parts of the program and how they interact.\<close>
  An \<^emph>\<open>endpoint\<close> (\<^verbatim>\<open>aseba_endpoint\<close>) is a device with robots behind it. It reads and writes frames of messages (\<^verbatim>\<open>common/msg\<close>), creates
  a \<^emph>\<open>node\<close> (\<^verbatim>\<open>aseba_node\<close>) for each robot that shows up and passes it the messages of the robot. The node rebuilds the description
  of the robot, keeps its variables, breakpoints and execution state, and calls the \<^emph>\<open>compiler\<close> (\<^verbatim>\<open>aseba/compiler\<close>). The
  \<^emph>\<open>registry\<close> (\<^verbatim>\<open>aseba_node_registery\<close>) finds nodes by identifier and tells listeners of changes; \<^emph>\<open>groups\<close> (\<^verbatim>\<open>group\<close>) share events, variables and
  scratchpads between endpoints. An \<^emph>\<open>application endpoint\<close> (\<^verbatim>\<open>app_endpoint\<close>) serves one application: it locks nodes and carries out
  requests. Beside these are the firmware upgrade and its download service, and the configuration of radio dongles.

  \<^bold>\<open>Conventions.\<close>
  A class is a record, a tagged union or class hierarchy a datatype, a machine integer a word of its width (\<^verbatim>\<open>int\<close> as \<open>int\<close> with
  overflow as a failure where it can happen). Exceptions, failed assertions, aborts and undefined behaviour are values of a
  sum type (\<open>failure\<close>, \<open>run_failure\<close>, \<open>hex_failure\<close>). State is passed explicitly. What a component asks of asynchronous
  machinery or of other components is appended to a log of the state (\<open>effects\<close>, \<open>out\<close>, \<open>r_calls\<close>, \<open>ed_calls\<close>, \<open>w_group_calls\<close>), in the
  order of the code; the completion of an operation is a step of its own, so that the run relations cover every
  interleaving. Devices, dongles, the locale of the host (which characters are letters), the HTTP client and the XML
  reader are parameters. An unordered map is the list of its entries in the order of iteration, an ordered map a sorted
  list (\<open>Ordered_Map\<close>).

  \<^bold>\<open>Theories.\<close>
  \<^item> \<open>Aseba_Prelude\<close>, \<open>Ordered_Map\<close>: machine types, results, sequencing, finite maps with the interface \<open>keyed_store\<close>.
  \<^item> \<open>Unicode_Codec\<close> (\<^verbatim>\<open>common/utils/utils.cpp\<close>), \<open>Target_Description\<close> (\<^verbatim>\<open>TargetDescription.cpp\<close>), \<open>Wire_Buffer\<close>, \<open>Messages\<close>, \<open>Message_Codec\<close>,
    \<open>Message_Roundtrip\<close> (\<^verbatim>\<open>common/msg\<close>), \<open>Wire_Frame\<close> (\<^verbatim>\<open>aseba_message_writer.h\<close>, \<^verbatim>\<open>aseba_message_parser.h\<close>): text, checksums, and messages on the
    wire. The buffer's readers and writers are instances of the interface \<open>wire_codec\<close>. Shown: messages that the protocol carries
    without loss are read back, reading arbitrary bytes of messages without text is safe, an upload covers the program, a frame on a stream is read back.
  \<^item> \<open>Aesl_Syntax\<close> (\<^verbatim>\<open>tree.h\<close>, \<^verbatim>\<open>consts.h\<close>), \<open>Lexer\<close>, \<open>Lexer_Correct\<close> (\<^verbatim>\<open>lexer.cpp\<close>), \<open>Identifier_Lookup\<close>, \<open>Parser\<close>, \<open>Parser_Shape\<close>, \<open>Parser_Progress\<close>,
    \<open>Parser_Ends\<close> (\<^verbatim>\<open>parser.cpp\<close>): tokens are read back from their text, parsing ends on every text, lookups propose the closest name.
  \<^item> \<open>Tree_Expand\<close>, \<open>Expand_Correct\<close> (\<^verbatim>\<open>tree-expand.cpp\<close>), \<open>Tree_Typecheck\<close>, \<open>Power_Of_Two\<close>, \<open>Tree_Optimize\<close>, \<open>Optimize_Correct\<close>: vectors are
    assigned simultaneously, the checker is exact on its domain, the optimizer keeps values and can abort on typed programs only at a native argument whose
    index it folds to a constant.
  \<^item> \<open>Bytecode\<close>, \<open>Tree_Emit\<close>, \<open>Emit_Code\<close>, \<open>Disassembler\<close>, \<open>Emit_Correct\<close>, \<open>Emit_Layout\<close> (\<^verbatim>\<open>tree-emit.cpp\<close>, \<^verbatim>\<open>compiler.cpp\<close>): the emitter refines
    a pure code generator; its code, read by the disassembler, rebuilds an expression of the same value, stays within the announced
    stack and consists of whole instructions.
  \<^item> \<open>Stack_Analysis\<close> (\<^verbatim>\<open>analysis.cpp\<close>), \<open>Linker\<close>, \<open>Compile\<close>, \<open>Pass_Ends\<close>, \<open>Compile_Ends\<close> (\<^verbatim>\<open>compiler.cpp\<close>): the stack check is exact, accepted
    programs do not recurse, the linker resolves every call, compilation ends and its result fits the target.
  \<^item> \<open>Aseba_Property\<close>, \<open>Aseba_Node\<close> (\<^verbatim>\<open>aseba_node.cpp\<close>), \<open>Node_Status\<close>, \<open>Node_Description\<close>, \<open>Node_Variables\<close>: a node over all sequences of
    its events; locks are exclusive, descriptions are rebuilt, messages refine writes to the memory of the robot.
  \<^item> \<open>Serial_Writer\<close>: the interface \<open>serial_writer\<close> of a queue in front of a device that takes one write at a time, of which the queue of an
    endpoint and that of an application are instances.
  \<^item> \<open>Endpoint_Queue\<close>, \<open>Endpoint_Events\<close>, \<open>Endpoint_Nodes\<close> (\<^verbatim>\<open>aseba_endpoint.cpp\<close>, \<^verbatim>\<open>aseba_endpoint.h\<close>): the outgoing queue drains in order, one
    read is under way, silent nodes are removed.
  \<^item> \<open>Scratchpads\<close> (\<^verbatim>\<open>group.cpp\<close>), \<open>Node_Registry\<close> (\<^verbatim>\<open>aseba_node_registery.cpp\<close>): scratchpads are assigned without conflict, events
    reach the other endpoints of a group unchanged, identifiers lead to at most one node.
  \<^item> \<open>App_Endpoint\<close>, \<open>App_Locks\<close>, \<open>App_Queue\<close> (\<^verbatim>\<open>app_endpoint.h\<close>): requests of several applications over shared nodes while the
    registry changes; a node is held by one application and out of reach of the others (over the interface \<open>lockable\<close>, which the lock of a node implements);
    messages are written in order.
  \<^item> \<open>Firmware_Hex\<close>, \<open>Firmware_Correct\<close> (\<^verbatim>\<open>thymio2_fwupgrade.cpp\<close>), \<open>Firmware_Upgrade\<close> (\<^verbatim>\<open>thymio2_fwupgrade_impl.cpp\<close>), \<open>Firmware_Service\<close>
    (\<^verbatim>\<open>fw_update_service.cpp\<close>): every byte of a firmware file ends in its page, the pages are sent until all are acknowledged, requests
    for firmware are answered once.
  \<^item> \<open>Wireless_Dongles\<close> (\<^verbatim>\<open>wireless_configurator_service.cpp\<close>): a dongle that keeps its settings is configured as asked for.

  \<^bold>\<open>Bounds and fuel.\<close>
  The parser's mutual recursion takes one unit of fuel for each token and the expansion of vectors two more than the nodes of
  the program; \<open>Parser_Ends\<close> and \<open>Compile_Ends\<close> show that this is enough for every text, so that \<open>Diverges\<close> is never the
  result of \<open>compile\<close>. Loops whose end depends on a device, and the removal of a node (which does not end in general), are partial
  functions whose value \<open>None\<close> is not returning; the theorem on the upgrade shows that it returns. All other
  functions are total by their termination proofs.

  \<^bold>\<open>Not modelled.\<close>
  Printing (dumps of messages and trees, the text of the disassembly and of errors, logging); the transports (libusb, serial ports
  and sockets) with the acceptors that discover devices; flatbuffers and flexbuffers, whose code is generated or third-party, so
  that application messages are their contents; reading and writing XML; the announcement of the server on the network;
  process start, sleep control and network interfaces of the operating system. They are input, output or calls of
  libraries, and what the modelled parts use of them is a parameter or an event. The mutex of an endpoint's queue and the strands
  are reflected in that operations are atomic steps.
\<close>

end
